(* ===== verification/Prelude.thy ===== *)
theory Prelude
  imports Main "HOL-Library.Sublist" "HOL-Library.List_Lexorder" "HOL-Library.Char_ord"
    "HOL-Library.Option_ord" "HOL-Library.Product_Lexorder"
begin

text \<open>
  Shared vocabulary of the development: the outcome of calling a pluggable collaborator, the JSON
  values that audit details and message payloads carry, the part of Python's \<open>str\<close> methods and
  \<open>datetime\<close> arithmetic the board uses, and the generic facts about tables (lists of rows that are
  updated in place and extended at the end) that every component shares.

  Strings are lists of characters; the board's own vocabularies (message types, actions, limit
  names) are ASCII, and a display name or sub is modelled by its characters below code point 256.
  A \<open>uuid.UUID\<close> is a natural number: its canonical text is a fixed-width lower-case hexadecimal
  numeral with dashes at fixed places, so ordering by \<open>str\<close> and ordering by number agree.
  Instants and durations are integers counting microseconds.
\<close>

named_theorems table_simps \<open>lookups after the table operations\<close>

section \<open>Collaborators and JSON values\<close>

text \<open>
  A plug-in call returns, raises an exception (its type name and its \<open>cause\<close> attribute), or is
  cancelled: \<open>asyncio.CancelledError\<close> is not an \<open>Exception\<close>, so \<open>except Exception\<close> lets it pass.
\<close>

datatype 'a outcome = Returned 'a | Raised string string | Cancelled

text \<open>
  \<open>JId n\<close> is the JSON string \<open>str(uuid)\<close>. \<open>JFloat (Some (m, e))\<close> is the \<open>float\<close> nearest to
  \<open>m * 10 ^ e\<close>, \<open>JFloat None\<close> a \<open>NaN\<close> or an infinity.
\<close>

datatype json =
    JNull
  | JBool bool
  | JInt int
  | JFloat "(int \<times> int) option"
  | JStr string
  | JId nat
  | JList "json list"
  | JObj "(string \<times> json) list"

definition json_opt_str :: "string option \<Rightarrow> json" where
  "json_opt_str x = (case x of None \<Rightarrow> JNull | Some s \<Rightarrow> JStr s)"

definition json_opt_id :: "nat option \<Rightarrow> json" where
  "json_opt_id x = (case x of None \<Rightarrow> JNull | Some n \<Rightarrow> JId n)"

text \<open>\<open>d.get(k)\<close> on a JSON object, \<open>None\<close> when the key is missing or the value is not an object.\<close>

definition json_get :: "json \<Rightarrow> string \<Rightarrow> json option" where
  "json_get j k = (case j of JObj kvs \<Rightarrow> map_of kvs k | _ \<Rightarrow> None)"

section \<open>Python strings\<close>

definition is_space :: "char \<Rightarrow> bool" where
  "is_space c = (let n = (of_char c :: nat) in
     (9 \<le> n \<and> n \<le> 13) \<or> (28 \<le> n \<and> n \<le> 32) \<or> n = 133 \<or> n = 160)"

definition str_strip :: "string \<Rightarrow> string" where
  "str_strip s = rev (dropWhile is_space (rev (dropWhile is_space s)))"

definition lower_char :: "char \<Rightarrow> char" where
  "lower_char c = (let n = (of_char c :: nat) in
     if (65 \<le> n \<and> n \<le> 90) \<or> (192 \<le> n \<and> n \<le> 222 \<and> n \<noteq> 215) then char_of (n + 32) else c)"

definition str_lower :: "string \<Rightarrow> string" where
  "str_lower s = map lower_char s"

definition starts_with :: "string \<Rightarrow> string \<Rightarrow> bool" where
  "starts_with s p = prefix p s"

definition is_control :: "char \<Rightarrow> bool" where
  "is_control c = (let n = (of_char c :: nat) in n < 32 \<or> n = 127)"

text \<open>\<open>s.split("::", 1)[0]\<close>: the part before the first \<open>::\<close>, all of \<open>s\<close> if there is none.\<close>

fun before_double_colon :: "string \<Rightarrow> string" where
  "before_double_colon [] = []"
| "before_double_colon [c] = [c]"
| "before_double_colon (c # d # s) =
     (if c = CHR '':'' \<and> d = CHR '':'' then [] else c # before_double_colon (d # s))"

lemma str_strip_hd_not_space: "str_strip s \<noteq> [] \<Longrightarrow> \<not> is_space (last (str_strip s))"
proof -
  assume ne: "str_strip s \<noteq> []"
  then have ne': "dropWhile is_space (rev (dropWhile is_space s)) \<noteq> []"
    by (simp add: str_strip_def)
  then have "\<not> is_space (hd (dropWhile is_space (rev (dropWhile is_space s))))"
    by (rule hd_dropWhile)
  with ne' show ?thesis by (simp add: str_strip_def last_rev)
qed

section \<open>Time\<close>

definition seconds :: "int \<Rightarrow> int" where "seconds n = n * 1000000"
definition minutes :: "int \<Rightarrow> int" where "minutes n = seconds (n * 60)"
definition hours :: "int \<Rightarrow> int" where "hours n = minutes (n * 60)"
definition days :: "int \<Rightarrow> int" where "days n = hours (n * 24)"

lemmas time_defs = seconds_def minutes_def hours_def days_def

text \<open>A \<open>datetime\<close> argument may carry a time zone or not; only the former is an instant.\<close>

datatype py_datetime = Aware int | Naive int

text \<open>
  An untyped Python argument where the code checks \<open>isinstance(x, int)\<close> and excludes \<open>bool\<close>.
\<close>

datatype py_number = PyInt int | PyBool bool | PyOther

section \<open>Sorting by a key\<close>

text \<open>\<open>sorted(xs, key=f)\<close>: the stable sort the library provides.\<close>

definition sorted_by :: "('a \<Rightarrow> 'k::linorder) \<Rightarrow> 'a list \<Rightarrow> 'a list" where
  "sorted_by f xs = sort_key f xs"

lemma set_sorted_by [simp]: "set (sorted_by f xs) = set xs"
  by (simp add: sorted_by_def)

text \<open>\<open>sorted(set(xs))\<close>.\<close>

definition sorted_set :: "'a::linorder list \<Rightarrow> 'a list" where
  "sorted_set xs = sort (remdups xs)"

lemma set_sorted_set [simp]: "set (sorted_set xs) = set xs"
  by (simp add: sorted_set_def)

lemma distinct_sorted_set [simp]: "distinct (sorted_set xs)"
  by (simp add: sorted_set_def)

section \<open>Tables\<close>

text \<open>
  A table is the list of its rows in insertion order. \<open>update_where p f\<close> is an in-place mutation
  of the rows that satisfy \<open>p\<close>.
\<close>

definition update_where :: "('a \<Rightarrow> bool) \<Rightarrow> ('a \<Rightarrow> 'a) \<Rightarrow> 'a list \<Rightarrow> 'a list" where
  "update_where p f xs = map (\<lambda>x. if p x then f x else x) xs"

lemma length_update_where [simp]: "length (update_where p f xs) = length xs"
  by (simp add: update_where_def)

lemma set_update_where: "set (update_where p f xs) = (\<lambda>x. if p x then f x else x) ` set xs"
  by (simp add: update_where_def)

lemma update_where_Nil [simp]: "update_where p f [] = []"
  by (simp add: update_where_def)

lemma update_where_Cons [simp]:
  "update_where p f (x # xs) = (if p x then f x else x) # update_where p f xs"
  by (simp add: update_where_def)

lemma map_update_where:
  "(\<And>x. p x \<Longrightarrow> k (f x) = k x) \<Longrightarrow> map k (update_where p f xs) = map k xs"
  by (induction xs) auto

lemma filter_update_where:
  "(\<And>x. p x \<Longrightarrow> q (f x) = q x) \<Longrightarrow>
    filter q (update_where p f xs) = update_where p f (filter q xs)"
  by (induction xs) auto

lemma find_update_where:
  assumes "\<And>x. p x \<Longrightarrow> q (f x) = q x"
  shows "find q (update_where p f xs) = map_option (\<lambda>x. if p x then f x else x) (find q xs)"
  using assms by (induction xs) auto

lemma find_SomeD: "find q xs = Some x \<Longrightarrow> x \<in> set xs \<and> q x"
  by (induction xs) (auto split: if_splits)

lemma find_None_D: "find q xs = None \<Longrightarrow> x \<in> set xs \<Longrightarrow> \<not> q x"
  by (induction xs) (auto split: if_splits)

lemma find_append:
  "find q (xs @ ys) = (case find q xs of None \<Rightarrow> find q ys | Some x \<Rightarrow> Some x)"
  by (induction xs) auto

lemma find_key:
  "distinct (map k xs) \<Longrightarrow> x \<in> set xs \<Longrightarrow> find (\<lambda>y. k y = k x) xs = Some x"
  by (induction xs) (auto simp: rev_image_eqI)

text \<open>
  How a table evolves: rows are never removed or reordered, each old row is related to the row at
  the same position by \<open>step\<close>, new rows come at the end.
\<close>

definition evo :: "('a \<Rightarrow> 'a \<Rightarrow> bool) \<Rightarrow> 'a list \<Rightarrow> 'a list \<Rightarrow> bool" where
  "evo step xs ys \<longleftrightarrow> length xs \<le> length ys \<and> list_all2 step xs (take (length xs) ys)"

lemma evo_refl [intro, simp]: "(\<And>x. step x x) \<Longrightarrow> evo step xs xs"
  by (simp add: evo_def list_all2_refl)

lemma evo_append [intro, simp]: "(\<And>x. step x x) \<Longrightarrow> evo step xs (xs @ ys)"
  by (simp add: evo_def list_all2_refl)

lemma evo_update_where [intro]:
  assumes "\<And>x. step x x" "\<And>x. x \<in> set xs \<Longrightarrow> p x \<Longrightarrow> step x (f x)"
  shows "evo step xs (update_where p f xs)"
  using assms by (auto simp: evo_def update_where_def list_all2_conv_all_nth)

lemma evo_nth: "evo step xs ys \<Longrightarrow> i < length xs \<Longrightarrow> step (xs ! i) (ys ! i)"
  by (auto simp: evo_def list_all2_conv_all_nth)

lemma evo_trans:
  assumes tr: "\<And>x y z. step x y \<Longrightarrow> step y z \<Longrightarrow> step x z"
    and "evo step xs ys" "evo step ys zs"
  shows "evo step xs zs"
  using assms(2,3) unfolding evo_def list_all2_conv_all_nth
  by (auto intro: tr)

lemma evo_memE:
  assumes "evo step xs ys" "x \<in> set xs"
  obtains y where "y \<in> set ys" "step x y"
  using assms by (metis evo_def evo_nth in_set_conv_nth order_less_le_trans)

lemma evo_prefix: "evo (=) xs ys \<longleftrightarrow> prefix xs ys"
  by (auto simp: evo_def list_all2_eq[symmetric] prefix_def)
     (metis append_take_drop_id)

end
