(* ===== verification/Store.thy ===== *)
theory Store
  imports Prelude
begin

text \<open>
  The Postgres schema of the board (\<open>models.py\<close>): one record per table, the enumerated status
  columns as datatypes, the database as a record of tables, the keyed lookups and in-place updates
  the service performs on it, and the schema's integrity constraints (primary keys, unique indexes,
  foreign keys, check constraints) as a list of named executable predicates that a flush checks.

  The \<open>updated_at\<close> columns are left out: they are maintained by the server and no modelled operation
  reads them. The enumerated \<open>CHECK (status IN ...)\<close> constraints are the datatypes themselves.
\<close>

section \<open>Enumerated columns\<close>

datatype agent_status = AgActive | AgSuspended
datatype conv_state = CvActive | CvCompleted | CvCanceled | CvExpired
datatype part_role = RoleOwner | RoleMember
datatype part_status = PtInvited | PtActive | PtLeft | PtDeclined
datatype hold_status =
  PendingAuto | PendingHuman | AutoApproved | Approved | Rejected | HoldExpired
datatype auto_decision = Cleared | Escalated
datatype hold_kind = KindMessage | KindInvite

fun agent_status_name :: "agent_status \<Rightarrow> string" where
  "agent_status_name AgActive = ''active''"
| "agent_status_name AgSuspended = ''suspended''"

fun conv_state_name :: "conv_state \<Rightarrow> string" where
  "conv_state_name CvActive = ''active''"
| "conv_state_name CvCompleted = ''completed''"
| "conv_state_name CvCanceled = ''canceled''"
| "conv_state_name CvExpired = ''expired''"

text \<open>\<open>state_machine.resulting_conversation_state\<close> returns one of the state strings.\<close>

fun conv_state_of_name :: "string \<Rightarrow> conv_state option" where
  "conv_state_of_name n =
     (if n = ''active'' then Some CvActive
      else if n = ''completed'' then Some CvCompleted
      else if n = ''canceled'' then Some CvCanceled
      else if n = ''expired'' then Some CvExpired else None)"

lemma conv_state_roundtrip: "conv_state_of_name (conv_state_name st) = Some st"
  by (cases st) simp_all

fun part_status_name :: "part_status \<Rightarrow> string" where
  "part_status_name PtInvited = ''invited''"
| "part_status_name PtActive = ''active''"
| "part_status_name PtLeft = ''left''"
| "part_status_name PtDeclined = ''declined''"

fun part_role_name :: "part_role \<Rightarrow> string" where
  "part_role_name RoleOwner = ''owner''"
| "part_role_name RoleMember = ''member''"

section \<open>Rows\<close>

record agent =
  ag_id :: nat
  ag_sub :: string
  ag_owner_sub :: string
  ag_owner_email :: string
  ag_display_name :: string
  ag_accepted_types :: "string list"
  ag_status :: agent_status
  ag_min_schema_version :: int
  ag_max_schema_version :: int
  ag_is_shared :: bool
  ag_bound_at :: "int option"
  ag_owner_reconciled_at :: "int option"
  ag_created_at :: int

text \<open>\<open>owner_snapshot\<close> is \<open>NULL\<close> or \<open>{"owners": [...]}\<close>: the list under that key.\<close>

record conversation =
  cv_id :: nat
  cv_name :: "string option"
  cv_type :: string
  cv_state :: conv_state
  cv_created_by :: nat
  cv_expires_at :: int
  cv_owner_snapshot :: "string list option"
  cv_archived_at :: "int option"
  cv_created_at :: int

record participant =
  pt_conversation_id :: nat
  pt_agent_id :: nat
  pt_role :: part_role
  pt_status :: part_status
  pt_invited_by :: "nat option"
  pt_invited_at :: int
  pt_joined_at :: "int option"
  pt_last_read_seq :: nat

record message =
  ms_id :: nat
  ms_conversation_id :: nat
  ms_seq :: nat
  ms_sender_id :: nat
  ms_type :: string
  ms_schema_version :: int
  ms_payload :: json
  ms_created_at :: int

record approval_hold =
  hd_id :: nat
  hd_conversation_id :: nat
  hd_sender_agent_id :: nat
  hd_target_agent_id :: "nat option"
  hd_kind :: hold_kind
  hd_owner_sub :: string
  hd_message_type :: string
  hd_schema_version :: int
  hd_payload :: json
  hd_risk_reason :: string
  hd_risk_scorer :: string
  hd_status :: hold_status
  hd_auto_approver :: "string option"
  hd_auto_decision :: "auto_decision option"
  hd_auto_decided_at :: "int option"
  hd_decided_by_sub :: "string option"
  hd_decided_at :: "int option"
  hd_decision_reason :: "string option"
  hd_message_id :: "nat option"
  hd_expires_at :: int
  hd_created_at :: int

record audit_row =
  al_at :: int
  al_actor_sub :: string
  al_action :: string
  al_agent_id :: "nat option"
  al_conversation_id :: "nat option"
  al_message_id :: "nat option"
  al_detail :: json

text \<open>\<open>next_id\<close> is the supply behind \<open>uuid.uuid4\<close>: a lower bound of the ids still to be drawn.\<close>

record db =
  agents :: "agent list"
  conversations :: "conversation list"
  participants :: "participant list"
  messages :: "message list"
  holds :: "approval_hold list"
  audit_log :: "audit_row list"
  next_id :: nat

definition empty_db :: db where
  "empty_db = \<lparr>agents = [], conversations = [], participants = [], messages = [],
     holds = [], audit_log = [], next_id = 0\<rparr>"

section \<open>Lookups and in-place updates\<close>

definition agent_by_id :: "nat \<Rightarrow> db \<Rightarrow> agent option" where
  "agent_by_id i d = find (\<lambda>a. ag_id a = i) (agents d)"

definition agent_by_sub :: "string \<Rightarrow> db \<Rightarrow> agent option" where
  "agent_by_sub x d = find (\<lambda>a. ag_sub a = x) (agents d)"

definition conversation_by_id :: "nat \<Rightarrow> db \<Rightarrow> conversation option" where
  "conversation_by_id i d = find (\<lambda>c. cv_id c = i) (conversations d)"

definition participant_of :: "nat \<Rightarrow> nat \<Rightarrow> db \<Rightarrow> participant option" where
  "participant_of c a d =
     find (\<lambda>p. pt_conversation_id p = c \<and> pt_agent_id p = a) (participants d)"

definition hold_by_id :: "nat \<Rightarrow> db \<Rightarrow> approval_hold option" where
  "hold_by_id i d = find (\<lambda>h. hd_id h = i) (holds d)"

definition conv_messages :: "nat \<Rightarrow> db \<Rightarrow> message list" where
  "conv_messages c d = filter (\<lambda>m. ms_conversation_id m = c) (messages d)"

definition conv_participants :: "nat \<Rightarrow> db \<Rightarrow> participant list" where
  "conv_participants c d = filter (\<lambda>p. pt_conversation_id p = c) (participants d)"

definition set_agent :: "nat \<Rightarrow> (agent \<Rightarrow> agent) \<Rightarrow> db \<Rightarrow> db" where
  "set_agent i f d = d\<lparr>agents := update_where (\<lambda>a. ag_id a = i) f (agents d)\<rparr>"

definition set_conversation :: "nat \<Rightarrow> (conversation \<Rightarrow> conversation) \<Rightarrow> db \<Rightarrow> db" where
  "set_conversation i f d = d\<lparr>conversations := update_where (\<lambda>c. cv_id c = i) f (conversations d)\<rparr>"

definition set_participant :: "nat \<Rightarrow> nat \<Rightarrow> (participant \<Rightarrow> participant) \<Rightarrow> db \<Rightarrow> db" where
  "set_participant c a f d = d\<lparr>participants :=
     update_where (\<lambda>p. pt_conversation_id p = c \<and> pt_agent_id p = a) f (participants d)\<rparr>"

definition set_hold :: "nat \<Rightarrow> (approval_hold \<Rightarrow> approval_hold) \<Rightarrow> db \<Rightarrow> db" where
  "set_hold i f d = d\<lparr>holds := update_where (\<lambda>h. hd_id h = i) f (holds d)\<rparr>"

definition add_agent :: "agent \<Rightarrow> db \<Rightarrow> db" where
  "add_agent a d = d\<lparr>agents := agents d @ [a]\<rparr>"

definition add_conversation :: "conversation \<Rightarrow> db \<Rightarrow> db" where
  "add_conversation c d = d\<lparr>conversations := conversations d @ [c]\<rparr>"

definition add_participant :: "participant \<Rightarrow> db \<Rightarrow> db" where
  "add_participant p d = d\<lparr>participants := participants d @ [p]\<rparr>"

definition add_message :: "message \<Rightarrow> db \<Rightarrow> db" where
  "add_message m d = d\<lparr>messages := messages d @ [m]\<rparr>"

definition add_hold :: "approval_hold \<Rightarrow> db \<Rightarrow> db" where
  "add_hold h d = d\<lparr>holds := holds d @ [h]\<rparr>"

definition add_audit :: "audit_row \<Rightarrow> db \<Rightarrow> db" where
  "add_audit r d = d\<lparr>audit_log := audit_log d @ [r]\<rparr>"

lemmas table_op_defs =
  set_agent_def set_conversation_def set_participant_def set_hold_def
  add_agent_def add_conversation_def add_participant_def add_message_def add_hold_def
  add_audit_def

lemmas lookup_defs =
  agent_by_id_def agent_by_sub_def conversation_by_id_def participant_of_def hold_by_id_def
  conv_messages_def conv_participants_def

subsection \<open>Each table operation touches its own table\<close>

lemma set_agent_frame [simp]:
  "conversations (set_agent i f d) = conversations d"
  "participants (set_agent i f d) = participants d"
  "messages (set_agent i f d) = messages d"
  "holds (set_agent i f d) = holds d"
  "audit_log (set_agent i f d) = audit_log d"
  "next_id (set_agent i f d) = next_id d"
  by (simp_all add: set_agent_def)

lemma set_conversation_frame [simp]:
  "agents (set_conversation i g d) = agents d"
  "participants (set_conversation i g d) = participants d"
  "messages (set_conversation i g d) = messages d"
  "holds (set_conversation i g d) = holds d"
  "audit_log (set_conversation i g d) = audit_log d"
  "next_id (set_conversation i g d) = next_id d"
  by (simp_all add: set_conversation_def)

lemma set_participant_frame [simp]:
  "agents (set_participant c a h d) = agents d"
  "conversations (set_participant c a h d) = conversations d"
  "messages (set_participant c a h d) = messages d"
  "holds (set_participant c a h d) = holds d"
  "audit_log (set_participant c a h d) = audit_log d"
  "next_id (set_participant c a h d) = next_id d"
  by (simp_all add: set_participant_def)

lemma set_hold_frame [simp]:
  "agents (set_hold i k d) = agents d"
  "conversations (set_hold i k d) = conversations d"
  "participants (set_hold i k d) = participants d"
  "messages (set_hold i k d) = messages d"
  "audit_log (set_hold i k d) = audit_log d"
  "next_id (set_hold i k d) = next_id d"
  by (simp_all add: set_hold_def)

lemma add_audit_frame [simp]:
  "agents (add_audit r d) = agents d"
  "conversations (add_audit r d) = conversations d"
  "participants (add_audit r d) = participants d"
  "messages (add_audit r d) = messages d"
  "holds (add_audit r d) = holds d"
  "next_id (add_audit r d) = next_id d"
  "audit_log (add_audit r d) = audit_log d @ [r]"
  by (simp_all add: add_audit_def)

lemma add_message_frame [simp]:
  "agents (add_message m d) = agents d"
  "conversations (add_message m d) = conversations d"
  "participants (add_message m d) = participants d"
  "holds (add_message m d) = holds d"
  "audit_log (add_message m d) = audit_log d"
  "next_id (add_message m d) = next_id d"
  "messages (add_message m d) = messages d @ [m]"
  by (simp_all add: add_message_def)

lemma add_participant_frame [simp]:
  "agents (add_participant p d) = agents d"
  "conversations (add_participant p d) = conversations d"
  "messages (add_participant p d) = messages d"
  "holds (add_participant p d) = holds d"
  "audit_log (add_participant p d) = audit_log d"
  "next_id (add_participant p d) = next_id d"
  "participants (add_participant p d) = participants d @ [p]"
  by (simp_all add: add_participant_def)

lemma add_conversation_frame [simp]:
  "agents (add_conversation c d) = agents d"
  "participants (add_conversation c d) = participants d"
  "messages (add_conversation c d) = messages d"
  "holds (add_conversation c d) = holds d"
  "audit_log (add_conversation c d) = audit_log d"
  "next_id (add_conversation c d) = next_id d"
  "conversations (add_conversation c d) = conversations d @ [c]"
  by (simp_all add: add_conversation_def)

lemma add_hold_frame [simp]:
  "agents (add_hold h d) = agents d"
  "conversations (add_hold h d) = conversations d"
  "participants (add_hold h d) = participants d"
  "messages (add_hold h d) = messages d"
  "audit_log (add_hold h d) = audit_log d"
  "next_id (add_hold h d) = next_id d"
  "holds (add_hold h d) = holds d @ [h]"
  by (simp_all add: add_hold_def)

lemma add_agent_frame [simp]:
  "conversations (add_agent a d) = conversations d"
  "participants (add_agent a d) = participants d"
  "messages (add_agent a d) = messages d"
  "holds (add_agent a d) = holds d"
  "audit_log (add_agent a d) = audit_log d"
  "next_id (add_agent a d) = next_id d"
  "agents (add_agent a d) = agents d @ [a]"
  by (simp_all add: add_agent_def)

subsection \<open>Lookup after update\<close>

lemma agent_by_idD: "agent_by_id i d = Some a \<Longrightarrow> a \<in> set (agents d) \<and> ag_id a = i"
  by (auto simp: agent_by_id_def dest: find_SomeD)

lemma conversation_by_idD:
  "conversation_by_id i d = Some c \<Longrightarrow> c \<in> set (conversations d) \<and> cv_id c = i"
  by (auto simp: conversation_by_id_def dest: find_SomeD)

lemma participant_ofD:
  "participant_of c a d = Some p \<Longrightarrow>
    p \<in> set (participants d) \<and> pt_conversation_id p = c \<and> pt_agent_id p = a"
  by (auto simp: participant_of_def dest: find_SomeD)

lemma hold_by_idD: "hold_by_id i d = Some h \<Longrightarrow> h \<in> set (holds d) \<and> hd_id h = i"
  by (auto simp: hold_by_id_def dest: find_SomeD)

lemma agent_by_id_frame [simp]:
  "agent_by_id i (set_conversation j g2 d) = agent_by_id i d"
  "agent_by_id i (add_conversation x2 d) = agent_by_id i d"
  "agent_by_id i (set_participant j k g3 d) = agent_by_id i d"
  "agent_by_id i (add_participant x3 d) = agent_by_id i d"
  "agent_by_id i (add_message x4 d) = agent_by_id i d"
  "agent_by_id i (set_hold j g5 d) = agent_by_id i d"
  "agent_by_id i (add_hold x5 d) = agent_by_id i d"
  "agent_by_id i (add_audit x6 d) = agent_by_id i d"
  "agent_by_id i (d\<lparr>next_id := n\<rparr>) = agent_by_id i d"
  by (simp_all add: lookup_defs)

lemma agent_by_sub_frame [simp]:
  "agent_by_sub z (set_conversation j g2 d) = agent_by_sub z d"
  "agent_by_sub z (add_conversation x2 d) = agent_by_sub z d"
  "agent_by_sub z (set_participant j k g3 d) = agent_by_sub z d"
  "agent_by_sub z (add_participant x3 d) = agent_by_sub z d"
  "agent_by_sub z (add_message x4 d) = agent_by_sub z d"
  "agent_by_sub z (set_hold j g5 d) = agent_by_sub z d"
  "agent_by_sub z (add_hold x5 d) = agent_by_sub z d"
  "agent_by_sub z (add_audit x6 d) = agent_by_sub z d"
  "agent_by_sub z (d\<lparr>next_id := n\<rparr>) = agent_by_sub z d"
  by (simp_all add: lookup_defs)

lemma conversation_by_id_frame [simp]:
  "conversation_by_id i (set_agent j g1 d) = conversation_by_id i d"
  "conversation_by_id i (add_agent x1 d) = conversation_by_id i d"
  "conversation_by_id i (set_participant j k g3 d) = conversation_by_id i d"
  "conversation_by_id i (add_participant x3 d) = conversation_by_id i d"
  "conversation_by_id i (add_message x4 d) = conversation_by_id i d"
  "conversation_by_id i (set_hold j g5 d) = conversation_by_id i d"
  "conversation_by_id i (add_hold x5 d) = conversation_by_id i d"
  "conversation_by_id i (add_audit x6 d) = conversation_by_id i d"
  "conversation_by_id i (d\<lparr>next_id := n\<rparr>) = conversation_by_id i d"
  by (simp_all add: lookup_defs)

lemma participant_of_frame [simp]:
  "participant_of i l (set_agent j g1 d) = participant_of i l d"
  "participant_of i l (add_agent x1 d) = participant_of i l d"
  "participant_of i l (set_conversation j g2 d) = participant_of i l d"
  "participant_of i l (add_conversation x2 d) = participant_of i l d"
  "participant_of i l (add_message x4 d) = participant_of i l d"
  "participant_of i l (set_hold j g5 d) = participant_of i l d"
  "participant_of i l (add_hold x5 d) = participant_of i l d"
  "participant_of i l (add_audit x6 d) = participant_of i l d"
  "participant_of i l (d\<lparr>next_id := n\<rparr>) = participant_of i l d"
  by (simp_all add: lookup_defs)

lemma conv_participants_frame [simp]:
  "conv_participants i (set_agent j g1 d) = conv_participants i d"
  "conv_participants i (add_agent x1 d) = conv_participants i d"
  "conv_participants i (set_conversation j g2 d) = conv_participants i d"
  "conv_participants i (add_conversation x2 d) = conv_participants i d"
  "conv_participants i (add_message x4 d) = conv_participants i d"
  "conv_participants i (set_hold j g5 d) = conv_participants i d"
  "conv_participants i (add_hold x5 d) = conv_participants i d"
  "conv_participants i (add_audit x6 d) = conv_participants i d"
  "conv_participants i (d\<lparr>next_id := n\<rparr>) = conv_participants i d"
  by (simp_all add: lookup_defs)

lemma conv_messages_frame [simp]:
  "conv_messages i (set_agent j g1 d) = conv_messages i d"
  "conv_messages i (add_agent x1 d) = conv_messages i d"
  "conv_messages i (set_conversation j g2 d) = conv_messages i d"
  "conv_messages i (add_conversation x2 d) = conv_messages i d"
  "conv_messages i (set_participant j k g3 d) = conv_messages i d"
  "conv_messages i (add_participant x3 d) = conv_messages i d"
  "conv_messages i (set_hold j g5 d) = conv_messages i d"
  "conv_messages i (add_hold x5 d) = conv_messages i d"
  "conv_messages i (add_audit x6 d) = conv_messages i d"
  "conv_messages i (d\<lparr>next_id := n\<rparr>) = conv_messages i d"
  by (simp_all add: lookup_defs)

lemma hold_by_id_frame [simp]:
  "hold_by_id i (set_agent j g1 d) = hold_by_id i d"
  "hold_by_id i (add_agent x1 d) = hold_by_id i d"
  "hold_by_id i (set_conversation j g2 d) = hold_by_id i d"
  "hold_by_id i (add_conversation x2 d) = hold_by_id i d"
  "hold_by_id i (set_participant j k g3 d) = hold_by_id i d"
  "hold_by_id i (add_participant x3 d) = hold_by_id i d"
  "hold_by_id i (add_message x4 d) = hold_by_id i d"
  "hold_by_id i (add_audit x6 d) = hold_by_id i d"
  "hold_by_id i (d\<lparr>next_id := n\<rparr>) = hold_by_id i d"
  by (simp_all add: lookup_defs)

lemma conversation_by_id_set [table_simps]:
  "(\<And>c. cv_id (f c) = cv_id c) \<Longrightarrow>
    conversation_by_id i (set_conversation j f d) =
      map_option (\<lambda>c. if cv_id c = j then f c else c) (conversation_by_id i d)"
  by (simp add: conversation_by_id_def set_conversation_def find_update_where)

lemma participant_of_set [table_simps]:
  "(\<And>p. pt_conversation_id (f p) = pt_conversation_id p) \<Longrightarrow>
   (\<And>p. pt_agent_id (f p) = pt_agent_id p) \<Longrightarrow>
    participant_of c a (set_participant c' a' f d) =
      map_option (\<lambda>p. if pt_conversation_id p = c' \<and> pt_agent_id p = a' then f p else p)
        (participant_of c a d)"
  by (simp add: participant_of_def set_participant_def find_update_where)

lemma hold_by_id_set [table_simps]:
  "(\<And>h. hd_id (f h) = hd_id h) \<Longrightarrow>
    hold_by_id i (set_hold j f d) =
      map_option (\<lambda>h. if hd_id h = j then f h else h) (hold_by_id i d)"
  by (simp add: hold_by_id_def set_hold_def find_update_where)

lemma agent_by_id_set [table_simps]:
  "(\<And>a. ag_id (f a) = ag_id a) \<Longrightarrow>
    agent_by_id i (set_agent j f d) =
      map_option (\<lambda>a. if ag_id a = j then f a else a) (agent_by_id i d)"
  by (simp add: agent_by_id_def set_agent_def find_update_where)

text \<open>A newly drawn \<open>uuid\<close> is not the id of any row nor the conversation of any message.\<close>

definition used_ids :: "db \<Rightarrow> nat list" where
  "used_ids d = map ag_id (agents d) @ map cv_id (conversations d) @ map ms_id (messages d) @
     map ms_conversation_id (messages d) @ map hd_id (holds d)"

definition fresh_id :: "db \<Rightarrow> nat" where
  "fresh_id d = foldr max (map Suc (used_ids d)) (next_id d)"

lemma used_less_fresh: "i \<in> set (used_ids d) \<Longrightarrow> i < fresh_id d"
proof -
  have "i \<in> set xs \<Longrightarrow> i < foldr max (map Suc xs) n" for xs n
    by (induction xs) (auto simp: less_Suc_eq_le max_def)
  then show "i \<in> set (used_ids d) \<Longrightarrow> i < fresh_id d" by (simp add: fresh_id_def)
qed

lemma fresh_not_used: "fresh_id d \<notin> set (used_ids d)"
  using used_less_fresh by blast

lemma fresh_conversation: "conv_messages (fresh_id d) d = []"
proof -
  have "fresh_id d \<notin> ms_conversation_id ` set (messages d)"
    using fresh_not_used [of d] by (simp add: used_ids_def)
  then show ?thesis by (auto simp: conv_messages_def filter_empty_conv image_iff)
qed

lemma fresh_hold: "hold_by_id (fresh_id d) d = None"
proof -
  have "fresh_id d \<notin> hd_id ` set (holds d)"
    using fresh_not_used [of d] by (simp add: used_ids_def)
  then show ?thesis by (auto simp: hold_by_id_def find_None_iff image_iff)
qed

section \<open>Integrity constraints\<close>

definition has_agent :: "db \<Rightarrow> nat \<Rightarrow> bool" where
  "has_agent d i \<longleftrightarrow> i \<in> set (map ag_id (agents d))"

definition has_conversation :: "db \<Rightarrow> nat \<Rightarrow> bool" where
  "has_conversation d i \<longleftrightarrow> i \<in> set (map cv_id (conversations d))"

definition has_message :: "db \<Rightarrow> nat \<Rightarrow> bool" where
  "has_message d i \<longleftrightarrow> i \<in> set (map ms_id (messages d))"

definition opt_all :: "('a \<Rightarrow> bool) \<Rightarrow> 'a option \<Rightarrow> bool" where
  "opt_all q x = (case x of None \<Rightarrow> True | Some y \<Rightarrow> q y)"

lemma opt_all_simps [simp]: "opt_all q None" "opt_all q (Some y) = q y"
  by (simp_all add: opt_all_def)

definition agents_constraints :: "(string \<times> (db \<Rightarrow> bool)) list" where
  "agents_constraints =
    [(''agents_pkey'', \<lambda>d. distinct (map ag_id (agents d))),
     (''agents_sub_key'', \<lambda>d. distinct (map ag_sub (agents d))),
     (''idx_agents_lower_display_name_active'', \<lambda>d.
        distinct (map (str_lower \<circ> ag_display_name)
          (filter (\<lambda>a. ag_status a = AgActive) (agents d)))),
     (''ck_agents_schema_version_range'', \<lambda>d. list_all (\<lambda>a.
        1 \<le> ag_min_schema_version a \<and> ag_min_schema_version a \<le> ag_max_schema_version a) (agents d))]"

definition conversations_constraints :: "(string \<times> (db \<Rightarrow> bool)) list" where
  "conversations_constraints =
    [(''conversations_pkey'', \<lambda>d. distinct (map cv_id (conversations d))),
     (''conversations_created_by_fkey'', \<lambda>d.
        list_all (\<lambda>c. has_agent d (cv_created_by c)) (conversations d))]"

definition participants_constraints :: "(string \<times> (db \<Rightarrow> bool)) list" where
  "participants_constraints =
    [(''participants_pkey'', \<lambda>d.
        distinct (map (\<lambda>p. (pt_conversation_id p, pt_agent_id p)) (participants d))),
     (''participants_conversation_id_fkey'', \<lambda>d.
        list_all (\<lambda>p. has_conversation d (pt_conversation_id p)) (participants d)),
     (''participants_agent_id_fkey'', \<lambda>d.
        list_all (\<lambda>p. has_agent d (pt_agent_id p)) (participants d)),
     (''participants_invited_by_fkey'', \<lambda>d.
        list_all (\<lambda>p. opt_all (has_agent d) (pt_invited_by p)) (participants d))]"

definition messages_constraints :: "(string \<times> (db \<Rightarrow> bool)) list" where
  "messages_constraints =
    [(''messages_pkey'', \<lambda>d. distinct (map ms_id (messages d))),
     (''uq_messages_conversation_id_seq'', \<lambda>d.
        distinct (map (\<lambda>m. (ms_conversation_id m, ms_seq m)) (messages d))),
     (''messages_conversation_id_fkey'', \<lambda>d.
        list_all (\<lambda>m. has_conversation d (ms_conversation_id m)) (messages d)),
     (''messages_sender_id_fkey'', \<lambda>d.
        list_all (\<lambda>m. has_agent d (ms_sender_id m)) (messages d))]"

definition holds_constraints :: "(string \<times> (db \<Rightarrow> bool)) list" where
  "holds_constraints =
    [(''approval_holds_pkey'', \<lambda>d. distinct (map hd_id (holds d))),
     (''ck_approval_holds_invite_target_agent_id'', \<lambda>d.
        list_all (\<lambda>h. hd_kind h \<noteq> KindInvite \<or> hd_target_agent_id h \<noteq> None) (holds d)),
     (''uq_approval_holds_message_id'', \<lambda>d.
        distinct (List.map_filter hd_message_id (holds d))),
     (''approval_holds_conversation_id_fkey'', \<lambda>d.
        list_all (\<lambda>h. has_conversation d (hd_conversation_id h)) (holds d)),
     (''approval_holds_sender_agent_id_fkey'', \<lambda>d.
        list_all (\<lambda>h. has_agent d (hd_sender_agent_id h)) (holds d)),
     (''approval_holds_target_agent_id_fkey'', \<lambda>d.
        list_all (\<lambda>h. opt_all (has_agent d) (hd_target_agent_id h)) (holds d)),
     (''approval_holds_message_id_fkey'', \<lambda>d.
        list_all (\<lambda>h. opt_all (has_message d) (hd_message_id h)) (holds d))]"

definition audit_constraints :: "(string \<times> (db \<Rightarrow> bool)) list" where
  "audit_constraints =
    [(''audit_log_agent_id_fkey'', \<lambda>d.
        list_all (\<lambda>r. opt_all (has_agent d) (al_agent_id r)) (audit_log d)),
     (''audit_log_conversation_id_fkey'', \<lambda>d.
        list_all (\<lambda>r. opt_all (has_conversation d) (al_conversation_id r)) (audit_log d)),
     (''audit_log_message_id_fkey'', \<lambda>d.
        list_all (\<lambda>r. opt_all (has_message d) (al_message_id r)) (audit_log d))]"

definition db_constraints :: "(string \<times> (db \<Rightarrow> bool)) list" where
  "db_constraints = agents_constraints @ conversations_constraints @ participants_constraints @
     messages_constraints @ holds_constraints @ audit_constraints"

lemmas constraint_defs =
  agents_constraints_def conversations_constraints_def participants_constraints_def
  messages_constraints_def holds_constraints_def audit_constraints_def db_constraints_def

text \<open>The name of the first violated constraint, as \<open>IntegrityError\<close> reports it.\<close>

definition violation :: "db \<Rightarrow> string option" where
  "violation d = map_option fst (find (\<lambda>(n, c). \<not> c d) db_constraints)"

definition db_ok :: "db \<Rightarrow> bool" where
  "db_ok d \<longleftrightarrow> violation d = None"

lemma find_None_all: "find q xs = None \<longleftrightarrow> (\<forall>x\<in>set xs. \<not> q x)"
  by (induction xs) auto

lemma db_ok_iff: "db_ok d \<longleftrightarrow> (\<forall>(n, c)\<in>set db_constraints. c d)"
  by (auto simp: db_ok_def violation_def find_None_all)

lemma db_ok_conjuncts:
  "db_ok d \<longleftrightarrow>
     (\<forall>(n, c)\<in>set agents_constraints. c d) \<and> (\<forall>(n, c)\<in>set conversations_constraints. c d) \<and>
     (\<forall>(n, c)\<in>set participants_constraints. c d) \<and> (\<forall>(n, c)\<in>set messages_constraints. c d) \<and>
     (\<forall>(n, c)\<in>set holds_constraints. c d) \<and> (\<forall>(n, c)\<in>set audit_constraints. c d)"
  by (auto simp: db_ok_iff db_constraints_def)

lemma db_ok_empty: "db_ok empty_db"
  by (simp add: db_ok_conjuncts constraint_defs empty_db_def List.map_filter_def)

end
