(* ===== verification/Session.thy ===== *)
theory Session
  imports Store
begin

text \<open>
  The service layer's effects (\<open>AsyncSession\<close>, exceptions, the clock): an operation is a function
  from a session to an exception or a value, together with the session it leaves. A session holds
  the committed database, the transaction's working copy, and the clock. A denial commits its audit
  row and then raises; any other exception leaves what was not committed to be rolled back when the
  caller closes the session, which is what \<open>run\<close> reads off: the committed database.

  \<open>flush\<close> checks the schema's constraints on the working copy and raises \<open>IntegrityError\<close> with the
  constraint's name; \<open>commit\<close> flushes first. SQLAlchemy also flushes before queries; the constraint
  is then reported earlier in the same transaction, with the same rollback. Row locks
  (\<open>SELECT ... FOR UPDATE\<close>) are not modelled: one operation runs at a time, and reading a clock is
  the only source of variation inside it. The clock is an arbitrary function of the number of
  readings, so no two readings are assumed equal or ordered.
\<close>

section \<open>Exceptions\<close>

datatype err =
    AccessDeniedError string
  | AgentRetiredError string
  | AgentSuspendedError string
  | AgentAlreadyRegisteredError string
  | SiblingIdentityExistsError string "string option list"
  | DisplayNameCollisionError string "string list"
  | RateLimitExceededError string
  | InvalidConversationStateError string string
  | ConversationArchivedError
  | InvalidExtendError string
  | SchemaVersionMismatchError
  | PayloadValidationError string
  | DocsVerificationFailedError string
  | UnknownConversationTypeError
  | InvalidOwnerReassignmentError string
  | HoldExpiredError
  | HoldAwaitingAutoReviewError
  | HoldAlreadyDecidedError hold_status
  | ValueError string
  | KeyError
  | AssertionError
  | RuntimeError
  | LookupError
  | IntegrityError string
  | PluginError string string
  | CancelledError

section \<open>The session monad\<close>

record session =
  committed :: db
  working :: db
  clock :: "nat \<Rightarrow> int"
  ticks :: nat
  txn_at :: int

type_synonym 'a M = "session \<Rightarrow> (err + 'a) \<times> session"

definition ret :: "'a \<Rightarrow> 'a M" where
  "ret x s = (Inr x, s)"

definition throw :: "err \<Rightarrow> 'a M" where
  "throw e s = (Inl e, s)"

definition bnd :: "'a M \<Rightarrow> ('a \<Rightarrow> 'b M) \<Rightarrow> 'b M" where
  "bnd m f s = (case m s of (Inl e, s') \<Rightarrow> (Inl e, s') | (Inr x, s') \<Rightarrow> f x s')"

definition seqm :: "unit M \<Rightarrow> 'b M \<Rightarrow> 'b M" where
  "seqm m n = bnd m (\<lambda>_. n)"

text \<open>\<open>whenm b m\<close> is \<open>if b: m\<close>.\<close>

definition whenm :: "bool \<Rightarrow> unit M \<Rightarrow> unit M" where
  "whenm b m = (if b then m else ret ())"

text \<open>\<open>try: m except E as e: h(e)\<close>.\<close>

definition try_except :: "'a M \<Rightarrow> (err \<Rightarrow> 'a M) \<Rightarrow> 'a M" where
  "try_except m h s = (case m s of (Inl e, s') \<Rightarrow> h e s' | (Inr x, s') \<Rightarrow> (Inr x, s'))"

text \<open>A \<open>SELECT\<close> on the working copy.\<close>

definition query :: "(db \<Rightarrow> 'a) \<Rightarrow> 'a M" where
  "query g s = (Inr (g (working s)), s)"

text \<open>Adding or mutating mapped objects.\<close>

definition change :: "(db \<Rightarrow> db) \<Rightarrow> unit M" where
  "change f s = (Inr (), s\<lparr>working := f (working s)\<rparr>)"

definition now :: "int M" where
  "now s = (Inr (clock s (ticks s)), s\<lparr>ticks := Suc (ticks s)\<rparr>)"

text \<open>The server default \<open>now()\<close>: the start of the transaction.\<close>

definition txn_now :: "int M" where
  "txn_now s = (Inr (txn_at s), s)"

definition new_id :: "nat M" where
  "new_id s = (Inr (fresh_id (working s)),
     s\<lparr>working := (working s)\<lparr>next_id := Suc (fresh_id (working s))\<rparr>\<rparr>)"

definition flush :: "unit M" where
  "flush s = (case violation (working s) of
      Some n \<Rightarrow> (Inl (IntegrityError n), s)
    | None \<Rightarrow> (Inr (), s))"

definition commit :: "unit M" where
  "commit s = (case violation (working s) of
      Some n \<Rightarrow> (Inl (IntegrityError n), s)
    | None \<Rightarrow> (Inr (), s\<lparr>committed := working s, txn_at := clock s (ticks s),
                       ticks := Suc (ticks s)\<rparr>))"

definition rollback :: "unit M" where
  "rollback s = (Inr (), s\<lparr>working := committed s, txn_at := clock s (ticks s),
                         ticks := Suc (ticks s)\<rparr>)"

text \<open>A plug-in's outcome, its exceptions propagating.\<close>

fun call :: "'a outcome \<Rightarrow> 'a M" where
  "call (Returned x) = ret x"
| "call (Raised n c) = throw (PluginError n c)"
| "call Cancelled = throw CancelledError"

text \<open>A validator's result: the exception it raises, or its value.\<close>

definition raise_result :: "err + 'a \<Rightarrow> 'a M" where
  "raise_result r = (case r of Inl e \<Rightarrow> throw e | Inr x \<Rightarrow> ret x)"

definition open_session :: "(nat \<Rightarrow> int) \<Rightarrow> db \<Rightarrow> session" where
  "open_session clk d = \<lparr>committed = d, working = d, clock = clk, ticks = 1, txn_at = clk 0\<rparr>"

text \<open>A whole request: run the operation in a fresh session; what stays is what was committed.\<close>

definition run :: "'a M \<Rightarrow> (nat \<Rightarrow> int) \<Rightarrow> db \<Rightarrow> (err + 'a) \<times> db" where
  "run m clk d = (case m (open_session clk d) of (r, s) \<Rightarrow> (r, committed s))"

section \<open>Symbolic execution\<close>

text \<open>
  \<open>wp m Q E s\<close>: from \<open>s\<close>, either \<open>m\<close> returns a value and a session in \<open>Q\<close>, or it raises an
  exception and leaves a session in \<open>E\<close>. The equations compute it through every construct.
\<close>

definition wp ::
  "'a M \<Rightarrow> ('a \<Rightarrow> session \<Rightarrow> bool) \<Rightarrow> (err \<Rightarrow> session \<Rightarrow> bool) \<Rightarrow> session \<Rightarrow> bool" where
  "wp m Q E s = (case m s of (Inl e, s') \<Rightarrow> E e s' | (Inr x, s') \<Rightarrow> Q x s')"

lemma wp_ret [simp]: "wp (ret x) Q E s = Q x s"
  by (simp add: wp_def ret_def)

lemma wp_throw [simp]: "wp (throw e) Q E s = E e s"
  by (simp add: wp_def throw_def)

lemma wp_bnd [simp]: "wp (bnd m f) Q E s = wp m (\<lambda>x. wp (f x) Q E) E s"
  by (simp add: wp_def bnd_def split: prod.split sum.split)

lemma wp_seqm [simp]: "wp (seqm m n) Q E s = wp m (\<lambda>_. wp n Q E) E s"
  by (simp add: seqm_def)

lemma wp_whenm [simp]: "wp (whenm b m) Q E s = (if b then wp m Q E s else Q () s)"
  by (simp add: whenm_def)

lemma wp_try [simp]: "wp (try_except m h) Q E s = wp m Q (\<lambda>e. wp (h e) Q E) s"
  by (simp add: wp_def try_except_def split: prod.split sum.split)

lemma wp_query [simp]: "wp (query g) Q E s = Q (g (working s)) s"
  by (simp add: wp_def query_def)

lemma wp_change [simp]: "wp (change f) Q E s = Q () (s\<lparr>working := f (working s)\<rparr>)"
  by (simp add: wp_def change_def)

lemma wp_now [simp]: "wp now Q E s = Q (clock s (ticks s)) (s\<lparr>ticks := Suc (ticks s)\<rparr>)"
  by (simp add: wp_def now_def)

lemma wp_txn_now [simp]: "wp txn_now Q E s = Q (txn_at s) s"
  by (simp add: wp_def txn_now_def)

lemma wp_if: "wp (if b then m else n) Q E s = (if b then wp m Q E s else wp n Q E s)"
  by simp

lemma wp_mono:
  "wp m Q E s \<Longrightarrow> (\<And>x s'. Q x s' \<Longrightarrow> Q' x s') \<Longrightarrow> (\<And>e s'. E e s' \<Longrightarrow> E' e s') \<Longrightarrow> wp m Q' E' s"
  by (auto simp: wp_def split: prod.splits sum.splits)

lemma wp_conj: "wp m Q E s \<Longrightarrow> wp m Q' E' s \<Longrightarrow> wp m (\<lambda>x t. Q x t \<and> Q' x t) (\<lambda>e t. E e t \<and> E' e t) s"
  by (auto simp: wp_def split: prod.splits sum.splits)

lemma wpD: "wp m Q E s \<Longrightarrow> m s = (Inr x, s') \<Longrightarrow> Q x s'"
  by (simp add: wp_def)

lemma wpD_err: "wp m Q E s \<Longrightarrow> m s = (Inl e, s') \<Longrightarrow> E e s'"
  by (simp add: wp_def)

lemma bnd_InrE:
  assumes "bnd m f s = (Inr y, s')"
  obtains x s1 where "m s = (Inr x, s1)" "f x s1 = (Inr y, s')"
  using assms by (auto simp: bnd_def split: prod.splits sum.splits)

lemma run_wp: "wp m (\<lambda>x t. Q (Inr x) (committed t)) (\<lambda>e t. Q (Inl e) (committed t)) (open_session clk d) \<Longrightarrow>
    run m clk d = (r, d') \<Longrightarrow> Q r d'"
  by (auto simp: run_def wp_def split: prod.splits sum.splits)

section \<open>History relations\<close>

text \<open>
  \<open>keeps R m\<close>: whatever \<open>m\<close> did (returned, raised, committed, rolled back), each of the two databases
  it leaves evolved by \<open>R\<close> from one of the two it found. For a preorder \<open>R\<close> this composes, so a
  history property of a handler follows from its primitive steps; for a whole request, which starts
  with both databases equal, it says that the committed database evolved by \<open>R\<close>.
\<close>

definition evolved :: "(db \<Rightarrow> db \<Rightarrow> bool) \<Rightarrow> session \<Rightarrow> db \<Rightarrow> bool" where
  "evolved R s d \<longleftrightarrow> R (committed s) d \<or> R (working s) d"

definition keeps_at :: "(db \<Rightarrow> db \<Rightarrow> bool) \<Rightarrow> 'a M \<Rightarrow> session \<Rightarrow> bool" where
  "keeps_at R m s \<longleftrightarrow> evolved R s (committed (snd (m s))) \<and> evolved R s (working (snd (m s)))"

definition keeps :: "(db \<Rightarrow> db \<Rightarrow> bool) \<Rightarrow> 'a M \<Rightarrow> bool" where
  "keeps R m \<longleftrightarrow> (\<forall>s. keeps_at R m s)"

text \<open>
  \<open>errs X R m\<close>: when \<open>m\<close> raises an exception outside \<open>X\<close>, the committed database evolved by \<open>R\<close>.
  \<open>silent m\<close>: \<open>m\<close> never commits. \<open>rolls_back X m\<close>: an exception of \<open>m\<close> outside \<open>X\<close> leaves the
  committed database as it was. \<open>raises X m\<close>: \<open>m\<close> raises nothing outside \<open>X\<close>.
\<close>

definition errs :: "err set \<Rightarrow> (db \<Rightarrow> db \<Rightarrow> bool) \<Rightarrow> 'a M \<Rightarrow> bool" where
  "errs X R m \<longleftrightarrow> (\<forall>s e s'. m s = (Inl e, s') \<longrightarrow> e \<notin> X \<longrightarrow> evolved R s (committed s'))"

definition silent :: "'a M \<Rightarrow> bool" where
  "silent m \<longleftrightarrow> (\<forall>s. committed (snd (m s)) = committed s)"

definition rolls_back :: "err set \<Rightarrow> 'a M \<Rightarrow> bool" where
  "rolls_back X m \<longleftrightarrow>
     (\<forall>s e s'. m s = (Inl e, s') \<longrightarrow> e \<notin> X \<longrightarrow> committed s' = committed s)"

definition raises :: "err set \<Rightarrow> 'a M \<Rightarrow> bool" where
  "raises X m \<longleftrightarrow> (\<forall>s e s'. m s = (Inl e, s') \<longrightarrow> e \<in> X)"

lemma silentI: "(\<And>s. committed (snd (m s)) = committed s) \<Longrightarrow> silent m"
  by (simp add: silent_def)

lemma silent_bnd: "silent m \<Longrightarrow> (\<And>x. silent (f x)) \<Longrightarrow> silent (bnd m f)"
  unfolding silent_def bnd_def by (auto split: prod.splits sum.splits) (metis snd_conv)+

lemma silent_seqm: "silent m \<Longrightarrow> silent n \<Longrightarrow> silent (seqm m n)"
  by (simp add: seqm_def silent_bnd)

lemma silent_prims:
  "silent (ret x)" "silent (throw e)" "silent (query g)" "silent (change h)" "silent now"
  "silent txn_now" "silent new_id" "silent flush"
  by (auto intro!: silentI
      simp: ret_def throw_def query_def change_def now_def txn_now_def new_id_def flush_def
      split: option.split)

lemma silent_call: "silent (call c)"
  by (cases c) (simp_all add: silent_prims)

lemma silent_raise_result: "silent (raise_result r)"
  by (simp add: raise_result_def silent_prims split: sum.split)

lemma silent_whenm: "silent m \<Longrightarrow> silent (whenm b m)"
  by (simp add: whenm_def silent_prims)

lemma silent_if: "(b \<Longrightarrow> silent m) \<Longrightarrow> (\<not> b \<Longrightarrow> silent n) \<Longrightarrow> silent (if b then m else n)"
  by simp

lemmas silent_rules = silent_bnd silent_seqm silent_whenm silent_if silent_prims silent_call
  silent_raise_result

lemma silent_case_option:
  "silent m \<Longrightarrow> (\<And>x. silent (f x)) \<Longrightarrow> silent (case v of None \<Rightarrow> m | Some x \<Rightarrow> f x)"
  by (simp split: option.split)

lemma silent_case_sum:
  "(\<And>e. silent (g e)) \<Longrightarrow> (\<And>x. silent (f x)) \<Longrightarrow> silent (case v of Inl e \<Rightarrow> g e | Inr x \<Rightarrow> f x)"
  by (simp split: sum.split)

lemma silent_case_prod: "(\<And>a b. silent (f a b)) \<Longrightarrow> silent (case v of (a, b) \<Rightarrow> f a b)"
  by (simp split: prod.split)

lemmas silent_case_rules = silent_case_option silent_case_sum silent_case_prod

lemma rolls_back_silent: "silent m \<Longrightarrow> rolls_back X m"
  by (auto simp: silent_def rolls_back_def) (metis snd_conv)

lemma rolls_back_bnd: "silent m \<Longrightarrow> (\<And>x. rolls_back X (f x)) \<Longrightarrow> rolls_back X (bnd m f)"
  unfolding rolls_back_def silent_def bnd_def
  by (auto split: prod.splits sum.splits) (metis snd_conv)+

lemma rolls_back_seqm: "silent m \<Longrightarrow> rolls_back X n \<Longrightarrow> rolls_back X (seqm m n)"
  by (simp add: seqm_def rolls_back_bnd)

lemma rolls_back_commit: "raises X n \<Longrightarrow> rolls_back X (seqm commit n)"
  unfolding rolls_back_def raises_def seqm_def bnd_def commit_def
  by (auto split: prod.splits sum.splits option.splits)

lemma rolls_back_commit_only: "rolls_back X commit"
  by (auto simp: rolls_back_def commit_def split: option.splits)

lemma rolls_back_if:
  "(b \<Longrightarrow> rolls_back X m) \<Longrightarrow> (\<not> b \<Longrightarrow> rolls_back X n) \<Longrightarrow> rolls_back X (if b then m else n)"
  by simp

lemma rolls_back_case_option:
  "rolls_back X m \<Longrightarrow> (\<And>x. rolls_back X (f x)) \<Longrightarrow>
    rolls_back X (case v of None \<Rightarrow> m | Some x \<Rightarrow> f x)"
  by (simp split: option.split)

lemma rolls_back_case_prod:
  "(\<And>a b. rolls_back X (f a b)) \<Longrightarrow> rolls_back X (case v of (a, b) \<Rightarrow> f a b)"
  by (simp split: prod.split)

lemma raises_prims: "raises X (ret x)" "raises X (query g)"
  by (simp_all add: raises_def ret_def query_def)

lemma raises_bnd: "raises X m \<Longrightarrow> (\<And>x. raises X (f x)) \<Longrightarrow> raises X (bnd m f)"
  unfolding raises_def bnd_def by (auto split: prod.splits sum.splits)

lemma raises_seqm: "raises X m \<Longrightarrow> raises X n \<Longrightarrow> raises X (seqm m n)"
  by (simp add: seqm_def raises_bnd)

lemma raises_case_sum:
  "(\<And>e. raises X (g e)) \<Longrightarrow> (\<And>x. raises X (f x)) \<Longrightarrow>
    raises X (case v of Inl e \<Rightarrow> g e | Inr x \<Rightarrow> f x)"
  by (simp split: sum.split)

lemmas raises_rules = raises_bnd raises_seqm raises_case_sum raises_prims

lemmas rolls_back_rules = rolls_back_commit rolls_back_commit_only rolls_back_bnd rolls_back_seqm
  rolls_back_if rolls_back_case_option rolls_back_case_prod

locale db_history =
  fixes R :: "db \<Rightarrow> db \<Rightarrow> bool"
  assumes R_refl: "R d d"
    and R_trans: "R d e \<Longrightarrow> R e f \<Longrightarrow> R d f"
    and R_next_id: "R d (d\<lparr>next_id := n\<rparr>)"
begin

lemma keepsD: "keeps R m \<Longrightarrow> keeps_at R m s"
  by (simp add: keeps_def)

lemma keepsI: "(\<And>s. keeps_at R m s) \<Longrightarrow> keeps R m"
  by (simp add: keeps_def)

lemma evolved_refl: "evolved R s (committed s)" "evolved R s (working s)"
  by (simp_all add: evolved_def R_refl)

lemma evolved_trans:
  "evolved R s (committed s1) \<Longrightarrow> evolved R s (working s1) \<Longrightarrow> evolved R s1 d \<Longrightarrow> evolved R s d"
  by (auto simp: evolved_def intro: R_trans)

lemma keeps_same:
  "(\<And>s. working (snd (m s)) = working s \<and> committed (snd (m s)) = committed s) \<Longrightarrow> keeps R m"
  by (simp add: keeps_def keeps_at_def evolved_refl)

lemma keeps_prims:
  "keeps R (ret x)" "keeps R (throw e)" "keeps R (query g)" "keeps R now" "keeps R txn_now"
  "keeps R flush"
  by (rule keeps_same,
      simp add: ret_def throw_def query_def now_def txn_now_def flush_def split: option.split)+

lemma keeps_call: "keeps R (call x)"
  by (cases x) (simp_all add: keeps_prims)

lemma keeps_raise_result: "keeps R (raise_result r)"
  by (simp add: raise_result_def keeps_prims split: sum.split)

lemma keeps_new_id: "keeps R new_id"
  using R_next_id by (simp add: keeps_def keeps_at_def new_id_def evolved_def R_refl)

lemma keeps_at_change: "R (working s) (f (working s)) \<Longrightarrow> keeps_at R (change f) s"
  by (simp add: keeps_at_def change_def evolved_def R_refl)

lemma keeps_change: "(\<And>d. R d (f d)) \<Longrightarrow> keeps R (change f)"
  by (simp add: keeps_def keeps_at_change)

lemma keeps_commit: "keeps R commit"
  by (simp add: keeps_def keeps_at_def commit_def evolved_def R_refl split: option.split)

lemma keeps_rollback: "keeps R rollback"
  by (simp add: keeps_def keeps_at_def rollback_def evolved_def R_refl)

lemma keeps_at_bnd:
  assumes "keeps_at R m s" "\<And>x s1. m s = (Inr x, s1) \<Longrightarrow> keeps_at R (f x) s1"
  shows "keeps_at R (bnd m f) s"
proof (cases "m s")
  case (Pair r s1)
  show ?thesis
  proof (cases r)
    case (Inl e)
    with assms(1) Pair show ?thesis by (simp add: keeps_at_def bnd_def)
  next
    case (Inr x)
    with assms(2) Pair have "keeps_at R (f x) s1" by simp
    with assms(1) Pair Inr show ?thesis
      by (auto simp: keeps_at_def bnd_def intro: evolved_trans)
  qed
qed

lemma keeps_at_seqm:
  "keeps_at R m s \<Longrightarrow> (\<And>s1. m s = (Inr (), s1) \<Longrightarrow> keeps_at R n s1) \<Longrightarrow> keeps_at R (seqm m n) s"
  unfolding seqm_def by (rule keeps_at_bnd) auto

lemma keeps_bnd: "keeps R m \<Longrightarrow> (\<And>x. keeps R (f x)) \<Longrightarrow> keeps R (bnd m f)"
  by (simp add: keeps_def keeps_at_bnd)

lemma keeps_seqm: "keeps R m \<Longrightarrow> keeps R n \<Longrightarrow> keeps R (seqm m n)"
  by (simp add: seqm_def keeps_bnd)

lemma keeps_whenm: "(b \<Longrightarrow> keeps R m) \<Longrightarrow> keeps R (whenm b m)"
  by (simp add: whenm_def keeps_prims)

lemma keeps_if: "(b \<Longrightarrow> keeps R m) \<Longrightarrow> (\<not> b \<Longrightarrow> keeps R n) \<Longrightarrow> keeps R (if b then m else n)"
  by simp

lemma keeps_case_option:
  "(v = None \<Longrightarrow> keeps R m) \<Longrightarrow> (\<And>x. v = Some x \<Longrightarrow> keeps R (f x)) \<Longrightarrow>
    keeps R (case v of None \<Rightarrow> m | Some x \<Rightarrow> f x)"
  by (simp split: option.split)

lemma keeps_case_sum:
  "(\<And>e. keeps R (g e)) \<Longrightarrow> (\<And>x. keeps R (f x)) \<Longrightarrow> keeps R (case v of Inl e \<Rightarrow> g e | Inr x \<Rightarrow> f x)"
  by (simp split: sum.split)

lemma keeps_case_outcome:
  "(\<And>x. keeps R (f x)) \<Longrightarrow> (\<And>a b. keeps R (g a b)) \<Longrightarrow> keeps R h \<Longrightarrow>
    keeps R (case v of Returned x \<Rightarrow> f x | Raised a b \<Rightarrow> g a b | Cancelled \<Rightarrow> h)"
  by (simp split: outcome.split)

lemma keeps_case_prod: "(\<And>a b. keeps R (f a b)) \<Longrightarrow> keeps R (case v of (a, b) \<Rightarrow> f a b)"
  by (simp split: prod.split)

lemma keeps_case_integrity:
  "(\<And>n. keeps R (f n)) \<Longrightarrow> keeps R m \<Longrightarrow> keeps R (case e of IntegrityError n \<Rightarrow> f n | _ \<Rightarrow> m)"
  by (simp split: err.split)

lemma keeps_try: "keeps R m \<Longrightarrow> (\<And>e. keeps R (h e)) \<Longrightarrow> keeps R (try_except m h)"
proof (rule keepsI)
  fix s
  assume m: "keeps R m" and h: "\<And>e. keeps R (h e)"
  show "keeps_at R (try_except m h) s"
  proof (cases "m s")
    case (Pair r s1)
    from m have "keeps_at R m s" by (rule keepsD)
    with Pair have m1: "evolved R s (committed s1)" "evolved R s (working s1)"
      by (simp_all add: keeps_at_def)
    show ?thesis
    proof (cases r)
      case (Inl e)
      from h have "keeps_at R (h e) s1" by (rule keepsD)
      with Inl Pair m1 show ?thesis
        by (auto simp: keeps_at_def try_except_def intro: evolved_trans)
    next
      case (Inr x)
      with Pair m1 show ?thesis by (simp add: keeps_at_def try_except_def)
    qed
  qed
qed

lemmas keeps_rules = keeps_bnd keeps_seqm keeps_whenm keeps_if keeps_case_option keeps_case_sum
  keeps_case_outcome keeps_case_prod keeps_case_integrity keeps_try keeps_prims keeps_call keeps_raise_result
  keeps_new_id keeps_commit
  keeps_rollback

text \<open>Following the session through a handler whose change needs what was read before.\<close>

lemma keeps_at_run: "keeps_at R m (open_session clk d) \<Longrightarrow> run m clk d = (r, d') \<Longrightarrow> R d d'"
  unfolding keeps_at_def run_def open_session_def evolved_def by (auto split: prod.splits)

lemma keeps_at_then:
  "keeps R m \<Longrightarrow> (\<And>x s1. m s = (Inr x, s1) \<Longrightarrow> keeps_at R (f x) s1) \<Longrightarrow> keeps_at R (bnd m f) s"
  by (rule keeps_at_bnd [OF keepsD])

lemma keeps_at_after:
  "keeps R m \<Longrightarrow> (\<And>s1. m s = (Inr (), s1) \<Longrightarrow> keeps_at R n s1) \<Longrightarrow> keeps_at R (seqm m n) s"
  by (rule keeps_at_seqm [OF keepsD])

lemma keeps_at_last:
  "keeps_at R m s \<Longrightarrow> (\<And>x. keeps R (f x)) \<Longrightarrow> keeps_at R (bnd m f) s"
  by (rule keeps_at_bnd [OF _ keepsD])

lemma keeps_at_change_last:
  "R (working s) (g (working s)) \<Longrightarrow> keeps R n \<Longrightarrow> keeps_at R (seqm (change g) n) s"
  by (rule keeps_at_seqm [OF keeps_at_change keepsD])

lemma keeps_at_now:
  "(\<And>t. keeps_at R (f t) (s\<lparr>ticks := Suc (ticks s)\<rparr>)) \<Longrightarrow> keeps_at R (bnd now f) s"
  by (rule keeps_at_then [OF keeps_prims(4)]) (auto simp: now_def)

lemma keeps_at_query: "keeps_at R (f (g (working s))) s \<Longrightarrow> keeps_at R (bnd (query g) f) s"
  by (rule keeps_at_then [OF keeps_prims(3)]) (auto simp: query_def)

lemma keeps_at_if:
  "(b \<Longrightarrow> keeps_at R m s) \<Longrightarrow> (\<not> b \<Longrightarrow> keeps_at R n s) \<Longrightarrow> keeps_at R (if b then m else n) s"
  by simp

lemma keeps_run: "keeps R m \<Longrightarrow> run m clk d = (r, d') \<Longrightarrow> R d d'"
  unfolding keeps_def keeps_at_def run_def open_session_def evolved_def
  by (drule spec [of _ "\<lparr>committed = d, working = d, clock = clk, ticks = 1, txn_at = clk 0\<rparr>"])
     (auto split: prod.splits)

lemma errs_keeps: "keeps R m \<Longrightarrow> errs X R m"
  unfolding keeps_def keeps_at_def errs_def by (metis snd_conv)

lemma errs_rolls_back: "rolls_back X m \<Longrightarrow> errs X R m"
  by (auto simp: rolls_back_def errs_def evolved_def R_refl)

lemma errs_bnd:
  assumes "keeps R m" "\<And>x. errs X R (f x)"
  shows "errs X R (bnd m f)"
  unfolding errs_def
proof (intro allI impI)
  fix s e s'
  assume b: "bnd m f s = (Inl e, s')" and e: "e \<notin> X"
  obtain r s1 where m: "m s = (r, s1)" by (cases "m s")
  from assms(1) have "keeps_at R m s" by (rule keepsD)
  with m have s1: "evolved R s (committed s1)" "evolved R s (working s1)"
    by (simp_all add: keeps_at_def)
  show "evolved R s (committed s')"
  proof (cases r)
    case (Inl e')
    with b m s1 show ?thesis by (simp add: bnd_def)
  next
    case (Inr x)
    with b m have "f x s1 = (Inl e, s')" by (simp add: bnd_def)
    with assms(2) e have "evolved R s1 (committed s')" by (auto simp: errs_def)
    with s1 show ?thesis by (rule evolved_trans)
  qed
qed

lemma errs_seqm: "keeps R m \<Longrightarrow> errs X R n \<Longrightarrow> errs X R (seqm m n)"
  by (simp add: seqm_def errs_bnd)

lemma errs_if: "(b \<Longrightarrow> errs X R m) \<Longrightarrow> (\<not> b \<Longrightarrow> errs X R n) \<Longrightarrow> errs X R (if b then m else n)"
  by simp

lemma errs_case_option:
  "(v = None \<Longrightarrow> errs X R m) \<Longrightarrow> (\<And>x. v = Some x \<Longrightarrow> errs X R (f x)) \<Longrightarrow>
    errs X R (case v of None \<Rightarrow> m | Some x \<Rightarrow> f x)"
  by (simp split: option.split)

lemma errs_case_sum:
  "(\<And>e. errs X R (g e)) \<Longrightarrow> (\<And>x. errs X R (f x)) \<Longrightarrow>
    errs X R (case v of Inl e \<Rightarrow> g e | Inr x \<Rightarrow> f x)"
  by (simp split: sum.split)

lemma errs_case_prod: "(\<And>a b. errs X R (f a b)) \<Longrightarrow> errs X R (case v of (a, b) \<Rightarrow> f a b)"
  by (simp split: prod.split)

lemmas errs_rules = errs_bnd errs_seqm errs_if errs_case_option errs_case_sum errs_case_prod

lemma errs_run: "errs X R m \<Longrightarrow> run m clk d = (Inl e, d') \<Longrightarrow> e \<notin> X \<Longrightarrow> R d d'"
  unfolding errs_def run_def open_session_def evolved_def
  by (drule spec [of _ "\<lparr>committed = d, working = d, clock = clk, ticks = 1, txn_at = clk 0\<rparr>"])
     (auto split: prod.splits)

end

text \<open>A finer relation gives a coarser one.\<close>

lemma keeps_mono: "keeps R m \<Longrightarrow> (\<And>d e. R d e \<Longrightarrow> R' d e) \<Longrightarrow> keeps R' m"
  unfolding keeps_def keeps_at_def evolved_def by blast

section \<open>What a successful step says\<close>

text \<open>
  \<open>inr\<close> collects, for each construct, when it returns a value: rewriting with it turns the success of
  a handler into the facts its guards established. \<open>same_data\<close>: nothing but clock readings happened.
\<close>

named_theorems inr \<open>characterisations of successful runs\<close>

definition same_data :: "session \<Rightarrow> session \<Rightarrow> bool" where
  "same_data s t \<longleftrightarrow> working t = working s \<and> committed t = committed s \<and> clock t = clock s \<and>
     txn_at t = txn_at s"

lemma same_data_refl [simp]: "same_data s s"
  by (simp add: same_data_def)

lemma same_data_trans: "same_data s t \<Longrightarrow> same_data t u \<Longrightarrow> same_data s u"
  by (simp add: same_data_def)

lemma same_data_ticks [simp]: "same_data s (s\<lparr>ticks := n\<rparr>)"
  by (simp add: same_data_def)

lemma ret_Inr [inr]: "ret x s = (Inr y, s') \<longleftrightarrow> y = x \<and> s' = s"
  by (auto simp: ret_def)

lemma throw_Inr [inr]: "throw e s = (Inr y, s') \<longleftrightarrow> False"
  by (simp add: throw_def)

lemma bnd_Inr [inr]:
  "bnd m f s = (Inr y, s') \<longleftrightarrow> (\<exists>x s1. m s = (Inr x, s1) \<and> f x s1 = (Inr y, s'))"
  by (auto simp: bnd_def split: prod.splits sum.splits)

lemma seqm_Inr [inr]:
  "seqm m n s = (Inr y, s') \<longleftrightarrow> (\<exists>s1. m s = (Inr (), s1) \<and> n s1 = (Inr y, s'))"
  by (simp add: seqm_def bnd_Inr)

lemma whenm_Inr [inr]:
  "whenm b m s = (Inr y, s') \<longleftrightarrow> (if b then m s = (Inr y, s') else s' = s)"
  by (auto simp: whenm_def ret_def)

lemma query_Inr [inr]: "query g s = (Inr y, s') \<longleftrightarrow> y = g (working s) \<and> s' = s"
  by (auto simp: query_def)

lemma change_Inr [inr]: "change f s = (Inr y, s') \<longleftrightarrow> s' = s\<lparr>working := f (working s)\<rparr>"
  by (auto simp: change_def)

lemma now_Inr [inr]:
  "now s = (Inr y, s') \<longleftrightarrow> y = clock s (ticks s) \<and> s' = s\<lparr>ticks := Suc (ticks s)\<rparr>"
  by (auto simp: now_def)

lemma txn_now_Inr [inr]: "txn_now s = (Inr y, s') \<longleftrightarrow> y = txn_at s \<and> s' = s"
  by (auto simp: txn_now_def)

lemma flush_Inr [inr]: "flush s = (Inr y, s') \<longleftrightarrow> db_ok (working s) \<and> s' = s"
  by (auto simp: flush_def db_ok_def split: option.splits)

lemma commit_Inr [inr]:
  "commit s = (Inr y, s') \<longleftrightarrow> db_ok (working s) \<and>
     s' = s\<lparr>committed := working s, txn_at := clock s (ticks s), ticks := Suc (ticks s)\<rparr>"
  by (auto simp: commit_def db_ok_def split: option.splits)

lemma call_Inr [inr]: "call c s = (Inr y, s') \<longleftrightarrow> c = Returned y \<and> s' = s"
  by (cases c) (auto simp: ret_def throw_def)

lemma raise_result_Inr [inr]: "raise_result r s = (Inr y, s') \<longleftrightarrow> r = Inr y \<and> s' = s"
  by (auto simp: raise_result_def ret_def throw_def split: sum.splits)

lemma new_id_Inr [inr]:
  "new_id s = (Inr y, s') \<longleftrightarrow> y = fresh_id (working s) \<and>
     s' = s\<lparr>working := (working s)\<lparr>next_id := Suc (fresh_id (working s))\<rparr>\<rparr>"
  by (auto simp: new_id_def)

text \<open>Every committed database satisfies the schema's constraints.\<close>

definition commits_ok :: "'a M \<Rightarrow> bool" where
  "commits_ok m \<longleftrightarrow> (\<forall>s. db_ok (committed s) \<longrightarrow> db_ok (committed (snd (m s))))"

lemma commits_ok_silent: "silent m \<Longrightarrow> commits_ok m"
  by (simp add: commits_ok_def silent_def)

lemma commits_ok_commit: "commits_ok commit"
  by (auto simp: commits_ok_def commit_def db_ok_def split: option.splits)

lemma commits_ok_rollback: "commits_ok rollback"
  by (simp add: commits_ok_def rollback_def)

lemma commits_ok_bnd: "commits_ok m \<Longrightarrow> (\<And>x. commits_ok (f x)) \<Longrightarrow> commits_ok (bnd m f)"
  unfolding commits_ok_def bnd_def by (auto split: prod.split sum.split)

lemma commits_ok_seqm: "commits_ok m \<Longrightarrow> commits_ok n \<Longrightarrow> commits_ok (seqm m n)"
  by (simp add: seqm_def commits_ok_bnd)

lemma commits_ok_whenm: "commits_ok m \<Longrightarrow> commits_ok (whenm b m)"
  by (simp add: whenm_def commits_ok_silent silent_prims)

lemma commits_ok_if: "(b \<Longrightarrow> commits_ok m) \<Longrightarrow> (\<not> b \<Longrightarrow> commits_ok n) \<Longrightarrow> commits_ok (if b then m else n)"
  by simp

lemma commits_ok_case_option:
  "commits_ok m \<Longrightarrow> (\<And>x. commits_ok (f x)) \<Longrightarrow> commits_ok (case v of None \<Rightarrow> m | Some x \<Rightarrow> f x)"
  by (simp split: option.split)

lemma commits_ok_case_sum:
  "(\<And>e. commits_ok (g e)) \<Longrightarrow> (\<And>x. commits_ok (f x)) \<Longrightarrow>
    commits_ok (case v of Inl e \<Rightarrow> g e | Inr x \<Rightarrow> f x)"
  by (simp split: sum.split)

lemma commits_ok_case_outcome:
  "(\<And>x. commits_ok (f x)) \<Longrightarrow> (\<And>a b. commits_ok (g a b)) \<Longrightarrow> commits_ok h \<Longrightarrow>
    commits_ok (case v of Returned x \<Rightarrow> f x | Raised a b \<Rightarrow> g a b | Cancelled \<Rightarrow> h)"
  by (simp split: outcome.split)

lemma commits_ok_case_prod: "(\<And>a b. commits_ok (f a b)) \<Longrightarrow> commits_ok (case v of (a, b) \<Rightarrow> f a b)"
  by (simp split: prod.split)

lemma commits_ok_case_integrity:
  "(\<And>n. commits_ok (f n)) \<Longrightarrow> commits_ok m \<Longrightarrow>
    commits_ok (case e of IntegrityError n \<Rightarrow> f n | _ \<Rightarrow> m)"
  by (simp split: err.split)

lemma commits_ok_try: "commits_ok m \<Longrightarrow> (\<And>e. commits_ok (h e)) \<Longrightarrow> commits_ok (try_except m h)"
  unfolding commits_ok_def try_except_def by (auto split: prod.split sum.split)

lemmas commits_ok_prims = silent_prims [THEN commits_ok_silent] silent_call [THEN commits_ok_silent]
  silent_raise_result [THEN commits_ok_silent]

lemmas commits_ok_rules = commits_ok_bnd commits_ok_seqm commits_ok_whenm commits_ok_if
  commits_ok_case_option commits_ok_case_sum commits_ok_case_outcome commits_ok_case_prod
  commits_ok_case_integrity commits_ok_try commits_ok_prims commits_ok_commit commits_ok_rollback

lemma commits_ok_run: "commits_ok m \<Longrightarrow> db_ok d \<Longrightarrow> run m clk d = (r, d') \<Longrightarrow> db_ok d'"
  unfolding commits_ok_def run_def open_session_def
  by (drule spec [of _ "\<lparr>committed = d, working = d, clock = clk, ticks = 1, txn_at = clk 0\<rparr>"])
     (auto split: prod.splits)

text \<open>
  A guard that passes has changed no table but the audit trail, and committed nothing.
\<close>

definition same_tables :: "db \<Rightarrow> db \<Rightarrow> bool" where
  "same_tables d d' \<longleftrightarrow> agents d' = agents d \<and> conversations d' = conversations d \<and>
     participants d' = participants d \<and> messages d' = messages d \<and> holds d' = holds d"

definition passes :: "'a M \<Rightarrow> bool" where
  "passes m \<longleftrightarrow> (\<forall>s x s'. m s = (Inr x, s') \<longrightarrow>
     same_tables (working s) (working s') \<and> committed s' = committed s \<and> clock s' = clock s)"

lemma passesD:
  "passes m \<Longrightarrow> m s = (Inr x, s') \<Longrightarrow>
    same_tables (working s) (working s') \<and> committed s' = committed s \<and> clock s' = clock s"
  by (simp add: passes_def)

lemma same_tables_refl [simp]: "same_tables d d"
  by (simp add: same_tables_def)

lemma same_tables_lookups:
  assumes "same_tables d d'"
  shows "agent_by_id i d' = agent_by_id i d" "conversation_by_id i d' = conversation_by_id i d"
    "participant_of i j d' = participant_of i j d" "hold_by_id i d' = hold_by_id i d"
    "conv_messages i d' = conv_messages i d" "conv_participants i d' = conv_participants i d"
  using assms by (simp_all add: same_tables_def lookup_defs)

lemma passes_prims:
  "passes (ret x)" "passes (throw e)" "passes (query g)" "passes now" "passes txn_now"
  "passes flush" "passes (call c)" "passes (raise_result r)"
  by (auto simp: passes_def inr)

lemma passes_bnd: "passes m \<Longrightarrow> (\<And>x. passes (f x)) \<Longrightarrow> passes (bnd m f)"
  unfolding passes_def bnd_Inr by (fastforce simp: same_tables_def)

lemma passes_seqm: "passes m \<Longrightarrow> passes n \<Longrightarrow> passes (seqm m n)"
  by (simp add: seqm_def passes_bnd)

lemma passes_whenm: "passes m \<Longrightarrow> passes (whenm b m)"
  by (simp add: whenm_def passes_prims)

lemma passes_if: "(b \<Longrightarrow> passes m) \<Longrightarrow> (\<not> b \<Longrightarrow> passes n) \<Longrightarrow> passes (if b then m else n)"
  by simp

lemma passes_case_option:
  "passes m \<Longrightarrow> (\<And>x. passes (f x)) \<Longrightarrow> passes (case v of None \<Rightarrow> m | Some x \<Rightarrow> f x)"
  by (simp split: option.split)

lemma passes_case_sum:
  "(\<And>e. passes (g e)) \<Longrightarrow> (\<And>x. passes (f x)) \<Longrightarrow> passes (case v of Inl e \<Rightarrow> g e | Inr x \<Rightarrow> f x)"
  by (simp split: sum.split)

lemma passes_case_outcome:
  "(\<And>x. passes (f x)) \<Longrightarrow> (\<And>a b. passes (g a b)) \<Longrightarrow> passes h \<Longrightarrow>
    passes (case v of Returned x \<Rightarrow> f x | Raised a b \<Rightarrow> g a b | Cancelled \<Rightarrow> h)"
  by (simp split: outcome.split)

lemma passes_case_prod: "(\<And>a b. passes (f a b)) \<Longrightarrow> passes (case v of (a, b) \<Rightarrow> f a b)"
  by (simp split: prod.split)

lemma passes_never: "(\<And>s y s'. m s \<noteq> (Inr y, s')) \<Longrightarrow> passes m"
  by (simp add: passes_def)

lemmas passes_rules = passes_bnd passes_seqm passes_whenm passes_if passes_case_option
  passes_case_sum passes_case_outcome passes_case_prod passes_prims

end
