(* ===== verification/History.thy ===== *)
theory History
  imports Session
begin

text \<open>
  The three history relations the handlers are verified against, each an instance of the
  \<open>db_history\<close> interface of \<open>Session\<close>:
  \<^item> \<open>grows\<close>: \<open>messages\<close> and \<open>audit_log\<close> are append-only, no row of any table disappears, and the
    identifying columns of a row never change; an archived conversation stays archived.
  \<^item> \<open>lazy\<close>: nothing happened but audit rows and lazy expiry. This is all a refused call may leave.
  \<^item> \<open>settled\<close>: what is terminal stays terminal: a participant who left or declined, a decided
    approval hold, a suspended agent.
\<close>

section \<open>Append-only tables and immutable columns\<close>

definition agent_step :: "agent \<Rightarrow> agent \<Rightarrow> bool" where
  "agent_step a b \<longleftrightarrow> ag_id b = ag_id a \<and> ag_sub b = ag_sub a \<and> ag_created_at b = ag_created_at a"

definition conversation_step :: "conversation \<Rightarrow> conversation \<Rightarrow> bool" where
  "conversation_step c e \<longleftrightarrow> cv_id e = cv_id c \<and> cv_type e = cv_type c \<and>
     cv_created_by e = cv_created_by c \<and> cv_owner_snapshot e = cv_owner_snapshot c \<and>
     cv_created_at e = cv_created_at c \<and> (cv_archived_at c \<noteq> None \<longrightarrow> cv_archived_at e \<noteq> None)"

definition participant_step :: "participant \<Rightarrow> participant \<Rightarrow> bool" where
  "participant_step p q \<longleftrightarrow> pt_conversation_id q = pt_conversation_id p \<and>
     pt_agent_id q = pt_agent_id p \<and> pt_role q = pt_role p \<and> pt_invited_by q = pt_invited_by p \<and>
     pt_invited_at q = pt_invited_at p"

definition hold_step :: "approval_hold \<Rightarrow> approval_hold \<Rightarrow> bool" where
  "hold_step h k \<longleftrightarrow> hd_id k = hd_id h \<and> hd_conversation_id k = hd_conversation_id h \<and>
     hd_sender_agent_id k = hd_sender_agent_id h \<and> hd_target_agent_id k = hd_target_agent_id h \<and>
     hd_kind k = hd_kind h \<and> hd_owner_sub k = hd_owner_sub h \<and>
     hd_message_type k = hd_message_type h \<and> hd_schema_version k = hd_schema_version h \<and>
     hd_payload k = hd_payload h \<and> hd_risk_reason k = hd_risk_reason h \<and>
     hd_risk_scorer k = hd_risk_scorer h \<and> hd_expires_at k = hd_expires_at h \<and>
     hd_created_at k = hd_created_at h"

lemmas row_step_defs = agent_step_def conversation_step_def participant_step_def hold_step_def

lemma row_step_refl [simp]:
  "agent_step a a" "conversation_step c c" "participant_step p p" "hold_step h h"
  by (simp_all add: row_step_defs)

definition grows :: "db \<Rightarrow> db \<Rightarrow> bool" where
  "grows d d' \<longleftrightarrow>
     evo agent_step (agents d) (agents d') \<and>
     evo conversation_step (conversations d) (conversations d') \<and>
     evo participant_step (participants d) (participants d') \<and>
     evo (=) (messages d) (messages d') \<and>
     evo hold_step (holds d) (holds d') \<and>
     evo (=) (audit_log d) (audit_log d')"

interpretation gr: db_history grows
proof
  show "grows d d" for d by (simp add: grows_def)
  show "grows d e \<Longrightarrow> grows e f \<Longrightarrow> grows d f" for d e f
    unfolding grows_def
    by (intro conjI; elim conjE; erule (1) evo_trans [rotated]) (auto simp: row_step_defs)
  show "grows d (d\<lparr>next_id := n\<rparr>)" for d n by (simp add: grows_def)
qed

lemma grows_add [simp]:
  "grows d (add_agent a d)" "grows d (add_conversation c d)" "grows d (add_participant p d)"
  "grows d (add_message m d)" "grows d (add_hold h d)" "grows d (add_audit r d)"
  by (simp_all add: grows_def)

lemma grows_set_agent [intro]: "(\<And>a. agent_step a (f a)) \<Longrightarrow> grows d (set_agent i f d)"
  by (auto simp: grows_def set_agent_def)

lemma grows_set_conversation [intro]:
  "(\<And>c. conversation_step c (f c)) \<Longrightarrow> grows d (set_conversation i f d)"
  by (auto simp: grows_def set_conversation_def)

lemma grows_set_participant [intro]:
  "(\<And>p. participant_step p (f p)) \<Longrightarrow> grows d (set_participant c a f d)"
  by (auto simp: grows_def set_participant_def)

lemma grows_set_hold [intro]: "(\<And>h. hold_step h (f h)) \<Longrightarrow> grows d (set_hold i f d)"
  by (auto simp: grows_def set_hold_def)

lemmas grows_changes = grows_add grows_set_agent grows_set_conversation grows_set_participant
  grows_set_hold

lemma grows_prefix: "grows d d' \<Longrightarrow> prefix (messages d) (messages d') \<and> prefix (audit_log d) (audit_log d')"
  by (simp add: grows_def evo_prefix)

section \<open>Nothing but audit rows and lazy expiry\<close>

definition expired_conversation :: "conversation \<Rightarrow> conversation" where
  "expired_conversation c = c\<lparr>cv_state := CvExpired\<rparr>"

definition expired_hold :: "approval_hold \<Rightarrow> approval_hold" where
  "expired_hold h = h\<lparr>hd_status := HoldExpired\<rparr>"

text \<open>A looked-up row is unchanged, or it satisfied \<open>P\<close> and was transformed by \<open>f\<close>.\<close>

definition may_turn :: "('r \<Rightarrow> bool) \<Rightarrow> ('r \<Rightarrow> 'r) \<Rightarrow> 'r option \<Rightarrow> 'r option \<Rightarrow> bool" where
  "may_turn P f x y \<longleftrightarrow> y = x \<or> (\<exists>r. x = Some r \<and> P r \<and> y = Some (f r))"

lemma may_turn_refl [simp]: "may_turn P f x x"
  by (simp add: may_turn_def)

lemma may_turn_trans:
  assumes "\<And>r. P r \<Longrightarrow> \<not> P (f r)" "may_turn P f x y" "may_turn P f y z"
  shows "may_turn P f x z"
  using assms by (auto simp: may_turn_def)

definition pending_hold :: "approval_hold \<Rightarrow> bool" where
  "pending_hold h \<longleftrightarrow> hd_status h \<in> {PendingAuto, PendingHuman}"

definition active_conversation :: "conversation \<Rightarrow> bool" where
  "active_conversation c \<longleftrightarrow> cv_state c = CvActive"

definition lazy :: "db \<Rightarrow> db \<Rightarrow> bool" where
  "lazy d d' \<longleftrightarrow> grows d d' \<and>
     agents d' = agents d \<and> participants d' = participants d \<and> messages d' = messages d \<and>
     (\<forall>i. may_turn active_conversation expired_conversation
        (conversation_by_id i d) (conversation_by_id i d')) \<and>
     (\<forall>i. may_turn pending_hold expired_hold (hold_by_id i d) (hold_by_id i d'))"

lemma lazy_refl [simp]: "lazy d d"
  by (simp add: lazy_def gr.R_refl)

lemma lazy_trans:
  assumes "lazy d e" "lazy e f" shows "lazy d f"
proof -
  have c: "active_conversation c \<Longrightarrow> \<not> active_conversation (expired_conversation c)" for c
    by (simp add: active_conversation_def expired_conversation_def)
  have h: "pending_hold h \<Longrightarrow> \<not> pending_hold (expired_hold h)" for h
    by (simp add: pending_hold_def expired_hold_def)
  have "may_turn active_conversation expired_conversation
      (conversation_by_id i d) (conversation_by_id i f)" for i
    using assms c by (auto simp: lazy_def intro: may_turn_trans)
  moreover have "may_turn pending_hold expired_hold (hold_by_id i d) (hold_by_id i f)" for i
    using assms h by (auto simp: lazy_def intro: may_turn_trans)
  ultimately show ?thesis
    using assms by (auto simp: lazy_def intro: gr.R_trans)
qed

interpretation lz: db_history lazy
proof
  show "lazy d (d\<lparr>next_id := n\<rparr>)" for d n
    by (simp add: lazy_def gr.R_next_id)
qed (auto intro: lazy_trans)

lemma lazy_add_audit [simp]: "lazy d (add_audit r d)"
  by (simp add: lazy_def)

lemma lazy_expire_conversation:
  assumes "conversation_by_id i d = Some c" "cv_state c = CvActive"
  shows "lazy d (set_conversation i expired_conversation d)"
proof -
  have l: "conversation_by_id j (set_conversation i expired_conversation d) =
      map_option (\<lambda>c. if cv_id c = i then expired_conversation c else c) (conversation_by_id j d)" for j
    by (rule conversation_by_id_set) (simp add: expired_conversation_def)
  have t: "may_turn active_conversation expired_conversation (conversation_by_id j d)
      (conversation_by_id j (set_conversation i expired_conversation d))" for j
  proof (cases "conversation_by_id j d")
    case None
    then show ?thesis by (simp add: l)
  next
    case (Some b)
    then have "cv_id b = j" by (simp add: conversation_by_idD)
    with Some assms show ?thesis
      by (auto simp: l may_turn_def active_conversation_def)
  qed
  have "grows d (set_conversation i expired_conversation d)"
    by (rule grows_set_conversation) (simp add: expired_conversation_def conversation_step_def)
  with t show ?thesis by (simp add: lazy_def)
qed

lemma lazy_expire_hold:
  assumes "hold_by_id i d = Some h" "hd_status h \<in> {PendingAuto, PendingHuman}"
  shows "lazy d (set_hold i expired_hold d)"
proof -
  have l: "hold_by_id j (set_hold i expired_hold d) =
      map_option (\<lambda>h. if hd_id h = i then expired_hold h else h) (hold_by_id j d)" for j
    by (rule hold_by_id_set) (simp add: expired_hold_def)
  have t: "may_turn pending_hold expired_hold (hold_by_id j d)
      (hold_by_id j (set_hold i expired_hold d))" for j
  proof (cases "hold_by_id j d")
    case None
    then show ?thesis by (simp add: l)
  next
    case (Some b)
    then have "hd_id b = j" by (simp add: hold_by_idD)
    with Some assms show ?thesis
      by (auto simp: l may_turn_def pending_hold_def)
  qed
  have "grows d (set_hold i expired_hold d)"
    by (rule grows_set_hold) (simp add: expired_hold_def hold_step_def)
  with t show ?thesis by (simp add: lazy_def)
qed

section \<open>What is terminal stays terminal\<close>

text \<open>A looked-up row that satisfies \<open>P\<close> is still there, related to the old one by \<open>S\<close>.\<close>

definition stays :: "('r \<Rightarrow> bool) \<Rightarrow> ('r \<Rightarrow> 'r \<Rightarrow> bool) \<Rightarrow> 'r option \<Rightarrow> 'r option \<Rightarrow> bool" where
  "stays P S x y \<longleftrightarrow> (\<forall>r. x = Some r \<longrightarrow> P r \<longrightarrow> (\<exists>q. y = Some q \<and> P q \<and> S r q))"

lemma stays_refl [simp]: "(\<And>r. S r r) \<Longrightarrow> stays P S x x"
  by (simp add: stays_def)

lemma stays_trans:
  assumes "\<And>a b c. S a b \<Longrightarrow> S b c \<Longrightarrow> S a c" "stays P S x y" "stays P S y z"
  shows "stays P S x z"
  using assms unfolding stays_def by metis

lemma stays_None [simp]: "stays P S None y"
  by (simp add: stays_def)

definition suspended :: "agent \<Rightarrow> bool" where
  "suspended a \<longleftrightarrow> ag_status a = AgSuspended"

definition gone :: "participant \<Rightarrow> bool" where
  "gone p \<longleftrightarrow> pt_status p \<in> {PtLeft, PtDeclined}"

definition decided :: "approval_hold \<Rightarrow> bool" where
  "decided h \<longleftrightarrow> hd_status h \<in> {AutoApproved, Approved, Rejected, HoldExpired}"

definition same_decision :: "approval_hold \<Rightarrow> approval_hold \<Rightarrow> bool" where
  "same_decision h k \<longleftrightarrow> hd_status k = hd_status h \<and> hd_message_id k = hd_message_id h \<and>
     hd_decided_by_sub k = hd_decided_by_sub h \<and> hd_decided_at k = hd_decided_at h"

definition settled :: "db \<Rightarrow> db \<Rightarrow> bool" where
  "settled d d' \<longleftrightarrow>
     (\<forall>i. stays suspended (\<lambda>a b. True) (agent_by_id i d) (agent_by_id i d')) \<and>
     (\<forall>c a. stays gone (\<lambda>p q. pt_status q = pt_status p) (participant_of c a d) (participant_of c a d')) \<and>
     (\<forall>i. stays decided same_decision (hold_by_id i d) (hold_by_id i d'))"

interpretation st: db_history settled
proof
  show "settled d d" for d by (auto simp: settled_def same_decision_def)
  show "settled d f" if "settled d e" "settled e f" for d e f
  proof -
    have "stays suspended (\<lambda>a b. True) (agent_by_id i d) (agent_by_id i f)" for i
      using that by (auto simp: settled_def intro: stays_trans)
    moreover have "stays gone (\<lambda>p q. pt_status q = pt_status p)
        (participant_of c a d) (participant_of c a f)" for c a
      by (rule stays_trans [of _ _ _ "participant_of c a e"]) (use that in \<open>auto simp: settled_def\<close>)
    moreover have "stays decided same_decision (hold_by_id i d) (hold_by_id i f)" for i
      by (rule stays_trans [of _ _ _ "hold_by_id i e"])
         (use that in \<open>auto simp: settled_def same_decision_def\<close>)
    ultimately show ?thesis by (simp add: settled_def)
  qed
  show "settled d (d\<lparr>next_id := n\<rparr>)" for d n
    by (auto simp: settled_def lookup_defs same_decision_def)
qed

text \<open>Operations on other tables, and additions, settle.\<close>

lemma settled_frame:
  assumes "agents d' = agents d" "participants d' = participants d" "holds d' = holds d"
  shows "settled d d'"
  using assms by (simp add: settled_def lookup_defs same_decision_def)

lemma find_snoc: "find q xs = Some x \<Longrightarrow> find q (xs @ ys) = Some x"
  by (simp add: find_append)

lemma stays_find_append: "(\<And>r. S r r) \<Longrightarrow> stays P S (find q xs) (find q (xs @ ys))"
  by (auto simp: stays_def find_snoc)

lemma settled_add [simp]:
  "settled d (add_agent a d)" "settled d (add_participant p d)" "settled d (add_hold h d)"
  by (simp_all add: settled_def lookup_defs same_decision_def stays_find_append)

lemma settled_add_other [simp]:
  "settled d (add_conversation c d)" "settled d (add_message m d)" "settled d (add_audit r d)"
  "settled d (set_conversation i g d)"
  by (simp_all add: settled_frame)

lemma stays_map:
  assumes "\<And>r. x = Some r \<Longrightarrow> P r \<Longrightarrow> P (g r) \<and> S r (g r)"
  shows "stays P S x (map_option g x)"
  using assms by (cases x) (auto simp: stays_def)

lemma settled_set_agent:
  assumes "\<And>a. ag_id (f a) = ag_id a"
    "\<And>a. agent_by_id i d = Some a \<Longrightarrow> suspended a \<Longrightarrow> suspended (f a)"
  shows "settled d (set_agent i f d)"
proof -
  have "stays suspended (\<lambda>a b. True) (agent_by_id j d) (agent_by_id j (set_agent i f d))" for j
    unfolding agent_by_id_set [of f, OF assms(1)]
    by (rule stays_map) (use assms(2) in \<open>auto dest: agent_by_idD\<close>)
  then show ?thesis by (simp add: settled_def same_decision_def)
qed

lemma settled_set_participant:
  assumes "\<And>p. pt_conversation_id (f p) = pt_conversation_id p" "\<And>p. pt_agent_id (f p) = pt_agent_id p"
    and ok: "\<And>p. participant_of c a d = Some p \<Longrightarrow> gone p \<Longrightarrow> pt_status (f p) = pt_status p"
  shows "settled d (set_participant c a f d)"
proof -
  have "stays gone (\<lambda>p q. pt_status q = pt_status p) (participant_of c' a' d)
      (participant_of c' a' (set_participant c a f d))" for c' a'
    unfolding participant_of_set [of f, OF assms(1,2)]
  proof (rule stays_map)
    fix r
    assume r: "participant_of c' a' d = Some r" "gone r"
    then have "pt_conversation_id r = c'" "pt_agent_id r = a'" by (simp_all add: participant_ofD)
    with r ok [of r] show "gone (if pt_conversation_id r = c \<and> pt_agent_id r = a then f r else r) \<and>
        pt_status (if pt_conversation_id r = c \<and> pt_agent_id r = a then f r else r) = pt_status r"
      by (auto simp: gone_def)
  qed
  then show ?thesis by (simp add: settled_def same_decision_def)
qed

lemma settled_set_hold:
  assumes "\<And>h. hd_id (f h) = hd_id h" "\<And>h. hold_by_id i d = Some h \<Longrightarrow> \<not> decided h"
  shows "settled d (set_hold i f d)"
proof -
  have "stays decided same_decision (hold_by_id j d) (hold_by_id j (set_hold i f d))" for j
    unfolding hold_by_id_set [of f, OF assms(1)]
    by (rule stays_map) (use assms(2) in \<open>auto dest: hold_by_idD simp: same_decision_def\<close>)
  then show ?thesis by (simp add: settled_def)
qed

text \<open>Lazy expiry grows and settles, so a guard proved against \<open>lazy\<close> is proved against all three.\<close>

lemma lazy_grows: "lazy d d' \<Longrightarrow> grows d d'"
  by (simp add: lazy_def)

lemma lazy_settled:
  assumes "lazy d d'" shows "settled d d'"
proof -
  have "stays decided same_decision (hold_by_id i d) (hold_by_id i d')" for i
  proof -
    from assms have "may_turn pending_hold expired_hold (hold_by_id i d) (hold_by_id i d')"
      by (simp add: lazy_def)
    then show ?thesis
      by (auto simp: may_turn_def stays_def same_decision_def pending_hold_def decided_def)
  qed
  with assms show ?thesis by (simp add: settled_def lazy_def lookup_defs)
qed

lemma keeps_lazy_grows: "keeps lazy m \<Longrightarrow> keeps grows m"
  by (erule keeps_mono) (rule lazy_grows)

lemma keeps_lazy_settled: "keeps lazy m \<Longrightarrow> keeps settled m"
  by (erule keeps_mono) (rule lazy_settled)

end
