(* ===== verification/StateMachine.thy ===== *)
theory StateMachine
  imports Prelude
begin

text \<open>
  The conversation state machine (\<open>state_machine.py\<close>) and the registered vocabularies it and the
  service share (\<open>schemas.py\<close>): conversation types, message types, the payload registry and its
  size cap. Parsing a payload against its Pydantic model is a parameter of \<open>validate_payload\<close>.
\<close>

section \<open>Registered vocabularies\<close>

definition CONVERSATION_TYPES :: "string list" where
  "CONVERSATION_TYPES = [''internal'', ''asymmetric'', ''open'']"

definition MESSAGE_TYPES :: "string list" where
  "MESSAGE_TYPES = [
     ''availability_request'', ''availability_response'', ''conversation_opened'',
     ''counter_proposal'', ''confirm'', ''decline'', ''docs'', ''instruction_request'',
     ''instruction_share'', ''needs_clarification'', ''note'', ''task_assign'', ''task_report'',
     ''task_complete'', ''task_decline'', ''task_cancel'']"

text \<open>\<open>MESSAGE_SCHEMAS\<close> registers version 1 of every message type and nothing else.\<close>

definition MESSAGE_SCHEMAS :: "(string \<times> int) list" where
  "MESSAGE_SCHEMAS = [
     (''availability_request'', 1), (''availability_response'', 1), (''conversation_opened'', 1),
     (''counter_proposal'', 1), (''confirm'', 1), (''decline'', 1), (''docs'', 1),
     (''instruction_request'', 1), (''instruction_share'', 1), (''needs_clarification'', 1),
     (''note'', 1), (''task_assign'', 1), (''task_report'', 1), (''task_complete'', 1),
     (''task_decline'', 1), (''task_cancel'', 1)]"

definition MAX_REGISTERED_SCHEMA_VERSION :: int where
  "MAX_REGISTERED_SCHEMA_VERSION = Max (snd ` set MESSAGE_SCHEMAS)"

definition MAX_PAYLOAD_BYTES :: int where "MAX_PAYLOAD_BYTES = 1048576"
definition MAX_DISPLAY_NAME_LENGTH :: nat where "MAX_DISPLAY_NAME_LENGTH = 255"
definition MAX_ACCEPTED_TYPES :: nat where "MAX_ACCEPTED_TYPES = 20"
definition MAX_ACCEPTED_TYPE_LENGTH :: nat where "MAX_ACCEPTED_TYPE_LENGTH = 100"
definition MAX_CONVERSATION_NAME_LENGTH :: nat where "MAX_CONVERSATION_NAME_LENGTH = 120"

lemma max_registered_schema_version: "MAX_REGISTERED_SCHEMA_VERSION = 1"
  by (simp add: MAX_REGISTERED_SCHEMA_VERSION_def MESSAGE_SCHEMAS_def)

lemma message_schemas_types: "remdups (map fst MESSAGE_SCHEMAS) = MESSAGE_TYPES"
  by (simp add: MESSAGE_SCHEMAS_def MESSAGE_TYPES_def)

section \<open>Payload validation\<close>

text \<open>
  \<open>validate_payload\<close>: the size cap on the raw payload, the registry lookup, the schema's own
  validation, the size cap on the dumped payload. \<open>sz\<close> stands for the length of the UTF-8 encoded
  \<open>json.dumps\<close>, \<open>parse\<close> for \<open>schema_cls.model_validate(payload).model_dump(mode="json")\<close> of the
  Pydantic model registered for the message type; \<open>Inl\<close> carries its error summary.
\<close>

definition check_payload_size :: "(json \<Rightarrow> int) \<Rightarrow> json \<Rightarrow> string + unit" where
  "check_payload_size sz payload =
     (if sz payload > MAX_PAYLOAD_BYTES then Inl ''payload too large'' else Inr ())"

definition get_schema :: "string \<Rightarrow> int \<Rightarrow> string + string" where
  "get_schema message_type schema_version =
     (if (message_type, schema_version) \<in> set MESSAGE_SCHEMAS then Inr message_type
      else Inl ''unknown message schema'')"

definition validate_payload ::
  "(json \<Rightarrow> int) \<Rightarrow> (string \<Rightarrow> json \<Rightarrow> string + json) \<Rightarrow> string \<Rightarrow> int \<Rightarrow> json \<Rightarrow> string + json" where
  "validate_payload sz parse message_type schema_version payload =
     (case check_payload_size sz payload of Inl e \<Rightarrow> Inl e
      | Inr _ \<Rightarrow> (case get_schema message_type schema_version of Inl e \<Rightarrow> Inl e
      | Inr schema_cls \<Rightarrow> (case parse schema_cls payload of Inl e \<Rightarrow> Inl e
      | Inr dumped \<Rightarrow> (case check_payload_size sz dumped of Inl e \<Rightarrow> Inl e
      | Inr _ \<Rightarrow> Inr dumped))))"

lemma validate_payload_Inr:
  "validate_payload sz parse mt v p = Inr q \<Longrightarrow>
     (mt, v) \<in> set MESSAGE_SCHEMAS \<and> sz p \<le> MAX_PAYLOAD_BYTES \<and> sz q \<le> MAX_PAYLOAD_BYTES \<and>
     parse mt p = Inr q"
  by (auto simp: validate_payload_def check_payload_size_def get_schema_def
      split: sum.splits if_splits)

section \<open>Legality and transitions\<close>

definition is_message_legal :: "string \<Rightarrow> string \<Rightarrow> bool" where
  "is_message_legal conversation_state message_type =
     (if message_type \<notin> set MESSAGE_TYPES then False
      else conversation_state = ''active'')"

definition resulting_conversation_state :: "string \<Rightarrow> bool \<Rightarrow> string option" where
  "resulting_conversation_state message_type all_non_owners_declined =
     (if message_type \<in> {''confirm'', ''task_complete''} then Some ''completed''
      else if message_type = ''decline'' then
        (if all_non_owners_declined then Some ''canceled'' else None)
      else if message_type \<in> {''task_decline'', ''task_cancel''} then Some ''canceled''
      else None)"

text \<open>A message never resurrects or expires a conversation: it closes it or leaves it alone.\<close>

lemma resulting_state_closes:
  "resulting_conversation_state mt b = Some st \<Longrightarrow> st \<in> {''completed'', ''canceled''}"
  by (auto simp: resulting_conversation_state_def split: if_splits)

lemma closing_is_final:
  "resulting_conversation_state mt b = Some st \<Longrightarrow> \<not> is_message_legal st mt'"
  by (auto simp: is_message_legal_def dest!: resulting_state_closes)

end
