(* ===== verification/Plugins.thy ===== *)
theory Plugins
  imports StateMachine Store
begin

text \<open>
  The pluggable seams (\<open>plugins.py\<close>, and \<open>service.OwnershipClient\<close>): the context and verdict types,
  the record of the collaborators a deployment supplies, the shipped defaults
  (\<open>AgentTableOwnershipClient\<close>, \<open>BoundaryCrossingScorer\<close>, \<open>EscalateAllAutoApprover\<close>,
  \<open>AlwaysActiveChecker\<close>, \<open>RejectAllDocsVerifier\<close>) and the ownership predicates of conversation
  admission. A collaborator is a function that reads the database and its context and does not
  write; what it raises is a value of \<open>outcome\<close>.
\<close>

section \<open>Ownership\<close>

text \<open>
  The dictionary \<open>get_agent_owners\<close> returns. Either key may be missing: \<open>owners\<close> is then \<open>None\<close>
  (as for an explicit null), \<open>is_shared\<close> is \<open>None\<close>.
\<close>

record owner_info =
  oi_owners :: "string list option"
  oi_is_shared :: "json option"

fun truthy :: "json option \<Rightarrow> bool" where
  "truthy None = False"
| "truthy (Some JNull) = False"
| "truthy (Some (JBool b)) = b"
| "truthy (Some (JInt n)) = (n \<noteq> 0)"
| "truthy (Some (JFloat x)) = (case x of None \<Rightarrow> True | Some (m, e) \<Rightarrow> m \<noteq> 0)"
| "truthy (Some (JStr s)) = (s \<noteq> [])"
| "truthy (Some (JId n)) = True"
| "truthy (Some (JList xs)) = (xs \<noteq> [])"
| "truthy (Some (JObj kvs)) = (kvs \<noteq> [])"

text \<open>\<open>info.get("owners") or []\<close>, as a set.\<close>

definition owners_of :: "owner_info \<Rightarrow> string set" where
  "owners_of info = set (case oi_owners info of None \<Rightarrow> [] | Some xs \<Rightarrow> xs)"

definition agent_table_owners :: "db \<Rightarrow> nat \<Rightarrow> owner_info outcome" where
  "agent_table_owners d agent_id =
     (case agent_by_id agent_id d of
        None \<Rightarrow> Raised ''LookupError'' ''''
      | Some a \<Rightarrow> Returned \<lparr>oi_owners = Some [ag_owner_sub a],
                            oi_is_shared = Some (JBool (ag_is_shared a))\<rparr>)"

definition may_assign :: "string set \<Rightarrow> string set \<Rightarrow> bool" where
  "may_assign creator_owners assignee_owners \<longleftrightarrow> creator_owners \<inter> assignee_owners \<noteq> {}"

lemma may_assign_sym: "may_assign a b = may_assign b a"
  by (auto simp: may_assign_def)

text \<open>
  \<open>itertools.combinations(xs, 2)\<close>, and the admission predicate over it. The dictionaries of owner
  sets and shared flags are maps from agent ids.
\<close>

fun pairs_of :: "'a list \<Rightarrow> ('a \<times> 'a) list" where
  "pairs_of [] = []"
| "pairs_of (x # xs) = map (Pair x) xs @ pairs_of xs"

definition pair_admitted ::
  "string \<Rightarrow> (nat \<Rightarrow> string set) \<Rightarrow> (nat \<Rightarrow> bool) \<Rightarrow> nat \<times> nat \<Rightarrow> bool" where
  "pair_admitted conversation_type owner_sets is_shared_by_id = (\<lambda>(a, b).
     if conversation_type = ''internal'' then owner_sets a = owner_sets b
     else is_shared_by_id a \<or> is_shared_by_id b \<or> may_assign (owner_sets a) (owner_sets b))"

definition pairwise_admitted ::
  "string \<Rightarrow> nat list \<Rightarrow> (nat \<Rightarrow> string set) \<Rightarrow> (nat \<Rightarrow> bool) \<Rightarrow> bool" where
  "pairwise_admitted conversation_type participant_ids owner_sets is_shared_by_id \<longleftrightarrow>
     list_all (pair_admitted conversation_type owner_sets is_shared_by_id) (pairs_of participant_ids)"

lemma set_pairs_of_distinct:
  "distinct xs \<Longrightarrow> a \<in> set xs \<Longrightarrow> b \<in> set xs \<Longrightarrow> a \<noteq> b \<Longrightarrow>
    (a, b) \<in> set (pairs_of xs) \<or> (b, a) \<in> set (pairs_of xs)"
  by (induction xs) auto

lemma set_pairs_of_mem: "(a, b) \<in> set (pairs_of xs) \<Longrightarrow> a \<in> set xs \<and> b \<in> set xs"
  by (induction xs) auto

section \<open>Risk scoring\<close>

record risk_ctx =
  rc_conversation_type :: string
  rc_conversation_id :: "nat option"
  rc_sender_agent_id :: nat
  rc_other_agent_ids :: "nat list"
  rc_message_type :: string
  rc_schema_version :: int

record risk_verdict =
  rv_high_risk :: bool
  rv_reason :: "string option"
  rv_detail :: json

definition BARRIER_SENSITIVE_TYPES :: "string list" where
  "BARRIER_SENSITIVE_TYPES = [''note'', ''instruction_share'', ''docs'']"

definition risk_infra :: "string \<Rightarrow> 'a outcome" where
  "risk_infra cause = Raised ''RiskScoringInfraError'' cause"

definition low_risk :: risk_verdict where
  "low_risk = \<lparr>rv_high_risk = False, rv_reason = None, rv_detail = JNull\<rparr>"

definition crossing :: "json \<Rightarrow> risk_verdict" where
  "crossing detail = \<lparr>rv_high_risk = True, rv_reason = Some ''boundary_crossing'', rv_detail = detail\<rparr>"

text \<open>The loop over \<open>ctx.other_agent_ids\<close> inside \<open>try: ... except Exception\<close>.\<close>

fun lookup_all :: "(nat \<Rightarrow> owner_info outcome) \<Rightarrow> nat list \<Rightarrow> owner_info list outcome" where
  "lookup_all oc [] = Returned []"
| "lookup_all oc (i # is) =
     (case oc i of
        Returned info \<Rightarrow>
          (case lookup_all oc is of
             Returned infos \<Rightarrow> Returned (info # infos)
           | Raised n c \<Rightarrow> Raised n c
           | Cancelled \<Rightarrow> Cancelled)
      | Raised n c \<Rightarrow> Raised n c
      | Cancelled \<Rightarrow> Cancelled)"

definition asymmetric_score ::
  "(nat \<Rightarrow> owner_info outcome) \<Rightarrow> risk_ctx \<Rightarrow> owner_info list \<Rightarrow> risk_verdict outcome" where
  "asymmetric_score oc ctx other_infos =
     (if \<exists>info\<in>set other_infos. oi_is_shared info = Some (JBool True)
      then Returned (crossing (JObj [(''reason'', JStr ''shared_recipient'')]))
      else if rc_message_type ctx \<notin> set BARRIER_SENSITIVE_TYPES then Returned low_risk
      else case oc (rc_sender_agent_id ctx) of
          Raised n c \<Rightarrow> risk_infra ''ownership_unverified''
        | Cancelled \<Rightarrow> Cancelled
        | Returned sender_info \<Rightarrow>
            if oi_is_shared sender_info = Some (JBool True)
            then Returned \<lparr>rv_high_risk = False, rv_reason = None,
                           rv_detail = JObj [(''bypass'', JStr ''shared_sender'')]\<rparr>
            else if owners_of sender_info = {} then risk_infra ''empty_owner_set''
            else if \<exists>info\<in>set other_infos. owners_of info = {} then risk_infra ''empty_owner_set''
            else if \<Union>(owners_of ` set other_infos) \<subseteq> owners_of sender_info
            then Returned low_risk
            else Returned (crossing JNull))"

definition boundary_score ::
  "(nat \<Rightarrow> owner_info outcome) \<Rightarrow> risk_ctx \<Rightarrow> risk_verdict outcome" where
  "boundary_score oc ctx =
     (if rc_conversation_type ctx \<notin> set CONVERSATION_TYPES then risk_infra ''unknown_conversation_type''
      else if rc_conversation_type ctx = ''internal'' then Returned low_risk
      else if rc_conversation_type ctx = ''open'' then
        (if rc_message_type ctx \<notin> set BARRIER_SENSITIVE_TYPES then Returned low_risk
         else Returned (crossing JNull))
      else case lookup_all oc (rc_other_agent_ids ctx) of
          Raised n c \<Rightarrow> risk_infra ''ownership_unverified''
        | Cancelled \<Rightarrow> Cancelled
        | Returned other_infos \<Rightarrow> asymmetric_score oc ctx other_infos)"

subsection \<open>The ownership interface and what scoring gets from it\<close>

text \<open>
  What the callers of an ownership client rely on: it answers for every board agent with a
  non-empty owner set, its \<open>is_shared\<close> is a real boolean, and its answer depends on the \<open>agents\<close>
  table alone (so staging audit rows or expiring a conversation does not change it).
\<close>

locale ownership_service =
  fixes oc :: "db \<Rightarrow> nat \<Rightarrow> owner_info outcome"
  assumes answers: "agent_by_id i d = Some a \<Longrightarrow>
      \<exists>info. oc d i = Returned info \<and> owners_of info \<noteq> {}"
    and typed: "oc d i = Returned info \<Longrightarrow> \<exists>b. oi_is_shared info = Some (JBool b)"
    and frame: "agents d' = agents d \<Longrightarrow> oc d' i = oc d i"
begin

text \<open>The admission code tests truthiness, the scorer tests \<open>is True\<close>: here they agree.\<close>

lemma shared_tests_agree:
  "oc d i = Returned info \<Longrightarrow> truthy (oi_is_shared info) \<longleftrightarrow> oi_is_shared info = Some (JBool True)"
  using typed [of d i info] by auto

lemma lookup_all_answers:
  "\<forall>i\<in>set is. agent_by_id i d \<noteq> None \<Longrightarrow>
    \<exists>infos. lookup_all (oc d) is = Returned infos \<and> (\<forall>info\<in>set infos. owners_of info \<noteq> {})"
proof (induction "is")
  case Nil
  then show ?case by simp
next
  case (Cons i "is")
  then obtain infos where infos: "lookup_all (oc d) is = Returned infos"
      "\<forall>info\<in>set infos. owners_of info \<noteq> {}" by auto
  from Cons.prems obtain a where "agent_by_id i d = Some a" by auto
  from answers [OF this] obtain info where "oc d i = Returned info" "owners_of info \<noteq> {}" by blast
  with infos show ?case by simp
qed

lemma lookup_all_frame: "agents d' = agents d \<Longrightarrow> lookup_all (oc d') is = lookup_all (oc d) is"
  by (induction "is") (simp_all add: frame [of d' d] split: outcome.split)

lemma score_total:
  assumes "rc_conversation_type ctx \<in> set CONVERSATION_TYPES"
    and "agent_by_id (rc_sender_agent_id ctx) d \<noteq> None"
    and "\<forall>i\<in>set (rc_other_agent_ids ctx). agent_by_id i d \<noteq> None"
  shows "\<exists>v. boundary_score (oc d) ctx = Returned v"
proof -
  from assms(2) obtain a where "agent_by_id (rc_sender_agent_id ctx) d = Some a" by auto
  from answers [OF this] obtain s where s: "oc d (rc_sender_agent_id ctx) = Returned s"
      "owners_of s \<noteq> {}" by blast
  from lookup_all_answers [OF assms(3)] obtain infos where
      "lookup_all (oc d) (rc_other_agent_ids ctx) = Returned infos"
      "\<forall>info\<in>set infos. owners_of info \<noteq> {}" by blast
  with s assms(1) show ?thesis
    by (auto simp: boundary_score_def asymmetric_score_def)
qed

lemma score_frame:
  assumes "agents d' = agents d"
  shows "boundary_score (oc d') ctx = boundary_score (oc d) ctx"
proof -
  from assms have "oc d' = oc d" by (intro ext frame)
  then show ?thesis by simp
qed

end

interpretation at: ownership_service agent_table_owners
proof
  show "\<exists>info. agent_table_owners d i = Returned info \<and> owners_of info \<noteq> {}"
    if "agent_by_id i d = Some a" for i d a
    using that by (simp add: agent_table_owners_def owners_of_def)
  show "\<exists>b. oi_is_shared info = Some (JBool b)"
    if "agent_table_owners d i = Returned info" for d i info
    using that by (auto simp: agent_table_owners_def split: option.splits)
  show "agent_table_owners d' i = agent_table_owners d i" if "agents d' = agents d" for d' d i
    using that by (simp add: agent_table_owners_def agent_by_id_def)
qed

text \<open>
  The rule the scorer implements, stated on the \<open>agents\<close> table: when a message crosses an ownership
  boundary.
\<close>

definition shared_agent :: "db \<Rightarrow> nat \<Rightarrow> bool" where
  "shared_agent d i = (case agent_by_id i d of None \<Rightarrow> False | Some a \<Rightarrow> ag_is_shared a)"

definition owner_of :: "db \<Rightarrow> nat \<Rightarrow> string option" where
  "owner_of d i = map_option ag_owner_sub (agent_by_id i d)"

definition crosses_boundary :: "db \<Rightarrow> risk_ctx \<Rightarrow> bool" where
  "crosses_boundary d ctx \<longleftrightarrow>
     (rc_conversation_type ctx = ''open'' \<and> rc_message_type ctx \<in> set BARRIER_SENSITIVE_TYPES) \<or>
     (rc_conversation_type ctx = ''asymmetric'' \<and>
       ((\<exists>i\<in>set (rc_other_agent_ids ctx). shared_agent d i) \<or>
        (rc_message_type ctx \<in> set BARRIER_SENSITIVE_TYPES \<and>
         \<not> shared_agent d (rc_sender_agent_id ctx) \<and>
         (\<exists>i\<in>set (rc_other_agent_ids ctx). owner_of d i \<noteq> owner_of d (rc_sender_agent_id ctx)))))"

definition table_info :: "agent \<Rightarrow> owner_info" where
  "table_info a = \<lparr>oi_owners = Some [ag_owner_sub a], oi_is_shared = Some (JBool (ag_is_shared a))\<rparr>"

lemma agent_table_owners_Some:
  "agent_by_id i d = Some a \<Longrightarrow> agent_table_owners d i = Returned (table_info a)"
  by (simp add: agent_table_owners_def table_info_def)

lemma lookup_all_table:
  "\<forall>i\<in>set is. agent_by_id i d \<noteq> None \<Longrightarrow>
    lookup_all (agent_table_owners d) is = Returned (map (\<lambda>i. table_info (the (agent_by_id i d))) is)"
  by (induction "is") (auto simp: agent_table_owners_Some)

section \<open>The other seams\<close>

record participant_info =
  pi_agent_id :: nat
  pi_display_name :: string
  pi_role :: part_role
  pi_status :: part_status
  pi_sub :: string

record hold_ctx =
  hc_hold_id :: nat
  hc_conversation_id :: nat
  hc_conversation_type :: string
  hc_sender_agent_id :: nat
  hc_owner_sub :: string
  hc_message_type :: string
  hc_schema_version :: int
  hc_payload :: json
  hc_risk_reason :: string
  hc_participants :: "participant_info list"
  hc_sender_sub :: string

record notification =
  nt_hold_id :: nat
  nt_conversation_id :: nat
  nt_conversation_type :: string
  nt_sender_agent_id :: nat
  nt_sender_display_name :: string
  nt_owner_sub :: string
  nt_owner_email :: string
  nt_message_type :: string
  nt_risk_reason :: string
  nt_expires_at :: int
  nt_created_at :: int

record docs_ctx =
  dc_sender_agent_id :: nat
  dc_sender_sub :: string
  dc_conversation_id :: "nat option"
  dc_payload :: json

record docs_result =
  dr_verified :: bool
  dr_reason :: "string option"
  dr_detail :: json

text \<open>
  The collaborators of one deployment, with the display names the audit trail records, and the
  two library functions payload validation rests on. The auto-approver's decision is its \<open>cleared\<close>
  flag. The scorer receives the ownership client bound to the session.
\<close>

record plugins =
  ownership_client :: "db \<Rightarrow> nat \<Rightarrow> owner_info outcome"
  risk_scorer :: "(nat \<Rightarrow> owner_info outcome) \<Rightarrow> risk_ctx \<Rightarrow> risk_verdict outcome"
  risk_scorer_name :: string
  auto_approver :: "hold_ctx \<Rightarrow> bool outcome"
  auto_approver_name :: string
  notifier :: "notification \<Rightarrow> unit outcome"
  notifier_name :: string
  active_checker :: "string \<Rightarrow> bool outcome"
  docs_verifier :: "docs_ctx \<Rightarrow> docs_result outcome"
  docs_verifier_name :: string
  json_size :: "json \<Rightarrow> int"
  parse_payload :: "string \<Rightarrow> json \<Rightarrow> string + json"

definition escalate_all :: "hold_ctx \<Rightarrow> bool outcome" where
  "escalate_all ctx = Returned False"

definition always_active :: "string \<Rightarrow> bool outcome" where
  "always_active sub = Returned True"

definition reject_all_docs :: "docs_ctx \<Rightarrow> docs_result outcome" where
  "reject_all_docs ctx = Returned \<lparr>dr_verified = False,
     dr_reason = Some ''no_verifier_configured'', dr_detail = JNull\<rparr>"

definition log_only :: "notification \<Rightarrow> unit outcome" where
  "log_only n = Returned ()"

text \<open>The deployment of the base image: every registry default, over given library functions.\<close>

definition default_plugins :: "(json \<Rightarrow> int) \<Rightarrow> (string \<Rightarrow> json \<Rightarrow> string + json) \<Rightarrow> plugins" where
  "default_plugins sz parse = \<lparr>
     ownership_client = agent_table_owners,
     risk_scorer = boundary_score, risk_scorer_name = ''boundary_v1'',
     auto_approver = escalate_all, auto_approver_name = ''escalate_all'',
     notifier = log_only, notifier_name = ''log_only'',
     active_checker = always_active,
     docs_verifier = reject_all_docs, docs_verifier_name = ''reject_all'',
     json_size = sz, parse_payload = parse\<rparr>"

end
