(* ===== verification/Guards.thy ===== *)
theory Guards
  imports History Plugins
begin

text \<open>
  The audit trail and the guards every handler of \<open>service.py\<close> is built from: \<open>_audit\<close>, the
  \<open>_deny_*\<close> family (stage an audit row, commit, raise), the loaders that resolve a conversation and
  the caller's membership with lazy expiry, schema-version negotiation, the docs-verification stage
  and the rate limits. Every one of them is shown to leave nothing behind but audit rows and lazy
  expiry (\<open>keeps lazy\<close>), and what its success establishes is collected in \<open>okD\<close>.
\<close>

named_theorems okD \<open>what a guard's success establishes\<close>

section \<open>Constants\<close>

definition MAX_CONVERSATION_TTL :: int where "MAX_CONVERSATION_TTL = days 90"
definition MAX_MESSAGES_PER_CONVERSATION_PER_HOUR :: nat where
  "MAX_MESSAGES_PER_CONVERSATION_PER_HOUR = 30"
definition MAX_CONVERSATION_STARTS_PER_HOUR :: nat where "MAX_CONVERSATION_STARTS_PER_HOUR = 10"
definition MAX_MESSAGES_PER_SENDER_PER_HOUR :: nat where "MAX_MESSAGES_PER_SENDER_PER_HOUR = 120"
definition APPROVAL_HOLD_TTL :: int where "APPROVAL_HOLD_TTL = days 7"
definition MAX_APPROVAL_HOLDS_PER_MINUTE :: nat where "MAX_APPROVAL_HOLDS_PER_MINUTE = 25"
definition SYSTEM_MESSAGE_TYPES :: "string list" where
  "SYSTEM_MESSAGE_TYPES = [''conversation_opened'']"

text \<open>\<open>CONVERSATION_TTL[conversation_type]\<close>; \<open>None\<close> is the \<open>KeyError\<close>.\<close>

definition CONVERSATION_TTL :: "string \<Rightarrow> int option" where
  "CONVERSATION_TTL = map_of [(''open'', days 7), (''asymmetric'', days 14), (''internal'', days 30)]"

section \<open>The audit trail\<close>

definition audit_at ::
  "int option \<Rightarrow> string \<Rightarrow> string \<Rightarrow> nat option \<Rightarrow> nat option \<Rightarrow> nat option \<Rightarrow> json \<Rightarrow> unit M" where
  "audit_at at actor_sub action agent_id conversation_id message_id detail =
     bnd txn_now (\<lambda>default_at.
       change (add_audit \<lparr>al_at = (case at of None \<Rightarrow> default_at | Some t \<Rightarrow> t),
         al_actor_sub = actor_sub, al_action = action, al_agent_id = agent_id,
         al_conversation_id = conversation_id, al_message_id = message_id, al_detail = detail\<rparr>))"

definition audit ::
  "string \<Rightarrow> string \<Rightarrow> nat option \<Rightarrow> nat option \<Rightarrow> nat option \<Rightarrow> json \<Rightarrow> unit M" where
  "audit = audit_at None"

text \<open>The shape every denial has: audit, commit, raise.\<close>

definition refuse :: "err \<Rightarrow> string \<Rightarrow> string \<Rightarrow> nat option \<Rightarrow> nat option \<Rightarrow> json \<Rightarrow> 'a M" where
  "refuse e actor_sub action agent_id conversation_id detail =
     seqm (audit actor_sub action agent_id conversation_id None detail)
    (seqm commit
    (throw e))"

definition deny :: "string \<Rightarrow> string \<Rightarrow> nat option \<Rightarrow> nat option \<Rightarrow> json \<Rightarrow> 'a M" where
  "deny actor_sub action agent_id conversation_id detail =
     refuse (AccessDeniedError action) actor_sub action agent_id conversation_id detail"

lemma keeps_audit: "keeps lazy (audit a b c d e f)"
  unfolding audit_def audit_at_def by (intro lz.keeps_rules lz.keeps_change lazy_add_audit)

lemma keeps_refuse: "keeps lazy (refuse e a b c d f)"
  unfolding refuse_def by (intro lz.keeps_rules keeps_audit)

lemma keeps_deny: "keeps lazy (deny a b c d e)"
  unfolding deny_def by (rule keeps_refuse)

lemma silent_audit: "silent (audit a b c d e f)"
  unfolding audit_def audit_at_def by (intro silent_rules)

lemma commits_ok_audit: "commits_ok (audit a b c d e f)"
  by (intro commits_ok_silent silent_audit)

lemma commits_ok_refuse: "commits_ok (refuse e a b c d f)"
  unfolding refuse_def by (intro commits_ok_rules commits_ok_audit)

lemma commits_ok_deny: "commits_ok (deny a b c d e)"
  unfolding deny_def by (rule commits_ok_refuse)

lemma refuse_Inr [inr]: "refuse e a b c d f s = (Inr y, s') \<longleftrightarrow> False"
  by (simp add: refuse_def inr)

lemma deny_Inr [inr]: "deny a b c d f s = (Inr y, s') \<longleftrightarrow> False"
  by (simp add: deny_def inr)

lemma audit_Inr [inr]:
  "audit a b c d m f s = (Inr y, s') \<longleftrightarrow> s' = s\<lparr>working := add_audit
     \<lparr>al_at = txn_at s, al_actor_sub = a, al_action = b, al_agent_id = c, al_conversation_id = d,
      al_message_id = m, al_detail = f\<rparr> (working s)\<rparr>"
  by (auto simp: audit_def audit_at_def inr)

text \<open>A denial's outcome: the exception it is for, unless the audit row itself breaks a constraint.\<close>

lemma refuse_Inl:
  "refuse e a b c d f s = (Inl e', s') \<Longrightarrow> e' = e \<or> (\<exists>n. e' = IntegrityError n)"
  by (auto simp: refuse_def seqm_def bnd_def audit_def audit_at_def txn_now_def change_def commit_def
      throw_def split: option.splits prod.splits sum.splits)

section \<open>The denials\<close>

definition deny_agent_retired :: "string \<Rightarrow> nat \<Rightarrow> nat option \<Rightarrow> nat \<Rightarrow> 'a M" where
  "deny_agent_retired actor_sub agent_id conversation_id target_agent_id =
     refuse (AgentRetiredError ''denied.target_agent_retired'') actor_sub
       ''denied.target_agent_retired'' (Some agent_id) conversation_id
       (JObj [(''target_agent_id'', JId target_agent_id)])"

definition deny_agent_suspended :: "string \<Rightarrow> nat \<Rightarrow> 'a M" where
  "deny_agent_suspended sub agent_id =
     refuse (AgentSuspendedError sub) sub ''denied.reregister_suspended_agent'' (Some agent_id) None
       (JObj [(''sub'', JStr sub)])"

definition deny_sibling_identity_exists ::
  "string \<Rightarrow> string \<Rightarrow> string \<Rightarrow> string option list \<Rightarrow> 'a M" where
  "deny_sibling_identity_exists actor_sub base_sub sub existing_agent_keys =
     refuse (SiblingIdentityExistsError base_sub existing_agent_keys) actor_sub
       ''denied.sibling_identity_exists'' None None
       (JObj [(''base_sub'', JStr base_sub), (''sub'', JStr sub),
              (''existing_agent_keys'', JList (map json_opt_str existing_agent_keys))])"

definition deny_display_name_collision :: "string \<Rightarrow> string \<Rightarrow> string list \<Rightarrow> 'a M" where
  "deny_display_name_collision actor_sub display_name existing_subs =
     refuse (DisplayNameCollisionError display_name existing_subs) actor_sub
       ''denied.display_name_collision'' None None
       (JObj [(''display_name'', JStr display_name), (''colliding_subs'', JList (map JStr existing_subs))])"

definition deny_agent_already_registered :: "string \<Rightarrow> string \<Rightarrow> nat \<Rightarrow> 'a M" where
  "deny_agent_already_registered actor_sub sub existing_agent_id =
     refuse (AgentAlreadyRegisteredError sub) actor_sub ''denied.agent_already_registered''
       (Some existing_agent_id) None (JObj [(''target_sub'', JStr sub)])"

definition deny_bad_state :: "string \<Rightarrow> nat \<Rightarrow> nat \<Rightarrow> string \<Rightarrow> string \<Rightarrow> 'a M" where
  "deny_bad_state actor_sub agent_id conversation_id current_state message_type =
     refuse (InvalidConversationStateError current_state message_type) actor_sub ''denied.bad_state''
       (Some agent_id) (Some conversation_id)
       (JObj [(''state'', JStr current_state), (''message_type'', JStr message_type)])"

definition deny_archived :: "string \<Rightarrow> nat \<Rightarrow> nat \<Rightarrow> string \<Rightarrow> 'a M" where
  "deny_archived actor_sub agent_id conversation_id action =
     refuse ConversationArchivedError actor_sub action (Some agent_id) (Some conversation_id) JNull"

definition deny_rate_limited :: "string \<Rightarrow> nat \<Rightarrow> nat option \<Rightarrow> string \<Rightarrow> 'a M" where
  "deny_rate_limited actor_sub agent_id conversation_id limit_name =
     refuse (RateLimitExceededError limit_name) actor_sub ''denied.rate_limited'' (Some agent_id)
       conversation_id (JObj [(''limit'', JStr limit_name)])"

definition deny_schema_version_mismatch ::
  "string \<Rightarrow> nat \<Rightarrow> nat option \<Rightarrow> nat list \<Rightarrow> int \<Rightarrow> int \<Rightarrow> 'a M" where
  "deny_schema_version_mismatch actor_sub agent_id conversation_id participant_ids required_min available_max =
     refuse SchemaVersionMismatchError actor_sub ''denied.schema_version_mismatch'' (Some agent_id)
       conversation_id
       (JObj [(''participant_agent_ids'', JList (map JId participant_ids)),
              (''required_min'', JInt required_min), (''available_max'', JInt available_max)])"

definition deny_bad_schema :: "string \<Rightarrow> nat \<Rightarrow> nat option \<Rightarrow> string \<Rightarrow> string \<Rightarrow> 'a M" where
  "deny_bad_schema actor_sub agent_id conversation_id message_type exc =
     refuse (PayloadValidationError exc) actor_sub ''denied.bad_schema'' (Some agent_id)
       conversation_id (JObj [(''message_type'', JStr message_type)])"

text \<open>\<open>{**base, ...new}\<close> on a detail that may be null; as a dictionary, key order does not matter.\<close>

definition json_extend :: "json \<Rightarrow> (string \<times> json) list \<Rightarrow> json" where
  "json_extend base new = JObj ((case base of
       JObj kvs \<Rightarrow> filter (\<lambda>kv. fst kv \<notin> set (map fst new)) kvs | _ \<Rightarrow> []) @ new)"

definition deny_docs_unverified ::
  "string \<Rightarrow> string \<Rightarrow> nat \<Rightarrow> nat option \<Rightarrow> docs_result \<Rightarrow> 'a M" where
  "deny_docs_unverified docs_verifier_label actor_sub agent_id conversation_id result =
     (let safe_reason = take 200 (case dr_reason result of
            Some r \<Rightarrow> (if r = [] then ''unspecified'' else r) | None \<Rightarrow> ''unspecified'')
      in refuse (DocsVerificationFailedError safe_reason) actor_sub ''denied.docs_unverified''
           (Some agent_id) conversation_id
           (json_extend (dr_detail result)
             [(''reason'', JStr safe_reason), (''docs_verifier'', JStr docs_verifier_label)]))"

definition deny_if_system_message_type :: "string \<Rightarrow> nat \<Rightarrow> nat option \<Rightarrow> string \<Rightarrow> unit M" where
  "deny_if_system_message_type actor_sub agent_id conversation_id message_type =
     whenm (message_type \<in> set SYSTEM_MESSAGE_TYPES)
       (deny actor_sub ''denied.system_message_type'' (Some agent_id) conversation_id
         (JObj [(''message_type'', JStr message_type)]))"

lemmas denial_defs = deny_agent_retired_def deny_agent_suspended_def deny_sibling_identity_exists_def
  deny_display_name_collision_def deny_agent_already_registered_def deny_bad_state_def
  deny_archived_def deny_rate_limited_def deny_schema_version_mismatch_def deny_bad_schema_def
  deny_docs_unverified_def

lemma keeps_denials:
  "keeps lazy (deny_agent_retired a i c t)" "keeps lazy (deny_agent_suspended a i)"
  "keeps lazy (deny_sibling_identity_exists a b x ks)"
  "keeps lazy (deny_display_name_collision a b xs)"
  "keeps lazy (deny_agent_already_registered a b i)"
  "keeps lazy (deny_bad_state a i j b x)" "keeps lazy (deny_archived a i j b)"
  "keeps lazy (deny_rate_limited a i c b)" "keeps lazy (deny_schema_version_mismatch a i c ns p q)"
  "keeps lazy (deny_bad_schema a i c b x)" "keeps lazy (deny_docs_unverified b a i c r)"
  by (simp_all add: denial_defs Let_def keeps_refuse)

lemma commits_ok_denials:
  "commits_ok (deny_agent_retired a i c t)" "commits_ok (deny_agent_suspended a i)"
  "commits_ok (deny_sibling_identity_exists a b x ks)"
  "commits_ok (deny_display_name_collision a b xs)"
  "commits_ok (deny_agent_already_registered a b i)"
  "commits_ok (deny_bad_state a i j b x)" "commits_ok (deny_archived a i j b)"
  "commits_ok (deny_rate_limited a i c b)" "commits_ok (deny_schema_version_mismatch a i c ns p q)"
  "commits_ok (deny_bad_schema a i c b x)" "commits_ok (deny_docs_unverified b a i c r)"
  by (simp_all add: denial_defs Let_def commits_ok_refuse)

lemma denials_Inr [inr]:
  "deny_agent_retired a i c t s = (Inr y, s') \<longleftrightarrow> False"
  "deny_agent_suspended a i s = (Inr y, s') \<longleftrightarrow> False"
  "deny_sibling_identity_exists a b x ks s = (Inr y, s') \<longleftrightarrow> False"
  "deny_display_name_collision a b xs s = (Inr y, s') \<longleftrightarrow> False"
  "deny_agent_already_registered a b i s = (Inr y, s') \<longleftrightarrow> False"
  "deny_bad_state a i j b x s = (Inr y, s') \<longleftrightarrow> False"
  "deny_archived a i j b s = (Inr y, s') \<longleftrightarrow> False"
  "deny_rate_limited a i c b s = (Inr y, s') \<longleftrightarrow> False"
  "deny_schema_version_mismatch a i c ns p q s = (Inr y, s') \<longleftrightarrow> False"
  "deny_bad_schema a i c b x s = (Inr y, s') \<longleftrightarrow> False"
  "deny_docs_unverified b a i c r s = (Inr y, s') \<longleftrightarrow> False"
  by (simp_all add: denial_defs Let_def inr)

lemma keeps_system_message_type: "keeps lazy (deny_if_system_message_type a i c b)"
  unfolding deny_if_system_message_type_def by (intro lz.keeps_rules keeps_deny)

lemma system_message_type_Inr [inr]:
  "deny_if_system_message_type a i c b s = (Inr y, s') \<longleftrightarrow> b \<notin> set SYSTEM_MESSAGE_TYPES \<and> s' = s"
  by (auto simp: deny_if_system_message_type_def inr)

end
