(* ===== verification/Access.thy ===== *)
theory Access
  imports Guards
begin

text \<open>
  Loading what a handler works on (\<open>service.py\<close>, lines 1039 to 1505, and the rate limits): the agent
  acting, the conversation and the caller's participant row with lazy expiry, the schema version a
  conversation is pinned to, the approval hold. A loaded row is the row as it is after expiry; later
  mutations of the mapped object are updates of the row with its key.
\<close>

section \<open>Agents\<close>

definition find_agent_by_id :: "nat \<Rightarrow> agent option M" where
  "find_agent_by_id agent_id = query (agent_by_id agent_id)"

definition get_agent_by_sub :: "string \<Rightarrow> agent option M" where
  "get_agent_by_sub sub = query (agent_by_sub sub)"

definition agent_key_from_sub :: "string \<Rightarrow> string \<Rightarrow> string option" where
  "agent_key_from_sub sub base_sub =
     (if sub = base_sub then None else Some (drop (length base_sub + 2) sub))"

text \<open>The identities under one base token: the bare sub, and every \<open>base_sub::key\<close>.\<close>

definition is_identity_under :: "string \<Rightarrow> string \<Rightarrow> bool" where
  "is_identity_under base_sub sub \<longleftrightarrow> sub = base_sub \<or> starts_with sub (base_sub @ ''::'')"

record sibling =
  sb_agent_key :: "string option"
  sb_sub :: string
  sb_display_name :: string
  sb_status :: agent_status

text \<open>
  The query orders by \<open>sub\<close> with the database's collation; \<open>leq\<close> is that order's key.
\<close>

definition list_sibling_identities ::
  "(string \<Rightarrow> 'k::linorder) \<Rightarrow> string \<Rightarrow> string \<Rightarrow> sibling list M" where
  "list_sibling_identities collate base_sub exclude_sub =
     query (\<lambda>d. map (\<lambda>a. \<lparr>sb_agent_key = agent_key_from_sub (ag_sub a) base_sub, sb_sub = ag_sub a,
                          sb_display_name = ag_display_name a, sb_status = ag_status a\<rparr>)
       (sorted_by (collate \<circ> ag_sub)
         (filter (\<lambda>a. ag_sub a \<noteq> exclude_sub \<and> is_identity_under base_sub (ag_sub a)) (agents d))))"

definition fk_safe_agent_id :: "nat \<Rightarrow> nat option M" where
  "fk_safe_agent_id agent_id = query (\<lambda>d. map_option ag_id (agent_by_id agent_id d))"

definition require_active_agent :: "string \<Rightarrow> nat \<Rightarrow> agent M" where
  "require_active_agent actor_sub agent_id =
     bnd (find_agent_by_id agent_id) (\<lambda>agent.
       case agent of
         None \<Rightarrow> deny actor_sub ''denied.unknown_agent'' None None JNull
       | Some a \<Rightarrow>
           if ag_status a \<noteq> AgActive
           then deny actor_sub ''denied.unknown_agent'' (Some (ag_id a)) None JNull
           else ret a)"

text \<open>\<open>_is_active_safe\<close> fails open on an exception, never on a cancellation.\<close>

definition is_active_safe :: "(string \<Rightarrow> bool outcome) \<Rightarrow> string \<Rightarrow> bool M" where
  "is_active_safe checker sub =
     (case checker sub of Returned b \<Rightarrow> ret b | Raised _ _ \<Rightarrow> ret True | Cancelled \<Rightarrow> throw CancelledError)"

lemma keeps_require_active_agent: "keeps lazy (require_active_agent a i)"
  unfolding require_active_agent_def find_agent_by_id_def by (intro lz.keeps_rules keeps_deny)

lemma commits_ok_require_active_agent: "commits_ok (require_active_agent a i)"
  unfolding require_active_agent_def find_agent_by_id_def by (intro commits_ok_rules commits_ok_deny)

lemma require_active_agent_Inr [inr]:
  "require_active_agent a i s = (Inr x, s') \<longleftrightarrow>
     agent_by_id i (working s) = Some x \<and> ag_status x = AgActive \<and> s' = s"
  by (auto simp: require_active_agent_def find_agent_by_id_def inr split: option.splits if_splits)

lemma keeps_is_active_safe: "keeps lazy (is_active_safe ch sub)"
  unfolding is_active_safe_def by (intro lz.keeps_rules)

lemma commits_ok_is_active_safe: "commits_ok (is_active_safe ch sub)"
  unfolding is_active_safe_def by (intro commits_ok_rules)

lemma is_active_safe_Inr [inr]:
  "is_active_safe ch sub s = (Inr b, s') \<longleftrightarrow>
     s' = s \<and> ((ch sub = Returned b) \<or> (b \<and> (\<exists>n c. ch sub = Raised n c)))"
  by (auto simp: is_active_safe_def inr split: outcome.splits)

section \<open>Conversations and participants\<close>

definition find_conversation :: "nat \<Rightarrow> conversation option M" where
  "find_conversation conversation_id = query (conversation_by_id conversation_id)"

definition find_participant :: "nat \<Rightarrow> nat \<Rightarrow> participant option M" where
  "find_participant conversation_id agent_id = query (participant_of conversation_id agent_id)"

definition conversation_pinned_schema_version :: "nat \<Rightarrow> int M" where
  "conversation_pinned_schema_version conversation_id =
     bnd (query (\<lambda>d. find (\<lambda>m. ms_seq m = 1) (conv_messages conversation_id d))) (\<lambda>result.
       case result of None \<Rightarrow> throw RuntimeError | Some m \<Rightarrow> ret (ms_schema_version m))"

text \<open>\<open>_maybe_expire\<close>; the value returned is the mapped object afterwards.\<close>

definition maybe_expire :: "string \<Rightarrow> conversation \<Rightarrow> conversation M" where
  "maybe_expire actor_sub c =
     (if cv_state c = CvActive then
        bnd now (\<lambda>t.
          if cv_expires_at c \<le> t then
            seqm (change (set_conversation (cv_id c) expired_conversation))
           (seqm (audit actor_sub ''conversation.expire'' None (Some (cv_id c)) None JNull)
           (ret (expired_conversation c)))
          else ret c)
      else ret c)"

definition deny_not_member :: "string \<Rightarrow> nat \<Rightarrow> conversation option \<Rightarrow> 'a M" where
  "deny_not_member actor_sub agent_id conversation =
     bnd (fk_safe_agent_id agent_id) (\<lambda>safe_id.
       deny actor_sub ''denied.not_member'' safe_id (map_option cv_id conversation)
         (JObj [(''attempted_agent_id'', JId agent_id)]))"

definition load_participant_for_transition ::
  "string \<Rightarrow> nat \<Rightarrow> nat \<Rightarrow> part_status \<Rightarrow> (conversation \<times> participant) M" where
  "load_participant_for_transition actor_sub agent_id conversation_id required_status =
     bnd (find_conversation conversation_id) (\<lambda>conversation.
       case conversation of
         None \<Rightarrow> deny_not_member actor_sub agent_id None
       | Some c \<Rightarrow> bnd (find_participant conversation_id agent_id) (\<lambda>participant.
           case participant of
             None \<Rightarrow> deny_not_member actor_sub agent_id (Some c)
           | Some p \<Rightarrow> bnd (maybe_expire actor_sub c) (\<lambda>c.
               if pt_status p \<noteq> required_status then
                 deny actor_sub (''denied.wrong_state.'' @ part_status_name (pt_status p))
                   (Some agent_id) (Some (cv_id c))
                   (JObj [(''required_status'', JStr (part_status_name required_status)),
                          (''current_status'', JStr (part_status_name (pt_status p)))])
               else ret (c, p))))"

definition load_participant_for_read ::
  "string \<Rightarrow> nat \<Rightarrow> nat \<Rightarrow> bool \<Rightarrow> (conversation \<times> participant) M" where
  "load_participant_for_read actor_sub agent_id conversation_id allow_terminal_status =
     bnd (find_conversation conversation_id) (\<lambda>conversation.
       case conversation of
         None \<Rightarrow> deny_not_member actor_sub agent_id None
       | Some c \<Rightarrow> bnd (find_participant conversation_id agent_id) (\<lambda>participant.
           case participant of
             None \<Rightarrow> deny_not_member actor_sub agent_id (Some c)
           | Some p \<Rightarrow>
               if pt_status p \<in> {PtLeft, PtDeclined} \<and> \<not> allow_terminal_status then
                 deny actor_sub (''denied.wrong_state.'' @ part_status_name (pt_status p))
                   (Some agent_id) (Some (cv_id c))
                   (JObj [(''current_status'', JStr (part_status_name (pt_status p)))])
               else bnd (maybe_expire actor_sub c) (\<lambda>c. ret (c, p))))"

lemma keeps_at_maybe_expire:
  assumes "conversation_by_id (cv_id c) (working s) = Some c"
  shows "keeps_at lazy (maybe_expire a c) s"
proof (cases "cv_state c = CvActive")
  case True
  have "keeps_at lazy (change (set_conversation (cv_id c) expired_conversation))
      (s\<lparr>ticks := Suc (ticks s)\<rparr>)"
    using assms True by (intro lz.keeps_at_change) (simp add: lazy_expire_conversation)
  then have "keeps_at lazy (bnd now (\<lambda>t. if cv_expires_at c \<le> t then
            seqm (change (set_conversation (cv_id c) expired_conversation))
           (seqm (audit a ''conversation.expire'' None (Some (cv_id c)) None JNull)
           (ret (expired_conversation c))) else ret c)) s"
    by (intro lz.keeps_at_bnd [OF lz.keepsD [OF lz.keeps_prims(4)]])
       (simp add: now_Inr lz.keeps_at_seqm lz.keepsD lz.keeps_seqm keeps_audit lz.keeps_prims)
  with True show ?thesis by (simp add: maybe_expire_def)
next
  case False
  then show ?thesis by (simp add: maybe_expire_def lz.keepsD lz.keeps_prims)
qed

lemma commits_ok_maybe_expire: "commits_ok (maybe_expire a c)"
  unfolding maybe_expire_def by (intro commits_ok_rules commits_ok_audit)

lemma keeps_not_member: "keeps lazy (deny_not_member a i c)"
  unfolding deny_not_member_def fk_safe_agent_id_def by (intro lz.keeps_rules keeps_deny)

lemma commits_ok_not_member: "commits_ok (deny_not_member a i c)"
  unfolding deny_not_member_def fk_safe_agent_id_def by (intro commits_ok_rules commits_ok_deny)

lemma not_member_Inr [inr]: "deny_not_member a i c s = (Inr y, s') \<longleftrightarrow> False"
  by (simp add: deny_not_member_def inr)

text \<open>
  A loader reads the conversation, then the participant, and expires what it read: its body runs
  with the row it found still in place.
\<close>

lemma keeps_loader:
  assumes "\<And>c p s. conversation_by_id cid (working s) = Some c \<Longrightarrow> keeps_at lazy (body c p) s"
  shows "keeps lazy (bnd (find_conversation cid) (\<lambda>conversation.
       case conversation of None \<Rightarrow> deny_not_member a i None
       | Some c \<Rightarrow> bnd (find_participant cid i) (\<lambda>participant.
           case participant of None \<Rightarrow> deny_not_member a i (Some c) | Some p \<Rightarrow> body c p)))"
  unfolding find_conversation_def find_participant_def
  by (intro lz.keepsI lz.keeps_at_bnd lz.keepsD [OF lz.keeps_prims(3)])
     (auto simp: query_Inr split: option.split intro!: lz.keeps_at_bnd
        lz.keepsD [OF lz.keeps_prims(3)] lz.keepsD [OF keeps_not_member] assms)

lemma keeps_at_expire_then:
  assumes "conversation_by_id cid (working s) = Some c" "\<And>c. keeps lazy (f c)"
  shows "keeps_at lazy (bnd (maybe_expire a c) f) s"
  using assms conversation_by_idD [OF assms(1)]
  by (intro lz.keeps_at_bnd keeps_at_maybe_expire lz.keepsD) auto

lemma keeps_load_transition: "keeps lazy (load_participant_for_transition a i cid st)"
  unfolding load_participant_for_transition_def
  by (intro keeps_loader keeps_at_expire_then lz.keeps_if keeps_deny lz.keeps_prims)

lemma keeps_load_read: "keeps lazy (load_participant_for_read a i cid b)"
  unfolding load_participant_for_read_def
proof (rule keeps_loader)
  fix c and p :: participant and s :: session
  assume c: "conversation_by_id cid (working s) = Some c"
  have "keeps_at lazy (bnd (maybe_expire a c) (\<lambda>c. ret (c, p))) s"
    by (rule keeps_at_expire_then [OF c]) (rule lz.keeps_prims)
  then show "keeps_at lazy (if pt_status p \<in> {PtLeft, PtDeclined} \<and> \<not> b then
      deny a (''denied.wrong_state.'' @ part_status_name (pt_status p)) (Some i) (Some (cv_id c))
        (JObj [(''current_status'', JStr (part_status_name (pt_status p)))])
      else bnd (maybe_expire a c) (\<lambda>c. ret (c, p))) s"
    by (simp add: lz.keepsD [OF keeps_deny])
qed

lemma commits_ok_loads:
  "commits_ok (load_participant_for_transition a i cid st)"
  "commits_ok (load_participant_for_read a i cid b)"
  unfolding load_participant_for_transition_def load_participant_for_read_def
    find_conversation_def find_participant_def
  by (intro commits_ok_rules commits_ok_deny commits_ok_not_member commits_ok_maybe_expire)+

text \<open>
  What the loader's success establishes: membership in the required status in the working copy, the
  conversation as it is after expiry, and nothing else changed but audit rows.
\<close>

definition expiry_only :: "session \<Rightarrow> session \<Rightarrow> bool" where
  "expiry_only s t \<longleftrightarrow> committed t = committed s \<and> agents (working t) = agents (working s) \<and>
     participants (working t) = participants (working s) \<and>
     messages (working t) = messages (working s) \<and> holds (working t) = holds (working s) \<and>
     next_id (working t) = next_id (working s) \<and>
     clock t = clock s \<and> txn_at t = txn_at s \<and> lazy (working s) (working t)"

lemma maybe_expire_ok [okD]:
  assumes "maybe_expire a c s = (Inr c', s')" "conversation_by_id (cv_id c) (working s) = Some c"
  shows "expiry_only s s' \<and> conversation_by_id (cv_id c) (working s') = Some c' \<and>
    (c' = c \<or> (cv_state c = CvActive \<and> c' = expired_conversation c)) \<and>
    (cv_state c' = CvActive \<longrightarrow> (\<exists>n. clock s n < cv_expires_at c'))"
proof -
  have l: "conversation_by_id (cv_id c) (set_conversation (cv_id c) expired_conversation (working s)) =
      Some (expired_conversation c)"
    using assms(2) by (simp add: conversation_by_id_set expired_conversation_def)
  have lz: "cv_state c = CvActive \<Longrightarrow>
      lazy (working s) (add_audit r (set_conversation (cv_id c) expired_conversation (working s)))" for r
    using assms(2) lazy_expire_conversation lazy_add_audit lazy_trans by blast
  show ?thesis
    using assms l lz
    by (auto simp: maybe_expire_def inr expiry_only_def expired_conversation_def not_le
        split: if_splits)
qed

lemma load_transition_ok [okD]:
  assumes "load_participant_for_transition a i cid st s = (Inr (c, p), s')"
  shows "expiry_only s s' \<and> cv_id c = cid \<and> conversation_by_id cid (working s') = Some c \<and>
    participant_of cid i (working s') = Some p \<and> pt_status p = st \<and>
    (cv_state c = CvActive \<longrightarrow> (\<exists>n. clock s n < cv_expires_at c)) \<and>
    (\<exists>c0. conversation_by_id cid (working s) = Some c0 \<and>
       (c = c0 \<or> (cv_state c0 = CvActive \<and> c = expired_conversation c0)))"
  using assms
  by (auto simp: load_participant_for_transition_def find_conversation_def find_participant_def inr
      participant_of_def expiry_only_def expired_conversation_def
      split: option.splits if_splits
      dest!: maybe_expire_ok dest: conversation_by_idD)

lemma load_read_ok [okD]:
  assumes "load_participant_for_read a i cid b s = (Inr (c, p), s')"
  shows "expiry_only s s' \<and> cv_id c = cid \<and> conversation_by_id cid (working s') = Some c \<and>
    participant_of cid i (working s') = Some p \<and> (pt_status p \<in> {PtLeft, PtDeclined} \<longrightarrow> b)"
  using assms
  by (auto simp: load_participant_for_read_def find_conversation_def find_participant_def inr
      participant_of_def expiry_only_def
      split: option.splits if_splits
      dest!: maybe_expire_ok dest: conversation_by_idD)

end
