(* ===== verification/Policy.thy ===== *)
theory Policy
  imports Access
begin

text \<open>
  The policy seams and input validation of \<open>service.py\<close> (lines 788 to 1681): schema-version
  negotiation, verification of \<open>docs\<close> messages, the hold rate limit and lazy expiry of holds, the
  ownership pass of conversation admission, the participant policies, and the validators the tool
  layer and the service share.
\<close>

section \<open>Schema-version negotiation\<close>

text \<open>\<open>min\<close> and \<open>max\<close> over \<open>[initiator, *targets]\<close>.\<close>

definition negotiated_version :: "agent \<Rightarrow> agent list \<Rightarrow> int" where
  "negotiated_version initiator targets =
     min (foldr min (map ag_max_schema_version targets) (ag_max_schema_version initiator))
       MAX_REGISTERED_SCHEMA_VERSION"

definition required_floor :: "agent \<Rightarrow> agent list \<Rightarrow> int" where
  "required_floor initiator targets =
     foldr max (map ag_min_schema_version targets) (ag_min_schema_version initiator)"

definition negotiate_schema_version :: "string \<Rightarrow> agent \<Rightarrow> agent list \<Rightarrow> int M" where
  "negotiate_schema_version actor_sub initiator targets =
     (if required_floor initiator targets > negotiated_version initiator targets
      then deny_schema_version_mismatch actor_sub (ag_id initiator) None
             (map ag_id (initiator # targets)) (required_floor initiator targets)
             (negotiated_version initiator targets)
      else ret (negotiated_version initiator targets))"

lemma foldr_min: "foldr min xs (a::int) = Min (insert a (set xs))"
  by (induction xs) (simp_all add: insert_commute [of a])

lemma foldr_max: "foldr max xs (a::int) = Max (insert a (set xs))"
  by (induction xs) (simp_all add: insert_commute [of a])

lemma negotiate_Inr [inr]:
  "negotiate_schema_version a i ts s = (Inr v, s') \<longleftrightarrow>
     s' = s \<and> v = negotiated_version i ts \<and> required_floor i ts \<le> v"
  by (auto simp: negotiate_schema_version_def inr)

lemma keeps_negotiate: "keeps lazy (negotiate_schema_version a i ts)"
  unfolding negotiate_schema_version_def by (intro lz.keeps_rules keeps_denials)

lemma commits_ok_negotiate: "commits_ok (negotiate_schema_version a i ts)"
  unfolding negotiate_schema_version_def by (intro commits_ok_rules commits_ok_denials)

section \<open>Verification of docs messages\<close>

definition verify_docs_message ::
  "plugins \<Rightarrow> string \<Rightarrow> nat \<Rightarrow> string \<Rightarrow> nat option \<Rightarrow> string \<Rightarrow> json \<Rightarrow> unit M" where
  "verify_docs_message pl actor_sub sender_agent_id sender_sub conversation_id message_type payload =
     (if message_type \<noteq> ''docs'' then ret ()
      else case docs_verifier pl \<lparr>dc_sender_agent_id = sender_agent_id, dc_sender_sub = sender_sub,
               dc_conversation_id = conversation_id, dc_payload = payload\<rparr> of
          Raised n c \<Rightarrow>
            if n = ''DocsVerificationInfraError''
            then deny actor_sub ''denied.docs_verification_unscored'' (Some sender_agent_id)
                   conversation_id
                   (JObj [(''cause'', JStr c), (''docs_verifier'', JStr (docs_verifier_name pl))])
            else throw (PluginError n c)
        | Cancelled \<Rightarrow> throw CancelledError
        | Returned result \<Rightarrow>
            if \<not> dr_verified result
            then deny_docs_unverified (docs_verifier_name pl) actor_sub sender_agent_id
                   conversation_id result
            else ret ())"

lemma keeps_verify_docs: "keeps lazy (verify_docs_message pl a i b c mt p)"
  unfolding verify_docs_message_def by (intro lz.keeps_rules keeps_deny keeps_denials)

lemma commits_ok_verify_docs: "commits_ok (verify_docs_message pl a i b c mt p)"
  unfolding verify_docs_message_def by (intro commits_ok_rules commits_ok_deny commits_ok_denials)

lemma verify_docs_Inr [inr]:
  "verify_docs_message pl a i b c mt p s = (Inr y, s') \<longleftrightarrow> s' = s \<and>
     (mt = ''docs'' \<longrightarrow> (\<exists>r. docs_verifier pl \<lparr>dc_sender_agent_id = i, dc_sender_sub = b,
        dc_conversation_id = c, dc_payload = p\<rparr> = Returned r \<and> dr_verified r))"
  by (auto simp: verify_docs_message_def inr split: outcome.splits if_splits)

section \<open>Approval holds: rate limit and lazy expiry\<close>

definition recent_holds :: "nat \<Rightarrow> int \<Rightarrow> db \<Rightarrow> nat" where
  "recent_holds sender_agent_id since d = length (filter
     (\<lambda>h. hd_sender_agent_id h = sender_agent_id \<and> since < hd_created_at h) (holds d))"

definition deny_rate_limited_holds :: "string \<Rightarrow> nat \<Rightarrow> unit M" where
  "deny_rate_limited_holds actor_sub sender_agent_id =
     bnd now (\<lambda>t.
     bnd (query (recent_holds sender_agent_id (t - minutes 1))) (\<lambda>count.
       whenm (MAX_APPROVAL_HOLDS_PER_MINUTE \<le> count)
         (deny_rate_limited actor_sub sender_agent_id None ''approval_holds_per_minute'')))"

definition find_hold :: "nat \<Rightarrow> approval_hold option M" where
  "find_hold hold_id = query (hold_by_id hold_id)"

definition maybe_expire_hold :: "string \<Rightarrow> approval_hold \<Rightarrow> approval_hold M" where
  "maybe_expire_hold actor_sub h =
     (if hd_status h \<in> {PendingAuto, PendingHuman} then
        bnd now (\<lambda>t.
          if hd_expires_at h \<le> t then
            seqm (change (set_hold (hd_id h) expired_hold))
           (seqm (audit actor_sub ''approval.expire'' None (Some (hd_conversation_id h)) None
                    (JObj [(''hold_id'', JId (hd_id h))]))
           (ret (expired_hold h)))
          else ret h)
      else ret h)"

fun hold_status_name :: "hold_status \<Rightarrow> string" where
  "hold_status_name PendingAuto = ''pending_auto''"
| "hold_status_name PendingHuman = ''pending_human''"
| "hold_status_name AutoApproved = ''auto_approved''"
| "hold_status_name Approved = ''approved''"
| "hold_status_name Rejected = ''rejected''"
| "hold_status_name HoldExpired = ''expired''"

fun hold_kind_name :: "hold_kind \<Rightarrow> string" where
  "hold_kind_name KindMessage = ''message''"
| "hold_kind_name KindInvite = ''invite''"

definition when_some :: "string \<Rightarrow> ('a \<Rightarrow> json) \<Rightarrow> 'a option \<Rightarrow> (string \<times> json) list" where
  "when_some k f x = (case x of None \<Rightarrow> [] | Some v \<Rightarrow> [(k, f v)])"

text \<open>Instants are shown as \<open>isoformat()\<close> strings; the model keeps the instant.\<close>

definition hold_dict :: "approval_hold \<Rightarrow> json" where
  "hold_dict h = JObj
     ([(''hold_id'', JId (hd_id h)), (''conversation_id'', JId (hd_conversation_id h)),
       (''kind'', JStr (hold_kind_name (hd_kind h))),
       (''status'', JStr (hold_status_name (hd_status h))),
       (''risk_reason'', JStr (hd_risk_reason h)),
       (''created_at'', JInt (hd_created_at h)), (''expires_at'', JInt (hd_expires_at h))] @
      when_some ''decided_at'' JInt (hd_decided_at h) @
      when_some ''decision_reason'' JStr (hd_decision_reason h) @
      when_some ''message_id'' JId (hd_message_id h) @
      when_some ''target_agent_id'' JId (hd_target_agent_id h))"

lemma keeps_rate_limited_holds: "keeps lazy (deny_rate_limited_holds a i)"
  unfolding deny_rate_limited_holds_def by (intro lz.keeps_rules keeps_denials)

lemma commits_ok_rate_limited_holds: "commits_ok (deny_rate_limited_holds a i)"
  unfolding deny_rate_limited_holds_def by (intro commits_ok_rules commits_ok_denials)

lemma rate_limited_holds_Inr [inr]:
  "deny_rate_limited_holds a i s = (Inr y, s') \<longleftrightarrow>
     recent_holds i (clock s (ticks s) - minutes 1) (working s) < MAX_APPROVAL_HOLDS_PER_MINUTE \<and>
     s' = s\<lparr>ticks := Suc (ticks s)\<rparr>"
  by (auto simp: deny_rate_limited_holds_def inr)

lemma keeps_at_maybe_expire_hold:
  assumes "hold_by_id (hd_id h) (working s) = Some h"
  shows "keeps_at lazy (maybe_expire_hold a h) s"
proof (cases "hd_status h \<in> {PendingAuto, PendingHuman}")
  case True
  have "keeps_at lazy (change (set_hold (hd_id h) expired_hold)) (s\<lparr>ticks := Suc (ticks s)\<rparr>)"
    using assms True by (intro lz.keeps_at_change) (simp add: lazy_expire_hold)
  then have "keeps_at lazy (bnd now (\<lambda>t. if hd_expires_at h \<le> t then
            seqm (change (set_hold (hd_id h) expired_hold))
           (seqm (audit a ''approval.expire'' None (Some (hd_conversation_id h)) None
                    (JObj [(''hold_id'', JId (hd_id h))]))
           (ret (expired_hold h))) else ret h)) s"
    by (intro lz.keeps_at_bnd [OF lz.keepsD [OF lz.keeps_prims(4)]])
       (simp add: now_Inr lz.keeps_at_seqm lz.keepsD lz.keeps_seqm keeps_audit lz.keeps_prims)
  with True show ?thesis by (simp add: maybe_expire_hold_def)
next
  case False
  then show ?thesis by (simp add: maybe_expire_hold_def lz.keepsD lz.keeps_prims)
qed

lemma silent_maybe_expire_hold: "silent (maybe_expire_hold a h)"
  unfolding maybe_expire_hold_def by (intro silent_rules silent_audit)

lemma commits_ok_maybe_expire_hold: "commits_ok (maybe_expire_hold a h)"
  by (rule commits_ok_silent [OF silent_maybe_expire_hold])

lemma maybe_expire_hold_ok [okD]:
  assumes "maybe_expire_hold a h s = (Inr h', s')" "hold_by_id (hd_id h) (working s) = Some h"
  shows "hold_by_id (hd_id h) (working s') = Some h' \<and>
    (h' = h \<or> (pending_hold h \<and> h' = expired_hold h)) \<and>
    (pending_hold h' \<longrightarrow> (\<exists>n. clock s n < hd_expires_at h')) \<and>
    clock s' = clock s \<and> conversations (working s') = conversations (working s) \<and>
    lazy (working s) (working s')"
proof -
  have l: "hold_by_id (hd_id h) (set_hold (hd_id h) expired_hold (working s)) = Some (expired_hold h)"
    using assms(2) by (simp add: hold_by_id_set expired_hold_def)
  have lz: "pending_hold h \<Longrightarrow> lazy (working s) (add_audit r (set_hold (hd_id h) expired_hold (working s)))"
    for r using assms(2) lazy_expire_hold lazy_add_audit lazy_trans unfolding pending_hold_def by blast
  show ?thesis
    using assms l lz
    by (auto simp: maybe_expire_hold_def inr expired_hold_def pending_hold_def not_le split: if_splits)
qed

section \<open>Conversation admission\<close>

text \<open>
  \<open>_owner_sets_for\<close>: one lookup at a time, so the first failure is the outcome. The dictionaries are
  total functions with the defaults of \<open>dict.get\<close>; every key asked for is one of \<open>as\<close>.
\<close>

definition owner_sets_for ::
  "(nat \<Rightarrow> owner_info outcome) \<Rightarrow> agent list \<Rightarrow> ((nat \<Rightarrow> string set) \<times> (nat \<Rightarrow> bool)) outcome" where
  "owner_sets_for oc as =
     (case lookup_all oc (map ag_id as) of
        Raised n c \<Rightarrow> Raised n c
      | Cancelled \<Rightarrow> Cancelled
      | Returned infos \<Rightarrow>
          (let table = map_of (zip (map ag_id as) infos) in
           Returned (\<lambda>i. case table i of None \<Rightarrow> {} | Some info \<Rightarrow> owners_of info,
                     \<lambda>i. case table i of None \<Rightarrow> False | Some info \<Rightarrow> truthy (oi_is_shared info))))"

definition may_invite :: "part_status \<Rightarrow> bool" where
  "may_invite inviter_participant_status \<longleftrightarrow> inviter_participant_status = PtActive"

definition may_rename :: "part_status \<Rightarrow> bool" where
  "may_rename participant_status \<longleftrightarrow> participant_status = PtActive"

definition may_extend :: "part_status \<Rightarrow> bool" where
  "may_extend participant_status \<longleftrightarrow> participant_status = PtActive"

definition may_reopen :: "part_role \<Rightarrow> part_status \<Rightarrow> bool" where
  "may_reopen participant_role participant_status \<longleftrightarrow>
     participant_role = RoleOwner \<and> participant_status = PtActive"

section \<open>Projections\<close>

definition agent_public :: "agent \<Rightarrow> json" where
  "agent_public a = JObj
     [(''agent_id'', JId (ag_id a)), (''sub'', JStr (ag_sub a)),
      (''display_name'', JStr (ag_display_name a)), (''owner_email'', JStr (ag_owner_email a)),
      (''accepted_types'', JList (map JStr (ag_accepted_types a))),
      (''status'', JStr (agent_status_name (ag_status a))), (''is_shared'', JBool (ag_is_shared a))]"

definition json_opt_time :: "int option \<Rightarrow> json" where
  "json_opt_time t = (case t of None \<Rightarrow> JNull | Some x \<Rightarrow> JInt x)"

definition conversation_dict :: "conversation \<Rightarrow> json M" where
  "conversation_dict c =
     bnd now (\<lambda>t.
       let state = (if cv_state c = CvActive \<and> cv_expires_at c \<le> t then CvExpired else cv_state c)
       in ret (JObj
         [(''conversation_id'', JId (cv_id c)), (''name'', json_opt_str (cv_name c)),
          (''type'', JStr (cv_type c)), (''state'', JStr (conv_state_name state)),
          (''created_by'', JId (cv_created_by c)), (''expires_at'', JInt (cv_expires_at c)),
          (''created_at'', JInt (cv_created_at c)),
          (''archived'', JBool (cv_archived_at c \<noteq> None)),
          (''archived_at'', json_opt_time (cv_archived_at c))]))"

definition message_dict :: "message \<Rightarrow> string \<Rightarrow> json" where
  "message_dict m sender_sub = JObj
     [(''seq'', JInt (int (ms_seq m))), (''sender_agent_id'', JId (ms_sender_id m)),
      (''sender_sub'', JStr sender_sub), (''type'', JStr (ms_type m)),
      (''schema_version'', JInt (ms_schema_version m)), (''payload'', ms_payload m),
      (''created_at'', JInt (ms_created_at m))]"

section \<open>Validators\<close>

definition validate_schema_version_range :: "int \<Rightarrow> int \<Rightarrow> err + unit" where
  "validate_schema_version_range min_schema_version max_schema_version =
     (if min_schema_version < 1 then Inl (ValueError ''min_schema_version must be >= 1'')
      else if min_schema_version > max_schema_version
      then Inl (ValueError ''min_schema_version must be <= max_schema_version'')
      else Inr ())"

definition validate_conversation_name :: "string option \<Rightarrow> err + string option" where
  "validate_conversation_name name =
     (case name of None \<Rightarrow> Inr None
      | Some raw \<Rightarrow>
          let name = str_strip raw in
          if name = [] then Inl (ValueError ''name must be non-empty if provided'')
          else if MAX_CONVERSATION_NAME_LENGTH < length name
          then Inl (ValueError ''name exceeds 120 characters'')
          else if \<exists>c\<in>set name. is_control c
          then Inl (ValueError ''name must not contain control characters'')
          else Inr (Some name))"

definition validate_display_name_and_accepted_types ::
  "string \<Rightarrow> string list option \<Rightarrow> err + (string \<times> string list option)" where
  "validate_display_name_and_accepted_types raw accepted_types =
     (let display_name = str_strip raw in
      if display_name = [] then Inl (ValueError ''display_name must be non-empty'')
      else if MAX_DISPLAY_NAME_LENGTH < length display_name
      then Inl (ValueError ''display_name exceeds 255 characters'')
      else case accepted_types of None \<Rightarrow> Inr (display_name, None)
      | Some ts \<Rightarrow>
          if MAX_ACCEPTED_TYPES < length ts then Inl (ValueError ''accepted_types exceeds 20 entries'')
          else if ts = [] then Inr (display_name, Some [])
          else if \<exists>t\<in>set ts. MAX_ACCEPTED_TYPE_LENGTH < length t
          then Inl (ValueError ''accepted_types entries must not exceed 100 characters'')
          else if \<exists>t\<in>set ts. t \<notin> set MESSAGE_TYPES then Inl UnknownConversationTypeError
          else Inr (display_name, Some (sorted_set ts)))"

end
