(* ===== verification/Boundary.thy ===== *)
theory Boundary
  imports Policy
begin

text \<open>
  The stages a message or an invite passes on its way to the board (\<open>service.py\<close>, lines 5048 to
  5907): the rate limits, the capability gate, the risk scorer, the sender-role rule, and the diversion
  of a high-risk message or invite into an approval hold, which the configured auto-approver clears on
  the spot or escalates to the owner.
\<close>

definition INVITE_HOLD_MESSAGE_TYPE :: string where "INVITE_HOLD_MESSAGE_TYPE = ''invite''"
definition INVITE_HOLD_SCHEMA_VERSION :: int where "INVITE_HOLD_SCHEMA_VERSION = 1"
definition INVITE_HOLD_RISK_REASON :: string where
  "INVITE_HOLD_RISK_REASON = ''note_history_requires_approval''"
definition INVITE_HOLD_RISK_SCORER_LABEL :: string where
  "INVITE_HOLD_RISK_SCORER_LABEL = ''invite_note_history_v1''"
definition AGENT_REQUESTED_RISK_REASON :: string where
  "AGENT_REQUESTED_RISK_REASON = ''agent_requested''"
definition AGENT_REQUESTED_RISK_SCORER_LABEL :: string where
  "AGENT_REQUESTED_RISK_SCORER_LABEL = ''agent_requested''"

section \<open>Rate limits\<close>

definition recent_messages :: "(message \<Rightarrow> bool) \<Rightarrow> int \<Rightarrow> db \<Rightarrow> nat" where
  "recent_messages p since d = length (filter (\<lambda>m. p m \<and> since < ms_created_at m) (messages d))"

definition enforce_message_rate_limit :: "string \<Rightarrow> nat \<Rightarrow> nat \<Rightarrow> unit M" where
  "enforce_message_rate_limit actor_sub sender_agent_id conversation_id =
     bnd now (\<lambda>t.
     bnd (query (recent_messages (\<lambda>m. ms_conversation_id m = conversation_id \<and>
            ms_sender_id m = sender_agent_id) (t - hours 1))) (\<lambda>count.
       whenm (MAX_MESSAGES_PER_CONVERSATION_PER_HOUR \<le> count)
         (deny_rate_limited actor_sub sender_agent_id (Some conversation_id)
           ''messages_per_conversation_per_hour'')))"

definition enforce_sender_global_rate_limit :: "string \<Rightarrow> nat \<Rightarrow> unit M" where
  "enforce_sender_global_rate_limit actor_sub sender_agent_id =
     bnd now (\<lambda>t.
     bnd (query (recent_messages (\<lambda>m. ms_sender_id m = sender_agent_id) (t - hours 1))) (\<lambda>count.
       whenm (MAX_MESSAGES_PER_SENDER_PER_HOUR \<le> count)
         (deny_rate_limited actor_sub sender_agent_id None ''messages_per_sender_per_hour'')))"

definition recent_starts :: "nat \<Rightarrow> int \<Rightarrow> db \<Rightarrow> nat" where
  "recent_starts initiator since d =
     length (filter (\<lambda>c. cv_created_by c = initiator \<and> since < cv_created_at c) (conversations d))"

definition enforce_start_rate_limit :: "string \<Rightarrow> agent \<Rightarrow> unit M" where
  "enforce_start_rate_limit actor_sub initiator =
     bnd now (\<lambda>t.
     bnd (query (recent_starts (ag_id initiator) (t - hours 1))) (\<lambda>count.
       whenm (MAX_CONVERSATION_STARTS_PER_HOUR \<le> count)
         (deny_rate_limited actor_sub (ag_id initiator) None ''conversation_starts_per_hour'')))"

section \<open>Risk, capability and role\<close>

definition all_non_owners_declined :: "nat \<Rightarrow> db \<Rightarrow> bool" where
  "all_non_owners_declined conversation_id d =
     (let member_statuses = map pt_status
            (filter (\<lambda>p. pt_role p = RoleMember) (conv_participants conversation_id d))
      in member_statuses \<noteq> [] \<and> list_all (\<lambda>st. st = PtDeclined) member_statuses)"

definition score_message_risk :: "plugins \<Rightarrow> string \<Rightarrow> risk_ctx \<Rightarrow> string option M" where
  "score_message_risk pl actor_sub ctx =
     bnd (query (\<lambda>d. risk_scorer pl (ownership_client pl d) ctx)) (\<lambda>r.
       case r of
         Raised n c \<Rightarrow>
           if n = ''RiskScoringInfraError''
           then deny actor_sub ''denied.risk_unscored'' (Some (rc_sender_agent_id ctx))
                  (rc_conversation_id ctx)
                  (JObj [(''message_type'', JStr (rc_message_type ctx)), (''cause'', JStr c)])
           else throw (PluginError n c)
       | Cancelled \<Rightarrow> throw CancelledError
       | Returned verdict \<Rightarrow>
           if json_get (rv_detail verdict) ''bypass'' = Some (JStr ''shared_sender'')
           then seqm (audit actor_sub ''risk.shared_sender_bypass'' (Some (rc_sender_agent_id ctx))
                       (rc_conversation_id ctx) None
                       (JObj [(''message_type'', JStr (rc_message_type ctx))]))
                (ret None)
           else if rv_high_risk verdict then ret (rv_reason verdict)
           else ret None)"

definition enforce_message_type_accepted ::
  "string \<Rightarrow> nat \<Rightarrow> nat option \<Rightarrow> (nat \<times> string list) list \<Rightarrow> string \<Rightarrow> unit M" where
  "enforce_message_type_accepted actor_sub sender_agent_id conversation_id other_agents message_type =
     (case find (\<lambda>(i, accepted). accepted \<noteq> [] \<and> message_type \<notin> set accepted)
             (sorted_by fst other_agents) of
        None \<Rightarrow> ret ()
      | Some _ \<Rightarrow> deny actor_sub ''denied.message_type_not_accepted'' (Some sender_agent_id)
                    conversation_id (JObj [(''message_type'', JStr message_type)]))"

text \<open>Participants joined with their agents.\<close>

definition join_agents :: "participant list \<Rightarrow> db \<Rightarrow> (participant \<times> agent) list" where
  "join_agents ps d = List.map_filter
     (\<lambda>p. map_option (\<lambda>a. (p, a)) (agent_by_id (pt_agent_id p) d)) ps"

definition other_participants :: "nat \<Rightarrow> nat \<Rightarrow> db \<Rightarrow> (participant \<times> agent) list" where
  "other_participants sender_agent_id conversation_id d =
     sorted_by (ag_sub \<circ> snd) (join_agents (filter
       (\<lambda>p. pt_agent_id p \<noteq> sender_agent_id \<and> pt_status p \<in> {PtActive, PtInvited})
       (conv_participants conversation_id d)) d)"

definition participant_info_of :: "participant \<times> agent \<Rightarrow> participant_info" where
  "participant_info_of = (\<lambda>(p, a). \<lparr>pi_agent_id = pt_agent_id p, pi_display_name = ag_display_name a,
     pi_role = pt_role p, pi_status = pt_status p, pi_sub = ag_sub a\<rparr>)"

definition fetch_boundary_participants ::
  "nat \<Rightarrow> nat \<Rightarrow> (nat list \<times> (nat \<times> string list) list \<times> participant_info list) M" where
  "fetch_boundary_participants sender_agent_id conversation_id =
     bnd (query (other_participants sender_agent_id conversation_id)) (\<lambda>rows.
       ret (map (pt_agent_id \<circ> fst) rows,
            map (\<lambda>(p, a). (pt_agent_id p, ag_accepted_types a))
              (filter (\<lambda>(p, a). pt_status p = PtActive) rows),
            map participant_info_of rows))"

definition check_boundary_crossing ::
  "plugins \<Rightarrow> string \<Rightarrow> nat \<Rightarrow> conversation \<Rightarrow> string \<Rightarrow> int \<Rightarrow>
     (string option \<times> participant_info list) M" where
  "check_boundary_crossing pl actor_sub sender_agent_id c message_type schema_version =
     bnd (fetch_boundary_participants sender_agent_id (cv_id c))
       (\<lambda>(other_ids, capability_others, participants).
     seqm (enforce_message_type_accepted actor_sub sender_agent_id (Some (cv_id c))
            capability_others message_type)
    (bnd (score_message_risk pl actor_sub
            \<lparr>rc_conversation_type = cv_type c, rc_conversation_id = Some (cv_id c),
             rc_sender_agent_id = sender_agent_id, rc_other_agent_ids = other_ids,
             rc_message_type = message_type, rc_schema_version = schema_version\<rparr>) (\<lambda>risk_reason.
     ret (risk_reason, participants))))"

definition MESSAGE_TYPE_SENDER_ROLES :: "string \<Rightarrow> part_role option" where
  "MESSAGE_TYPE_SENDER_ROLES =
     map_of [(''task_cancel'', RoleOwner), (''task_decline'', RoleMember)]"

definition require_message_sender_role ::
  "string \<Rightarrow> nat \<Rightarrow> nat option \<Rightarrow> string \<Rightarrow> part_role \<Rightarrow> unit M" where
  "require_message_sender_role actor_sub sender_agent_id conversation_id message_type sender_role =
     (case MESSAGE_TYPE_SENDER_ROLES message_type of
        None \<Rightarrow> ret ()
      | Some required_role \<Rightarrow>
          whenm (sender_role \<noteq> required_role)
            (deny actor_sub ''denied.wrong_sender_role'' (Some sender_agent_id) conversation_id
              (JObj [(''message_type'', JStr message_type),
                     (''required_role'', JStr (part_role_name required_role))])))"

section \<open>Inserting a message\<close>

definition last_seq :: "nat \<Rightarrow> db \<Rightarrow> nat" where
  "last_seq conversation_id d = foldr max (map ms_seq (conv_messages conversation_id d)) 0"

definition insert_message ::
  "nat \<Rightarrow> nat \<Rightarrow> nat \<Rightarrow> string \<Rightarrow> int \<Rightarrow> json \<Rightarrow> message M" where
  "insert_message conversation_id seq sender_id message_type schema_version payload =
     bnd new_id (\<lambda>i.
     bnd txn_now (\<lambda>created_at.
       let m = \<lparr>ms_id = i, ms_conversation_id = conversation_id, ms_seq = seq,
                ms_sender_id = sender_id, ms_type = message_type,
                ms_schema_version = schema_version, ms_payload = payload,
                ms_created_at = created_at\<rparr>
       in seqm (change (add_message m)) (seqm flush (ret m))))"

definition insert_message_for_hold :: "conversation \<Rightarrow> approval_hold \<Rightarrow> (message \<times> nat) M" where
  "insert_message_for_hold c h =
     bnd (query (last_seq (cv_id c))) (\<lambda>last.
     bnd (insert_message (cv_id c) (last + 1) (hd_sender_agent_id h) (hd_message_type h)
            (hd_schema_version h) (hd_payload h)) (\<lambda>m.
     seqm (change (set_hold (hd_id h) (\<lambda>k. k\<lparr>hd_message_id := Some (ms_id m)\<rparr>)))
    (ret (m, last + 1))))"

section \<open>Diversion into an approval hold\<close>

definition insert_hold ::
  "nat \<Rightarrow> nat \<Rightarrow> nat option \<Rightarrow> hold_kind \<Rightarrow> string \<Rightarrow> string \<Rightarrow> int \<Rightarrow> json \<Rightarrow> string \<Rightarrow> string \<Rightarrow>
     int \<Rightarrow> approval_hold M" where
  "insert_hold conversation_id sender_agent_id target_agent_id kind owner_sub message_type
       schema_version payload risk_reason scorer expires_at =
     bnd new_id (\<lambda>i.
     bnd txn_now (\<lambda>created_at.
       let h = \<lparr>hd_id = i, hd_conversation_id = conversation_id,
                hd_sender_agent_id = sender_agent_id, hd_target_agent_id = target_agent_id,
                hd_kind = kind, hd_owner_sub = owner_sub, hd_message_type = message_type,
                hd_schema_version = schema_version, hd_payload = payload,
                hd_risk_reason = risk_reason, hd_risk_scorer = scorer, hd_status = PendingAuto,
                hd_auto_approver = None, hd_auto_decision = None, hd_auto_decided_at = None,
                hd_decided_by_sub = None, hd_decided_at = None, hd_decision_reason = None,
                hd_message_id = None, hd_expires_at = expires_at, hd_created_at = created_at\<rparr>
       in seqm (change (add_hold h)) (seqm flush (ret h))))"

text \<open>The columns the auto-approver's decision writes.\<close>

definition auto_decided :: "hold_status \<Rightarrow> auto_decision \<Rightarrow> int \<Rightarrow> approval_hold \<Rightarrow> approval_hold" where
  "auto_decided st decision t h =
     h\<lparr>hd_status := st, hd_auto_decision := Some decision, hd_auto_decided_at := Some t\<rparr>"

definition system_actor :: "plugins \<Rightarrow> string" where
  "system_actor pl = ''system:auto_approver/'' @ auto_approver_name pl"

definition clear_message_hold ::
  "plugins \<Rightarrow> conversation \<Rightarrow> approval_hold \<Rightarrow> message M" where
  "clear_message_hold pl c h =
     bnd (insert_message_for_hold c h) (\<lambda>(m, next_seq).
     bnd now (\<lambda>t.
     seqm (change (set_hold (hd_id h) (auto_decided AutoApproved Cleared t)))
    (seqm (audit (system_actor pl) ''approval.auto_approve'' (Some (hd_sender_agent_id h))
             (Some (cv_id c)) (Some (ms_id m)) (JObj [(''hold_id'', JId (hd_id h))]))
    (seqm (audit (system_actor pl) ''message.post'' (Some (hd_sender_agent_id h))
             (Some (cv_id c)) (Some (ms_id m))
             (JObj [(''seq'', JInt (int next_seq)), (''message_type'', JStr (hd_message_type h)),
                    (''hold_id'', JId (hd_id h))]))
    (ret m)))))"

definition escalate_hold ::
  "plugins \<Rightarrow> string \<Rightarrow> conversation \<Rightarrow> approval_hold \<Rightarrow> approval_hold M" where
  "escalate_hold pl actor_sub c h =
     bnd now (\<lambda>t.
     seqm (change (set_hold (hd_id h) (auto_decided PendingHuman Escalated t)))
    (seqm (audit actor_sub ''approval.escalate'' (Some (hd_sender_agent_id h)) (Some (cv_id c)) None
             (JObj [(''hold_id'', JId (hd_id h)), (''auto_approver'', JStr (auto_approver_name pl))]))
    (ret (auto_decided PendingHuman Escalated t
            (h\<lparr>hd_auto_approver := Some (auto_approver_name pl)\<rparr>)))))"

definition divert_high_risk_message ::
  "plugins \<Rightarrow> string \<Rightarrow> conversation \<Rightarrow> agent \<Rightarrow> string option \<Rightarrow> string \<Rightarrow> int \<Rightarrow> json \<Rightarrow> string \<Rightarrow>
     participant_info list \<Rightarrow> json \<Rightarrow> (message + approval_hold) M" where
  "divert_high_risk_message pl actor_sub c sender owner_sub_claim message_type schema_version payload
       risk_reason infos extra_audit_detail =
     bnd now (\<lambda>t.
     let owner_sub = (case owner_sub_claim of Some x \<Rightarrow> x | None \<Rightarrow> ag_owner_sub sender);
         scorer = (if risk_reason = AGENT_REQUESTED_RISK_REASON
                   then AGENT_REQUESTED_RISK_SCORER_LABEL else risk_scorer_name pl)
     in bnd (insert_hold (cv_id c) (ag_id sender) None KindMessage owner_sub message_type
               schema_version payload risk_reason scorer (t + APPROVAL_HOLD_TTL)) (\<lambda>h.
        seqm (audit actor_sub ''approval.hold'' (Some (ag_id sender)) (Some (cv_id c)) None
                (json_extend extra_audit_detail
                  [(''hold_id'', JId (hd_id h)), (''risk_reason'', JStr risk_reason),
                   (''risk_scorer'', JStr scorer), (''message_type'', JStr message_type)]))
       (seqm (change (set_hold (hd_id h) (\<lambda>k. k\<lparr>hd_auto_approver := Some (auto_approver_name pl)\<rparr>)))
       (bnd (call (auto_approver pl
               \<lparr>hc_hold_id = hd_id h, hc_conversation_id = cv_id c, hc_conversation_type = cv_type c,
                hc_sender_agent_id = ag_id sender, hc_owner_sub = owner_sub,
                hc_message_type = message_type, hc_schema_version = schema_version,
                hc_payload = payload, hc_risk_reason = risk_reason,
                hc_participants = infos, hc_sender_sub = ag_sub sender\<rparr>)) (\<lambda>cleared.
        if cleared \<and> risk_reason \<noteq> AGENT_REQUESTED_RISK_REASON
        then bnd (clear_message_hold pl c h) (\<lambda>m. ret (Inl m))
        else bnd (escalate_hold pl actor_sub c h) (\<lambda>k. ret (Inr k)))))))"

text \<open>The row an admission writes: an invited member.\<close>

definition insert_participant ::
  "nat \<Rightarrow> nat \<Rightarrow> part_role \<Rightarrow> part_status \<Rightarrow> nat option \<Rightarrow> int option \<Rightarrow> participant M" where
  "insert_participant conversation_id agent_id role status invited_by joined_at =
     bnd txn_now (\<lambda>invited_at.
       let p = \<lparr>pt_conversation_id = conversation_id, pt_agent_id = agent_id, pt_role = role,
                pt_status = status, pt_invited_by = invited_by, pt_invited_at = invited_at,
                pt_joined_at = joined_at, pt_last_read_seq = 0\<rparr>
       in seqm (change (add_participant p)) (ret p))"

definition clear_invite_hold ::
  "plugins \<Rightarrow> conversation \<Rightarrow> nat \<Rightarrow> approval_hold \<Rightarrow> participant M" where
  "clear_invite_hold pl c target_agent_id h =
     bnd (insert_participant (cv_id c) target_agent_id RoleMember PtInvited
            (Some (hd_sender_agent_id h)) None) (\<lambda>p.
     seqm flush
    (bnd now (\<lambda>t.
     seqm (change (set_hold (hd_id h) (auto_decided AutoApproved Cleared t)))
    (seqm (audit (system_actor pl) ''approval.auto_approve'' (Some (hd_sender_agent_id h))
             (Some (cv_id c)) None (JObj [(''hold_id'', JId (hd_id h))]))
    (seqm (audit (system_actor pl) ''participant.invite'' (Some target_agent_id)
             (Some (cv_id c)) None
             (JObj [(''invited_by_agent_id'', JId (hd_sender_agent_id h)),
                    (''hold_id'', JId (hd_id h))]))
    (ret p))))))"

definition divert_invite_for_approval ::
  "plugins \<Rightarrow> string \<Rightarrow> conversation \<Rightarrow> agent \<Rightarrow> agent \<Rightarrow> string option \<Rightarrow>
     (participant + approval_hold) M" where
  "divert_invite_for_approval pl actor_sub c inviter target owner_sub_claim =
     bnd now (\<lambda>t.
     let owner_sub = (case owner_sub_claim of Some x \<Rightarrow> x | None \<Rightarrow> ag_owner_sub inviter);
         payload = JObj [(''target_agent_id'', JId (ag_id target)),
                         (''target_display_name'', JStr (ag_display_name target))]
     in bnd (insert_hold (cv_id c) (ag_id inviter) (Some (ag_id target)) KindInvite owner_sub
               INVITE_HOLD_MESSAGE_TYPE INVITE_HOLD_SCHEMA_VERSION payload INVITE_HOLD_RISK_REASON
               INVITE_HOLD_RISK_SCORER_LABEL (t + APPROVAL_HOLD_TTL)) (\<lambda>h.
        seqm (audit actor_sub ''approval.hold'' (Some (ag_id inviter)) (Some (cv_id c)) None
                (JObj [(''hold_id'', JId (hd_id h)), (''risk_reason'', JStr INVITE_HOLD_RISK_REASON),
                       (''kind'', JStr ''invite''), (''target_agent_id'', JId (ag_id target))]))
       (seqm (change (set_hold (hd_id h) (\<lambda>k. k\<lparr>hd_auto_approver := Some (auto_approver_name pl)\<rparr>)))
       (bnd (query (other_participants (ag_id inviter) (cv_id c))) (\<lambda>rows.
        bnd (call (auto_approver pl
               \<lparr>hc_hold_id = hd_id h, hc_conversation_id = cv_id c, hc_conversation_type = cv_type c,
                hc_sender_agent_id = ag_id inviter, hc_owner_sub = owner_sub,
                hc_message_type = INVITE_HOLD_MESSAGE_TYPE,
                hc_schema_version = INVITE_HOLD_SCHEMA_VERSION, hc_payload = payload,
                hc_risk_reason = INVITE_HOLD_RISK_REASON,
                hc_participants = map participant_info_of rows,
                hc_sender_sub = ag_sub inviter\<rparr>)) (\<lambda>cleared.
        if cleared then bnd (clear_invite_hold pl c (ag_id target) h) (\<lambda>p. ret (Inl p))
        else bnd (escalate_hold pl actor_sub c h) (\<lambda>k. ret (Inr k))))))))"

section \<open>The notifier\<close>

definition fire_approval_notifier ::
  "plugins \<Rightarrow> approval_hold \<Rightarrow> conversation \<Rightarrow> agent \<Rightarrow> unit M" where
  "fire_approval_notifier pl h c sender =
     (case notifier pl
          \<lparr>nt_hold_id = hd_id h, nt_conversation_id = cv_id c, nt_conversation_type = cv_type c,
           nt_sender_agent_id = ag_id sender, nt_sender_display_name = ag_display_name sender,
           nt_owner_sub = hd_owner_sub h, nt_owner_email = ag_owner_email sender,
           nt_message_type = hd_message_type h, nt_risk_reason = hd_risk_reason h,
           nt_expires_at = hd_expires_at h, nt_created_at = hd_created_at h\<rparr> of
        Returned _ \<Rightarrow> ret ()
      | Cancelled \<Rightarrow> throw CancelledError
      | Raised n _ \<Rightarrow>
          seqm (audit (ag_sub sender) ''approval.notify_failed'' (Some (ag_id sender))
                  (Some (cv_id c)) None
                  (JObj [(''hold_id'', JId (hd_id h)), (''notifier'', JStr (notifier_name pl)),
                         (''error_type'', JStr n)]))
          commit)"

definition get_active_participant_agent_ids :: "nat \<Rightarrow> nat list M" where
  "get_active_participant_agent_ids conversation_id =
     query (\<lambda>d. map pt_agent_id
       (filter (\<lambda>p. pt_status p = PtActive) (conv_participants conversation_id d)))"

section \<open>What the stages keep and what their success says\<close>

lemma keeps_rate_limits:
  "keeps lazy (enforce_message_rate_limit a i c)" "keeps lazy (enforce_sender_global_rate_limit a i)"
  "keeps lazy (enforce_start_rate_limit a g)"
  unfolding enforce_message_rate_limit_def enforce_sender_global_rate_limit_def
    enforce_start_rate_limit_def
  by (intro lz.keeps_rules keeps_denials)+

lemma commits_ok_rate_limits:
  "commits_ok (enforce_message_rate_limit a i c)" "commits_ok (enforce_sender_global_rate_limit a i)"
  "commits_ok (enforce_start_rate_limit a g)"
  unfolding enforce_message_rate_limit_def enforce_sender_global_rate_limit_def
    enforce_start_rate_limit_def
  by (intro commits_ok_rules commits_ok_denials)+

lemma message_rate_limit_Inr [inr]:
  "enforce_message_rate_limit a i c s = (Inr y, s') \<longleftrightarrow>
     recent_messages (\<lambda>m. ms_conversation_id m = c \<and> ms_sender_id m = i)
       (clock s (ticks s) - hours 1) (working s) < MAX_MESSAGES_PER_CONVERSATION_PER_HOUR \<and>
     s' = s\<lparr>ticks := Suc (ticks s)\<rparr>"
  by (auto simp: enforce_message_rate_limit_def inr)

lemma sender_rate_limit_Inr [inr]:
  "enforce_sender_global_rate_limit a i s = (Inr y, s') \<longleftrightarrow>
     recent_messages (\<lambda>m. ms_sender_id m = i) (clock s (ticks s) - hours 1) (working s)
       < MAX_MESSAGES_PER_SENDER_PER_HOUR \<and> s' = s\<lparr>ticks := Suc (ticks s)\<rparr>"
  by (auto simp: enforce_sender_global_rate_limit_def inr)

lemma start_rate_limit_Inr [inr]:
  "enforce_start_rate_limit a g s = (Inr y, s') \<longleftrightarrow>
     recent_starts (ag_id g) (clock s (ticks s) - hours 1) (working s)
       < MAX_CONVERSATION_STARTS_PER_HOUR \<and> s' = s\<lparr>ticks := Suc (ticks s)\<rparr>"
  by (auto simp: enforce_start_rate_limit_def inr)

lemma keeps_score: "keeps lazy (score_message_risk pl a ctx)"
  unfolding score_message_risk_def by (intro lz.keeps_rules keeps_deny keeps_audit)

lemma commits_ok_score: "commits_ok (score_message_risk pl a ctx)"
  unfolding score_message_risk_def by (intro commits_ok_rules commits_ok_deny commits_ok_audit)

lemma score_ok [okD]:
  assumes "score_message_risk pl a ctx s = (Inr r, s')"
  shows "\<exists>v. risk_scorer pl (ownership_client pl (working s)) ctx = Returned v \<and>
    (if json_get (rv_detail v) ''bypass'' = Some (JStr ''shared_sender'')
     then r = None \<and> (\<exists>row. s' = s\<lparr>working := add_audit row (working s)\<rparr>)
     else r = (if rv_high_risk v then rv_reason v else None) \<and> s' = s)"
  using assms by (auto simp: score_message_risk_def inr split: outcome.splits if_splits)

lemma keeps_type_accepted: "keeps lazy (enforce_message_type_accepted a i c os mt)"
  unfolding enforce_message_type_accepted_def by (intro lz.keeps_rules keeps_deny)

lemma commits_ok_type_accepted: "commits_ok (enforce_message_type_accepted a i c os mt)"
  unfolding enforce_message_type_accepted_def by (intro commits_ok_rules commits_ok_deny)

lemma type_accepted_Inr [inr]:
  "enforce_message_type_accepted a i c os mt s = (Inr y, s') \<longleftrightarrow>
     (\<forall>(j, accepted)\<in>set os. accepted = [] \<or> mt \<in> set accepted) \<and> s' = s"
  by (auto simp: enforce_message_type_accepted_def inr find_None_all split: option.splits dest!: find_SomeD)

lemma keeps_boundary_participants: "keeps lazy (fetch_boundary_participants i c)"
  unfolding fetch_boundary_participants_def by (intro lz.keeps_rules)

lemma commits_ok_boundary_participants: "commits_ok (fetch_boundary_participants i c)"
  unfolding fetch_boundary_participants_def by (intro commits_ok_rules)

lemma keeps_boundary_crossing: "keeps lazy (check_boundary_crossing pl a i c mt v)"
  unfolding check_boundary_crossing_def
  by (intro lz.keeps_rules keeps_boundary_participants keeps_type_accepted keeps_score)

lemma commits_ok_boundary_crossing: "commits_ok (check_boundary_crossing pl a i c mt v)"
  unfolding check_boundary_crossing_def
  by (intro commits_ok_rules commits_ok_boundary_participants commits_ok_type_accepted commits_ok_score)

lemma keeps_sender_role: "keeps lazy (require_message_sender_role a i c mt r)"
  unfolding require_message_sender_role_def by (intro lz.keeps_rules keeps_deny)

lemma commits_ok_sender_role: "commits_ok (require_message_sender_role a i c mt r)"
  unfolding require_message_sender_role_def by (intro commits_ok_rules commits_ok_deny)

lemma sender_role_Inr [inr]:
  "require_message_sender_role a i c mt r s = (Inr y, s') \<longleftrightarrow>
     (\<forall>q. MESSAGE_TYPE_SENDER_ROLES mt = Some q \<longrightarrow> r = q) \<and> s' = s"
  by (auto simp: require_message_sender_role_def inr split: option.splits)

lemma keeps_notifier: "keeps lazy (fire_approval_notifier pl h c g)"
  unfolding fire_approval_notifier_def by (intro lz.keeps_rules keeps_audit)

lemma commits_ok_notifier: "commits_ok (fire_approval_notifier pl h c g)"
  unfolding fire_approval_notifier_def by (intro commits_ok_rules commits_ok_audit)

lemma commits_ok_system_message_type: "commits_ok (deny_if_system_message_type a i c b)"
  unfolding deny_if_system_message_type_def by (intro commits_ok_rules commits_ok_deny)

text \<open>The guards, for the proofs about the handlers built from them.\<close>

lemmas keeps_guards = keeps_audit keeps_refuse keeps_deny keeps_denials keeps_system_message_type
  keeps_require_active_agent keeps_is_active_safe keeps_not_member keeps_load_transition
  keeps_load_read keeps_negotiate keeps_verify_docs keeps_rate_limited_holds keeps_rate_limits
  keeps_score keeps_type_accepted keeps_boundary_participants keeps_boundary_crossing
  keeps_sender_role keeps_notifier

lemmas commits_ok_guards = commits_ok_audit commits_ok_refuse commits_ok_deny commits_ok_denials
  commits_ok_system_message_type commits_ok_require_active_agent commits_ok_is_active_safe
  commits_ok_not_member commits_ok_loads commits_ok_negotiate commits_ok_verify_docs
  commits_ok_rate_limited_holds commits_ok_rate_limits commits_ok_score commits_ok_type_accepted
  commits_ok_boundary_participants commits_ok_boundary_crossing commits_ok_sender_role
  commits_ok_notifier commits_ok_maybe_expire commits_ok_maybe_expire_hold

lemma passes_denials:
  "passes (refuse e a b c d f)" "passes (deny a b c d f)"
  "passes (deny_agent_retired a i cid t)" "passes (deny_archived a i j b)"
  "passes (deny_bad_state a i j b x)" "passes (deny_rate_limited a i cid b)"
  "passes (deny_schema_version_mismatch a i cid ns p q)" "passes (deny_bad_schema a i cid b x)"
  "passes (deny_docs_unverified b a i cid r)"
  by (rule passes_never, simp add: inr)+

lemma passes_audit: "passes (audit a b c d m f)"
  by (auto simp: passes_def inr same_tables_def)

lemma passes_guards:
  "passes (require_active_agent a i)" "passes (is_active_safe ch x)"
  "passes (find_agent_by_id i)" "passes (find_participant i j)"
  "passes (deny_if_system_message_type a i c b)" "passes (enforce_message_rate_limit a i k)"
  "passes (enforce_sender_global_rate_limit a i)" "passes (enforce_start_rate_limit a g)"
  "passes (deny_rate_limited_holds a i)" "passes (require_message_sender_role a i c mt r)"
  "passes (enforce_message_type_accepted a i c os mt)" "passes (fetch_boundary_participants i k)"
  "passes (negotiate_schema_version a g ts)" "passes (verify_docs_message pl a i b c mt p)"
  "passes (score_message_risk pl a ctx)"
  unfolding require_active_agent_def is_active_safe_def find_agent_by_id_def find_participant_def
    deny_if_system_message_type_def enforce_message_rate_limit_def
    enforce_sender_global_rate_limit_def enforce_start_rate_limit_def deny_rate_limited_holds_def
    require_message_sender_role_def enforce_message_type_accepted_def fetch_boundary_participants_def
    negotiate_schema_version_def verify_docs_message_def score_message_risk_def
  by (intro passes_rules passes_denials passes_audit)+

lemma passes_boundary_crossing: "passes (check_boundary_crossing pl a i c mt v)"
  unfolding check_boundary_crossing_def by (intro passes_rules passes_guards)

section \<open>The writes commit nothing by themselves\<close>

text \<open>
  The exceptions that can come after a handler's own commit: a cancellation while the notifier is
  awaited, and a constraint violated by the row that audits a failed notification.
\<close>

definition late_errors :: "err set" where
  "late_errors = insert CancelledError (range IntegrityError)"

lemma raises_notifier: "raises late_errors (fire_approval_notifier pl h c g)"
proof -
  have "raises late_errors commit" "raises late_errors (audit a b cc d m f)" for a b cc d m f
    by (auto simp: raises_def commit_def late_errors_def audit_def audit_at_def bnd_def txn_now_def
        change_def split: option.splits)
  then show ?thesis
    by (auto simp: fire_approval_notifier_def split: outcome.split intro!: raises_rules)
       (simp add: raises_def throw_def late_errors_def)
qed

lemma silent_inserts:
  "silent (insert_participant c i r st ib j)" "silent (insert_message c n i mt v p)"
  "silent (insert_hold c i t k os mt v p rr rs e)" "silent (insert_message_for_hold b h)"
  unfolding insert_participant_def insert_message_def insert_hold_def insert_message_for_hold_def Let_def
  by (intro silent_rules)+

lemma silent_divert:
  "silent (divert_high_risk_message pl a c g oc mt v p rr infos extra)"
  "silent (divert_invite_for_approval pl a c g t oc)"
  unfolding divert_high_risk_message_def divert_invite_for_approval_def clear_message_hold_def
    clear_invite_hold_def escalate_hold_def Let_def
  by (intro silent_rules silent_case_rules silent_audit silent_inserts)+

end
