(* ===== verification/Invariants.thy ===== *)
theory Invariants
  imports Boundary
begin

text \<open>
  What every operation preserves, as one history relation \<open>hist\<close>: the tables grow (\<open>grows\<close>), what is
  terminal stays terminal (\<open>settled\<close>), and two invariants of the database are kept. \<open>gapless\<close>: the
  messages of a conversation are numbered 1, 2, 3, ... in the order they were inserted.
  \<open>holds_coherent\<close>: a hold that is decided was decided by the one entitled to, and a released message
  hold released exactly the message it held.
\<close>

section \<open>The invariants\<close>

definition gapless :: "db \<Rightarrow> bool" where
  "gapless d \<longleftrightarrow> (\<forall>c. map ms_seq (conv_messages c d) = [1..<Suc (length (conv_messages c d))])"

definition releases :: "approval_hold \<Rightarrow> message \<Rightarrow> bool" where
  "releases h m \<longleftrightarrow> hd_message_id h = Some (ms_id m) \<and>
     ms_conversation_id m = hd_conversation_id h \<and> ms_sender_id m = hd_sender_agent_id h \<and>
     ms_type m = hd_message_type h \<and> ms_schema_version m = hd_schema_version h \<and>
     ms_payload m = hd_payload h"

definition coherent_hold :: "message list \<Rightarrow> approval_hold \<Rightarrow> bool" where
  "coherent_hold ms h \<longleftrightarrow>
     (hd_status h = AutoApproved \<longrightarrow>
        hd_auto_decision h = Some Cleared \<and> hd_risk_reason h \<noteq> AGENT_REQUESTED_RISK_REASON) \<and>
     (hd_status h \<in> {Approved, Rejected} \<longrightarrow> hd_decided_by_sub h = Some (hd_owner_sub h)) \<and>
     (hd_kind h = KindMessage \<longrightarrow> hd_status h \<in> {AutoApproved, Approved} \<longrightarrow>
        (\<exists>m\<in>set ms. releases h m))"

definition holds_coherent :: "db \<Rightarrow> bool" where
  "holds_coherent d \<longleftrightarrow> (\<forall>i h. hold_by_id i d = Some h \<longrightarrow> coherent_hold (messages d) h)"

definition hist :: "db \<Rightarrow> db \<Rightarrow> bool" where
  "hist d d' \<longleftrightarrow> grows d d' \<and> settled d d' \<and> (gapless d \<longrightarrow> gapless d') \<and>
     (holds_coherent d \<longrightarrow> holds_coherent d')"

lemma gapless_cong: "messages d' = messages d \<Longrightarrow> gapless d' = gapless d"
  by (simp add: gapless_def conv_messages_def)

lemma holds_coherent_cong:
  "messages d' = messages d \<Longrightarrow> holds d' = holds d \<Longrightarrow> holds_coherent d' = holds_coherent d"
  by (simp add: holds_coherent_def hold_by_id_def)

interpretation hs: db_history hist
proof
  show "hist d d" for d
    by (simp add: hist_def gr.R_refl st.R_refl)
  show "hist d f" if "hist d e" "hist e f" for d e f
    using that unfolding hist_def by (blast intro: gr.R_trans st.R_trans)
  show "hist d (d\<lparr>next_id := n\<rparr>)" for d n
    by (simp add: hist_def gr.R_next_id st.R_next_id gapless_def holds_coherent_def)
qed

lemma hist_empty: "gapless empty_db" "holds_coherent empty_db"
  by (simp_all add: gapless_def holds_coherent_def conv_messages_def hold_by_id_def empty_db_def)

section \<open>Steps that preserve them\<close>

lemma lazy_hist: "lazy d d' \<Longrightarrow> hist d d'"
proof -
  assume l: "lazy d d'"
  then have m: "messages d' = messages d" by (simp add: lazy_def)
  have "holds_coherent d \<longrightarrow> holds_coherent d'"
  proof (intro impI)
    assume h: "holds_coherent d"
    show "holds_coherent d'"
      unfolding holds_coherent_def
    proof (intro allI impI)
      fix i k
      assume k: "hold_by_id i d' = Some k"
      from l have "may_turn pending_hold expired_hold (hold_by_id i d) (hold_by_id i d')"
        by (simp add: lazy_def)
      then consider "hold_by_id i d = Some k" | r where "k = expired_hold r"
        using k by (auto simp: may_turn_def)
      then show "coherent_hold (messages d') k"
      proof cases
        case 1
        with h m show ?thesis by (simp add: holds_coherent_def)
      next
        case 2
        then show ?thesis by (simp add: coherent_hold_def expired_hold_def)
      qed
    qed
  qed
  with l m show ?thesis
    using gapless_cong [OF m] by (simp add: hist_def lazy_grows lazy_settled)
qed

lemma keeps_lazy_hist: "keeps lazy m \<Longrightarrow> keeps hist m"
  by (erule keeps_mono) (rule lazy_hist)

lemma hist_other:
  assumes "grows d d'" "settled d d'" "messages d' = messages d" "holds d' = holds d"
  shows "hist d d'"
  using assms gapless_cong [OF assms(3)] holds_coherent_cong [OF assms(3,4)]
  by (simp add: hist_def)

lemma hist_add_row [simp]:
  "hist d (add_agent a d)" "hist d (add_conversation c d)" "hist d (add_participant p d)"
  "hist d (add_audit r d)"
  by (simp_all add: hist_other)

lemma hist_set_conversation:
  "(\<And>c. conversation_step c (f c)) \<Longrightarrow> hist d (set_conversation i f d)"
  by (intro hist_other grows_set_conversation) simp_all

lemma hist_set_agent:
  assumes "\<And>a. agent_step a (f a)"
    "\<And>a. agent_by_id i d = Some a \<Longrightarrow> suspended a \<Longrightarrow> suspended (f a)"
  shows "hist d (set_agent i f d)"
  using assms by (intro hist_other grows_set_agent settled_set_agent) (simp_all add: agent_step_def)

lemma hist_set_participant:
  assumes "\<And>p. participant_step p (f p)"
    "\<And>p. participant_of c a d = Some p \<Longrightarrow> gone p \<Longrightarrow> pt_status (f p) = pt_status p"
  shows "hist d (set_participant c a f d)"
  using assms
  by (intro hist_other grows_set_participant settled_set_participant) (simp_all add: participant_step_def)

lemma hist_add_hold:
  assumes "hd_status h = PendingAuto"
  shows "hist d (add_hold h d)"
proof -
  have "holds_coherent (add_hold h d)" if "holds_coherent d"
    using that assms
    by (auto simp: holds_coherent_def hold_by_id_def find_append coherent_hold_def
        split: option.splits if_splits)
  then show ?thesis using gapless_cong [of "add_hold h d" d] assms by (simp add: hist_def)
qed

lemma hist_set_hold:
  assumes step: "\<And>h. hold_step h (f h)"
    and open_hold: "\<And>h. hold_by_id i d = Some h \<Longrightarrow> \<not> decided h"
    and coh: "\<And>h. hold_by_id i d = Some h \<Longrightarrow> coherent_hold (messages d) (f h)"
  shows "hist d (set_hold i f d)"
proof -
  have id: "hd_id (f h) = hd_id h" for h using step [of h] by (simp add: hold_step_def)
  have "holds_coherent (set_hold i f d)" if h: "holds_coherent d"
    unfolding holds_coherent_def hold_by_id_set [of f, OF id]
    using h coh by (auto simp: holds_coherent_def dest: hold_by_idD)
  then show ?thesis
    using assms(1,2) id gapless_cong [of "set_hold i f d" d]
    by (simp add: hist_def grows_set_hold settled_set_hold)
qed

lemma gapless_last_seq: "gapless d \<Longrightarrow> last_seq c d = length (conv_messages c d)"
proof -
  have "foldr max [1..<Suc n] 0 = n" for n
  proof (induction n)
    case (Suc n)
    have "foldr max xs (a::nat) = max (foldr max xs 0) a" for xs a
      by (induction xs) auto
    from this [of "[1..<Suc n]" "Suc n"] Suc show ?case by simp
  qed simp
  then show "gapless d \<Longrightarrow> last_seq c d = length (conv_messages c d)"
    by (simp add: gapless_def last_seq_def del: upt_Suc)
qed

lemma gapless_add_message:
  assumes "gapless d" "ms_seq m = last_seq (ms_conversation_id m) d + 1"
  shows "gapless (add_message m d)"
  unfolding gapless_def
proof
  fix c
  show "map ms_seq (conv_messages c (add_message m d)) =
      [1..<Suc (length (conv_messages c (add_message m d)))]"
    using assms(1) gapless_last_seq [OF assms(1), of c] assms(2)
    by (simp add: conv_messages_def gapless_def)
qed

lemma hist_add_message:
  assumes "ms_seq m = last_seq (ms_conversation_id m) d + 1"
  shows "hist d (add_message m d)"
proof -
  have "holds_coherent (add_message m d)" if "holds_coherent d"
    using that by (fastforce simp: holds_coherent_def coherent_hold_def)
  then show ?thesis using assms by (simp add: hist_def gapless_add_message)
qed

lemmas guards_hist = keeps_guards [THEN keeps_lazy_hist]

section \<open>The shared stages keep the history\<close>

lemma hist_finds:
  "keeps hist (find_agent_by_id i)" "keeps hist (get_agent_by_sub x)"
  "keeps hist (find_conversation i)" "keeps hist (find_participant i j)" "keeps hist (find_hold i)"
  "keeps hist (conversation_pinned_schema_version i)" "keeps hist (fk_safe_agent_id i)"
  "keeps hist (get_active_participant_agent_ids i)"
  "keeps hist (list_sibling_identities collate b e)"
  unfolding find_agent_by_id_def get_agent_by_sub_def find_conversation_def find_participant_def
    find_hold_def conversation_pinned_schema_version_def fk_safe_agent_id_def
    get_active_participant_agent_ids_def list_sibling_identities_def
  by (intro hs.keeps_rules)+

lemma hist_insert_participant: "keeps hist (insert_participant c i r st ib j)"
  unfolding insert_participant_def Let_def
  by (intro hs.keeps_rules hs.keeps_change hist_add_row)

lemma hist_insert_hold: "keeps hist (insert_hold c i t k os mt v p rr rs e)"
  unfolding insert_hold_def Let_def
  by (intro hs.keeps_rules hs.keeps_change hist_add_hold) simp

text \<open>What the loader of a transition establishes is still true where its handler goes on.\<close>

lemma hist_transition:
  assumes "\<And>c p s. conversation_by_id cid (working s) = Some c \<Longrightarrow> cv_id c = cid \<Longrightarrow>
      participant_of cid i (working s) = Some p \<Longrightarrow> pt_status p = st \<Longrightarrow>
      keeps_at hist (body (c, p)) s"
  shows "keeps hist (bnd (load_participant_for_transition a i cid st) body)"
proof (rule hs.keepsI, rule hs.keeps_at_then)
  show "keeps hist (load_participant_for_transition a i cid st)" by (rule guards_hist)
next
  fix s x s1
  assume l: "load_participant_for_transition a i cid st s = (Inr x, s1)"
  obtain c p where x: "x = (c, p)" by (cases x)
  from load_transition_ok [OF l [unfolded x]] show "keeps_at hist (body x) s1"
    unfolding x by (intro assms) simp_all
qed

lemma insert_message_Inr [inr]:
  "insert_message c n i mt v p s = (Inr m, s') \<longleftrightarrow>
     m = \<lparr>ms_id = fresh_id (working s), ms_conversation_id = c, ms_seq = n, ms_sender_id = i,
          ms_type = mt, ms_schema_version = v, ms_payload = p, ms_created_at = txn_at s\<rparr> \<and>
     s' = s\<lparr>working := add_message m ((working s)\<lparr>next_id := Suc (fresh_id (working s))\<rparr>)\<rparr> \<and>
     db_ok (working s')"
  by (auto simp: insert_message_def Let_def inr)

lemma last_seq_frame [simp]:
  "last_seq c (d\<lparr>next_id := n\<rparr>) = last_seq c d"
  "last_seq c (set_hold i f d) = last_seq c d"
  "last_seq c (add_audit r d) = last_seq c d"
  by (simp_all add: last_seq_def)

lemma hist_at_insert_message:
  assumes "n = last_seq c (working s) + 1"
  shows "keeps_at hist (insert_message c n i mt v p) s"
  unfolding insert_message_def Let_def
proof (rule hs.keeps_at_then [OF hs.keeps_new_id])
  fix x s1
  assume "new_id s = (Inr x, s1)"
  then have s1: "s1 = s\<lparr>working := (working s)\<lparr>next_id := Suc (fresh_id (working s))\<rparr>\<rparr>"
    by (simp add: inr)
  show "keeps_at hist (bnd txn_now (\<lambda>created_at.
      seqm (change (add_message \<lparr>ms_id = x, ms_conversation_id = c, ms_seq = n, ms_sender_id = i,
        ms_type = mt, ms_schema_version = v, ms_payload = p, ms_created_at = created_at\<rparr>))
      (seqm flush (ret \<lparr>ms_id = x, ms_conversation_id = c, ms_seq = n, ms_sender_id = i,
        ms_type = mt, ms_schema_version = v, ms_payload = p, ms_created_at = created_at\<rparr>)))) s1"
    by (rule hs.keeps_at_then [OF hs.keeps_prims(5)])
       (auto simp: inr assms s1 intro!: hs.keeps_at_change_last hist_add_message hs.keeps_rules)
qed

section \<open>Holds under way keep the history\<close>

lemma hold_step_writes [simp]:
  "hold_step h (auto_decided st dn t h)" "hold_step h (h\<lparr>hd_message_id := i\<rparr>)"
  "hold_step h (h\<lparr>hd_auto_approver := x\<rparr>)"
  by (simp_all add: hold_step_def auto_decided_def)

lemma hold_of_row:
  assumes "db_ok d" "h \<in> set (holds d)"
  shows "hold_by_id (hd_id h) d = Some h"
proof -
  have "distinct (map hd_id (holds d))"
    using assms(1) by (simp add: db_ok_conjuncts holds_constraints_def)
  then show ?thesis
    using assms(2) unfolding hold_by_id_def by (rule find_key)
qed

lemma hist_at_hold_write:
  assumes "hold_by_id i (working s) = Some k" "\<not> decided k" "\<And>h. hold_step h (f h)"
    and "coherent_hold (messages (working s)) (f k)" "keeps hist n"
  shows "keeps_at hist (seqm (change (set_hold i f)) n) s"
  using assms by (intro hs.keeps_at_change_last hist_set_hold) auto

lemma hist_at_message_for_hold:
  assumes "hold_by_id (hd_id h) (working s) = Some k" "pending_hold k"
  shows "keeps_at hist (insert_message_for_hold c h) s"
  unfolding insert_message_for_hold_def
proof (intro hs.keeps_at_query hs.keeps_at_bnd hist_at_insert_message)
  fix m s1
  assume "insert_message (cv_id c) (last_seq (cv_id c) (working s) + 1) (hd_sender_agent_id h)
      (hd_message_type h) (hd_schema_version h) (hd_payload h) s = (Inr m, s1)"
  then have "hold_by_id (hd_id h) (working s1) = Some k"
    using assms by (auto simp: inr)
  then show "keeps_at hist (seqm (change (set_hold (hd_id h) (\<lambda>k. k\<lparr>hd_message_id := Some (ms_id m)\<rparr>)))
      (ret (m, last_seq (cv_id c) (working s) + 1))) s1"
    by (rule hist_at_hold_write)
       (use assms in \<open>auto simp: pending_hold_def decided_def coherent_hold_def intro: hs.keeps_prims\<close>)
qed simp

lemma message_for_hold_ok [okD]:
  assumes "insert_message_for_hold c h s = (Inr (m, n), s')"
    and "hold_by_id (hd_id h) (working s) = Some k"
  shows "hold_by_id (hd_id h) (working s') = Some (k\<lparr>hd_message_id := Some (ms_id m)\<rparr>) \<and>
    m \<in> set (messages (working s')) \<and> ms_conversation_id m = cv_id c \<and>
    ms_sender_id m = hd_sender_agent_id h \<and> ms_type m = hd_message_type h \<and>
    ms_schema_version m = hd_schema_version h \<and> ms_payload m = hd_payload h \<and>
    ms_seq m = last_seq (cv_id c) (working s) + 1 \<and> n = ms_seq m"
  using assms
  by (auto simp: insert_message_for_hold_def inr hold_by_id_set dest: hold_by_idD)

lemma insert_hold_ok [okD]:
  assumes "insert_hold c i t k os mt v p rr rs e s = (Inr h, s')"
  shows "hold_by_id (hd_id h) (working s') = Some h \<and> hd_status h = PendingAuto \<and>
    hd_conversation_id h = c \<and> hd_sender_agent_id h = i \<and> hd_kind h = k \<and> hd_owner_sub h = os \<and>
    hd_message_type h = mt \<and> hd_payload h = p \<and> hd_risk_reason h = rr \<and>
    hd_target_agent_id h = t \<and> hd_expires_at h = e \<and> hd_schema_version h = v"
  using assms hold_of_row [of "working s'" h]
  by (auto simp: insert_hold_def Let_def inr)

lemma hist_at_clear_message:
  assumes k: "hold_by_id (hd_id h) (working s) = Some k" "pending_hold k" "hold_step h k"
    and h: "hd_conversation_id h = cv_id c" "hd_risk_reason h \<noteq> AGENT_REQUESTED_RISK_REASON"
  shows "keeps_at hist (clear_message_hold pl c h) s"
  unfolding clear_message_hold_def
proof (rule hs.keeps_at_bnd [OF hist_at_message_for_hold [OF k(1,2)]], clarsimp)
  fix m n s1
  assume i: "insert_message_for_hold c h s = (Inr (m, n), s1)"
  let ?k = "k\<lparr>hd_message_id := Some (ms_id m)\<rparr>"
  note ok = message_for_hold_ok [OF i k(1)]
  have rel: "releases (auto_decided AutoApproved Cleared t ?k) m" for t
    using ok k(3) h by (simp add: releases_def auto_decided_def hold_step_def)
  then have coh: "coherent_hold (messages (working s1)) (auto_decided AutoApproved Cleared t ?k)" for t
    using ok k(3) h by (auto simp: coherent_hold_def auto_decided_def hold_step_def)
  show "keeps_at hist (bnd now (\<lambda>t.
     seqm (change (set_hold (hd_id h) (auto_decided AutoApproved Cleared t)))
    (seqm (audit (system_actor pl) ''approval.auto_approve'' (Some (hd_sender_agent_id h))
             (Some (cv_id c)) (Some (ms_id m)) (JObj [(''hold_id'', JId (hd_id h))]))
    (seqm (audit (system_actor pl) ''message.post'' (Some (hd_sender_agent_id h))
             (Some (cv_id c)) (Some (ms_id m))
             (JObj [(''seq'', JInt (int n)), (''message_type'', JStr (hd_message_type h)),
                    (''hold_id'', JId (hd_id h))]))
    (ret m))))) s1"
    using ok k(2) coh
    by (intro hs.keeps_at_now hist_at_hold_write [where k = ?k] hs.keeps_rules guards_hist hold_step_writes)
       (auto simp: pending_hold_def decided_def)
qed

lemma hist_at_escalate:
  assumes "hold_by_id (hd_id h) (working s) = Some k" "pending_hold k"
  shows "keeps_at hist (escalate_hold pl a c h) s"
  unfolding escalate_hold_def
  by (intro hs.keeps_at_now hist_at_hold_write [where k = k] hs.keeps_rules guards_hist hold_step_writes)
     (use assms in \<open>auto simp: pending_hold_def decided_def coherent_hold_def auto_decided_def\<close>)

text \<open>The steps between storing a hold and the auto-approver's verdict.\<close>

lemma hist_at_hold_reviewed:
  assumes h: "hold_by_id (hd_id h) (working s) = Some h" "hd_status h = PendingAuto"
    and body: "\<And>s1. hold_by_id (hd_id h) (working s1) =
        Some (h\<lparr>hd_auto_approver := Some x\<rparr>) \<Longrightarrow> keeps_at hist n s1"
  shows "keeps_at hist (seqm (audit a act i cid mid j)
     (seqm (change (set_hold (hd_id h) (\<lambda>k. k\<lparr>hd_auto_approver := Some x\<rparr>))) n)) s"
proof (rule hs.keeps_at_after [OF guards_hist(1)], rule hs.keeps_at_seqm)
  fix s1
  assume "audit a act i cid mid j s = (Inr (), s1)"
  then have s1: "hold_by_id (hd_id h) (working s1) = Some h" using h(1) by (auto simp: inr)
  then show "keeps_at hist (change (set_hold (hd_id h) (\<lambda>k. k\<lparr>hd_auto_approver := Some x\<rparr>))) s1"
    using h(2) by (intro hs.keeps_at_change hist_set_hold) (auto simp: decided_def coherent_hold_def)
  fix s2
  assume "change (set_hold (hd_id h) (\<lambda>k. k\<lparr>hd_auto_approver := Some x\<rparr>)) s1 = (Inr (), s2)"
  then have "hold_by_id (hd_id h) (working s2) = Some (h\<lparr>hd_auto_approver := Some x\<rparr>)"
    using s1 by (auto simp: inr hold_by_id_set dest: hold_by_idD)
  then show "keeps_at hist n s2" by (rule body)
qed

lemma hist_diverted:
  assumes "\<And>h s1. hold_by_id (hd_id h) (working s1) = Some (h\<lparr>hd_auto_approver := Some x\<rparr>) \<Longrightarrow>
      hd_status h = PendingAuto \<Longrightarrow> hd_conversation_id h = cid \<Longrightarrow> hd_kind h = k \<Longrightarrow>
      hd_risk_reason h = rr \<Longrightarrow> keeps_at hist (f h) s1"
  shows "keeps hist (bnd (insert_hold cid i t k os mt v p rr rs e) (\<lambda>h.
     seqm (audit a act ai ci mid (j h))
    (seqm (change (set_hold (hd_id h) (\<lambda>k. k\<lparr>hd_auto_approver := Some x\<rparr>))) (f h))))"
proof (rule hs.keepsI, rule hs.keeps_at_then [OF hist_insert_hold])
  fix h s s1
  assume "insert_hold cid i t k os mt v p rr rs e s = (Inr h, s1)"
  from insert_hold_ok [OF this] show "keeps_at hist (seqm (audit a act ai ci mid (j h))
      (seqm (change (set_hold (hd_id h) (\<lambda>k. k\<lparr>hd_auto_approver := Some x\<rparr>))) (f h))) s1"
    by (intro hist_at_hold_reviewed assms) simp_all
qed

lemma hist_at_call: "(\<And>b. keeps_at hist (f b) s) \<Longrightarrow> keeps_at hist (bnd (call r) f) s"
  by (rule hs.keeps_at_then [OF hs.keeps_call]) (auto simp: inr)

lemmas hist_reviewed = hist_diverted hist_at_call hs.keeps_at_query hs.keeps_at_if hs.keeps_at_last
  hs.keeps_prims(1)

lemma hist_divert_message:
  "keeps hist (divert_high_risk_message pl a c g oc mt v p rr infos extra)"
  unfolding divert_high_risk_message_def Let_def
  apply (rule hs.keeps_bnd [OF hs.keeps_prims(4)])
  apply (intro hist_reviewed)
   apply (rule hist_at_clear_message, assumption)
      apply (auto simp: pending_hold_def intro: hist_at_escalate)
  done

lemma hist_clear_invite:
  assumes "hold_by_id (hd_id h) (working s) = Some k" "pending_hold k" "hold_step h k"
    and "hd_kind h = KindInvite" "hd_risk_reason h \<noteq> AGENT_REQUESTED_RISK_REASON"
  shows "keeps_at hist (clear_invite_hold pl c t h) s"
  unfolding clear_invite_hold_def
proof (rule hs.keeps_at_then [OF hist_insert_participant], rule hs.keeps_at_after [OF hs.keeps_prims(6)],
    rule hs.keeps_at_now, rule hist_at_hold_write [where k = k])
qed (use assms in \<open>auto simp: inr insert_participant_def Let_def pending_hold_def decided_def
       hold_step_def coherent_hold_def auto_decided_def intro!: hs.keeps_rules guards_hist\<close>)

lemma hist_divert_invite: "keeps hist (divert_invite_for_approval pl a c g t oc)"
  unfolding divert_invite_for_approval_def Let_def
  apply (rule hs.keeps_bnd [OF hs.keeps_prims(4)])
  apply (intro hist_reviewed)
   apply (rule hist_clear_invite, assumption)
      apply (auto simp: pending_hold_def INVITE_HOLD_RISK_REASON_def AGENT_REQUESTED_RISK_REASON_def
        intro: hist_at_escalate)
  done

end
