(* ===== verification/Membership.thy ===== *)
theory Membership
  imports Invariants
begin

text \<open>
  Membership and the life of a conversation apart from its messages (\<open>service.py\<close>, lines 4028 to
  5045): accepting, declining, inviting, leaving; archiving, renaming, extending and reopening. A
  conversation row in hand is the mapped object; every write goes to the row with its key and to the
  object returned.
\<close>

section \<open>Accept, decline, leave\<close>

definition set_part_status :: "part_status \<Rightarrow> participant \<Rightarrow> participant" where
  "set_part_status st p = p\<lparr>pt_status := st\<rparr>"

definition accepted :: "int \<Rightarrow> participant \<Rightarrow> participant" where
  "accepted t p = p\<lparr>pt_status := PtActive, pt_joined_at := Some t\<rparr>"

definition accept_invite :: "string \<Rightarrow> nat \<Rightarrow> nat \<Rightarrow> participant M" where
  "accept_invite actor_sub agent_id conversation_id =
     bnd (load_participant_for_transition actor_sub agent_id conversation_id PtInvited) (\<lambda>(c, p).
       if cv_archived_at c \<noteq> None
       then deny_archived actor_sub agent_id (cv_id c) ''denied.archived.accept''
       else if cv_state c \<in> {CvCompleted, CvCanceled}
       then deny actor_sub (''denied.wrong_state.'' @ conv_state_name (cv_state c)) (Some agent_id)
              (Some (cv_id c)) JNull
       else bnd now (\<lambda>t.
            seqm (change (set_participant (cv_id c) agent_id (accepted t)))
           (seqm (audit actor_sub ''participant.accept'' (Some agent_id) (Some (cv_id c)) None JNull)
           (seqm commit
           (ret (accepted t p))))))"

definition decline_invite :: "string \<Rightarrow> nat \<Rightarrow> nat \<Rightarrow> unit M" where
  "decline_invite actor_sub agent_id conversation_id =
     bnd (load_participant_for_transition actor_sub agent_id conversation_id PtInvited) (\<lambda>(c, p).
       seqm (change (set_participant (cv_id c) agent_id (set_part_status PtDeclined)))
      (seqm (audit actor_sub ''participant.decline_invite'' (Some agent_id) (Some (cv_id c)) None JNull)
      commit))"

definition leave :: "string \<Rightarrow> nat \<Rightarrow> nat \<Rightarrow> unit M" where
  "leave actor_sub agent_id conversation_id =
     bnd (load_participant_for_transition actor_sub agent_id conversation_id PtActive) (\<lambda>(c, p).
       seqm (change (set_participant (cv_id c) agent_id (set_part_status PtLeft)))
      (seqm (audit actor_sub ''participant.leave'' (Some agent_id) (Some (cv_id c)) None JNull)
      commit))"

section \<open>Invite\<close>

text \<open>\<open>(conversation.owner_snapshot or {}).get("owners") or []\<close>.\<close>

definition snapshot_owners :: "conversation \<Rightarrow> string set" where
  "snapshot_owners c = set (case cv_owner_snapshot c of None \<Rightarrow> [] | Some xs \<Rightarrow> xs)"

definition authorize_invite_owner_freeze ::
  "plugins \<Rightarrow> string \<Rightarrow> nat \<Rightarrow> conversation \<Rightarrow> agent \<Rightarrow> unit M" where
  "authorize_invite_owner_freeze pl actor_sub inviter_agent_id c target =
     (let refuse_target = (\<lambda>action. deny actor_sub action (Some inviter_agent_id) (Some (cv_id c))
            (JObj [(''target_agent_id'', JId (ag_id target))]))
      in if cv_type c = ''open'' then ret ()
         else bnd (query (\<lambda>d. ownership_client pl d (ag_id target))) (\<lambda>r.
           case r of
             Cancelled \<Rightarrow> throw CancelledError
           | Raised _ _ \<Rightarrow> refuse_target ''denied.ownership_lookup_failed''
           | Returned target_info \<Rightarrow>
               let target_owners = owners_of target_info in
               if target_owners = {} then refuse_target ''denied.ownership_unverified''
               else if cv_type c = ''internal'' \<and> truthy (oi_is_shared target_info)
               then refuse_target ''denied.shared_agent_not_allowed_internal''
               else if \<not> (if cv_type c = ''internal'' then target_owners = snapshot_owners c
                          else target_owners \<subseteq> snapshot_owners c)
               then refuse_target ''denied.owner_set_frozen''
               else ret ()))"

definition conversation_has_note_history :: "nat \<Rightarrow> db \<Rightarrow> bool" where
  "conversation_has_note_history conversation_id d \<longleftrightarrow>
     (\<exists>m\<in>set (conv_messages conversation_id d). ms_type m \<in> set BARRIER_SENSITIVE_TYPES)"

text \<open>Up to the admission decision: who may be invited, by whom, into which conversation.\<close>

definition invite_target :: "plugins \<Rightarrow> string \<Rightarrow> nat \<Rightarrow> conversation \<Rightarrow> nat \<Rightarrow> agent M" where
  "invite_target pl actor_sub inviter_agent_id c target_agent_id =
     bnd (find_agent_by_id target_agent_id) (\<lambda>target.
       case target of
         None \<Rightarrow> deny actor_sub ''denied.unknown_agent'' (Some inviter_agent_id) (Some (cv_id c))
                   (JObj [(''target_agent_id'', JId target_agent_id)])
       | Some a \<Rightarrow>
           if ag_status a \<noteq> AgActive
           then deny actor_sub ''denied.unknown_agent'' (Some inviter_agent_id) (Some (cv_id c))
                   (JObj [(''target_agent_id'', JId target_agent_id)])
           else bnd (is_active_safe (active_checker pl) (ag_sub a)) (\<lambda>alive.
             if \<not> alive
             then deny_agent_retired actor_sub inviter_agent_id (Some (cv_id c)) target_agent_id
             else ret a))"

definition invite_admission ::
  "plugins \<Rightarrow> string \<Rightarrow> nat \<Rightarrow> conversation \<Rightarrow> nat \<Rightarrow> agent M" where
  "invite_admission pl actor_sub inviter_agent_id c target_agent_id =
     bnd (invite_target pl actor_sub inviter_agent_id c target_agent_id) (\<lambda>target.
     bnd (conversation_pinned_schema_version (cv_id c)) (\<lambda>pinned_version.
       seqm (whenm (\<not> (ag_min_schema_version target \<le> pinned_version \<and>
                        pinned_version \<le> ag_max_schema_version target))
         (deny_schema_version_mismatch actor_sub inviter_agent_id (Some (cv_id c))
           [inviter_agent_id, ag_id target] (ag_min_schema_version target) pinned_version))
      (seqm (authorize_invite_owner_freeze pl actor_sub inviter_agent_id c target)
      (bnd (find_participant (cv_id c) (ag_id target)) (\<lambda>existing.
         case existing of
           Some p \<Rightarrow> deny actor_sub ''denied.already_participant'' (Some inviter_agent_id)
                       (Some (cv_id c))
                       (JObj [(''target_agent_id'', JId target_agent_id),
                              (''current_status'', JStr (part_status_name (pt_status p)))])
         | None \<Rightarrow> ret target)))))"

definition invite_by_approval ::
  "plugins \<Rightarrow> string \<Rightarrow> nat \<Rightarrow> conversation \<Rightarrow> agent \<Rightarrow> string option \<Rightarrow>
     (participant + approval_hold) M" where
  "invite_by_approval pl actor_sub inviter_agent_id c target owner_sub_claim =
     seqm (deny_rate_limited_holds actor_sub inviter_agent_id)
    (bnd (require_active_agent actor_sub inviter_agent_id) (\<lambda>inviter.
     bnd (divert_invite_for_approval pl actor_sub c inviter target owner_sub_claim) (\<lambda>result.
     seqm commit
    (seqm (case result of Inl _ \<Rightarrow> ret () | Inr h \<Rightarrow> fire_approval_notifier pl h c inviter)
    (ret result)))))"

definition invite ::
  "plugins \<Rightarrow> string \<Rightarrow> nat \<Rightarrow> nat \<Rightarrow> nat \<Rightarrow> string option \<Rightarrow> (participant + approval_hold) M" where
  "invite pl actor_sub inviter_agent_id conversation_id target_agent_id owner_sub_claim =
     bnd (load_participant_for_transition actor_sub inviter_agent_id conversation_id PtActive) (\<lambda>(c, p).
       if \<not> may_invite (pt_status p)
       then deny actor_sub ''denied.invite_not_allowed'' (Some inviter_agent_id) (Some (cv_id c)) JNull
       else if cv_archived_at c \<noteq> None
       then deny_archived actor_sub inviter_agent_id (cv_id c) ''denied.archived.invite''
       else if cv_state c \<noteq> CvActive
       then deny_bad_state actor_sub inviter_agent_id (cv_id c) (conv_state_name (cv_state c)) ''invite''
       else bnd (invite_admission pl actor_sub inviter_agent_id c target_agent_id) (\<lambda>target.
            bnd (query (conversation_has_note_history (cv_id c))) (\<lambda>has_history.
              if has_history
              then invite_by_approval pl actor_sub inviter_agent_id c target owner_sub_claim
              else bnd (insert_participant (cv_id c) (ag_id target) RoleMember PtInvited
                          (Some inviter_agent_id) None) (\<lambda>q.
                   seqm flush
                  (seqm (audit actor_sub ''participant.invite'' (Some (ag_id target)) (Some (cv_id c)) None
                           (JObj [(''invited_by_agent_id'', JId inviter_agent_id)]))
                  (seqm commit
                  (ret (Inl q))))))))"

section \<open>Archive and rename\<close>

definition archive_conversation :: "string \<Rightarrow> nat \<Rightarrow> nat \<Rightarrow> conversation M" where
  "archive_conversation actor_sub agent_id conversation_id =
     bnd (load_participant_for_transition actor_sub agent_id conversation_id PtActive) (\<lambda>(c, p).
       if cv_archived_at c \<noteq> None then seqm commit (ret c)
       else bnd now (\<lambda>t.
            seqm (change (set_conversation (cv_id c) (\<lambda>b. b\<lparr>cv_archived_at := Some t\<rparr>)))
           (seqm (audit actor_sub ''conversation.archive'' (Some agent_id) (Some (cv_id c)) None JNull)
           (seqm commit
           (ret (c\<lparr>cv_archived_at := Some t\<rparr>))))))"

definition rename_conversation :: "string \<Rightarrow> nat \<Rightarrow> nat \<Rightarrow> string option \<Rightarrow> conversation M" where
  "rename_conversation actor_sub agent_id conversation_id name =
     bnd (load_participant_for_transition actor_sub agent_id conversation_id PtActive) (\<lambda>(c, p).
       if \<not> may_rename (pt_status p)
       then deny actor_sub ''denied.rename_not_allowed'' (Some agent_id) (Some (cv_id c)) JNull
       else case validate_conversation_name name of
           Inl e \<Rightarrow> throw e
         | Inr None \<Rightarrow> throw (ValueError ''name must not be None'')
         | Inr (Some validated) \<Rightarrow>
             seqm (change (set_conversation (cv_id c) (\<lambda>b. b\<lparr>cv_name := Some validated\<rparr>)))
            (seqm (audit actor_sub ''conversation.rename'' (Some agent_id) (Some (cv_id c)) None
                    (JObj [(''name'', JStr validated), (''previous'', json_opt_str (cv_name c))]))
            (seqm commit
            (ret (c\<lparr>cv_name := Some validated\<rparr>)))))"

section \<open>Extend and reopen\<close>

record extend_result =
  er_conversation :: conversation
  er_previous_expires_at :: int
  er_resurrected :: bool

record reopen_result =
  rr_conversation :: conversation
  rr_previous_state :: conv_state
  rr_previous_expires_at :: int
  rr_expires_at_changed :: bool
  rr_active_participant_count :: nat

text \<open>
  The argument checks before the conversation is loaded: exactly one (extend) or at most one (reopen)
  of the two, a proper integer number of days, a time-zone aware instant.
\<close>

definition check_extend_by_days :: "py_number option \<Rightarrow> err + int option" where
  "check_extend_by_days extend_by_days =
     (case extend_by_days of
        None \<Rightarrow> Inr None
      | Some (PyInt n) \<Rightarrow>
          if 1 \<le> n \<and> n \<le> 90 then Inr (Some n)
          else Inl (InvalidExtendError ''extend_by_days must be an integer between 1 and 90'')
      | Some _ \<Rightarrow> Inl (InvalidExtendError ''extend_by_days must be an integer between 1 and 90''))"

definition check_aware :: "py_datetime option \<Rightarrow> err + int option" where
  "check_aware expires_at =
     (case expires_at of
        None \<Rightarrow> Inr None
      | Some (Aware t) \<Rightarrow> Inr (Some t)
      | Some (Naive t) \<Rightarrow> Inl (InvalidExtendError ''expires_at must be timezone-aware''))"

definition check_extend_arguments ::
  "py_datetime option \<Rightarrow> py_number option \<Rightarrow> err + (int option \<times> int option)" where
  "check_extend_arguments expires_at extend_by_days =
     (case check_extend_by_days extend_by_days of Inl e \<Rightarrow> Inl e
      | Inr n \<Rightarrow> (case check_aware expires_at of Inl e \<Rightarrow> Inl e | Inr t \<Rightarrow> Inr (t, n)))"

definition resolve_extended_expires_at ::
  "conversation \<Rightarrow> int option \<Rightarrow> int option \<Rightarrow> int \<Rightarrow> err + int" where
  "resolve_extended_expires_at c expires_at extend_by_days t =
     (case (case extend_by_days of
              Some n \<Rightarrow> Some (max (cv_expires_at c) t + days n)
            | None \<Rightarrow> expires_at) of
        None \<Rightarrow> Inl AssertionError
      | Some computed \<Rightarrow>
          if computed \<le> t then Inl (InvalidExtendError ''new expires_at must be in the future'')
          else if computed \<le> cv_expires_at c
          then Inl (InvalidExtendError ''new expires_at must be greater than current expires_at'')
          else if computed - t > MAX_CONVERSATION_TTL
          then Inl (InvalidExtendError ''expires_at may not be more than 90 days from now'')
          else Inr computed)"

definition extended :: "int \<Rightarrow> conversation \<Rightarrow> conversation" where
  "extended t b = b\<lparr>cv_state := (if cv_state b = CvExpired then CvActive else cv_state b),
                    cv_expires_at := t\<rparr>"

definition extend_conversation ::
  "string \<Rightarrow> nat \<Rightarrow> nat \<Rightarrow> py_datetime option \<Rightarrow> py_number option \<Rightarrow> extend_result M" where
  "extend_conversation actor_sub agent_id conversation_id expires_at extend_by_days =
     (if (expires_at = None) = (extend_by_days = None)
      then throw (InvalidExtendError ''provide exactly one of expires_at or extend_by_days'')
      else case check_extend_arguments expires_at extend_by_days of Inl e \<Rightarrow> throw e
      | Inr (expires_at, extend_by_days) \<Rightarrow>
          bnd (load_participant_for_transition actor_sub agent_id conversation_id PtActive) (\<lambda>(c, p).
            if \<not> may_extend (pt_status p)
            then deny actor_sub ''denied.extend_not_allowed'' (Some agent_id) (Some (cv_id c)) JNull
            else if cv_archived_at c \<noteq> None
            then deny_archived actor_sub agent_id (cv_id c) ''denied.archived.extend''
            else if cv_state c \<in> {CvCompleted, CvCanceled}
            then deny_bad_state actor_sub agent_id (cv_id c) (conv_state_name (cv_state c)) ''extend''
            else bnd now (\<lambda>t.
              case resolve_extended_expires_at c expires_at extend_by_days t of Inl e \<Rightarrow> throw e
              | Inr computed \<Rightarrow>
                  seqm (change (set_conversation (cv_id c) (extended computed)))
                 (seqm (audit actor_sub ''conversation.extend'' (Some agent_id) (Some (cv_id c)) None
                    (JObj [(''previous_expires_at'', JInt (cv_expires_at c)),
                           (''new_expires_at'', JInt computed),
                           (''previous_state'', JStr (conv_state_name (cv_state c))),
                           (''resurrected'', JBool (cv_state c = CvExpired))]))
                 (seqm commit
                 (ret \<lparr>er_conversation = extended computed c,
                       er_previous_expires_at = cv_expires_at c,
                       er_resurrected = (cv_state c = CvExpired)\<rparr>))))))"

definition reopened_expires_at ::
  "conversation \<Rightarrow> int option \<Rightarrow> int option \<Rightarrow> int \<Rightarrow> err + int" where
  "reopened_expires_at c expires_at extend_by_days t =
     (if expires_at \<noteq> None \<or> extend_by_days \<noteq> None
      then resolve_extended_expires_at c expires_at extend_by_days t
      else if cv_expires_at c \<le> t
      then Inl (InvalidExtendError
             ''reopening a lapsed conversation requires expires_at or extend_by_days'')
      else Inr (cv_expires_at c))"

definition reopened :: "int \<Rightarrow> conversation \<Rightarrow> conversation" where
  "reopened t b = b\<lparr>cv_state := CvActive, cv_expires_at := t\<rparr>"

definition reopen_conversation ::
  "string \<Rightarrow> nat \<Rightarrow> nat \<Rightarrow> py_datetime option \<Rightarrow> py_number option \<Rightarrow> reopen_result M" where
  "reopen_conversation actor_sub agent_id conversation_id expires_at extend_by_days =
     (if expires_at \<noteq> None \<and> extend_by_days \<noteq> None
      then throw (InvalidExtendError ''provide at most one of expires_at or extend_by_days'')
      else case check_extend_arguments expires_at extend_by_days of Inl e \<Rightarrow> throw e
      | Inr (expires_at, extend_by_days) \<Rightarrow>
          bnd (load_participant_for_transition actor_sub agent_id conversation_id PtActive) (\<lambda>(c, p).
            if \<not> may_reopen (pt_role p) (pt_status p)
            then deny actor_sub ''denied.reopen_not_allowed'' (Some agent_id) (Some (cv_id c)) JNull
            else if cv_archived_at c \<noteq> None
            then deny_archived actor_sub agent_id (cv_id c) ''denied.archived.reopen''
            else if cv_state c \<notin> {CvCompleted, CvCanceled, CvExpired}
            then deny_bad_state actor_sub agent_id (cv_id c) (conv_state_name (cv_state c)) ''reopen''
            else bnd now (\<lambda>t.
              case reopened_expires_at c expires_at extend_by_days t of Inl e \<Rightarrow> throw e
              | Inr resolved \<Rightarrow>
                  seqm (change (set_conversation (cv_id c) (reopened resolved)))
                 (seqm (audit actor_sub ''conversation.reopen'' (Some agent_id) (Some (cv_id c)) None
                    (JObj [(''previous_state'', JStr (conv_state_name (cv_state c))),
                           (''new_state'', JStr ''active''),
                           (''previous_expires_at'', JInt (cv_expires_at c)),
                           (''new_expires_at'', JInt resolved),
                           (''expires_at_changed'', JBool (resolved \<noteq> cv_expires_at c))]))
                 (bnd (get_active_participant_agent_ids (cv_id c)) (\<lambda>active.
                  seqm commit
                 (ret \<lparr>rr_conversation = reopened resolved c, rr_previous_state = cv_state c,
                       rr_previous_expires_at = cv_expires_at c,
                       rr_expires_at_changed = (resolved \<noteq> cv_expires_at c),
                       rr_active_participant_count = length active\<rparr>)))))))"

section \<open>Every committed database satisfies the schema's constraints\<close>

lemma commits_ok_finds:
  "commits_ok (find_agent_by_id i)" "commits_ok (find_conversation i)"
  "commits_ok (find_participant i j)" "commits_ok (find_hold i)"
  "commits_ok (conversation_pinned_schema_version i)" "commits_ok (fk_safe_agent_id i)"
  "commits_ok (get_active_participant_agent_ids i)"
  unfolding find_agent_by_id_def find_conversation_def find_participant_def find_hold_def
    conversation_pinned_schema_version_def fk_safe_agent_id_def get_active_participant_agent_ids_def
  by (intro commits_ok_rules)+

lemma commits_ok_inserts:
  "commits_ok (insert_participant c i r st ib j)" "commits_ok (insert_message c n i mt v p)"
  "commits_ok (insert_hold c i t k os mt v p rr rs e)" "commits_ok (insert_message_for_hold b h)"
  unfolding insert_participant_def insert_message_def insert_hold_def insert_message_for_hold_def Let_def
  by (intro commits_ok_rules)+

lemma commits_ok_divert:
  "commits_ok (divert_high_risk_message pl a c g oc mt v p rr infos extra)"
  "commits_ok (divert_invite_for_approval pl a c g t oc)"
  unfolding divert_high_risk_message_def divert_invite_for_approval_def clear_message_hold_def
    clear_invite_hold_def escalate_hold_def Let_def
  by (intro commits_ok_rules commits_ok_guards commits_ok_inserts)+

lemma commits_ok_owner_freeze: "commits_ok (authorize_invite_owner_freeze pl a i c t)"
  unfolding authorize_invite_owner_freeze_def Let_def
  by (intro commits_ok_rules commits_ok_guards)

lemma commits_ok_invite_target: "commits_ok (invite_target pl a i c t)"
  unfolding invite_target_def
  by (intro commits_ok_rules commits_ok_guards commits_ok_finds)

lemma commits_ok_membership:
  "commits_ok (accept_invite a i c)" "commits_ok (decline_invite a i c)" "commits_ok (leave a i c)"
  "commits_ok (archive_conversation a i c)" "commits_ok (rename_conversation a i c n)"
  unfolding accept_invite_def decline_invite_def leave_def archive_conversation_def
    rename_conversation_def
  by (intro commits_ok_rules commits_ok_guards)+

lemma commits_ok_invite: "commits_ok (invite pl a i c t oc)"
  unfolding invite_def invite_admission_def invite_by_approval_def
  by (intro commits_ok_rules commits_ok_guards commits_ok_finds commits_ok_inserts commits_ok_divert
      commits_ok_owner_freeze commits_ok_invite_target)

lemma commits_ok_extend:
  "commits_ok (extend_conversation a i c e n)" "commits_ok (reopen_conversation a i c e n)"
  unfolding extend_conversation_def reopen_conversation_def
  by (intro commits_ok_rules commits_ok_guards commits_ok_finds)+

section \<open>The membership operations keep the history\<close>

lemma participant_step_writes [simp]:
  "participant_step p (accepted t p)" "participant_step p (set_part_status st p)"
  by (simp_all add: participant_step_def accepted_def set_part_status_def)

lemma conversation_step_writes [simp]:
  "conversation_step c (extended t c)" "conversation_step c (reopened t c)"
  "conversation_step c (c\<lparr>cv_archived_at := Some t\<rparr>)" "conversation_step c (c\<lparr>cv_name := n\<rparr>)"
  by (simp_all add: conversation_step_def extended_def reopened_def)

lemma hist_at_participant_write:
  assumes "participant_of c i (working s) = Some p" "\<not> gone p" "\<And>q. participant_step q (f q)"
    and "keeps hist n"
  shows "keeps_at hist (seqm (change (set_participant c i f)) n) s"
  using assms by (intro hs.keeps_at_change_last hist_set_participant) auto

lemma hist_accept_invite: "keeps hist (accept_invite a i c)"
  unfolding accept_invite_def
proof (rule hist_transition, clarsimp, intro conjI impI)
  fix cv p and s :: session
  assume p: "participant_of (cv_id cv) i (working s) = Some p" "pt_status p = PtInvited"
  show "keeps_at hist (bnd now (\<lambda>t. seqm (change (set_participant (cv_id cv) i (accepted t)))
      (seqm (audit a ''participant.accept'' (Some i) (Some (cv_id cv)) None JNull)
      (seqm commit (ret (accepted t p)))))) s"
    using p by (intro hs.keeps_at_now hist_at_participant_write [where p = p])
       (auto simp: gone_def intro!: hs.keeps_rules guards_hist)
qed (auto intro!: hs.keepsD guards_hist)

lemma hist_decline_invite: "keeps hist (decline_invite a i c)"
  unfolding decline_invite_def
  by (rule hist_transition, clarsimp)
     (rule hist_at_participant_write, assumption,
      auto simp: gone_def intro!: hs.keeps_rules guards_hist)

lemma hist_leave: "keeps hist (leave a i c)"
  unfolding leave_def
  by (rule hist_transition, clarsimp)
     (rule hist_at_participant_write, assumption,
      auto simp: gone_def intro!: hs.keeps_rules guards_hist)

lemma hist_archive_rename:
  "keeps hist (archive_conversation a i c)" "keeps hist (rename_conversation a i c n)"
  unfolding archive_conversation_def rename_conversation_def
  by (intro hs.keeps_rules guards_hist hs.keeps_change hist_set_conversation conversation_step_writes)+

lemma hist_extend:
  "keeps hist (extend_conversation a i c e n)" "keeps hist (reopen_conversation a i c e n)"
  unfolding extend_conversation_def reopen_conversation_def
  by (intro hs.keeps_rules guards_hist hist_finds hs.keeps_change hist_set_conversation
      conversation_step_writes)+

lemma keeps_owner_freeze: "keeps lazy (authorize_invite_owner_freeze pl a i c t)"
  unfolding authorize_invite_owner_freeze_def Let_def by (intro lz.keeps_rules keeps_guards)

lemma keeps_invite_target: "keeps lazy (invite_target pl a i c t)"
  unfolding invite_target_def find_agent_by_id_def by (intro lz.keeps_rules keeps_guards)

lemma keeps_invite_admission: "keeps lazy (invite_admission pl a i c t)"
  unfolding invite_admission_def conversation_pinned_schema_version_def find_participant_def
  by (intro lz.keeps_rules keeps_guards keeps_invite_target keeps_owner_freeze)

lemmas admission_hist = keeps_owner_freeze [THEN keeps_lazy_hist] keeps_invite_target [THEN keeps_lazy_hist]
  keeps_invite_admission [THEN keeps_lazy_hist]

lemma hist_invite: "keeps hist (invite pl a i c t oc)"
  unfolding invite_def invite_by_approval_def
  by (intro hs.keeps_rules guards_hist admission_hist hist_insert_participant hist_divert_invite)

section \<open>A refused membership operation leaves nothing\<close>

text \<open>
  When an operation raises, what it committed is at most audit rows and lazy expiry; the exceptions
  of \<open>late_errors\<close> are those that can follow a commit of the operation itself.
\<close>

lemma errs_write: "rolls_back X n \<Longrightarrow> errs X lazy (seqm (change g) n)"
  by (intro lz.errs_rolls_back rolls_back_seqm silent_prims)

lemma errs_commit: "errs X lazy (seqm commit (ret x))"
  by (intro lz.errs_rolls_back rolls_back_commit raises_prims)

lemmas errs_leaves = keeps_deny [THEN lz.errs_keeps] keeps_denials [THEN lz.errs_keeps]
  lz.keeps_prims [THEN lz.errs_keeps]

lemmas errs_handler = errs_write errs_commit errs_leaves lz.errs_rules

lemmas rolls_back_handler = rolls_back_rules silent_rules silent_audit raises_rules

lemma errs_membership:
  "errs X lazy (accept_invite a i c)" "errs X lazy (decline_invite a i c)"
  "errs X lazy (leave a i c)" "errs X lazy (archive_conversation a i c)"
  "errs X lazy (rename_conversation a i c n)"
  "errs X lazy (extend_conversation a i c e n')" "errs X lazy (reopen_conversation a i c e n')"
  unfolding accept_invite_def decline_invite_def leave_def archive_conversation_def
    rename_conversation_def extend_conversation_def reopen_conversation_def
    get_active_participant_agent_ids_def
  by (intro errs_handler keeps_guards lz.keeps_prims; intro rolls_back_handler)+

lemma errs_silent_bnd: "silent m \<Longrightarrow> (\<And>x. rolls_back X (f x)) \<Longrightarrow> errs X lazy (bnd m f)"
  by (intro lz.errs_rolls_back rolls_back_bnd)

lemmas errs_inserts = silent_inserts [THEN errs_silent_bnd] silent_divert [THEN errs_silent_bnd]

lemma rolls_back_commit_notify:
  "rolls_back late_errors (seqm commit (seqm (case r of Inl y \<Rightarrow> ret () | Inr h \<Rightarrow>
     fire_approval_notifier pl h c g) (ret x)))"
  by (intro rolls_back_commit raises_rules raises_notifier)

lemma errs_invite: "errs late_errors lazy (invite pl a i c t oc)"
  unfolding invite_def invite_by_approval_def
  by (intro errs_inserts errs_handler keeps_guards keeps_invite_admission lz.keeps_prims;
      intro rolls_back_commit_notify rolls_back_handler)

end
