(* ===== verification/Messaging.thy ===== *)
theory Messaging
  imports Membership
begin

text \<open>
  Opening a conversation and posting to it (\<open>service.py\<close>, lines 3366 to 4025 and 10617 to 10974). Both
  handlers are split where the code has its own stages: the guards before anything is written, then
  either the direct insert or the diversion into an approval hold.
\<close>

section \<open>Closing a conversation\<close>

definition set_state :: "string \<Rightarrow> conversation \<Rightarrow> conversation" where
  "set_state new_state c =
     (case conv_state_of_name new_state of None \<Rightarrow> c | Some st \<Rightarrow> c\<lparr>cv_state := st\<rparr>)"

text \<open>\<open>if new_state is not None: conversation.state = new_state; _audit(...)\<close>.\<close>

definition close_conversation ::
  "string \<Rightarrow> nat \<Rightarrow> conversation \<Rightarrow> string option \<Rightarrow> string \<Rightarrow> conversation M" where
  "close_conversation actor_sub agent_id c new_state via =
     (case new_state of
        None \<Rightarrow> ret c
      | Some st \<Rightarrow>
          seqm (change (set_conversation (cv_id c) (set_state st)))
         (seqm (audit actor_sub ''conversation.close'' (Some agent_id) (Some (cv_id c)) None
                  (JObj [(''new_state'', JStr st), (''via'', JStr via)]))
         (ret (set_state st c))))"

section \<open>\<open>start_conversation\<close>: targets and admission\<close>

fun load_targets :: "string \<Rightarrow> agent \<Rightarrow> nat list \<Rightarrow> agent list M" where
  "load_targets actor_sub initiator [] = ret []"
| "load_targets actor_sub initiator (i # is) =
     bnd (find_agent_by_id i) (\<lambda>target.
       let unknown = deny actor_sub ''denied.unknown_agent'' (Some (ag_id initiator)) None
             (JObj [(''target_agent_id'', JId i)])
       in case target of
            None \<Rightarrow> unknown
          | Some a \<Rightarrow>
              if ag_status a \<noteq> AgActive then unknown
              else bnd (load_targets actor_sub initiator is) (\<lambda>as. ret (a # as)))"

fun require_not_retired :: "plugins \<Rightarrow> string \<Rightarrow> agent \<Rightarrow> agent list \<Rightarrow> unit M" where
  "require_not_retired pl actor_sub initiator [] = ret ()"
| "require_not_retired pl actor_sub initiator (a # as) =
     bnd (is_active_safe (active_checker pl) (ag_sub a)) (\<lambda>alive.
       if \<not> alive then deny_agent_retired actor_sub (ag_id initiator) None (ag_id a)
       else require_not_retired pl actor_sub initiator as)"

definition resolve_targets :: "plugins \<Rightarrow> string \<Rightarrow> agent \<Rightarrow> nat list \<Rightarrow> agent list M" where
  "resolve_targets pl actor_sub initiator target_ids =
     bnd (load_targets actor_sub initiator target_ids) (\<lambda>targets.
     seqm (require_not_retired pl actor_sub initiator targets)
    (ret targets))"

definition authorize_conversation_open ::
  "plugins \<Rightarrow> string \<Rightarrow> agent \<Rightarrow> agent list \<Rightarrow> string \<Rightarrow> string list option M" where
  "authorize_conversation_open pl actor_sub initiator targets conversation_type =
     (let participants = initiator # targets;
          refuse_open = (\<lambda>action. deny actor_sub action (Some (ag_id initiator)) None
            (JObj [(''conversation_type'', JStr conversation_type)]))
      in if conversation_type = ''open'' then ret None
         else bnd (query (\<lambda>d. owner_sets_for (ownership_client pl d) participants)) (\<lambda>r.
           case r of
             Cancelled \<Rightarrow> throw CancelledError
           | Raised _ _ \<Rightarrow> refuse_open ''denied.ownership_unverified''
           | Returned (owner_sets, is_shared_by_id) \<Rightarrow>
               if \<exists>p\<in>set participants. owner_sets (ag_id p) = {}
               then refuse_open ''denied.ownership_unverified''
               else if conversation_type = ''internal'' \<and>
                       (\<exists>p\<in>set participants. is_shared_by_id (ag_id p))
               then refuse_open ''denied.shared_agent_not_allowed_internal''
               else if \<not> pairwise_admitted conversation_type (map ag_id participants)
                            owner_sets is_shared_by_id
               then refuse_open (if conversation_type = ''internal'' then ''denied.not_same_owner''
                                 else ''denied.no_owner_overlap'')
               else
                 (let shared_initiator = conversation_type = ''asymmetric'' \<and>
                        is_shared_by_id (ag_id initiator);
                      shared_target = conversation_type = ''asymmetric'' \<and>
                        (\<exists>t\<in>set targets. is_shared_by_id (ag_id t))
                  in seqm (whenm (shared_initiator \<or> shared_target)
                       (audit actor_sub ''agent.conversation_open_bypassed_shared''
                         (Some (ag_id initiator)) None None
                         (JObj [(''conversation_type'', JStr conversation_type),
                                (''bypass'', JStr (if shared_initiator then ''shared_initiator''
                                                   else ''shared_target''))])))
                     (ret (Some (sorted_list_of_set
                       (\<Union>p\<in>set participants. owner_sets (ag_id p))))))))"

section \<open>\<open>start_conversation\<close>: the guards\<close>

text \<open>The checks on the arguments, once the initiator is known to be active.\<close>

definition start_arguments ::
  "string \<Rightarrow> agent \<Rightarrow> string \<Rightarrow> nat list \<Rightarrow> string \<Rightarrow> py_datetime option \<Rightarrow> string option \<Rightarrow>
     (string option \<times> nat list \<times> int option) M" where
  "start_arguments actor_sub initiator conversation_type target_agent_ids message_type expires_at name =
     bnd (raise_result (validate_conversation_name name)) (\<lambda>name.
     seqm (deny_if_system_message_type actor_sub (ag_id initiator) None message_type)
    (if MAX_ACCEPTED_TYPE_LENGTH < length conversation_type
     then throw (ValueError ''conversation_type exceeds 100 characters'')
     else if conversation_type \<notin> set CONVERSATION_TYPES then throw UnknownConversationTypeError
     else
       (let target_ids = sorted_set (filter (\<lambda>t. t \<noteq> ag_id initiator) target_agent_ids)
        in if target_ids = []
           then throw (ValueError ''target_agent_ids must name at least one other agent'')
           else case expires_at of
               None \<Rightarrow> ret (name, target_ids, None)
             | Some (Naive t) \<Rightarrow> throw (ValueError ''expires_at must be timezone-aware'')
             | Some (Aware t) \<Rightarrow> bnd now (\<lambda>n.
                 if t - n > MAX_CONVERSATION_TTL
                 then throw (ValueError ''expires_at may not be more than 90 days from now'')
                 else ret (name, target_ids, Some t)))))"

record conversation_opening =
  op_initiator :: agent
  op_targets :: "agent list"
  op_type :: string
  op_name :: "string option"
  op_expires_at :: "int option"
  op_owner_snapshot :: "string list option"
  op_message_type :: string
  op_schema_version :: int
  op_payload :: json
  op_risk_reason :: "string option"

definition start_admission ::
  "plugins \<Rightarrow> string \<Rightarrow> agent \<Rightarrow> string \<Rightarrow> nat list \<Rightarrow> (agent list \<times> int \<times> string list option) M" where
  "start_admission pl actor_sub initiator conversation_type target_ids =
     seqm (enforce_start_rate_limit actor_sub initiator)
    (seqm (enforce_sender_global_rate_limit actor_sub (ag_id initiator))
    (bnd (resolve_targets pl actor_sub initiator target_ids) (\<lambda>targets.
     bnd (negotiate_schema_version actor_sub initiator targets) (\<lambda>schema_version.
     bnd (authorize_conversation_open pl actor_sub initiator targets conversation_type) (\<lambda>snapshot.
     ret (targets, schema_version, snapshot))))))"

definition validated_payload ::
  "plugins \<Rightarrow> string \<Rightarrow> nat \<Rightarrow> nat option \<Rightarrow> string \<Rightarrow> int \<Rightarrow> json \<Rightarrow> json M" where
  "validated_payload pl actor_sub agent_id conversation_id message_type schema_version payload =
     (case validate_payload (json_size pl) (parse_payload pl) message_type schema_version payload of
        Inl e \<Rightarrow> deny_bad_schema actor_sub agent_id conversation_id message_type e
      | Inr p \<Rightarrow> ret p)"

definition start_message_checks ::
  "plugins \<Rightarrow> string \<Rightarrow> agent \<Rightarrow> string \<Rightarrow> agent list \<Rightarrow> string \<Rightarrow> int \<Rightarrow> json \<Rightarrow>
     (json \<times> string option) M" where
  "start_message_checks pl actor_sub initiator conversation_type targets message_type
       schema_version initial_message =
     bnd (validated_payload pl actor_sub (ag_id initiator) None message_type schema_version
            initial_message) (\<lambda>payload.
     seqm (require_message_sender_role actor_sub (ag_id initiator) None message_type RoleOwner)
    (seqm (enforce_message_type_accepted actor_sub (ag_id initiator) None
             (map (\<lambda>t. (ag_id t, ag_accepted_types t)) targets) message_type)
    (seqm (verify_docs_message pl actor_sub (ag_id initiator) (ag_sub initiator) None message_type
             payload)
    (bnd (score_message_risk pl actor_sub
            \<lparr>rc_conversation_type = conversation_type, rc_conversation_id = None,
             rc_sender_agent_id = ag_id initiator, rc_other_agent_ids = map ag_id targets,
             rc_message_type = message_type, rc_schema_version = schema_version\<rparr>) (\<lambda>risk_reason.
     seqm (whenm (risk_reason \<noteq> None) (deny_rate_limited_holds actor_sub (ag_id initiator)))
    (ret (payload, risk_reason)))))))"

definition start_guards ::
  "plugins \<Rightarrow> string \<Rightarrow> nat \<Rightarrow> string \<Rightarrow> nat list \<Rightarrow> json \<Rightarrow> string \<Rightarrow> py_datetime option \<Rightarrow>
     string option \<Rightarrow> conversation_opening M" where
  "start_guards pl actor_sub initiator_agent_id conversation_type target_agent_ids initial_message
       message_type expires_at name =
     bnd (require_active_agent actor_sub initiator_agent_id) (\<lambda>initiator.
     bnd (start_arguments actor_sub initiator conversation_type target_agent_ids message_type
            expires_at name) (\<lambda>(name, target_ids, expires_at).
     bnd (start_admission pl actor_sub initiator conversation_type target_ids)
       (\<lambda>(targets, schema_version, snapshot).
     bnd (start_message_checks pl actor_sub initiator conversation_type targets message_type
            schema_version initial_message) (\<lambda>(payload, risk_reason).
     ret \<lparr>op_initiator = initiator, op_targets = targets, op_type = conversation_type,
          op_name = name, op_expires_at = expires_at, op_owner_snapshot = snapshot,
          op_message_type = message_type, op_schema_version = schema_version,
          op_payload = payload, op_risk_reason = risk_reason\<rparr>))))"

section \<open>\<open>start_conversation\<close>: the rows\<close>

definition insert_conversation :: "conversation_opening \<Rightarrow> int \<Rightarrow> conversation M" where
  "insert_conversation op t =
     (case (case op_expires_at op of Some x \<Rightarrow> Some x
            | None \<Rightarrow> map_option (\<lambda>ttl. t + ttl) (CONVERSATION_TTL (op_type op))) of
        None \<Rightarrow> throw KeyError
      | Some expires \<Rightarrow>
          bnd new_id (\<lambda>i.
          bnd txn_now (\<lambda>created_at.
            let c = \<lparr>cv_id = i, cv_name = op_name op, cv_type = op_type op, cv_state = CvActive,
                     cv_created_by = ag_id (op_initiator op), cv_expires_at = expires,
                     cv_owner_snapshot = op_owner_snapshot op, cv_archived_at = None,
                     cv_created_at = created_at\<rparr>
            in seqm (change (add_conversation c)) (seqm flush (ret c)))))"

fun insert_invited :: "nat \<Rightarrow> nat \<Rightarrow> agent list \<Rightarrow> unit M" where
  "insert_invited conversation_id initiator_id [] = ret ()"
| "insert_invited conversation_id initiator_id (a # as) =
     bnd (insert_participant conversation_id (ag_id a) RoleMember PtInvited (Some initiator_id) None)
       (\<lambda>_. insert_invited conversation_id initiator_id as)"

definition open_conversation :: "conversation_opening \<Rightarrow> conversation M" where
  "open_conversation op =
     bnd now (\<lambda>t.
     bnd (insert_conversation op t) (\<lambda>c.
     bnd (insert_participant (cv_id c) (ag_id (op_initiator op)) RoleOwner PtActive None (Some t)) (\<lambda>_.
     seqm (insert_invited (cv_id c) (ag_id (op_initiator op)) (op_targets op))
    (seqm flush
    (ret c)))))"

definition audit_start :: "string \<Rightarrow> conversation_opening \<Rightarrow> conversation \<Rightarrow> unit M" where
  "audit_start actor_sub op c =
     audit actor_sub ''conversation.start'' (Some (ag_id (op_initiator op))) (Some (cv_id c)) None
       (JObj [(''type'', JStr (op_type op)),
              (''target_agent_ids'', JList (map (JId \<circ> ag_id) (op_targets op))),
              (''owner_snapshot'', case op_owner_snapshot op of None \<Rightarrow> JNull
                 | Some xs \<Rightarrow> JObj [(''owners'', JList (map JStr xs))]),
              (''name'', json_opt_str (op_name op))])"

record start_result =
  sr_conversation :: conversation
  sr_schema_version :: int
  sr_pending_hold :: "approval_hold option"

definition invited_infos :: "agent list \<Rightarrow> participant_info list" where
  "invited_infos targets = map (\<lambda>t. \<lparr>pi_agent_id = ag_id t, pi_display_name = ag_display_name t,
     pi_role = RoleMember, pi_status = PtInvited, pi_sub = ag_sub t\<rparr>) (sorted_by ag_sub targets)"

text \<open>The opening message is high-risk: a system marker is posted, the message itself is diverted.\<close>

definition start_held ::
  "plugins \<Rightarrow> string \<Rightarrow> string option \<Rightarrow> conversation_opening \<Rightarrow> conversation \<Rightarrow> string \<Rightarrow> start_result M" where
  "start_held pl actor_sub owner_sub_claim op c risk_reason =
     (case validate_payload (json_size pl) (parse_payload pl) ''conversation_opened''
             (op_schema_version op) (JObj []) of
        Inl e \<Rightarrow> throw (PayloadValidationError e)
      | Inr marker_payload \<Rightarrow>
          bnd (insert_message (cv_id c) 1 (ag_id (op_initiator op)) ''conversation_opened''
                 (op_schema_version op) marker_payload) (\<lambda>marker.
          seqm (audit_start actor_sub op c)
         (bnd (divert_high_risk_message pl actor_sub c (op_initiator op) owner_sub_claim
                 (op_message_type op) (op_schema_version op) (op_payload op) risk_reason
                 (invited_infos (op_targets op)) JNull) (\<lambda>result.
          seqm (audit actor_sub ''message.post'' (Some (ag_id (op_initiator op))) (Some (cv_id c))
                  (Some (ms_id marker))
                  (JObj [(''seq'', JInt 1), (''message_type'', JStr ''conversation_opened''),
                         (''system_synthesized'', JBool True),
                         (''hold_id'', case result of Inl _ \<Rightarrow> JNull | Inr h \<Rightarrow> JId (hd_id h))]))
         (bnd (case result of
                 Inl _ \<Rightarrow> close_conversation actor_sub (ag_id (op_initiator op)) c
                   (resulting_conversation_state (op_message_type op) False) (op_message_type op)
               | Inr _ \<Rightarrow> ret c) (\<lambda>c.
          seqm commit
         (seqm (case result of Inl _ \<Rightarrow> ret ()
                | Inr h \<Rightarrow> fire_approval_notifier pl h c (op_initiator op))
         (ret \<lparr>sr_conversation = c, sr_schema_version = op_schema_version op,
               sr_pending_hold = (case result of Inl _ \<Rightarrow> None | Inr h \<Rightarrow> Some h)\<rparr>))))))))"

definition start_posted :: "string \<Rightarrow> conversation_opening \<Rightarrow> conversation \<Rightarrow> start_result M" where
  "start_posted actor_sub op c =
     bnd (insert_message (cv_id c) 1 (ag_id (op_initiator op)) (op_message_type op)
            (op_schema_version op) (op_payload op)) (\<lambda>m.
     seqm (audit_start actor_sub op c)
    (seqm (audit actor_sub ''message.post'' (Some (ag_id (op_initiator op))) (Some (cv_id c))
             (Some (ms_id m))
             (JObj [(''seq'', JInt 1), (''message_type'', JStr (op_message_type op))]))
    (bnd (close_conversation actor_sub (ag_id (op_initiator op)) c
            (resulting_conversation_state (op_message_type op) False) (op_message_type op)) (\<lambda>c.
     seqm commit
    (ret \<lparr>sr_conversation = c, sr_schema_version = op_schema_version op,
          sr_pending_hold = None\<rparr>)))))"

definition start_conversation ::
  "plugins \<Rightarrow> string \<Rightarrow> nat \<Rightarrow> string \<Rightarrow> nat list \<Rightarrow> json \<Rightarrow> string \<Rightarrow> py_datetime option \<Rightarrow>
     string option \<Rightarrow> string option \<Rightarrow> start_result M" where
  "start_conversation pl actor_sub initiator_agent_id conversation_type target_agent_ids
       initial_message message_type expires_at owner_sub_claim name =
     bnd (start_guards pl actor_sub initiator_agent_id conversation_type target_agent_ids
            initial_message message_type expires_at name) (\<lambda>op.
     bnd (open_conversation op) (\<lambda>c.
       case op_risk_reason op of
         Some risk_reason \<Rightarrow> start_held pl actor_sub owner_sub_claim op c risk_reason
       | None \<Rightarrow> start_posted actor_sub op c))"

section \<open>\<open>post_message\<close>\<close>

text \<open>Everything that refuses the post before its risk is scored.\<close>

definition post_guards ::
  "plugins \<Rightarrow> string \<Rightarrow> agent \<Rightarrow> conversation \<Rightarrow> participant \<Rightarrow> string \<Rightarrow> int \<Rightarrow> json \<Rightarrow> json M" where
  "post_guards pl actor_sub sender c p message_type schema_version payload =
     seqm (whenm (cv_archived_at c \<noteq> None)
       (deny_archived actor_sub (ag_id sender) (cv_id c) ''denied.archived.post_message''))
    (seqm (deny_if_system_message_type actor_sub (ag_id sender) (Some (cv_id c)) message_type)
    (seqm (enforce_message_rate_limit actor_sub (ag_id sender) (cv_id c))
    (seqm (enforce_sender_global_rate_limit actor_sub (ag_id sender))
    (seqm (whenm (\<not> is_message_legal (conv_state_name (cv_state c)) message_type)
       (deny_bad_state actor_sub (ag_id sender) (cv_id c) (conv_state_name (cv_state c)) message_type))
    (seqm (require_message_sender_role actor_sub (ag_id sender) (Some (cv_id c)) message_type (pt_role p))
    (validated_payload pl actor_sub (ag_id sender) (Some (cv_id c)) message_type schema_version
       payload))))))"

definition post_docs_checks ::
  "plugins \<Rightarrow> string \<Rightarrow> agent \<Rightarrow> conversation \<Rightarrow> string \<Rightarrow> json \<Rightarrow> unit M" where
  "post_docs_checks pl actor_sub sender c message_type validated =
     seqm (whenm (message_type = ''docs'')
       (bnd (fetch_boundary_participants (ag_id sender) (cv_id c)) (\<lambda>(_, capability_others, _).
        enforce_message_type_accepted actor_sub (ag_id sender) (Some (cv_id c)) capability_others
          message_type)))
    (verify_docs_message pl actor_sub (ag_id sender) (ag_sub sender) (Some (cv_id c)) message_type
       validated)"

text \<open>\<open>review_reason\<close> counts only when it is not blank.\<close>

definition review_requested :: "string option \<Rightarrow> bool" where
  "review_requested review_reason \<longleftrightarrow>
     (case review_reason of None \<Rightarrow> False | Some r \<Rightarrow> str_strip r \<noteq> [])"

definition review_detail :: "string option \<Rightarrow> string option \<Rightarrow> json" where
  "review_detail review_reason scorer_risk_reason =
     (if review_requested review_reason
      then JObj ((''review_reason'', json_opt_str review_reason) #
                 when_some ''scorer_risk_reason'' JStr scorer_risk_reason)
      else JNull)"

definition post_held ::
  "plugins \<Rightarrow> string \<Rightarrow> agent \<Rightarrow> conversation \<Rightarrow> string option \<Rightarrow> string \<Rightarrow> int \<Rightarrow> json \<Rightarrow> string \<Rightarrow>
     participant_info list \<Rightarrow> json \<Rightarrow> (message + approval_hold) M" where
  "post_held pl actor_sub sender c owner_sub_claim message_type schema_version validated risk_reason
       infos extra =
     seqm (deny_rate_limited_holds actor_sub (ag_id sender))
    (bnd (divert_high_risk_message pl actor_sub c sender owner_sub_claim message_type schema_version
            validated risk_reason infos extra) (\<lambda>result.
     seqm commit
    (seqm (case result of Inl _ \<Rightarrow> ret () | Inr h \<Rightarrow> fire_approval_notifier pl h c sender)
    (ret result))))"

definition check_about_seq ::
  "string \<Rightarrow> nat \<Rightarrow> nat \<Rightarrow> string \<Rightarrow> json \<Rightarrow> nat \<Rightarrow> unit M" where
  "check_about_seq actor_sub sender_agent_id conversation_id message_type validated next_seq =
     whenm (message_type = ''needs_clarification'')
       (case json_get validated ''about_seq'' of
          Some (JInt about_seq) \<Rightarrow>
            whenm (int next_seq \<le> about_seq)
              (deny_bad_schema actor_sub sender_agent_id (Some conversation_id) message_type
                ''about_seq does not reference a prior message in this conversation'')
        | _ \<Rightarrow> throw KeyError)"

text \<open>What posting the message does to the sender's membership and to the conversation.\<close>

definition post_effects ::
  "string \<Rightarrow> nat \<Rightarrow> conversation \<Rightarrow> string \<Rightarrow> json \<Rightarrow> unit M" where
  "post_effects actor_sub sender_agent_id c message_type validated =
     (if message_type = ''decline'' then
        seqm (change (set_participant (cv_id c) sender_agent_id (set_part_status PtDeclined)))
       (seqm (audit actor_sub ''participant.decline'' (Some sender_agent_id) (Some (cv_id c)) None
                (JObj [(''reason'', case json_get validated ''reason'' of None \<Rightarrow> JNull | Some j \<Rightarrow> j)]))
       (bnd (query (all_non_owners_declined (cv_id c))) (\<lambda>all_declined.
        bnd (close_conversation actor_sub sender_agent_id c
               (resulting_conversation_state ''decline'' all_declined) ''decline'') (\<lambda>_.
        ret ()))))
      else if message_type \<in> {''confirm'', ''task_complete'', ''task_decline'', ''task_cancel''} then
        bnd (close_conversation actor_sub sender_agent_id c
               (resulting_conversation_state message_type False) message_type) (\<lambda>_.
        ret ())
      else ret ())"

definition post_direct ::
  "string \<Rightarrow> agent \<Rightarrow> conversation \<Rightarrow> string \<Rightarrow> int \<Rightarrow> json \<Rightarrow> message M" where
  "post_direct actor_sub sender c message_type schema_version validated =
     bnd (query (last_seq (cv_id c))) (\<lambda>last.
     seqm (check_about_seq actor_sub (ag_id sender) (cv_id c) message_type validated (last + 1))
    (bnd (insert_message (cv_id c) (last + 1) (ag_id sender) message_type schema_version validated) (\<lambda>m.
     seqm (audit actor_sub ''message.post'' (Some (ag_id sender)) (Some (cv_id c)) (Some (ms_id m))
             (JObj [(''seq'', JInt (int (last + 1))), (''message_type'', JStr message_type)]))
    (seqm (post_effects actor_sub (ag_id sender) c message_type validated)
    (seqm commit
    (ret m))))))"

definition post_message ::
  "plugins \<Rightarrow> string \<Rightarrow> nat \<Rightarrow> nat \<Rightarrow> string \<Rightarrow> json \<Rightarrow> int \<Rightarrow> string option \<Rightarrow> string option \<Rightarrow>
     (message + approval_hold) M" where
  "post_message pl actor_sub sender_agent_id conversation_id message_type payload schema_version
       owner_sub_claim review_reason =
     bnd (require_active_agent actor_sub sender_agent_id) (\<lambda>sender.
     bnd (load_participant_for_transition actor_sub sender_agent_id conversation_id PtActive) (\<lambda>(c, p).
     bnd (post_guards pl actor_sub sender c p message_type schema_version payload) (\<lambda>validated.
     seqm (post_docs_checks pl actor_sub sender c message_type validated)
    (bnd (check_boundary_crossing pl actor_sub sender_agent_id c message_type schema_version)
       (\<lambda>(scorer_risk_reason, infos).
     case (if review_requested review_reason then Some AGENT_REQUESTED_RISK_REASON
           else scorer_risk_reason) of
       Some risk_reason \<Rightarrow>
         post_held pl actor_sub sender c owner_sub_claim message_type schema_version validated
           risk_reason infos (review_detail review_reason scorer_risk_reason)
     | None \<Rightarrow>
         bnd (post_direct actor_sub sender c message_type schema_version validated) (\<lambda>m. ret (Inl m)))))))"

section \<open>Every committed database satisfies the schema's constraints\<close>

lemma commits_ok_close: "commits_ok (close_conversation a i c st via)"
  unfolding close_conversation_def by (intro commits_ok_rules commits_ok_guards)

lemma commits_ok_load_targets: "commits_ok (load_targets a g is)"
  by (induction "is") (auto simp: Let_def intro!: commits_ok_rules commits_ok_guards commits_ok_finds)

lemma commits_ok_not_retired: "commits_ok (require_not_retired pl a g as)"
  by (induction "as") (auto intro!: commits_ok_rules commits_ok_guards)

lemma commits_ok_authorize_open: "commits_ok (authorize_conversation_open pl a g ts ct)"
  unfolding authorize_conversation_open_def Let_def by (intro commits_ok_rules commits_ok_guards)

lemma commits_ok_payload: "commits_ok (validated_payload pl a i c mt v p)"
  unfolding validated_payload_def by (intro commits_ok_rules commits_ok_guards)

lemma commits_ok_start_arguments: "commits_ok (start_arguments a g ct ts mt e n)"
  unfolding start_arguments_def Let_def
  by (intro commits_ok_rules commits_ok_guards)
     (auto split: py_datetime.split intro!: commits_ok_rules)

lemma commits_ok_start_guards: "commits_ok (start_guards pl a i ct ts m mt e n)"
  unfolding start_guards_def start_admission_def start_message_checks_def resolve_targets_def
  by (intro commits_ok_rules commits_ok_guards commits_ok_start_arguments commits_ok_load_targets
      commits_ok_not_retired commits_ok_authorize_open commits_ok_payload)

lemma commits_ok_insert_invited: "commits_ok (insert_invited c i as)"
  by (induction "as") (auto intro!: commits_ok_rules commits_ok_inserts)

lemma commits_ok_open_conversation: "commits_ok (open_conversation op)"
  unfolding open_conversation_def insert_conversation_def Let_def
  by (intro commits_ok_rules commits_ok_inserts commits_ok_insert_invited)

lemma commits_ok_start_held: "commits_ok (start_held pl a oc op c rr)"
  unfolding start_held_def audit_start_def
  by (intro commits_ok_rules commits_ok_guards commits_ok_inserts commits_ok_divert commits_ok_close)

lemma commits_ok_start_posted: "commits_ok (start_posted a op c)"
  unfolding start_posted_def audit_start_def
  by (intro commits_ok_rules commits_ok_guards commits_ok_inserts commits_ok_close)

lemma commits_ok_start_conversation: "commits_ok (start_conversation pl a i ct ts m mt e oc n)"
  unfolding start_conversation_def
  by (intro commits_ok_rules commits_ok_start_guards commits_ok_open_conversation
      commits_ok_start_held commits_ok_start_posted)

lemma commits_ok_about_seq: "commits_ok (check_about_seq a i c mt p n)"
  unfolding check_about_seq_def
  by (intro commits_ok_rules)
     (auto split: json.split intro!: commits_ok_rules commits_ok_guards)

lemma commits_ok_post_effects: "commits_ok (post_effects a i c mt p)"
  unfolding post_effects_def by (intro commits_ok_rules commits_ok_guards commits_ok_close)

lemma commits_ok_post_message: "commits_ok (post_message pl a i c mt p v oc rv)"
  unfolding post_message_def post_guards_def post_docs_checks_def post_held_def post_direct_def
  by (intro commits_ok_rules commits_ok_guards commits_ok_inserts commits_ok_divert commits_ok_payload
      commits_ok_about_seq commits_ok_post_effects)

section \<open>Opening and posting keep the history\<close>

lemma conversation_step_set_state [simp]: "conversation_step c (set_state st c)"
  by (simp add: conversation_step_def set_state_def split: option.split)

lemma hist_close: "keeps hist (close_conversation a i c st via)"
  unfolding close_conversation_def
  by (intro hs.keeps_rules guards_hist hs.keeps_change hist_set_conversation conversation_step_set_state)

lemma keeps_load_targets: "keeps lazy (load_targets a g is)"
  by (induction "is") (auto simp: Let_def find_agent_by_id_def intro!: lz.keeps_rules keeps_guards)

lemma keeps_not_retired: "keeps lazy (require_not_retired pl a g as)"
  by (induction "as") (auto intro!: lz.keeps_rules keeps_guards)

lemma keeps_authorize_open: "keeps lazy (authorize_conversation_open pl a g ts ct)"
  unfolding authorize_conversation_open_def Let_def by (intro lz.keeps_rules keeps_guards)

lemma keeps_payload: "keeps lazy (validated_payload pl a i c mt v p)"
  unfolding validated_payload_def by (intro lz.keeps_rules keeps_guards)

lemma keeps_start_arguments: "keeps lazy (start_arguments a g ct ts mt e n)"
  unfolding start_arguments_def Let_def
  by (intro lz.keeps_rules keeps_guards) (auto split: py_datetime.split intro!: lz.keeps_rules)

lemma keeps_start_guards: "keeps lazy (start_guards pl a i ct ts m mt e n)"
  unfolding start_guards_def start_admission_def start_message_checks_def resolve_targets_def
  by (intro lz.keeps_rules keeps_guards keeps_start_arguments keeps_load_targets
      keeps_not_retired keeps_authorize_open keeps_payload)

lemma hist_insert_invited: "keeps hist (insert_invited c i as)"
  by (induction "as") (auto intro!: hs.keeps_rules hist_insert_participant)

lemma hist_open_conversation: "keeps hist (open_conversation op)"
  unfolding open_conversation_def insert_conversation_def Let_def
  by (intro hs.keeps_rules hist_insert_participant hist_insert_invited hs.keeps_change hist_add_row)

lemma insert_invited_ok:
  "insert_invited c i as s = (Inr (), s') \<Longrightarrow> messages (working s') = messages (working s)"
proof (induction "as" arbitrary: s)
  case Nil
  then show ?case by (simp add: inr)
next
  case (Cons a "as")
  from Cons.prems show ?case
    by (auto simp: inr insert_participant_def Let_def dest!: Cons.IH)
qed

lemma open_conversation_ok [okD]:
  assumes "open_conversation op s = (Inr c, s')"
  shows "messages (working s') = messages (working s) \<and> cv_id c = fresh_id (working s) \<and>
    cv_type c = op_type op"
  using assms
  by (auto simp: open_conversation_def insert_conversation_def insert_participant_def Let_def inr
      split: option.splits dest!: insert_invited_ok)

text \<open>The first message of a new conversation is number 1.\<close>

lemma open_conversation_empty:
  assumes "open_conversation op s = (Inr c, s')"
  shows "last_seq (cv_id c) (working s') = 0"
  using open_conversation_ok [OF assms] fresh_conversation [of "working s"]
  by (simp add: last_seq_def conv_messages_def)

lemma hist_start_conversation: "keeps hist (start_conversation pl a i ct ts m mt e oc n)"
  unfolding start_conversation_def
proof (rule hs.keeps_bnd [OF keeps_start_guards [THEN keeps_lazy_hist]], rule hs.keepsI,
    rule hs.keeps_at_then [OF hist_open_conversation])
  fix op c and s s1 :: session
  assume "open_conversation op s = (Inr c, s1)"
  then have first: "1 = last_seq (cv_id c) (working s1) + 1"
    using open_conversation_empty by simp
  have "keeps_at hist (start_posted a op c) s1"
    unfolding start_posted_def audit_start_def
    by (intro hs.keeps_at_last hist_at_insert_message first hs.keeps_rules guards_hist hist_close)
  moreover have "keeps_at hist (start_held pl a oc op c r) s1" for r
  proof (cases "validate_payload (json_size pl) (parse_payload pl) ''conversation_opened''
      (op_schema_version op) (JObj [])")
    case (Inl e)
    then show ?thesis by (simp add: start_held_def hs.keepsD hs.keeps_prims)
  next
    case (Inr j)
    then show ?thesis
      unfolding start_held_def audit_start_def sum.case Inr
      by (intro hs.keeps_at_last hist_at_insert_message first hs.keeps_rules guards_hist hist_close
          hist_divert_message)
  qed
  ultimately show "keeps_at hist (case op_risk_reason op of None \<Rightarrow> start_posted a op c
      | Some r \<Rightarrow> start_held pl a oc op c r) s1"
    by (simp split: option.split)
qed

lemma keeps_post_guards: "keeps lazy (post_guards pl a g c p mt v j)"
  unfolding post_guards_def by (intro lz.keeps_rules keeps_guards keeps_payload)

lemma keeps_post_docs_checks: "keeps lazy (post_docs_checks pl a g c mt j)"
  unfolding post_docs_checks_def by (intro lz.keeps_rules keeps_guards)

lemma keeps_about_seq: "keeps lazy (check_about_seq a i c mt p n)"
  unfolding check_about_seq_def
  by (intro lz.keeps_rules) (auto split: json.split intro!: lz.keeps_rules keeps_guards)

lemmas post_hist = keeps_post_guards [THEN keeps_lazy_hist] keeps_post_docs_checks [THEN keeps_lazy_hist]
  keeps_about_seq [THEN keeps_lazy_hist]

lemma hist_post_held: "keeps hist (post_held pl a g c oc mt v j rr infos extra)"
  unfolding post_held_def by (intro hs.keeps_rules guards_hist hist_divert_message)

lemma passes_post_guards:
  "passes (validated_payload pl a i cid mt v j)" "passes (post_guards pl a g c p mt v j)"
  "passes (post_docs_checks pl a g c mt j)"
  unfolding validated_payload_def post_guards_def post_docs_checks_def
  by (intro passes_rules passes_denials passes_guards)+

lemma passes_about_seq: "passes (check_about_seq a i c mt p n)"
  unfolding check_about_seq_def
  by (intro passes_rules) (auto split: json.split intro!: passes_rules passes_denials)

lemma hist_at_post_effects:
  assumes "participant_of (cv_id c) i (working s) = Some p" "\<not> gone p"
  shows "keeps_at hist (post_effects a i c mt j) s"
  unfolding post_effects_def
  by (intro hs.keeps_at_if hist_at_participant_write [OF assms] hs.keepsD)
     (auto intro!: hs.keeps_rules guards_hist hist_close)

lemma hist_at_post_direct:
  assumes p: "participant_of (cv_id c) (ag_id g) (working s) = Some p" "\<not> gone p"
  shows "keeps_at hist (post_direct a g c mt v j) s"
  unfolding post_direct_def
proof (rule hs.keeps_at_query, rule hs.keeps_at_after [OF post_hist(3)])
  fix s1
  assume "check_about_seq a (ag_id g) (cv_id c) mt j (last_seq (cv_id c) (working s) + 1) s = (Inr (), s1)"
  then have s1: "same_tables (working s) (working s1)"
    using passesD [OF passes_about_seq] by blast
  then have l: "last_seq (cv_id c) (working s) + 1 = last_seq (cv_id c) (working s1) + 1"
    by (simp add: last_seq_def same_tables_lookups)
  show "keeps_at hist (bnd (insert_message (cv_id c) (last_seq (cv_id c) (working s) + 1) (ag_id g) mt v j)
      (\<lambda>m. seqm (audit a ''message.post'' (Some (ag_id g)) (Some (cv_id c)) (Some (ms_id m))
             (JObj [(''seq'', JInt (int (last_seq (cv_id c) (working s) + 1))), (''message_type'', JStr mt)]))
      (seqm (post_effects a (ag_id g) c mt j) (seqm commit (ret m))))) s1"
  proof (rule hs.keeps_at_bnd [OF hist_at_insert_message [OF l]], rule hs.keeps_at_after [OF guards_hist(1)])
    fix m s2 s3
    assume "insert_message (cv_id c) (last_seq (cv_id c) (working s) + 1) (ag_id g) mt v j s1 = (Inr m, s2)"
      "audit a ''message.post'' (Some (ag_id g)) (Some (cv_id c)) (Some (ms_id m))
        (JObj [(''seq'', JInt (int (last_seq (cv_id c) (working s) + 1))), (''message_type'', JStr mt)]) s2 =
        (Inr (), s3)"
    then have "participant_of (cv_id c) (ag_id g) (working s3) = Some p"
      using p(1) s1 by (auto simp: inr same_tables_lookups)
    then show "keeps_at hist (seqm (post_effects a (ag_id g) c mt j) (seqm commit (ret m))) s3"
      using p(2)
      by (intro hs.keeps_at_seqm hist_at_post_effects hs.keepsD hs.keeps_seqm hs.keeps_commit
          hs.keeps_prims)
  qed
qed

text \<open>A guard between the loading of the participant and the write leaves the participant alone.\<close>

lemma hist_at_guarded:
  assumes "participant_of c i (working s) = Some p" "keeps lazy m" "passes m"
    and "\<And>x s1. participant_of c i (working s1) = Some p \<Longrightarrow> keeps_at hist (f x) s1"
  shows "keeps_at hist (bnd m f) s"
proof (rule hs.keeps_at_then [OF keeps_lazy_hist [OF assms(2)]], rule assms(4))
  fix x s1
  assume "m s = (Inr x, s1)"
  from passesD [OF assms(3) this] show "participant_of c i (working s1) = Some p"
    using assms(1) by (auto simp: same_tables_lookups)
qed

lemma hist_post_message: "keeps hist (post_message pl a i cid mt j v oc rv)"
  unfolding post_message_def seqm_def [of "post_docs_checks pl a g c mt w" for g c w]
proof (rule hs.keepsI, rule hs.keeps_at_then [OF keeps_require_active_agent [THEN keeps_lazy_hist]],
    rule hs.keepsD, rule hist_transition, unfold prod.case,
    rule hist_at_guarded [OF _ keeps_post_guards passes_post_guards(2)], assumption,
    rule hist_at_guarded [OF _ keeps_post_docs_checks passes_post_guards(3)], assumption,
    rule hist_at_guarded [OF _ keeps_boundary_crossing passes_boundary_crossing], assumption)
  fix s s1 g p w x r and c :: conversation and s2 :: session
  assume "require_active_agent a i s = (Inr g, s1)"
  then have i: "ag_id g = i" by (auto simp: inr dest: agent_by_idD)
  assume "cv_id c = cid" "pt_status p = PtActive" "participant_of cid i (working s2) = Some p"
  then have "keeps_at hist (bnd (post_direct a g c mt v w) (\<lambda>m. ret (Inl m))) s2"
    using i by (intro hs.keeps_at_last hist_at_post_direct hs.keeps_prims) (auto simp: gone_def)
  then show "keeps_at hist (case r of (scorer_risk_reason, infos) \<Rightarrow>
      case (if review_requested rv then Some AGENT_REQUESTED_RISK_REASON else scorer_risk_reason) of
        None \<Rightarrow> bnd (post_direct a g c mt v w) (\<lambda>m. ret (Inl m))
      | Some rr \<Rightarrow> post_held pl a g c oc mt v w rr infos (review_detail rv scorer_risk_reason)) s2"
    by (auto split: prod.split option.split intro: hs.keepsD [OF hist_post_held])
qed

section \<open>A refused opening or post leaves nothing\<close>

lemma silent_close: "silent (close_conversation a i c st via)"
  unfolding close_conversation_def by (intro silent_rules silent_case_rules silent_audit)

lemma silent_insert_invited: "silent (insert_invited c i as)"
  by (induction "as") (auto intro!: silent_rules silent_inserts)

lemma silent_open_conversation: "silent (open_conversation op)"
  unfolding open_conversation_def insert_conversation_def Let_def
  by (intro silent_rules silent_case_rules silent_inserts silent_insert_invited)

lemma silent_post_effects: "silent (post_effects a i c mt j)"
  unfolding post_effects_def by (intro silent_rules silent_audit silent_close)

lemma rolls_back_start_posted: "rolls_back X (start_posted a op c)"
  unfolding start_posted_def audit_start_def
  by (intro rolls_back_handler silent_inserts silent_close)

lemma rolls_back_start_held: "rolls_back late_errors (start_held pl a oc op c rr)"
proof (cases "validate_payload (json_size pl) (parse_payload pl) ''conversation_opened''
      (op_schema_version op) (JObj [])")
  case (Inl e)
  then show ?thesis by (simp add: start_held_def rolls_back_silent silent_prims)
next
  case (Inr j)
  then show ?thesis
    unfolding start_held_def audit_start_def sum.case Inr
    by (intro rolls_back_commit_notify rolls_back_handler silent_inserts silent_divert silent_close
        silent_case_rules)
qed

lemma errs_start_conversation: "errs late_errors lazy (start_conversation pl a i ct ts m mt e oc n)"
  unfolding start_conversation_def
  by (rule lz.errs_bnd [OF keeps_start_guards], rule errs_silent_bnd [OF silent_open_conversation])
     (intro rolls_back_case_option rolls_back_start_held rolls_back_start_posted)

lemma errs_post_held: "errs late_errors lazy (post_held pl a g c oc mt v j rr infos extra)"
  unfolding post_held_def
  by (intro errs_inserts errs_handler keeps_guards; intro rolls_back_commit_notify)

lemma errs_post_direct: "errs X lazy (post_direct a g c mt v j)"
  unfolding post_direct_def
  by (intro errs_inserts errs_handler keeps_about_seq lz.keeps_prims;
      intro rolls_back_handler silent_post_effects)

lemma errs_post_sent: "errs X lazy (bnd (post_direct a g c mt v w) (\<lambda>m. ret (Inl m)))"
  using errs_post_direct [of X a g c mt v w]
  by (auto simp: errs_def bnd_def ret_def split: prod.splits sum.splits)

lemma errs_post_message: "errs late_errors lazy (post_message pl a i cid mt j v oc rv)"
  unfolding post_message_def
  by (intro errs_post_sent errs_post_held lz.errs_rules keeps_guards keeps_post_guards
      keeps_post_docs_checks)

end
