(* ===== verification/Holds.thy ===== *)
theory Holds
  imports Messaging
begin

text \<open>
  What happens to an approval hold after it was created (\<open>service.py\<close>, lines 5987 to 6549): the
  sender's view of it, the owner's queue, and the owner's decision, which rejects it or releases the
  held message or invite after checking again what may have changed meanwhile.
\<close>

section \<open>Reading a hold\<close>

definition get_hold_status :: "string \<Rightarrow> nat \<Rightarrow> nat \<Rightarrow> json M" where
  "get_hold_status actor_sub caller_agent_id hold_id =
     bnd (find_hold hold_id) (\<lambda>hold.
       case hold of
         None \<Rightarrow> bnd (fk_safe_agent_id caller_agent_id) (\<lambda>safe_id.
           deny actor_sub ''denied.unknown_hold'' safe_id None
             (JObj [(''attempted_hold_id'', JId hold_id)]))
       | Some h \<Rightarrow>
           if hd_sender_agent_id h \<noteq> caller_agent_id
           then deny actor_sub ''denied.hold_not_sender'' (Some caller_agent_id)
                  (Some (hd_conversation_id h)) (JObj [(''attempted_hold_id'', JId hold_id)])
           else bnd (maybe_expire_hold actor_sub h) (\<lambda>h.
                bnd (query (\<lambda>d. case hd_message_id h of None \<Rightarrow> None
                      | Some i \<Rightarrow> find (\<lambda>m. ms_id m = i) (messages d))) (\<lambda>message.
                bnd (query (\<lambda>d. case (hd_kind h, hd_target_agent_id h) of
                        (KindInvite, Some t) \<Rightarrow> participant_of (hd_conversation_id h) t d
                      | _ \<Rightarrow> None)) (\<lambda>participant.
                seqm commit
               (ret (json_extend (hold_dict h)
                 (when_some ''message_seq'' (\<lambda>m. JInt (int (ms_seq m))) message @
                  when_some ''participant_status'' (\<lambda>p. JStr (part_status_name (pt_status p)))
                    participant)))))))"

definition pending_holds_of :: "string \<Rightarrow> db \<Rightarrow> (approval_hold \<times> agent) list" where
  "pending_holds_of owner_sub d = sorted_by (hd_created_at \<circ> fst) (List.map_filter
     (\<lambda>h. if hd_owner_sub h = owner_sub \<and> hd_status h = PendingHuman
          then map_option (\<lambda>a. (h, a)) (agent_by_id (hd_sender_agent_id h) d) else None) (holds d))"

definition pending_entry :: "approval_hold \<Rightarrow> agent \<Rightarrow> json" where
  "pending_entry h sender = json_extend (hold_dict h)
     [(''sender_agent_id'', JId (ag_id sender)),
      (''sender_display_name'', JStr (ag_display_name sender)),
      (''message_type'', JStr (hd_message_type h)), (''payload'', hd_payload h)]"

fun pending_entries :: "string \<Rightarrow> (approval_hold \<times> agent) list \<Rightarrow> json list M" where
  "pending_entries owner_sub [] = ret []"
| "pending_entries owner_sub ((h, sender) # rows) =
     bnd (maybe_expire_hold owner_sub h) (\<lambda>h.
     bnd (pending_entries owner_sub rows) (\<lambda>entries.
     ret (if hd_status h \<noteq> PendingHuman then entries else pending_entry h sender # entries)))"

definition list_pending_approval_holds :: "string \<Rightarrow> int \<Rightarrow> (json list \<times> bool) M" where
  "list_pending_approval_holds owner_sub limit =
     (let limit = nat (max 1 (min limit 200)) in
      bnd (query (\<lambda>d. take (limit + 1) (pending_holds_of owner_sub d))) (\<lambda>rows.
      bnd (pending_entries owner_sub (take limit rows)) (\<lambda>entries.
      seqm commit
     (ret (entries, limit < length rows \<and> entries \<noteq> [])))))"

section \<open>Who may decide, and when\<close>

text \<open>
  The checks \<open>decide_hold\<close> and \<open>get_hold_conversation_participants\<close> share: the hold exists, the
  caller owns it, and it awaits a human decision.
\<close>

definition load_decidable_hold :: "string \<Rightarrow> nat \<Rightarrow> approval_hold M" where
  "load_decidable_hold approver_sub hold_id =
     bnd (find_hold hold_id) (\<lambda>hold.
       case hold of
         None \<Rightarrow> deny approver_sub ''denied.unknown_hold'' None None
                   (JObj [(''attempted_hold_id'', JId hold_id)])
       | Some h \<Rightarrow>
           if hd_owner_sub h \<noteq> approver_sub
           then deny approver_sub ''denied.hold_not_owner'' None (Some (hd_conversation_id h))
                  (JObj [(''attempted_hold_id'', JId hold_id)])
           else bnd (maybe_expire_hold approver_sub h) (\<lambda>h.
             if hd_status h = HoldExpired then seqm commit (throw HoldExpiredError)
             else if hd_status h = PendingAuto then seqm commit (throw HoldAwaitingAutoReviewError)
             else if hd_status h \<noteq> PendingHuman
             then seqm commit (throw (HoldAlreadyDecidedError (hd_status h)))
             else ret h))"

definition get_hold_conversation_participants ::
  "string \<Rightarrow> nat \<Rightarrow> (nat \<times> participant_info list) M" where
  "get_hold_conversation_participants approver_sub hold_id =
     bnd (load_decidable_hold approver_sub hold_id) (\<lambda>h.
     bnd (find_conversation (hd_conversation_id h)) (\<lambda>conversation.
       case conversation of
         None \<Rightarrow> throw RuntimeError
       | Some c \<Rightarrow>
           bnd (query (\<lambda>d. sorted_by (ag_sub \<circ> snd) (join_agents
                  (filter (\<lambda>p. pt_status p \<in> {PtActive, PtInvited})
                    (conv_participants (hd_conversation_id h) d)) d))) (\<lambda>rows.
           seqm commit
          (ret (hd_conversation_id h, map participant_info_of rows)))))"

section \<open>The decision\<close>

text \<open>The columns a human decision writes.\<close>

definition human_decided ::
  "hold_status \<Rightarrow> string \<Rightarrow> int \<Rightarrow> string option \<Rightarrow> approval_hold \<Rightarrow> approval_hold" where
  "human_decided st approver_sub t reason h =
     h\<lparr>hd_status := st, hd_decided_by_sub := Some approver_sub, hd_decided_at := Some t,
       hd_decision_reason := reason\<rparr>"

definition reject_hold :: "string \<Rightarrow> approval_hold \<Rightarrow> string option \<Rightarrow> json \<Rightarrow> approval_hold M" where
  "reject_hold approver_sub h reason detail =
     bnd now (\<lambda>t.
     seqm (change (set_hold (hd_id h) (human_decided Rejected approver_sub t reason)))
    (seqm (audit approver_sub ''approval.reject'' (Some (hd_sender_agent_id h))
             (Some (hd_conversation_id h)) None detail)
    (seqm commit
    (ret (human_decided Rejected approver_sub t reason h)))))"

text \<open>The conversation a hold is to be released into, checked again.\<close>

definition load_release_conversation :: "string \<Rightarrow> approval_hold \<Rightarrow> conversation M" where
  "load_release_conversation approver_sub h =
     bnd (find_conversation (hd_conversation_id h)) (\<lambda>conversation.
       case conversation of
         None \<Rightarrow> throw RuntimeError
       | Some c \<Rightarrow> bnd (maybe_expire approver_sub c) (\<lambda>c.
           if cv_archived_at c \<noteq> None
           then deny_archived approver_sub (hd_sender_agent_id h) (cv_id c) ''denied.archived.decide_hold''
           else if cv_state c \<noteq> CvActive
           then deny_bad_state approver_sub (hd_sender_agent_id h) (cv_id c)
                  (conv_state_name (cv_state c)) (hd_message_type h)
           else ret c))"

definition revalidate_target ::
  "plugins \<Rightarrow> string \<Rightarrow> approval_hold \<Rightarrow> conversation \<Rightarrow> nat \<Rightarrow> unit M" where
  "revalidate_target pl approver_sub h c target_agent_id =
     bnd (invite_target pl approver_sub (hd_sender_agent_id h) c target_agent_id) (\<lambda>target.
     authorize_invite_owner_freeze pl approver_sub (hd_sender_agent_id h) c target)"

text \<open>
  \<open>except (AccessDeniedError, AgentRetiredError)\<close>: an ownership outage leaves the hold pending, any
  other refusal rejects it; the exception is raised again either way.
\<close>

definition reject_ineligible :: "string \<Rightarrow> nat \<Rightarrow> conversation \<Rightarrow> err \<Rightarrow> unit M" where
  "reject_ineligible approver_sub hold_id c e =
     bnd (find_hold hold_id) (\<lambda>refreshed.
       case refreshed of
         None \<Rightarrow> throw e
       | Some k \<Rightarrow>
           if hd_status k = PendingHuman
           then bnd now (\<lambda>t.
             seqm (change (set_hold hold_id (human_decided Rejected approver_sub t
                     (Some ''target no longer eligible for admission on re-validation''))))
            (seqm (audit approver_sub ''approval.reject'' (Some (hd_sender_agent_id k))
                     (Some (cv_id c)) None
                     (JObj [(''hold_id'', JId hold_id), (''reason'', JStr ''revalidation_failed'')]))
            (seqm commit
            (throw e))))
           else throw e)"

definition revalidation_failed :: "string \<Rightarrow> nat \<Rightarrow> conversation \<Rightarrow> err \<Rightarrow> unit M" where
  "revalidation_failed approver_sub hold_id c e =
     (case e of
        AccessDeniedError reason \<Rightarrow>
          if reason = ''denied.ownership_lookup_failed'' then throw e
          else reject_ineligible approver_sub hold_id c e
      | AgentRetiredError _ \<Rightarrow> reject_ineligible approver_sub hold_id c e
      | _ \<Rightarrow> throw e)"

record decision_result =
  dn_hold :: approval_hold
  dn_participant_status :: "part_status option"
  dn_notify_active :: "nat list"
  dn_notify_inbox :: "nat list"

definition release_invite ::
  "plugins \<Rightarrow> string \<Rightarrow> approval_hold \<Rightarrow> conversation \<Rightarrow> string option \<Rightarrow> decision_result M" where
  "release_invite pl approver_sub h c reason =
     (case hd_target_agent_id h of
        None \<Rightarrow> throw RuntimeError
      | Some target_agent_id \<Rightarrow>
          bnd (find_participant (cv_id c) target_agent_id) (\<lambda>existing.
            case existing of
              Some p \<Rightarrow>
                bnd (reject_hold approver_sub h (Some ''target already admitted via a different path'')
                       (JObj [(''hold_id'', JId (hd_id h)), (''target_agent_id'', JId target_agent_id),
                              (''current_status'', JStr (part_status_name (pt_status p))),
                              (''reason'', JStr ''already_participant'')])) (\<lambda>_.
                throw (HoldAlreadyDecidedError Rejected))
            | None \<Rightarrow>
                seqm (try_except (revalidate_target pl approver_sub h c target_agent_id)
                        (revalidation_failed approver_sub (hd_id h) c))
               (bnd (insert_participant (cv_id c) target_agent_id RoleMember PtInvited
                       (Some (hd_sender_agent_id h)) None) (\<lambda>p.
                seqm flush
               (bnd now (\<lambda>t.
                seqm (change (set_hold (hd_id h) (human_decided Approved approver_sub t reason)))
               (seqm (audit approver_sub ''approval.approve'' (Some (hd_sender_agent_id h))
                        (Some (cv_id c)) None
                        (JObj [(''hold_id'', JId (hd_id h)), (''has_reason'', JBool (reason \<noteq> None))]))
               (seqm (audit approver_sub ''participant.invite'' (Some target_agent_id)
                        (Some (cv_id c)) None
                        (JObj [(''invited_by_agent_id'', JId (hd_sender_agent_id h)),
                               (''hold_id'', JId (hd_id h))]))
               (seqm commit
               (bnd (get_active_participant_agent_ids (cv_id c)) (\<lambda>active.
                ret \<lparr>dn_hold = human_decided Approved approver_sub t reason h,
                     dn_participant_status = Some (pt_status p),
                     dn_notify_active = active, dn_notify_inbox = [target_agent_id]\<rparr>)))))))))))"

definition active_capabilities :: "approval_hold \<Rightarrow> nat \<Rightarrow> db \<Rightarrow> (nat \<times> string list) list" where
  "active_capabilities h conversation_id d = map (\<lambda>(p, a). (pt_agent_id p, ag_accepted_types a))
     (join_agents (filter (\<lambda>p. pt_agent_id p \<noteq> hd_sender_agent_id h \<and> pt_status p = PtActive)
       (conv_participants conversation_id d)) d)"

definition release_message ::
  "string \<Rightarrow> approval_hold \<Rightarrow> conversation \<Rightarrow> string option \<Rightarrow> decision_result M" where
  "release_message approver_sub h c reason =
     bnd (query (active_capabilities h (cv_id c))) (\<lambda>rows.
     seqm (enforce_message_type_accepted approver_sub (hd_sender_agent_id h) (Some (cv_id c)) rows
             (hd_message_type h))
    (bnd (insert_message_for_hold c h) (\<lambda>(m, next_seq).
     bnd now (\<lambda>t.
     seqm (change (set_hold (hd_id h) (human_decided Approved approver_sub t reason)))
    (seqm (audit approver_sub ''approval.approve'' (Some (hd_sender_agent_id h)) (Some (cv_id c))
             (Some (ms_id m))
             (JObj [(''hold_id'', JId (hd_id h)), (''has_reason'', JBool (reason \<noteq> None))]))
    (seqm (audit approver_sub ''message.post'' (Some (hd_sender_agent_id h)) (Some (cv_id c))
             (Some (ms_id m))
             (JObj [(''seq'', JInt (int next_seq)), (''message_type'', JStr (hd_message_type h)),
                    (''hold_id'', JId (hd_id h))]))
    (bnd (close_conversation approver_sub (hd_sender_agent_id h) c
            (resulting_conversation_state (hd_message_type h) False) (hd_message_type h)) (\<lambda>_.
     seqm commit
    (bnd (get_active_participant_agent_ids (cv_id c)) (\<lambda>active.
     ret \<lparr>dn_hold = (human_decided Approved approver_sub t reason h)\<lparr>hd_message_id := Some (ms_id m)\<rparr>,
          dn_participant_status = None, dn_notify_active = active, dn_notify_inbox = active\<rparr>))))))))))"

definition decide_hold ::
  "plugins \<Rightarrow> string \<Rightarrow> nat \<Rightarrow> string \<Rightarrow> string option \<Rightarrow> decision_result M" where
  "decide_hold pl approver_sub hold_id decision reason =
     bnd (load_decidable_hold approver_sub hold_id) (\<lambda>h.
       if decision = ''reject'' then
         bnd (reject_hold approver_sub h reason
                (JObj [(''hold_id'', JId hold_id), (''has_reason'', JBool (reason \<noteq> None))])) (\<lambda>h.
         ret \<lparr>dn_hold = h, dn_participant_status = None, dn_notify_active = [],
              dn_notify_inbox = []\<rparr>)
       else
         bnd (load_release_conversation approver_sub h) (\<lambda>c.
           if hd_kind h = KindInvite then release_invite pl approver_sub h c reason
           else release_message approver_sub h c reason))"

section \<open>Acting for a sibling identity, and audit-only operations\<close>

definition resolve_inbox_target :: "string \<Rightarrow> nat \<Rightarrow> agent M" where
  "resolve_inbox_target sub target_agent_id =
     bnd (find_agent_by_id target_agent_id) (\<lambda>target.
       case target of
         None \<Rightarrow> deny sub ''denied.inbox_not_self_or_sibling'' None None
                   (JObj [(''target_agent_id'', JId target_agent_id)])
       | Some a \<Rightarrow>
           if \<not> (ag_sub a = sub \<or> starts_with (ag_sub a) (sub @ ''::''))
           then deny sub ''denied.inbox_not_self_or_sibling'' (Some (ag_id a)) None
                  (JObj [(''target_agent_id'', JId target_agent_id)])
           else ret a)"

definition resolve_conversation_participant ::
  "string \<Rightarrow> nat \<Rightarrow> nat \<Rightarrow> bool \<Rightarrow> (conversation \<times> participant) M" where
  "resolve_conversation_participant actor_sub agent_id conversation_id allow_terminal_status =
     load_participant_for_read actor_sub agent_id conversation_id allow_terminal_status"

definition deny_resource_subscribe ::
  "string \<Rightarrow> string \<Rightarrow> nat option \<Rightarrow> nat option \<Rightarrow> json \<Rightarrow> 'a M" where
  "deny_resource_subscribe actor_sub action agent_id conversation_id detail =
     deny actor_sub action agent_id conversation_id detail"

definition audit_resource_subscription ::
  "string \<Rightarrow> nat \<Rightarrow> string \<Rightarrow> string \<Rightarrow> nat option \<Rightarrow> unit M" where
  "audit_resource_subscription actor_sub agent_id action uri conversation_id =
     seqm (audit actor_sub action (Some agent_id) conversation_id None (JObj [(''uri'', JStr uri)]))
     commit"

section \<open>Every committed database satisfies the schema's constraints\<close>

lemma commits_ok_hold_status: "commits_ok (get_hold_status a i h)"
  unfolding get_hold_status_def by (intro commits_ok_rules commits_ok_guards commits_ok_finds)

lemma commits_ok_pending_entries: "commits_ok (pending_entries a rows)"
  by (induction a rows rule: pending_entries.induct) (auto intro!: commits_ok_rules commits_ok_guards)

lemma commits_ok_list_pending: "commits_ok (list_pending_approval_holds a n)"
  unfolding list_pending_approval_holds_def Let_def by (intro commits_ok_rules commits_ok_pending_entries)

lemma commits_ok_decidable: "commits_ok (load_decidable_hold a h)"
  unfolding load_decidable_hold_def by (intro commits_ok_rules commits_ok_guards commits_ok_finds)

lemma commits_ok_hold_participants: "commits_ok (get_hold_conversation_participants a h)"
  unfolding get_hold_conversation_participants_def
  by (intro commits_ok_rules commits_ok_decidable commits_ok_finds)

lemma commits_ok_reject: "commits_ok (reject_hold a h r j)"
  unfolding reject_hold_def by (intro commits_ok_rules commits_ok_guards)

lemma commits_ok_revalidation_failed: "commits_ok (revalidation_failed a i c e)"
proof -
  have "commits_ok (reject_ineligible a i c e)" for e
    unfolding reject_ineligible_def by (intro commits_ok_rules commits_ok_guards commits_ok_finds)
  then show ?thesis by (simp add: revalidation_failed_def commits_ok_prims split: err.split)
qed

lemma commits_ok_release_invite: "commits_ok (release_invite pl a h c r)"
  unfolding release_invite_def revalidate_target_def
  by (intro commits_ok_rules commits_ok_guards commits_ok_finds commits_ok_reject commits_ok_inserts
      commits_ok_revalidation_failed commits_ok_owner_freeze commits_ok_invite_target)

lemma commits_ok_release_message: "commits_ok (release_message a h c r)"
  unfolding release_message_def
  by (intro commits_ok_rules commits_ok_guards commits_ok_finds commits_ok_inserts commits_ok_close)

lemma commits_ok_decide_hold: "commits_ok (decide_hold pl a i dn r)"
  unfolding decide_hold_def load_release_conversation_def
  by (intro commits_ok_rules commits_ok_guards commits_ok_finds commits_ok_decidable commits_ok_reject
      commits_ok_release_invite commits_ok_release_message)

lemma commits_ok_audit_only:
  "commits_ok (resolve_inbox_target x i)" "commits_ok (audit_resource_subscription a i b u c)"
  unfolding resolve_inbox_target_def audit_resource_subscription_def
  by (intro commits_ok_rules commits_ok_guards commits_ok_finds)+

section \<open>Decisions keep the history\<close>

lemma keeps_at_expire_hold_then:
  assumes "hold_by_id i (working s) = Some h" "\<And>h. keeps lazy (f h)"
  shows "keeps_at lazy (bnd (maybe_expire_hold a h) f) s"
  using assms hold_by_idD [OF assms(1)]
  by (intro lz.keeps_at_bnd keeps_at_maybe_expire_hold lz.keepsD) auto

lemma keeps_decidable: "keeps lazy (load_decidable_hold a i)"
  unfolding load_decidable_hold_def find_hold_def
proof (intro lz.keepsI lz.keeps_at_query)
  fix s :: session
  show "keeps_at lazy (case hold_by_id i (working s) of
        None \<Rightarrow> deny a ''denied.unknown_hold'' None None (JObj [(''attempted_hold_id'', JId i)])
      | Some h \<Rightarrow> if hd_owner_sub h \<noteq> a
          then deny a ''denied.hold_not_owner'' None (Some (hd_conversation_id h))
                 (JObj [(''attempted_hold_id'', JId i)])
          else bnd (maybe_expire_hold a h) (\<lambda>h.
            if hd_status h = HoldExpired then seqm commit (throw HoldExpiredError)
            else if hd_status h = PendingAuto then seqm commit (throw HoldAwaitingAutoReviewError)
            else if hd_status h \<noteq> PendingHuman
            then seqm commit (throw (HoldAlreadyDecidedError (hd_status h)))
            else ret h)) s"
    by (auto split: option.split intro!: lz.keepsD [OF keeps_deny] keeps_at_expire_hold_then lz.keeps_rules)
qed

lemma decidable_ok [okD]:
  assumes "load_decidable_hold a i s = (Inr h, s')"
  shows "hold_by_id i (working s') = Some h \<and> hd_id h = i \<and> hd_status h = PendingHuman \<and>
    hd_owner_sub h = a \<and> (\<exists>n. clock s n < hd_expires_at h) \<and> hold_by_id i (working s) = Some h"
  using assms
  by (auto simp: load_decidable_hold_def find_hold_def inr pending_hold_def expired_hold_def
      split: option.splits if_splits dest!: maybe_expire_hold_ok dest: hold_by_idD)

text \<open>The owner's decision on a hold that is still pending.\<close>

lemma hold_step_human_decided [simp]: "hold_step h (human_decided st a t r h)"
  by (simp add: hold_step_def human_decided_def)

lemma hist_at_reject:
  assumes "hold_by_id (hd_id h) (working s) = Some k" "pending_hold k" "hd_owner_sub k = a"
  shows "keeps_at hist (reject_hold a h r j) s"
  unfolding reject_hold_def
  by (intro hs.keeps_at_now hist_at_hold_write [where k = k] hs.keeps_rules guards_hist
      hold_step_human_decided)
     (use assms in \<open>auto simp: pending_hold_def decided_def coherent_hold_def human_decided_def\<close>)

lemma keeps_at_release_conversation: "keeps lazy (load_release_conversation a h)"
  unfolding load_release_conversation_def find_conversation_def
proof (intro lz.keepsI lz.keeps_at_query)
  fix s :: session
  show "keeps_at lazy (case conversation_by_id (hd_conversation_id h) (working s) of
        None \<Rightarrow> throw RuntimeError
      | Some c \<Rightarrow> bnd (maybe_expire a c) (\<lambda>c.
          if cv_archived_at c \<noteq> None
          then deny_archived a (hd_sender_agent_id h) (cv_id c) ''denied.archived.decide_hold''
          else if cv_state c \<noteq> CvActive
          then deny_bad_state a (hd_sender_agent_id h) (cv_id c) (conv_state_name (cv_state c))
                 (hd_message_type h)
          else ret c)) s"
    by (auto split: option.split intro!: lz.keepsD [OF lz.keeps_prims(2)] keeps_at_expire_then
        lz.keeps_rules keeps_guards)
qed

lemma release_conversation_ok [okD]:
  assumes "load_release_conversation a h s = (Inr c, s')"
  shows "expiry_only s s' \<and> cv_id c = hd_conversation_id h \<and> cv_state c = CvActive \<and>
    cv_archived_at c = None \<and> conversation_by_id (cv_id c) (working s') = Some c"
proof -
  from assms obtain c0 where c0: "conversation_by_id (hd_conversation_id h) (working s) = Some c0"
      "maybe_expire a c0 s = (Inr c, s')" "cv_archived_at c = None" "cv_state c = CvActive"
    by (auto simp: load_release_conversation_def find_conversation_def inr
        split: option.splits if_splits)
  then have i: "cv_id c0 = hd_conversation_id h" by (simp add: conversation_by_idD)
  with c0 have "conversation_by_id (cv_id c0) (working s) = Some c0" by simp
  from maybe_expire_ok [OF c0(2) this] c0(3,4) i show ?thesis
    by (auto simp: expired_conversation_def)
qed

text \<open>Revalidation only audits; a refusal other than an outage rejects the hold.\<close>

lemma keeps_revalidate: "keeps lazy (revalidate_target pl a h c t)"
  unfolding revalidate_target_def by (intro lz.keeps_rules keeps_invite_target keeps_owner_freeze)

lemma passes_revalidate: "passes (revalidate_target pl a h c t)"
  unfolding revalidate_target_def invite_target_def authorize_invite_owner_freeze_def Let_def
  by (intro passes_rules passes_guards passes_denials)

definition leaves_holds :: "'a M \<Rightarrow> bool" where
  "leaves_holds m \<longleftrightarrow> (\<forall>s. holds (working (snd (m s))) = holds (working s))"

lemma leaves_holds_bnd:
  "leaves_holds m \<Longrightarrow> (\<And>x. leaves_holds (f x)) \<Longrightarrow> leaves_holds (bnd m f)"
  unfolding leaves_holds_def bnd_def by (auto split: prod.splits sum.splits) (metis snd_conv)+

lemma leaves_holds_seqm: "leaves_holds m \<Longrightarrow> leaves_holds n \<Longrightarrow> leaves_holds (seqm m n)"
  by (simp add: seqm_def leaves_holds_bnd)

lemma leaves_holds_prims:
  "leaves_holds (ret x)" "leaves_holds (throw e)" "leaves_holds (query g)" "leaves_holds commit"
  "leaves_holds txn_now" "leaves_holds (change (add_audit r))"
  by (auto simp: leaves_holds_def ret_def throw_def query_def commit_def txn_now_def change_def
      split: option.split)

lemma leaves_holds_refuse: "leaves_holds (refuse e a b c d f)" "leaves_holds (deny a b c d f)"
  unfolding deny_def refuse_def audit_def audit_at_def
  by (intro leaves_holds_seqm leaves_holds_bnd leaves_holds_prims)+

lemma leaves_holds_if:
  "(b \<Longrightarrow> leaves_holds m) \<Longrightarrow> (\<not> b \<Longrightarrow> leaves_holds n) \<Longrightarrow> leaves_holds (if b then m else n)"
  by simp

lemma leaves_holds_revalidate: "leaves_holds (revalidate_target pl a h c t)"
  unfolding revalidate_target_def invite_target_def authorize_invite_owner_freeze_def
    find_agent_by_id_def is_active_safe_def deny_agent_retired_def Let_def
  by (intro leaves_holds_bnd leaves_holds_prims)
     (auto split: option.split outcome.split
       intro!: leaves_holds_bnd leaves_holds_prims leaves_holds_refuse leaves_holds_if)

lemma hist_at_reject_ineligible:
  assumes "\<And>k. hold_by_id i (working s) = Some k \<Longrightarrow> hd_owner_sub k = a"
  shows "keeps_at hist (reject_ineligible a i c e) s"
  unfolding reject_ineligible_def find_hold_def
proof (rule hs.keeps_at_query, cases "hold_by_id i (working s)")
  case (Some k)
  with assms have "hd_owner_sub k = a" by simp
  with Some show "keeps_at hist (case hold_by_id i (working s) of None \<Rightarrow> throw e
      | Some k \<Rightarrow> if hd_status k = PendingHuman
          then bnd now (\<lambda>t.
            seqm (change (set_hold i (human_decided Rejected a t
                     (Some ''target no longer eligible for admission on re-validation''))))
           (seqm (audit a ''approval.reject'' (Some (hd_sender_agent_id k)) (Some (cv_id c)) None
                     (JObj [(''hold_id'', JId i), (''reason'', JStr ''revalidation_failed'')]))
           (seqm commit (throw e))))
          else throw e) s"
    by (auto simp: decided_def coherent_hold_def human_decided_def
        intro!: hs.keeps_at_now hist_at_hold_write [where k = k] hs.keeps_rules guards_hist
          hs.keepsD [OF hs.keeps_prims(2)] hold_step_human_decided [unfolded human_decided_def])
qed (simp add: hs.keepsD hs.keeps_prims)

lemma hist_at_revalidation_failed:
  assumes "\<And>k. hold_by_id i (working s) = Some k \<Longrightarrow> hd_owner_sub k = a"
  shows "keeps_at hist (revalidation_failed a i c e) s"
  unfolding revalidation_failed_def
  by (cases e) (simp_all add: hs.keepsD hs.keeps_prims hist_at_reject_ineligible assms)

lemma hist_at_revalidated:
  assumes h: "hold_by_id i (working s) = Some h" "hd_owner_sub h = a"
  shows "keeps_at hist (try_except (revalidate_target pl a h' c t) (revalidation_failed a i c)) s"
proof -
  obtain r s1 where m: "revalidate_target pl a h' c t s = (r, s1)" by fastforce
  have "keeps_at hist (revalidate_target pl a h' c t) s"
    using keeps_lazy_hist [OF keeps_revalidate] by (rule hs.keepsD)
  with m have s1: "evolved hist s (committed s1)" "evolved hist s (working s1)"
    by (simp_all add: keeps_at_def)
  have "holds (working s1) = holds (working s)"
    using leaves_holds_revalidate [of pl a h' c t] m by (metis leaves_holds_def snd_conv)
  with h have "keeps_at hist (revalidation_failed a i c e) s1" for e
    by (intro hist_at_revalidation_failed) (simp add: hold_by_id_def)
  with m s1 show ?thesis
    by (cases r) (auto simp: keeps_at_def try_except_def intro: hs.evolved_trans)
qed

lemma try_revalidate_ok:
  assumes "try_except (revalidate_target pl a h c t) (revalidation_failed a i c) s = (Inr y, s')"
  shows "revalidate_target pl a h c t s = (Inr y, s')"
proof -
  have "revalidation_failed a i c e s1 \<noteq> (Inr y, s2)" for e s1 s2
    by (cases e) (auto simp: revalidation_failed_def reject_ineligible_def inr split: option.splits)
  with assms show ?thesis by (auto simp: try_except_def split: prod.splits sum.splits)
qed

lemma hist_at_release_invite:
  assumes h: "hold_by_id (hd_id h) (working s) = Some h" "pending_hold h" "hd_owner_sub h = a"
    and k: "hd_kind h = KindInvite"
  shows "keeps_at hist (release_invite pl a h c r) s"
proof (cases "hd_target_agent_id h")
  case None
  then show ?thesis by (simp add: release_invite_def hs.keepsD hs.keeps_prims)
next
  case (Some t)
  show ?thesis
  proof (cases "participant_of (cv_id c) t (working s)")
    case None
    have "keeps_at hist (seqm (try_except (revalidate_target pl a h c t) (revalidation_failed a (hd_id h) c))
        (bnd (insert_participant (cv_id c) t RoleMember PtInvited (Some (hd_sender_agent_id h)) None)
          (\<lambda>p. seqm flush (bnd now (\<lambda>u. seqm (change (set_hold (hd_id h) (human_decided Approved a u r)))
            (rest p u)))))) s" if rest: "\<And>p u. keeps hist (rest p u)" for rest :: "participant \<Rightarrow> int \<Rightarrow> decision_result M"
    proof (rule hs.keeps_at_seqm [OF hist_at_revalidated [OF h(1,3)]],
        rule hs.keeps_at_then [OF hist_insert_participant], rule hs.keeps_at_after [OF hs.keeps_prims(6)],
        rule hs.keeps_at_now)
      fix s1 s2 s3 p u
      assume s: "try_except (revalidate_target pl a h c t) (revalidation_failed a (hd_id h) c) s = (Inr (), s1)"
        "insert_participant (cv_id c) t RoleMember PtInvited (Some (hd_sender_agent_id h)) None s1 = (Inr p, s2)"
        "flush s2 = (Inr (), s3)"
      from passesD [OF passes_revalidate try_revalidate_ok [OF s(1)]] s(2,3) h(1)
      have "hold_by_id (hd_id h) (working (s3\<lparr>ticks := Suc (ticks s3)\<rparr>)) = Some h"
        by (auto simp: inr insert_participant_def Let_def same_tables_lookups)
      then show "keeps_at hist (seqm (change (set_hold (hd_id h) (human_decided Approved a u r))) (rest p u))
          (s3\<lparr>ticks := Suc (ticks s3)\<rparr>)"
        using h k rest
        by (intro hist_at_hold_write [where k = h] hold_step_human_decided)
           (auto simp: pending_hold_def decided_def coherent_hold_def human_decided_def)
    qed
    note core = this
    show ?thesis
      unfolding release_invite_def find_participant_def
      by (simp add: Some, rule hs.keeps_at_query, simp add: None, rule core,
          intro hs.keeps_rules guards_hist hist_finds)
  next
    case (Some p)
    with \<open>hd_target_agent_id h = Some t\<close> show ?thesis
      using h
      by (auto simp: release_invite_def find_participant_def
          intro!: hs.keeps_at_query hs.keeps_at_last hist_at_reject hs.keeps_prims)
  qed
qed

lemma hist_at_release_message:
  assumes h: "hold_by_id (hd_id h) (working s) = Some h" "pending_hold h" "hd_owner_sub h = a"
    and c: "cv_id c = hd_conversation_id h"
  shows "keeps_at hist (release_message a h c r) s"
proof -
  have core: "keeps_at hist (bnd (insert_message_for_hold c h) (\<lambda>(m, n). bnd now (\<lambda>t.
      seqm (change (set_hold (hd_id h) (human_decided Approved a t r))) (rest m n t)))) s"
    if rest: "\<And>m n t. keeps hist (rest m n t)" for rest :: "message \<Rightarrow> nat \<Rightarrow> int \<Rightarrow> decision_result M"
  proof (rule hs.keeps_at_bnd [OF hist_at_message_for_hold [OF h(1,2)]], clarsimp, rule hs.keeps_at_now)
    fix m n t s2
    assume i: "insert_message_for_hold c h s = (Inr (m, n), s2)"
    let ?k = "h\<lparr>hd_message_id := Some (ms_id m)\<rparr>"
    note ok = message_for_hold_ok [OF i h(1)]
    have "releases (human_decided Approved a t r ?k) m"
      using ok c by (simp add: releases_def human_decided_def)
    then have "coherent_hold (messages (working s2)) (human_decided Approved a t r ?k)"
      using ok h(3) by (auto simp: coherent_hold_def human_decided_def)
    then show "keeps_at hist (seqm (change (set_hold (hd_id h) (human_decided Approved a t r)))
        (rest m n t)) (s2\<lparr>ticks := Suc (ticks s2)\<rparr>)"
      using ok h(2) rest
      by (intro hist_at_hold_write [where k = ?k] hold_step_human_decided)
         (auto simp: pending_hold_def decided_def)
  qed
  show ?thesis
    unfolding release_message_def
    by (rule hs.keeps_at_query, rule hs.keeps_at_after [OF keeps_type_accepted [THEN keeps_lazy_hist]],
        simp add: type_accepted_Inr, rule core, intro hs.keeps_rules guards_hist hist_close hist_finds)
qed

lemma hist_decide_hold: "keeps hist (decide_hold pl a i dn r)"
  unfolding decide_hold_def
proof (rule hs.keepsI, rule hs.keeps_at_then [OF keeps_decidable [THEN keeps_lazy_hist]],
    rule hs.keeps_at_if)
  fix s h s1
  assume l: "load_decidable_hold a i s = (Inr h, s1)"
  note d = decidable_ok [OF l]
  show "keeps_at hist (bnd (reject_hold a h r
      (JObj [(''hold_id'', JId i), (''has_reason'', JBool (r \<noteq> None))])) (\<lambda>h.
      ret \<lparr>dn_hold = h, dn_participant_status = None, dn_notify_active = [], dn_notify_inbox = []\<rparr>)) s1"
    using d by (intro hs.keeps_at_last hist_at_reject hs.keeps_prims) (auto simp: pending_hold_def)
  show "keeps_at hist (bnd (load_release_conversation a h) (\<lambda>c.
      if hd_kind h = KindInvite then release_invite pl a h c r else release_message a h c r)) s1"
  proof (rule hs.keeps_at_then [OF keeps_at_release_conversation [THEN keeps_lazy_hist]])
    fix c s2
    assume "load_release_conversation a h s1 = (Inr c, s2)"
    from release_conversation_ok [OF this] d
    have "hold_by_id (hd_id h) (working s2) = Some h" "cv_id c = hd_conversation_id h"
      by (auto simp: expiry_only_def hold_by_id_def)
    then show "keeps_at hist (if hd_kind h = KindInvite then release_invite pl a h c r
        else release_message a h c r) s2"
      using d by (auto simp: pending_hold_def intro: hist_at_release_invite hist_at_release_message)
  qed
qed

lemma keeps_hold_status: "keeps lazy (get_hold_status a i h)"
  unfolding get_hold_status_def find_hold_def fk_safe_agent_id_def
proof (rule lz.keepsI, rule lz.keeps_at_query)
  fix s :: session
  show "keeps_at lazy (case hold_by_id h (working s) of
      None \<Rightarrow> bnd (query (\<lambda>d. map_option ag_id (agent_by_id i d))) (\<lambda>safe_id.
         deny a ''denied.unknown_hold'' safe_id None (JObj [(''attempted_hold_id'', JId h)]))
    | Some k \<Rightarrow>
         if hd_sender_agent_id k \<noteq> i
         then deny a ''denied.hold_not_sender'' (Some i)
                (Some (hd_conversation_id k)) (JObj [(''attempted_hold_id'', JId h)])
         else bnd (maybe_expire_hold a k) (\<lambda>h.
              bnd (query (\<lambda>d. case hd_message_id h of None \<Rightarrow> None
                    | Some i \<Rightarrow> find (\<lambda>m. ms_id m = i) (messages d))) (\<lambda>message.
              bnd (query (\<lambda>d. case (hd_kind h, hd_target_agent_id h) of
                      (KindInvite, Some t) \<Rightarrow> participant_of (hd_conversation_id h) t d
                    | _ \<Rightarrow> None)) (\<lambda>participant.
              seqm commit
             (ret (json_extend (hold_dict h)
               (when_some ''message_seq'' (\<lambda>m. JInt (int (ms_seq m))) message @
                when_some ''participant_status'' (\<lambda>p. JStr (part_status_name (pt_status p)))
                  participant))))))) s"
    by (auto split: option.split intro!: lz.keepsD [OF lz.keeps_bnd] lz.keeps_prims keeps_guards
        lz.keepsD [OF keeps_deny] keeps_at_expire_hold_then lz.keeps_rules)
qed

lemmas hist_hold_status = keeps_hold_status [THEN keeps_lazy_hist]

lemma keeps_finds:
  "keeps lazy (find_agent_by_id i)" "keeps lazy (find_conversation i)" "keeps lazy (find_hold i)"
  "keeps lazy (find_participant i j)"
  unfolding find_agent_by_id_def find_conversation_def find_hold_def find_participant_def
  by (intro lz.keeps_rules)+

lemma keeps_hold_participants: "keeps lazy (get_hold_conversation_participants a h)"
  unfolding get_hold_conversation_participants_def
  by (intro lz.keeps_rules keeps_decidable keeps_finds)

lemmas hist_hold_participants = keeps_hold_participants [THEN keeps_lazy_hist]

lemma keeps_audit_only:
  "keeps lazy (resolve_inbox_target x i)" "keeps lazy (audit_resource_subscription a i b u c)"
  unfolding resolve_inbox_target_def audit_resource_subscription_def
  by (intro lz.keeps_rules keeps_guards keeps_finds)+

lemmas hist_audit_only = keeps_audit_only [THEN keeps_lazy_hist]

text \<open>
  The queue reads its rows once and expires them one by one, so a row in hand may be stale: it is the
  stored row, or the stored row is already its expired form.
\<close>

definition stored :: "approval_hold \<Rightarrow> db \<Rightarrow> bool" where
  "stored h d \<longleftrightarrow> hd_status h = PendingHuman \<and>
     (hold_by_id (hd_id h) d = Some h \<or> hold_by_id (hd_id h) d = Some (expired_hold h))"

lemma lazy_expire_stored:
  assumes "stored h d"
  shows "lazy d (set_hold (hd_id h) expired_hold d)"
proof (cases "hold_by_id (hd_id h) d = Some h")
  case True
  then show ?thesis using assms by (intro lazy_expire_hold) (auto simp: stored_def)
next
  case False
  with assms have e: "hold_by_id (hd_id h) d = Some (expired_hold h)" by (simp add: stored_def)
  have "hold_by_id j (set_hold (hd_id h) expired_hold d) = hold_by_id j d" for j
  proof -
    have "hold_by_id j (set_hold (hd_id h) expired_hold d) =
        map_option (\<lambda>k. if hd_id k = hd_id h then expired_hold k else k) (hold_by_id j d)"
      by (rule hold_by_id_set) (simp add: expired_hold_def)
    moreover have "hold_by_id j d = Some k \<Longrightarrow> hd_id k = j" for k by (simp add: hold_by_idD)
    ultimately show ?thesis using e by (cases "hold_by_id j d") (auto simp: expired_hold_def)
  qed
  moreover have "grows d (set_hold (hd_id h) expired_hold d)"
    by (rule grows_set_hold) (simp add: expired_hold_def hold_step_def)
  ultimately show ?thesis by (simp add: lazy_def)
qed

lemma stored_expired:
  assumes "stored k d"
  shows "stored k (add_audit r (set_hold i expired_hold d))"
proof -
  have "hold_by_id (hd_id k) (set_hold i expired_hold d) =
      map_option (\<lambda>k. if hd_id k = i then expired_hold k else k) (hold_by_id (hd_id k) d)"
    by (rule hold_by_id_set) (simp add: expired_hold_def)
  with assms show ?thesis by (auto simp: stored_def expired_hold_def)
qed

lemma keeps_at_expire_stored:
  assumes "stored h (working s)"
  shows "keeps_at lazy (maybe_expire_hold a h) s"
proof -
  have "keeps_at lazy (change (set_hold (hd_id h) expired_hold)) (s\<lparr>ticks := Suc (ticks s)\<rparr>)"
    using lazy_expire_stored [OF assms] by (intro lz.keeps_at_change) simp
  then show ?thesis
    unfolding maybe_expire_hold_def
    by (auto intro!: lz.keeps_at_now lz.keeps_at_seqm lz.keepsD [OF keeps_audit]
        lz.keepsD [OF lz.keeps_prims(1)])
qed

lemma expire_stored_ok:
  "maybe_expire_hold a h s = (Inr h', s1) \<Longrightarrow> stored k (working s) \<Longrightarrow> stored k (working s1)"
  by (auto simp: maybe_expire_hold_def inr stored_expired split: if_splits)

lemma keeps_at_pending_entries:
  "\<forall>(h, g)\<in>set rows. stored h (working s) \<Longrightarrow> keeps_at lazy (pending_entries a rows) s"
proof (induction a rows arbitrary: s rule: pending_entries.induct)
  case (1 a)
  then show ?case by (simp add: lz.keepsD lz.keeps_prims)
next
  case (2 a h g rows)
  then have h: "stored h (working s)" by simp
  show ?case
    unfolding pending_entries.simps
  proof (rule lz.keeps_at_bnd [OF keeps_at_expire_stored [OF h]])
    fix h' s1
    assume e: "maybe_expire_hold a h s = (Inr h', s1)"
    then have "\<forall>(k, g)\<in>set rows. stored k (working s1)"
      using 2(2) expire_stored_ok by fastforce
    then show "keeps_at lazy (bnd (pending_entries a rows) (\<lambda>entries.
        ret (if hd_status h' \<noteq> PendingHuman then entries else pending_entry h' g # entries))) s1"
      by (intro lz.keeps_at_last 2(1) lz.keeps_prims)
  qed
qed

lemma pending_holds_stored:
  assumes "db_ok d" "(h, g) \<in> set (pending_holds_of x d)"
  shows "stored h d"
proof -
  from assms(2) have "h \<in> set (holds d)" "hd_status h = PendingHuman"
    by (auto simp: pending_holds_of_def map_filter_def split: if_splits)
  with hold_of_row [OF assms(1)] show ?thesis by (simp add: stored_def)
qed

lemma keeps_at_list_pending:
  assumes "db_ok (working s)"
  shows "keeps_at lazy (list_pending_approval_holds a n) s"
  unfolding list_pending_approval_holds_def Let_def
  by (intro lz.keeps_at_query lz.keeps_at_last keeps_at_pending_entries lz.keeps_rules)
     (auto dest!: in_set_takeD pending_holds_stored [OF assms])

lemma hist_at_list_pending:
  "db_ok (working s) \<Longrightarrow> keeps_at hist (list_pending_approval_holds a n) s"
  by (drule keeps_at_list_pending) (use lazy_hist in \<open>auto simp: keeps_at_def evolved_def\<close>)

end
