(* ===== verification/Registration.thy ===== *)
theory Registration
  imports Invariants
begin

text \<open>
  The agent directory's writes (\<open>service.py\<close>, lines 1711 to 3023 and 11850 to 12002): registration by
  the agent itself and on behalf of another, the ownership write-through, the shared flag,
  deregistration, the two halves of an owner reassignment and the periodic reconciliation of cached
  owners. The long handlers are split where the code's own stages are: validation, admission, write.
\<close>

definition MAX_SUB_LENGTH :: nat where "MAX_SUB_LENGTH = 256"
definition MAX_LOOKUP_EMAIL_LENGTH :: nat where "MAX_LOOKUP_EMAIL_LENGTH = 254"
definition MAX_RECONCILIATION_BATCH_SIZE :: int where "MAX_RECONCILIATION_BATCH_SIZE = 5000"

section \<open>What both registration paths look up\<close>

definition sibling_subs :: "string \<Rightarrow> string \<Rightarrow> db \<Rightarrow> string list" where
  "sibling_subs sub base_sub d =
     filter (\<lambda>x. x \<noteq> sub \<and> is_identity_under base_sub x) (map ag_sub (agents d))"

definition colliding_subs :: "string \<Rightarrow> db \<Rightarrow> string list" where
  "colliding_subs display_name d = map ag_sub (filter
     (\<lambda>a. str_lower (ag_display_name a) = str_lower display_name \<and> ag_status a = AgActive) (agents d))"

definition is_constraint_violation :: "err \<Rightarrow> string \<Rightarrow> bool" where
  "is_constraint_violation e name \<longleftrightarrow> e = IntegrityError name"

definition deny_siblings :: "string \<Rightarrow> string \<Rightarrow> string \<Rightarrow> unit M" where
  "deny_siblings actor_sub base_sub sub =
     bnd (query (sibling_subs sub base_sub)) (\<lambda>siblings.
       whenm (siblings \<noteq> [])
         (deny_sibling_identity_exists actor_sub base_sub sub
           (map (\<lambda>x. agent_key_from_sub x base_sub) siblings)))"

definition deny_colliding_display_name :: "string \<Rightarrow> string \<Rightarrow> unit M" where
  "deny_colliding_display_name actor_sub display_name =
     bnd (query (colliding_subs display_name)) (\<lambda>subs.
       whenm (subs \<noteq> []) (deny_display_name_collision actor_sub display_name subs))"

section \<open>\<open>admin_register_agent\<close>\<close>

text \<open>Checks that only look at the arguments; the stripped ones are returned.\<close>

definition admin_register_arguments ::
  "string \<Rightarrow> string \<Rightarrow> string \<Rightarrow> string \<Rightarrow> string list option \<Rightarrow> int \<Rightarrow> int \<Rightarrow>
     err + (string \<times> string \<times> string \<times> string \<times> string list)" where
  "admin_register_arguments sub owner_sub owner_email display_name accepted_types min_v max_v =
     (case validate_schema_version_range min_v max_v of Inl e \<Rightarrow> Inl e
      | Inr _ \<Rightarrow>
        let sub = str_strip sub; owner_sub = str_strip owner_sub; owner_email = str_strip owner_email in
        if sub = [] then Inl (ValueError ''sub must be non-empty'')
        else if CHR ''@'' \<in> set sub then Inl (ValueError ''sub must not be email-shaped'')
        else if MAX_SUB_LENGTH < length sub then Inl (ValueError ''sub exceeds 256 characters'')
        else if owner_sub = [] then Inl (ValueError ''owner_sub must be non-empty'')
        else if MAX_SUB_LENGTH < length owner_sub
        then Inl (ValueError ''owner_sub exceeds 256 characters'')
        else if owner_email = [] then Inl (ValueError ''owner_email must be non-empty'')
        else if MAX_LOOKUP_EMAIL_LENGTH < length owner_email
        then Inl (ValueError ''owner_email exceeds 254 characters'')
        else if CHR ''@'' \<notin> set owner_email then Inl (ValueError ''owner_email must be email-shaped'')
        else case validate_display_name_and_accepted_types display_name accepted_types of
            Inl e \<Rightarrow> Inl e
          | Inr (display_name, types) \<Rightarrow>
              Inr (sub, owner_sub, owner_email, display_name,
                   case types of None \<Rightarrow> [] | Some ts \<Rightarrow> ts))"

definition admin_register_admission ::
  "string \<Rightarrow> bool \<Rightarrow> string \<Rightarrow> string \<Rightarrow> bool \<Rightarrow> unit M" where
  "admin_register_admission actor_sub admin_authorized sub display_name confirm_new_identity =
     seqm (whenm (\<not> admin_authorized)
       (deny actor_sub ''denied.admin_register_requires_elevated_scope'' None None
         (JObj [(''target_sub'', JStr sub), (''display_name'', JStr display_name)])))
    (bnd (get_agent_by_sub sub) (\<lambda>existing.
     seqm (case existing of None \<Rightarrow> ret ()
           | Some a \<Rightarrow> deny_agent_already_registered actor_sub sub (ag_id a))
    (seqm (whenm (\<not> confirm_new_identity) (deny_siblings actor_sub (before_double_colon sub) sub))
    (deny_colliding_display_name actor_sub display_name))))"

definition admin_register_conflict :: "string \<Rightarrow> string \<Rightarrow> string \<Rightarrow> err \<Rightarrow> unit M" where
  "admin_register_conflict actor_sub sub display_name e =
     (case e of
        IntegrityError n \<Rightarrow>
          seqm rollback
            (if is_constraint_violation e ''idx_agents_lower_display_name_active'' then
               bnd (query (colliding_subs display_name)) (\<lambda>subs.
                 deny_display_name_collision actor_sub display_name subs)
             else if is_constraint_violation e ''agents_sub_key'' then
               bnd (get_agent_by_sub sub) (\<lambda>existing.
                 case existing of
                   Some a \<Rightarrow> deny_agent_already_registered actor_sub sub (ag_id a)
                 | None \<Rightarrow> throw (AgentAlreadyRegisteredError sub))
             else throw e)
      | _ \<Rightarrow> throw e)"

definition insert_agent ::
  "string \<Rightarrow> string \<Rightarrow> string \<Rightarrow> string \<Rightarrow> string list \<Rightarrow> bool \<Rightarrow> int \<Rightarrow> int \<Rightarrow> int \<Rightarrow> agent M" where
  "insert_agent sub owner_sub owner_email display_name types is_shared bound_at min_v max_v =
     bnd new_id (\<lambda>i.
     bnd txn_now (\<lambda>created_at.
       let a = \<lparr>ag_id = i, ag_sub = sub, ag_owner_sub = owner_sub, ag_owner_email = owner_email,
                ag_display_name = display_name, ag_accepted_types = types, ag_status = AgActive,
                ag_min_schema_version = min_v, ag_max_schema_version = max_v,
                ag_is_shared = is_shared, ag_bound_at = Some bound_at,
                ag_owner_reconciled_at = None, ag_created_at = created_at\<rparr>
       in seqm (change (add_agent a)) (ret a)))"

definition admin_register_agent ::
  "string \<Rightarrow> bool \<Rightarrow> string \<Rightarrow> string \<Rightarrow> string \<Rightarrow> string \<Rightarrow> string list option \<Rightarrow> bool \<Rightarrow>
     int \<Rightarrow> int \<Rightarrow> bool \<Rightarrow> agent M" where
  "admin_register_agent actor_sub admin_authorized sub owner_sub owner_email display_name
       accepted_types is_shared min_v max_v confirm_new_identity =
     (case admin_register_arguments sub owner_sub owner_email display_name accepted_types min_v max_v of
        Inl e \<Rightarrow> throw e
      | Inr (sub, owner_sub, owner_email, display_name, types) \<Rightarrow>
          seqm (admin_register_admission actor_sub admin_authorized sub display_name
                 confirm_new_identity)
         (bnd now (\<lambda>t.
          bnd (insert_agent sub owner_sub owner_email display_name types is_shared t min_v max_v) (\<lambda>a.
          seqm (try_except flush (admin_register_conflict actor_sub sub display_name))
         (seqm (audit actor_sub ''agent.admin_registered'' (Some (ag_id a)) None None
                  (JObj [(''target_sub'', JStr sub), (''owner_sub'', JStr owner_sub),
                         (''owner_email'', JStr owner_email), (''display_name'', JStr display_name),
                         (''is_shared'', JBool is_shared),
                         (''confirm_new_identity'', JBool confirm_new_identity)]))
         (seqm commit
         (ret a)))))))"

section \<open>\<open>register_agent\<close>\<close>

definition register_admission ::
  "string \<Rightarrow> string \<Rightarrow> string \<Rightarrow> bool \<Rightarrow> bool \<Rightarrow> bool \<Rightarrow> agent option \<Rightarrow> unit M" where
  "register_admission sub base_sub display_name is_shared is_shared_authorized
       confirm_new_identity existing =
     (case existing of
        Some a \<Rightarrow> whenm (ag_status a = AgSuspended) (deny_agent_suspended sub (ag_id a))
      | None \<Rightarrow>
          seqm (whenm (\<not> confirm_new_identity) (deny_siblings sub base_sub sub))
         (seqm (deny_colliding_display_name sub display_name)
         (whenm (is_shared \<and> \<not> is_shared_authorized)
           (deny sub ''denied.is_shared_requires_elevated_scope'' None None
             (JObj [(''display_name'', JStr display_name)])))))"

text \<open>The columns a re-registration writes: neither \<open>owner_sub\<close> nor \<open>is_shared\<close>.\<close>

definition reregistered ::
  "string \<Rightarrow> string \<Rightarrow> string list option \<Rightarrow> int \<Rightarrow> int \<Rightarrow> int \<Rightarrow> agent \<Rightarrow> agent" where
  "reregistered owner_email display_name types bound_at min_v max_v a =
     a\<lparr>ag_owner_email := owner_email, ag_display_name := display_name,
       ag_accepted_types := (case types of None \<Rightarrow> ag_accepted_types a | Some ts \<Rightarrow> ts),
       ag_status := AgActive, ag_bound_at := Some bound_at,
       ag_min_schema_version := min_v, ag_max_schema_version := max_v\<rparr>"

definition reregister_agent ::
  "string \<Rightarrow> string \<Rightarrow> string \<Rightarrow> string list option \<Rightarrow> int \<Rightarrow> int \<Rightarrow> int \<Rightarrow> bool \<Rightarrow> bool \<Rightarrow> agent \<Rightarrow>
     agent M" where
  "reregister_agent sub owner_email display_name types bound_at min_v max_v is_shared
       is_shared_authorized a =
     seqm (whenm (is_shared \<noteq> ag_is_shared a)
       (seqm (audit sub ''agent.reregister_is_shared_ignored'' (Some (ag_id a)) None None
               (JObj [(''is_shared_requested'', JBool is_shared),
                      (''is_shared_effective'', JBool (ag_is_shared a)),
                      (''is_shared_authorized'', JBool is_shared_authorized)]))
       commit))
    (seqm (change (set_agent (ag_id a)
             (reregistered owner_email display_name types bound_at min_v max_v)))
    (ret (reregistered owner_email display_name types bound_at min_v max_v a)))"

definition register_conflict :: "string \<Rightarrow> string \<Rightarrow> err \<Rightarrow> unit M" where
  "register_conflict sub display_name e =
     (case e of
        IntegrityError n \<Rightarrow>
          seqm rollback
            (if is_constraint_violation e ''idx_agents_lower_display_name_active'' then
               bnd (query (colliding_subs display_name)) (\<lambda>subs.
                 deny_display_name_collision sub display_name subs)
             else throw e)
      | _ \<Rightarrow> throw e)"

definition register_agent ::
  "string \<Rightarrow> string \<Rightarrow> string \<Rightarrow> string \<Rightarrow> string \<Rightarrow> string list option \<Rightarrow> int \<Rightarrow> int \<Rightarrow>
     bool \<Rightarrow> bool \<Rightarrow> bool \<Rightarrow> agent M" where
  "register_agent sub base_sub owner_sub owner_email display_name accepted_types min_v max_v
       is_shared is_shared_authorized confirm_new_identity =
     (case validate_schema_version_range min_v max_v of Inl e \<Rightarrow> throw e
      | Inr _ \<Rightarrow>
        let sub = str_strip sub in
        if sub = [] then throw (ValueError ''sub must be non-empty'')
        else case validate_display_name_and_accepted_types display_name accepted_types of
          Inl e \<Rightarrow> throw e
        | Inr (display_name, types) \<Rightarrow>
            bnd (get_agent_by_sub sub) (\<lambda>existing.
            bnd now (\<lambda>t.
            seqm (register_admission sub base_sub display_name is_shared is_shared_authorized
                   confirm_new_identity existing)
           (bnd (case existing of
                   None \<Rightarrow> insert_agent sub owner_sub owner_email display_name
                             (case types of None \<Rightarrow> [] | Some ts \<Rightarrow> ts) is_shared t min_v max_v
                 | Some a \<Rightarrow> reregister_agent sub owner_email display_name types t min_v max_v
                              is_shared is_shared_authorized a) (\<lambda>a.
            seqm (try_except flush (register_conflict sub display_name))
           (seqm (audit sub ''agent.register'' (Some (ag_id a)) None None
                    (JObj [(''created'', JBool (existing = None)), (''is_shared'', JBool (ag_is_shared a)),
                           (''is_shared_requested'', JBool is_shared)]))
           (seqm commit
           (ret a))))))))"

section \<open>Changing a registered agent\<close>

definition field_change :: "string \<Rightarrow> string \<Rightarrow> string \<Rightarrow> (string \<times> json) list" where
  "field_change k old new = [(k, JObj [(''old'', JStr old), (''new'', JStr new)])]"

definition write_through_ownership :: "agent \<Rightarrow> string option \<Rightarrow> string option \<Rightarrow> unit M" where
  "write_through_ownership a owner_sub owner_email =
     (let sub_change = (case owner_sub of None \<Rightarrow> [] | Some x \<Rightarrow>
            if x \<noteq> ag_owner_sub a then field_change ''owner_sub'' (ag_owner_sub a) x else []);
          email_change = (case owner_email of None \<Rightarrow> [] | Some x \<Rightarrow>
            if x \<noteq> ag_owner_email a then field_change ''owner_email'' (ag_owner_email a) x else []);
          changed = sub_change @ email_change
      in if changed = [] then ret ()
         else seqm (change (set_agent (ag_id a) (\<lambda>b. b
                \<lparr>ag_owner_sub := (if sub_change = [] then ag_owner_sub b else the owner_sub),
                 ag_owner_email := (if email_change = [] then ag_owner_email b else the owner_email)\<rparr>)))
              (seqm (audit (ag_sub a) ''agent.ownership_write_through'' (Some (ag_id a)) None None
                      (JObj changed))
              commit))"

definition set_agent_shared :: "string \<Rightarrow> nat \<Rightarrow> bool \<Rightarrow> bool \<Rightarrow> agent M" where
  "set_agent_shared actor_sub agent_id is_shared is_shared_authorized =
     seqm (whenm (\<not> is_shared_authorized)
       (deny actor_sub ''denied.set_shared_requires_elevated_scope'' None None
         (JObj [(''target_agent_id'', JId agent_id), (''requested_is_shared'', JBool is_shared)])))
    (bnd (find_agent_by_id agent_id) (\<lambda>agent.
       case agent of
         None \<Rightarrow> deny actor_sub ''denied.unknown_agent'' None None
                   (JObj [(''target_agent_id'', JId agent_id)])
       | Some a \<Rightarrow>
           seqm (change (set_agent (ag_id a) (\<lambda>b. b\<lparr>ag_is_shared := is_shared\<rparr>)))
          (seqm flush
          (seqm (audit actor_sub ''agent.set_shared'' (Some (ag_id a)) None None
                  (JObj [(''is_shared'', JBool is_shared), (''previous'', JBool (ag_is_shared a))]))
          (seqm commit
          (ret (a\<lparr>ag_is_shared := is_shared\<rparr>)))))))"

definition deregister_agent :: "string \<Rightarrow> nat \<Rightarrow> bool \<Rightarrow> agent M" where
  "deregister_agent actor_sub agent_id deregister_authorized =
     seqm (whenm (\<not> deregister_authorized)
       (deny actor_sub ''denied.deregister_requires_elevated_scope'' None None
         (JObj [(''target_agent_id'', JId agent_id)])))
    (bnd (find_agent_by_id agent_id) (\<lambda>agent.
       case agent of
         None \<Rightarrow> deny actor_sub ''denied.unknown_agent'' None None
                   (JObj [(''target_agent_id'', JId agent_id)])
       | Some a \<Rightarrow>
           seqm (change (set_agent (ag_id a) (\<lambda>b. b\<lparr>ag_status := AgSuspended\<rparr>)))
          (seqm flush
          (seqm (audit actor_sub ''agent.deregistered'' (Some (ag_id a)) None None
                  (JObj [(''previous_status'', JStr (agent_status_name (ag_status a)))]))
          (seqm commit
          (ret (a\<lparr>ag_status := AgSuspended\<rparr>)))))))"

section \<open>Owner reassignment\<close>

text \<open>\<open>s.split("@")\<close>.\<close>

fun split_at_sign :: "string \<Rightarrow> string list" where
  "split_at_sign [] = [[]]"
| "split_at_sign (c # s) =
     (if c = CHR ''@'' then [] # split_at_sign s
      else (case split_at_sign s of [] \<Rightarrow> [[c]] | w # ws \<Rightarrow> (c # w) # ws))"

fun has_double_dot :: "string \<Rightarrow> bool" where
  "has_double_dot (c # d # s) = ((c = CHR ''.'' \<and> d = CHR ''.'') \<or> has_double_dot (d # s))"
| "has_double_dot _ = False"

definition is_lower_alnum :: "char \<Rightarrow> bool" where
  "is_lower_alnum c = (let n = (of_char c :: nat) in (97 \<le> n \<and> n \<le> 122) \<or> (48 \<le> n \<and> n \<le> 57))"

text \<open>The pattern \<open>^[a-z0-9](?:[a-z0-9._+-]*[a-z0-9])?$\<close> on a string without line breaks.\<close>

definition corp_local_part :: "string \<Rightarrow> bool" where
  "corp_local_part s \<longleftrightarrow> s \<noteq> [] \<and> is_lower_alnum (hd s) \<and> is_lower_alnum (last s) \<and>
     list_all (\<lambda>c. is_lower_alnum c \<or> c \<in> set ''._+-'') s"

definition normalize_corp_email :: "string \<Rightarrow> err + string" where
  "normalize_corp_email email =
     (let cleaned = str_lower (str_strip email) in
      if cleaned = [] \<or> 254 < length cleaned
      then Inl (ValueError ''email must be between 1 and 254 characters'')
      else if \<exists>c\<in>set cleaned. is_space c \<or> is_control c
      then Inl (ValueError ''email must not contain whitespace or control characters'')
      else case split_at_sign cleaned of
        [local_part, domain] \<Rightarrow>
          if domain \<noteq> ''redesignhealth.com''
          then Inl (ValueError ''email must belong to domain @redesignhealth.com'')
          else if local_part = [] \<or> 64 < length local_part
          then Inl (ValueError ''email local part must be between 1 and 64 characters'')
          else if has_double_dot local_part
          then Inl (ValueError ''email local part must not contain consecutive dots'')
          else if \<not> corp_local_part local_part
          then Inl (ValueError ''email local part contains invalid characters or dot edges'')
          else Inr cleaned
      | _ \<Rightarrow> Inl (ValueError ''email must contain exactly one @''))"

definition require_reassignable_sub :: "string \<Rightarrow> err + string" where
  "require_reassignable_sub sub =
     (if CHR ''@'' \<in> set sub
      then Inl (InvalidOwnerReassignmentError ''cannot reassign owner of a human identity'')
      else if sub \<noteq> before_double_colon sub
      then Inl (InvalidOwnerReassignmentError ''cannot reassign keyed agent identity directly'')
      else Inr (before_double_colon sub))"

definition authorize_owner_reassignment :: "string \<Rightarrow> nat \<Rightarrow> bool \<Rightarrow> unit M" where
  "authorize_owner_reassignment actor_sub agent_id admin_authorized =
     whenm (\<not> admin_authorized)
       (deny actor_sub ''denied.owner_reassignment_requires_elevated_scope'' None None
         (JObj [(''target_agent_id'', JId agent_id)]))"

definition reassignment_email :: "string \<Rightarrow> string M" where
  "reassignment_email new_owner_email =
     (case normalize_corp_email new_owner_email of
        Inl e \<Rightarrow> throw (InvalidOwnerReassignmentError
                  ''new_owner_email must be a valid corporate address'')
      | Inr canonical_email \<Rightarrow> ret canonical_email)"

definition request_owner_reassignment ::
  "(string \<Rightarrow> 'k::linorder) \<Rightarrow> string \<Rightarrow> nat \<Rightarrow> string \<Rightarrow> bool \<Rightarrow>
     (agent \<times> string \<times> string \<times> string list) M" where
  "request_owner_reassignment collate actor_sub agent_id new_owner_email admin_authorized =
     seqm (authorize_owner_reassignment actor_sub agent_id admin_authorized)
    (bnd (find_agent_by_id agent_id) (\<lambda>agent.
       case agent of
         None \<Rightarrow> deny actor_sub ''denied.unknown_agent'' None None
                   (JObj [(''target_agent_id'', JId agent_id)])
       | Some a \<Rightarrow>
           if ag_status a \<noteq> AgActive then
             deny actor_sub ''denied.agent_suspended'' None None
               (JObj [(''target_agent_id'', JId agent_id), (''sub'', JStr (ag_sub a)),
                      (''status'', JStr (agent_status_name (ag_status a)))])
           else
             bnd (raise_result (require_reassignable_sub (ag_sub a))) (\<lambda>credential_sub.
             bnd (list_sibling_identities collate credential_sub credential_sub) (\<lambda>siblings.
               if siblings \<noteq> [] then throw (InvalidOwnerReassignmentError
                 ''cannot reassign agent identity with sibling aliases'')
               else
                 bnd (reassignment_email new_owner_email) (\<lambda>canonical_email.
                 seqm (audit actor_sub ''agent.owner_reassignment_requested'' (Some (ag_id a)) None None
                   (JObj [(''target_sub'', JStr (ag_sub a)), (''credential_sub'', JStr credential_sub),
                          (''affected_board_identities'', JList [JStr (ag_sub a)]),
                          (''current_owner_email'', JStr (ag_owner_email a)),
                          (''new_owner_email'', JStr canonical_email)]))
                (seqm commit
                (ret (a, canonical_email, credential_sub, [ag_sub a]))))))))"

text \<open>The owner sub that an approved reassignment writes; \<open>None\<close> leaves it unchanged.\<close>

definition reassigned_owner_sub :: "agent \<Rightarrow> string option \<Rightarrow> string \<Rightarrow> string option" where
  "reassigned_owner_sub a new_owner_sub canonical_email =
     (case new_owner_sub of
        Some x \<Rightarrow> Some x
      | None \<Rightarrow>
          if str_lower (str_strip (ag_owner_sub a)) = str_lower (str_strip (ag_owner_email a))
          then Some canonical_email else None)"

record reassignment =
  ra_sub :: string
  ra_changed :: bool
  ra_owner_email :: string
  ra_previous_owner_email :: string
  ra_owner_sub_updated :: bool
  ra_owner_sub_note :: bool

definition reassign_agent ::
  "string \<Rightarrow> agent \<Rightarrow> string \<Rightarrow> string option \<Rightarrow> string option \<Rightarrow> string \<Rightarrow> reassignment M" where
  "reassign_agent actor_sub a canonical_email new_owner_sub expected_previous_owner_email approved_by =
     (let target_sub = reassigned_owner_sub a new_owner_sub canonical_email;
          email_change = (if ag_owner_email a \<noteq> canonical_email
            then field_change ''owner_email'' (ag_owner_email a) canonical_email else []);
          sub_change = (case target_sub of None \<Rightarrow> [] | Some x \<Rightarrow>
            if x \<noteq> ag_owner_sub a then field_change ''owner_sub'' (ag_owner_sub a) x else []);
          expectation = (case expected_previous_owner_email of None \<Rightarrow> [] | Some x \<Rightarrow>
            (''expected_previous_owner_email'', JStr x) #
            (if str_lower (str_strip x) \<noteq> str_lower (str_strip (ag_owner_email a))
             then [(''expected_previous_owner_mismatch'', JBool True)] else []))
      in seqm (whenm (email_change @ sub_change \<noteq> [])
           (seqm (change (set_agent (ag_id a) (\<lambda>b. b\<lparr>ag_owner_email := canonical_email,
                    ag_owner_sub := (if sub_change = [] then ag_owner_sub b else the target_sub)\<rparr>)))
           (seqm (audit actor_sub ''agent.ownership_reassigned'' (Some (ag_id a)) None None
                   (JObj (email_change @ sub_change @
                      [(''approved_by'', JStr approved_by), (''source'', JStr ''owner_reassignment'')] @
                      expectation)))
           commit)))
         (ret \<lparr>ra_sub = ag_sub a, ra_changed = (email_change @ sub_change \<noteq> []),
               ra_owner_email = canonical_email, ra_previous_owner_email = ag_owner_email a,
               ra_owner_sub_updated = (sub_change \<noteq> []), ra_owner_sub_note = (target_sub = None)\<rparr>))"

definition apply_owner_reassignment ::
  "string \<Rightarrow> string \<Rightarrow> string \<Rightarrow> string option \<Rightarrow> string option \<Rightarrow> string \<Rightarrow> reassignment M" where
  "apply_owner_reassignment actor_sub sub new_owner_email new_owner_sub
       expected_previous_owner_email approved_by =
     bnd (raise_result (require_reassignable_sub sub)) (\<lambda>_.
     bnd (reassignment_email new_owner_email) (\<lambda>canonical_email.
     bnd (case new_owner_sub of None \<Rightarrow> ret None
          | Some raw \<Rightarrow>
              let x = str_strip raw in
              if x = [] \<or> MAX_SUB_LENGTH < length x
              then throw (InvalidOwnerReassignmentError
                ''new_owner_sub must be 1-256 characters when provided'')
              else ret (Some x)) (\<lambda>new_owner_sub.
     bnd (get_agent_by_sub sub) (\<lambda>agent.
       case agent of
         None \<Rightarrow> deny actor_sub ''denied.unknown_agent'' None None (JObj [(''target_sub'', JStr sub)])
       | Some a \<Rightarrow>
           if ag_status a \<noteq> AgActive then
             deny actor_sub ''denied.agent_suspended'' (Some (ag_id a)) None
               (JObj [(''target_sub'', JStr sub), (''status'', JStr (agent_status_name (ag_status a)))])
           else reassign_agent actor_sub a canonical_email new_owner_sub
                  expected_previous_owner_email approved_by))))"

section \<open>Reconciliation of cached owners\<close>

record reconciliation =
  rn_checked :: nat
  rn_updated :: nat
  rn_skipped_shared :: nat
  rn_errors :: nat

text \<open>\<open>ORDER BY owner_reconciled_at NULLS FIRST, id LIMIT limit\<close>; \<open>None\<close> is below every instant.\<close>

definition reconcile_batch :: "nat \<Rightarrow> db \<Rightarrow> agent list" where
  "reconcile_batch limit d = take limit
     (sorted_by (\<lambda>a. (ag_owner_reconciled_at a, ag_id a))
       (filter (\<lambda>a. ag_status a = AgActive \<and> \<not> ag_is_shared a) (agents d)))"

definition reconcile_one ::
  "(db \<Rightarrow> nat \<Rightarrow> owner_info outcome) \<Rightarrow> int \<Rightarrow> agent \<Rightarrow> (nat \<times> nat) M" where
  "reconcile_one oc t a =
     seqm (change (set_agent (ag_id a) (\<lambda>b. b\<lparr>ag_owner_reconciled_at := Some t\<rparr>)))
    (bnd (query (\<lambda>d. oc d (ag_id a))) (\<lambda>r.
       case r of
         Cancelled \<Rightarrow> throw CancelledError
       | Raised _ _ \<Rightarrow> ret (0, 1)
       | Returned info \<Rightarrow>
           (case (case oi_owners info of None \<Rightarrow> [] | Some xs \<Rightarrow> xs) of
              [current_owner_sub] \<Rightarrow>
                if current_owner_sub \<noteq> ag_owner_sub a then
                  seqm (audit (ag_sub a) ''agent.ownership_reconciled'' (Some (ag_id a)) None None
                          (JObj (field_change ''owner_sub'' (ag_owner_sub a) current_owner_sub)))
                 (seqm (change (set_agent (ag_id a) (\<lambda>b. b\<lparr>ag_owner_sub := current_owner_sub\<rparr>)))
                 (ret (1, 0)))
                else ret (0, 0)
            | _ \<Rightarrow> ret (0, 1))))"

fun reconcile_all ::
  "(db \<Rightarrow> nat \<Rightarrow> owner_info outcome) \<Rightarrow> int \<Rightarrow> agent list \<Rightarrow> (nat \<times> nat) M" where
  "reconcile_all oc t [] = ret (0, 0)"
| "reconcile_all oc t (a # as) =
     bnd (reconcile_one oc t a) (\<lambda>(u, e).
     bnd (reconcile_all oc t as) (\<lambda>(updated, errors).
     ret (u + updated, e + errors)))"

definition reconcile_agent_ownership ::
  "(db \<Rightarrow> nat \<Rightarrow> owner_info outcome) \<Rightarrow> int \<Rightarrow> reconciliation M" where
  "reconcile_agent_ownership oc limit =
     (let limit = nat (max 1 (min limit MAX_RECONCILIATION_BATCH_SIZE)) in
      bnd (query (\<lambda>d. length (filter (\<lambda>a. ag_status a = AgActive \<and> ag_is_shared a) (agents d)))) (\<lambda>skipped.
      bnd (query (reconcile_batch limit)) (\<lambda>as.
      bnd now (\<lambda>t.
      bnd (reconcile_all oc t as) (\<lambda>(updated, errors).
      seqm commit
     (ret \<lparr>rn_checked = length as, rn_updated = updated, rn_skipped_shared = skipped,
           rn_errors = errors\<rparr>))))))"

section \<open>Every committed database satisfies the schema's constraints\<close>

lemma commits_ok_lookups:
  "commits_ok (get_agent_by_sub x)" "commits_ok (find_agent_by_id i)"
  "commits_ok (list_sibling_identities collate b e)"
  unfolding get_agent_by_sub_def find_agent_by_id_def list_sibling_identities_def
  by (intro commits_ok_rules)+

lemma commits_ok_admission:
  "commits_ok (deny_siblings a b x)" "commits_ok (deny_colliding_display_name a n)"
  "commits_ok (admin_register_admission a p x n cf)"
  "commits_ok (register_admission x b n sh sa cf existing)"
  unfolding admin_register_admission_def register_admission_def deny_siblings_def
    deny_colliding_display_name_def
  by (intro commits_ok_rules commits_ok_guards commits_ok_lookups)+

lemma commits_ok_conflicts:
  "commits_ok (admin_register_conflict a x n e)" "commits_ok (register_conflict x n e)"
  unfolding admin_register_conflict_def register_conflict_def
  by (intro commits_ok_rules commits_ok_guards commits_ok_lookups)+

lemma commits_ok_agent_writes:
  "commits_ok (insert_agent x os oe n ts sh t lo hi)"
  "commits_ok (reregister_agent x oe n tso t lo hi sh sa g)"
  unfolding insert_agent_def reregister_agent_def Let_def
  by (intro commits_ok_rules commits_ok_guards)+

lemma commits_ok_admin_register_agent:
  "commits_ok (admin_register_agent a p x os oe n ts sh lo hi cf)"
  unfolding admin_register_agent_def
  by (intro commits_ok_rules commits_ok_guards commits_ok_admission commits_ok_conflicts
      commits_ok_agent_writes)

lemma commits_ok_register_agent:
  "commits_ok (register_agent x b os oe n ts lo hi sh sa cf)"
  unfolding register_agent_def Let_def
  by (intro commits_ok_rules commits_ok_guards commits_ok_admission commits_ok_conflicts
      commits_ok_agent_writes commits_ok_lookups)

lemma commits_ok_agent_updates:
  "commits_ok (write_through_ownership g os oe)" "commits_ok (set_agent_shared a i sh p)"
  "commits_ok (deregister_agent a i p)"
  unfolding write_through_ownership_def set_agent_shared_def deregister_agent_def Let_def
  by (intro commits_ok_rules commits_ok_guards commits_ok_lookups)+

lemma commits_ok_reassignment:
  "commits_ok (request_owner_reassignment collate a i m p)"
  "commits_ok (apply_owner_reassignment a x m ns ex ap)"
  unfolding request_owner_reassignment_def apply_owner_reassignment_def reassign_agent_def
    authorize_owner_reassignment_def reassignment_email_def Let_def
  by (intro commits_ok_rules commits_ok_guards commits_ok_lookups)+

lemma commits_ok_reconcile_one: "commits_ok (reconcile_one oc t g)"
  unfolding reconcile_one_def
  by (intro commits_ok_rules commits_ok_guards)
     (auto split: list.split intro!: commits_ok_rules commits_ok_guards)

lemma commits_ok_reconcile_all: "commits_ok (reconcile_all oc t as)"
  by (induction "as") (auto intro!: commits_ok_rules commits_ok_reconcile_one)

lemma commits_ok_reconcile: "commits_ok (reconcile_agent_ownership oc limit)"
  unfolding reconcile_agent_ownership_def Let_def
  by (intro commits_ok_rules commits_ok_reconcile_all)

section \<open>The directory's writes keep the history\<close>

text \<open>On a database that satisfies its keys, a row is the one its id looks up.\<close>

lemma agent_of_row:
  assumes "db_ok d" "a \<in> set (agents d)"
  shows "agent_by_id (ag_id a) d = Some a"
proof -
  have "distinct (map ag_id (agents d))"
    using assms(1) by (simp add: db_ok_conjuncts agents_constraints_def)
  then show ?thesis
    using assms(2) unfolding agent_by_id_def by (rule find_key)
qed

lemma agent_by_subD: "agent_by_sub x d = Some a \<Longrightarrow> a \<in> set (agents d) \<and> ag_sub a = x"
  by (auto simp: agent_by_sub_def dest: find_SomeD)

lemma keeps_lookups:
  "keeps lazy (get_agent_by_sub x)" "keeps lazy (find_agent_by_id i)"
  "keeps lazy (list_sibling_identities collate b e)"
  unfolding get_agent_by_sub_def find_agent_by_id_def list_sibling_identities_def
  by (intro lz.keeps_rules)+

lemma keeps_admission:
  "keeps lazy (deny_siblings a b x)" "keeps lazy (deny_colliding_display_name a n)"
  "keeps lazy (admin_register_admission a p x n cf)"
  "keeps lazy (register_admission x b n sh sa cf existing)"
  unfolding admin_register_admission_def register_admission_def deny_siblings_def
    deny_colliding_display_name_def
  by (intro lz.keeps_rules keeps_guards keeps_lookups)+

lemma keeps_conflicts:
  "keeps lazy (admin_register_conflict a x n e)" "keeps lazy (register_conflict x n e)"
  unfolding admin_register_conflict_def register_conflict_def
  by (intro lz.keeps_rules keeps_guards keeps_lookups)+

lemmas registration_hist = keeps_lookups [THEN keeps_lazy_hist] keeps_admission [THEN keeps_lazy_hist]
  keeps_conflicts [THEN keeps_lazy_hist]

lemma hist_insert_agent: "keeps hist (insert_agent x os oe n ts sh t lo hi)"
  unfolding insert_agent_def Let_def by (intro hs.keeps_rules hs.keeps_change hist_add_row)

lemma hist_admin_register_agent: "keeps hist (admin_register_agent a p x os oe n ts sh lo hi cf)"
  unfolding admin_register_agent_def
  by (intro hs.keeps_rules guards_hist registration_hist hist_insert_agent)

lemma agent_step_writes [simp]:
  "agent_step a (reregistered oe n ts t lo hi a)"
  "agent_step a (a\<lparr>ag_is_shared := sh\<rparr>)" "agent_step a (a\<lparr>ag_status := st\<rparr>)"
  "agent_step a (a\<lparr>ag_owner_reconciled_at := r\<rparr>)" "agent_step a (a\<lparr>ag_owner_sub := os\<rparr>)"
  "agent_step a (a\<lparr>ag_owner_sub := os, ag_owner_email := oe\<rparr>)"
  "agent_step a (a\<lparr>ag_owner_email := oe, ag_owner_sub := os\<rparr>)"
  by (simp_all add: agent_step_def reregistered_def)

lemma hist_agent_write:
  "(\<And>a. agent_step a (f a)) \<Longrightarrow> (\<And>a. suspended a \<Longrightarrow> suspended (f a)) \<Longrightarrow>
    keeps hist (change (set_agent i f))"
  by (intro hs.keeps_change hist_set_agent)

lemma hist_agent_updates:
  "keeps hist (write_through_ownership g os oe)" "keeps hist (set_agent_shared a i sh p)"
  "keeps hist (deregister_agent a i p)"
  unfolding write_through_ownership_def set_agent_shared_def deregister_agent_def Let_def
  by (intro hs.keeps_rules guards_hist registration_hist hist_agent_write agent_step_writes;
      simp add: suspended_def)+

lemma hist_reassignment:
  "keeps hist (request_owner_reassignment collate a i m p)"
  "keeps hist (apply_owner_reassignment a x m ns ex ap)"
  unfolding request_owner_reassignment_def apply_owner_reassignment_def reassign_agent_def
    authorize_owner_reassignment_def reassignment_email_def Let_def
  by (intro hs.keeps_rules guards_hist registration_hist hist_agent_write agent_step_writes;
      simp add: suspended_def)+

lemma hist_reconcile_one: "keeps hist (reconcile_one oc t g)"
  unfolding reconcile_one_def
  by (intro hs.keeps_rules guards_hist hist_agent_write agent_step_writes)
     (auto split: list.split simp: suspended_def
       intro!: hs.keeps_rules guards_hist hist_agent_write agent_step_writes)

lemma hist_reconcile: "keeps hist (reconcile_agent_ownership oc limit)"
proof -
  have "keeps hist (reconcile_all oc t as)" for t "as"
    by (induction "as") (auto intro!: hs.keeps_rules hist_reconcile_one)
  then show ?thesis
    unfolding reconcile_agent_ownership_def Let_def by (intro hs.keeps_rules)
qed

lemma hist_at_reregister:
  assumes "agent_by_id (ag_id g) (working s) = Some g" "\<not> suspended g"
  shows "keeps_at hist (reregister_agent x oe n ts t lo hi sh sa g) s"
  unfolding reregister_agent_def
proof (rule hs.keeps_at_after)
  fix s1
  assume "whenm (sh \<noteq> ag_is_shared g)
     (seqm (audit x ''agent.reregister_is_shared_ignored'' (Some (ag_id g)) None None
        (JObj [(''is_shared_requested'', JBool sh), (''is_shared_effective'', JBool (ag_is_shared g)),
               (''is_shared_authorized'', JBool sa)])) commit) s = (Inr (), s1)"
  then have "agent_by_id (ag_id g) (working s1) = Some g"
    using assms(1) by (auto simp: inr split: if_splits)
  then show "keeps_at hist (seqm (change (set_agent (ag_id g) (reregistered oe n ts t lo hi)))
      (ret (reregistered oe n ts t lo hi g))) s1"
    using assms(2) by (intro hs.keeps_at_change_last hist_set_agent hs.keeps_prims) auto
qed (intro hs.keeps_rules guards_hist)

lemma hist_at_registered:
  assumes "db_ok (working s)" "existing = agent_by_sub x (working s)" "\<And>a. keeps hist (f a)"
  shows "keeps_at hist (seqm (register_admission x b n sh sa cf existing)
     (bnd (case existing of None \<Rightarrow> insert_agent x os oe n ts sh t lo hi
           | Some a \<Rightarrow> reregister_agent x oe n tso t lo hi sh sa a) f)) s"
proof (cases existing)
  case None
  then show ?thesis
    by (auto intro!: hs.keepsD hs.keeps_seqm hs.keeps_bnd registration_hist hist_insert_agent assms)
next
  case (Some a)
  with assms(1,2) have a: "agent_by_id (ag_id a) (working s) = Some a"
    by (metis agent_by_subD agent_of_row)
  show ?thesis
    unfolding Some option.case
  proof (rule hs.keeps_at_after [OF registration_hist(7)])
    fix s1
    assume "register_admission x b n sh sa cf (Some a) s = (Inr (), s1)"
    then have "s1 = s" "\<not> suspended a"
      by (auto simp: register_admission_def inr suspended_def split: if_splits)
    with a show "keeps_at hist (bnd (reregister_agent x oe n tso t lo hi sh sa a) f) s1"
      by (intro hs.keeps_at_last hist_at_reregister assms) auto
  qed
qed

lemma hist_at_register_agent:
  assumes "db_ok (working s)"
  shows "keeps_at hist (register_agent x b os oe n ts lo hi sh sa cf) s"
proof -
  have "keeps_at hist (bnd (get_agent_by_sub y) (\<lambda>existing. bnd now (\<lambda>t.
      seqm (register_admission y b m sh sa cf existing)
     (bnd (case existing of None \<Rightarrow> insert_agent y os oe m
             (case us of None \<Rightarrow> [] | Some us \<Rightarrow> us) sh t lo hi
           | Some a \<Rightarrow> reregister_agent y oe m us t lo hi sh sa a) (f existing))))) s"
    if "\<And>e a. keeps hist (f e a)" for y m us and f :: "agent option \<Rightarrow> agent \<Rightarrow> agent M"
    unfolding get_agent_by_sub_def
    by (intro hs.keeps_at_query hs.keeps_at_now hist_at_registered that) (simp_all add: assms)
  note core = this
  show ?thesis
    unfolding register_agent_def Let_def
    by (auto split: sum.split prod.split simp: hs.keepsD [OF hs.keeps_prims(2)]
        intro!: core hs.keeps_rules guards_hist registration_hist)
qed

end
