(* ===== verification/Reads.thy ===== *)
theory Reads
  imports Holds Registration
begin

text \<open>
  The directory and conversation reads (\<open>service.py\<close>, lines 3030 to 3335 and 10977 to 11655):
  \<open>list_agents\<close>, \<open>lookup_agent_by_email\<close>, \<open>list_conversations\<close>, \<open>get_conversation\<close> and \<open>inbox\<close>. All
  but \<open>get_conversation\<close>, which advances the reader's \<open>last_read_seq\<close>, leave the database alone.
  Ordering on text columns is by code point; ties that the queries leave open are broken by table order.
\<close>

section \<open>Limits\<close>

definition MAX_MESSAGES_PER_GET_CONVERSATION :: nat where "MAX_MESSAGES_PER_GET_CONVERSATION = 500"
definition MAX_UNREAD_CONVERSATIONS_PER_INBOX :: nat where "MAX_UNREAD_CONVERSATIONS_PER_INBOX = 100"
definition MAX_PENDING_INVITES_PER_INBOX :: nat where "MAX_PENDING_INVITES_PER_INBOX = 100"
definition GET_CONVERSATION_DEFAULT_LOOKBACK_HOURS :: int where "GET_CONVERSATION_DEFAULT_LOOKBACK_HOURS = 72"
definition GET_CONVERSATION_DEFAULT_CONTEXT_HOURS :: int where "GET_CONVERSATION_DEFAULT_CONTEXT_HOURS = 24"
definition GET_CONVERSATION_MAX_CONTEXT_HOURS :: int where "GET_CONVERSATION_MAX_CONTEXT_HOURS = 168"

text \<open>\<open>limit = max(1, min(limit, 200))\<close>\<close>

definition clamp_page :: "int \<Rightarrow> nat" where
  "clamp_page limit = nat (max 1 (min limit 200))"

section \<open>The agent directory\<close>

record agents_page =
  ap_agents :: "json list"
  ap_total_count :: nat
  ap_has_more :: bool
  ap_next_cursor :: "string option"

definition listed_agents :: "bool \<Rightarrow> db \<Rightarrow> agent list" where
  "listed_agents include_suspended d =
     filter (\<lambda>a. include_suspended \<or> ag_status a \<noteq> AgSuspended) (agents d)"

text \<open>The rows of the paginated query before its limit; an empty cursor is no cursor.\<close>

definition agents_after :: "string option \<Rightarrow> bool \<Rightarrow> db \<Rightarrow> agent list" where
  "agents_after cursor include_suspended d = sorted_by ag_sub (filter
     (\<lambda>a. case cursor of None \<Rightarrow> True | Some c \<Rightarrow> c = [] \<or> c < ag_sub a)
     (listed_agents include_suspended d))"

fun active_flags :: "(string \<Rightarrow> bool outcome) \<Rightarrow> agent list \<Rightarrow> bool list M" where
  "active_flags checker [] = ret []"
| "active_flags checker (a # as) =
     bnd (is_active_safe checker (ag_sub a)) (\<lambda>b.
     bnd (active_flags checker as) (\<lambda>bs. ret (b # bs)))"

definition list_agents ::
  "(string \<Rightarrow> bool outcome) \<Rightarrow> int \<Rightarrow> string option \<Rightarrow> bool \<Rightarrow> agents_page M" where
  "list_agents checker limit cursor include_suspended =
     (let n = clamp_page limit in
      bnd (query (\<lambda>d. take (n + 1) (agents_after cursor include_suspended d))) (\<lambda>rows.
      let has_more = n < length rows; rows = take n rows in
      bnd (query (\<lambda>d. length (listed_agents include_suspended d))) (\<lambda>total_count.
      bnd (active_flags checker rows) (\<lambda>flags.
      ret \<lparr>ap_agents = map (agent_public \<circ> fst) (filter snd (zip rows flags)),
           ap_total_count = total_count, ap_has_more = has_more,
           ap_next_cursor = (if has_more \<and> rows \<noteq> [] then Some (ag_sub (last rows)) else None)\<rparr>))))"

text \<open>
  \<open>ORDER BY bound_at DESC NULLS LAST, created_at DESC, id ASC LIMIT 1\<close>: the sort key is negated where
  the order descends, and a missing \<open>bound_at\<close> comes last.
\<close>

definition lookup_key :: "agent \<Rightarrow> bool \<times> int \<times> int \<times> nat" where
  "lookup_key a = (ag_bound_at a = None, - (case ag_bound_at a of None \<Rightarrow> 0 | Some t \<Rightarrow> t),
     - ag_created_at a, ag_id a)"

definition lookup_agent_by_email :: "(string \<Rightarrow> bool outcome) \<Rightarrow> string \<Rightarrow> json option M" where
  "lookup_agent_by_email checker owner_email =
     (let normalized = str_lower (str_strip owner_email) in
      if normalized = [] \<or> MAX_LOOKUP_EMAIL_LENGTH < length normalized then ret None
      else bnd (query (\<lambda>d. sorted_by lookup_key (filter
             (\<lambda>a. str_lower (ag_owner_email a) = normalized \<and> ag_status a = AgActive) (agents d)))) (\<lambda>rows.
        case rows of [] \<Rightarrow> ret None
        | a # _ \<Rightarrow> bnd (is_active_safe checker (ag_sub a)) (\<lambda>active.
            ret (if active then Some (agent_public a) else None))))"

section \<open>Listing conversations\<close>

record conversation_filter =
  cf_role :: "part_role option"
  cf_type :: "string option"
  cf_state :: "string option"
  cf_include_archived :: bool
  cf_include_expired :: bool

definition is_expired_at :: "int \<Rightarrow> conversation \<Rightarrow> bool" where
  "is_expired_at t c \<longleftrightarrow> cv_state c = CvExpired \<or> (cv_state c = CvActive \<and> cv_expires_at c \<le> t)"

definition state_condition :: "conversation_filter \<Rightarrow> int \<Rightarrow> conversation \<Rightarrow> bool" where
  "state_condition f t c =
     (case cf_state f of
        Some st \<Rightarrow>
          if st = ''active'' then cv_state c = CvActive \<and> t < cv_expires_at c
          else if st = ''expired'' then is_expired_at t c
          else conv_state_name (cv_state c) = st
      | None \<Rightarrow> cf_include_expired f \<or> \<not> is_expired_at t c)"

text \<open>\<open>icontains\<close> with \<open>autoescape\<close>: a case-insensitive substring; a missing name never matches.\<close>

definition name_matches :: "string option \<Rightarrow> conversation \<Rightarrow> bool" where
  "name_matches search_name c =
     (case search_name of None \<Rightarrow> True
      | Some needle \<Rightarrow> (case cv_name c of None \<Rightarrow> False
          | Some name \<Rightarrow> sublist (str_lower needle) (str_lower name)))"

definition listed_conversation ::
  "conversation_filter \<Rightarrow> string option \<Rightarrow> nat \<Rightarrow> int \<Rightarrow> db \<Rightarrow> conversation \<Rightarrow> bool" where
  "listed_conversation f search_name caller_agent_id t d c \<longleftrightarrow>
     (case participant_of (cv_id c) caller_agent_id d of None \<Rightarrow> False
      | Some p \<Rightarrow> pt_status p \<in> {PtInvited, PtActive} \<and>
          (case cf_role f of None \<Rightarrow> True | Some r \<Rightarrow> pt_role p = r)) \<and>
     (cf_include_archived f \<or> cv_archived_at c = None) \<and> name_matches search_name c \<and>
     (case cf_type f of None \<Rightarrow> True | Some ty \<Rightarrow> cv_type c = ty) \<and> state_condition f t c"

definition conversation_key :: "conversation \<Rightarrow> int \<times> nat" where
  "conversation_key c = (cv_created_at c, cv_id c)"

definition conversations_after ::
  "(int \<times> nat) option \<Rightarrow> (conversation \<Rightarrow> bool) \<Rightarrow> db \<Rightarrow> conversation list" where
  "conversations_after cursor ok d = rev (sorted_by conversation_key (filter
     (\<lambda>c. ok c \<and> (case cursor of None \<Rightarrow> True | Some k \<Rightarrow> conversation_key c < k)) (conversations d)))"

definition resolve_search_name :: "string option \<Rightarrow> string option \<Rightarrow> err + string option" where
  "resolve_search_name name qry =
     (if name \<noteq> None \<and> qry \<noteq> None then Inl (ValueError ''cannot provide both name and query'')
      else case (case name of None \<Rightarrow> qry | Some _ \<Rightarrow> name) of None \<Rightarrow> Inr None
        | Some n \<Rightarrow> if MAX_CONVERSATION_NAME_LENGTH < length (str_strip n)
            then Inl (ValueError ''name exceeds 120 characters'') else Inr (Some (str_strip n)))"

record conversations_page =
  cp_conversations :: "json list"
  cp_has_more :: bool
  cp_next_cursor :: "(int \<times> nat) option"

fun conversation_dicts :: "conversation list \<Rightarrow> json list M" where
  "conversation_dicts [] = ret []"
| "conversation_dicts (c # cs) =
     bnd (conversation_dict c) (\<lambda>j. bnd (conversation_dicts cs) (\<lambda>js. ret (j # js)))"

text \<open>
  The cursor \<open>"<created_at>|<id>"\<close> arrives read as that pair, or as \<open>Inl\<close> when \<open>fromisoformat\<close> or
  \<open>UUID\<close> cannot read it.
\<close>

definition list_conversations ::
  "nat \<Rightarrow> conversation_filter \<Rightarrow> int \<Rightarrow> (string + int \<times> nat) option \<Rightarrow> string option \<Rightarrow> string option \<Rightarrow>
   conversations_page M" where
  "list_conversations caller_agent_id f limit cursor name qry =
     (let n = clamp_page limit in
      case resolve_search_name name qry of Inl e \<Rightarrow> throw e
      | Inr search_name \<Rightarrow>
          bnd now (\<lambda>t.
          case (case cursor of None \<Rightarrow> Inr None | Some (Inr k) \<Rightarrow> Inr (Some k)
                | Some (Inl text) \<Rightarrow> Inl (ValueError ''malformed cursor'')) of Inl e \<Rightarrow> throw e
          | Inr after \<Rightarrow>
              bnd (query (\<lambda>d. take (n + 1)
                (conversations_after after (listed_conversation f search_name caller_agent_id t d) d))) (\<lambda>rows.
              let has_more = n < length rows; rows = take n rows in
              bnd (conversation_dicts rows) (\<lambda>js.
              ret \<lparr>cp_conversations = js, cp_has_more = has_more,
                   cp_next_cursor = (if has_more \<and> rows \<noteq> [] then Some (conversation_key (last rows)) else None)\<rparr>))))"

section \<open>Reading a conversation\<close>

record conversation_view =
  vw_conversation :: json
  vw_participants :: "json list"
  vw_messages :: "json list"
  vw_invited :: bool
  vw_messages_in_page :: "nat option"
  vw_has_more :: bool
  vw_page_max_seq :: "int option"
  vw_last_read_seq :: "nat option"
  vw_since_was_defaulted :: bool
  vw_invited_by :: "nat option"

definition participant_view :: "participant \<times> agent \<Rightarrow> json" where
  "participant_view = (\<lambda>(p, a). JObj
     [(''agent_id'', JId (ag_id a)), (''sub'', JStr (ag_sub a)), (''display_name'', JStr (ag_display_name a)),
      (''role'', JStr (part_role_name (pt_role p))), (''status'', JStr (part_status_name (pt_status p))),
      (''invited_by'', (case pt_invited_by p of None \<Rightarrow> JNull | Some i \<Rightarrow> JId i))])"

text \<open>Messages joined with the sub of their sender.\<close>

definition join_senders :: "message list \<Rightarrow> db \<Rightarrow> (message \<times> string) list" where
  "join_senders ms d = List.map_filter
     (\<lambda>m. map_option (\<lambda>a. (m, ag_sub a)) (agent_by_id (ms_sender_id m) d)) ms"

definition in_window :: "nat \<Rightarrow> int \<Rightarrow> int option \<Rightarrow> db \<Rightarrow> (message \<times> string) list" where
  "in_window conversation_id since_seq since_ts d = sorted_by (ms_seq \<circ> fst) (join_senders
     (filter (\<lambda>m. since_seq < int (ms_seq m) \<and> (case since_ts of None \<Rightarrow> True | Some t \<Rightarrow> t \<le> ms_created_at m))
       (conv_messages conversation_id d)) d)"

definition page_max_seq :: "int \<Rightarrow> (message \<times> string) list \<Rightarrow> int" where
  "page_max_seq since_seq rows = (if rows = [] then since_seq else Max (set (map (int \<circ> ms_seq \<circ> fst) rows)))"

definition context_band :: "nat \<Rightarrow> int \<Rightarrow> int \<Rightarrow> db \<Rightarrow> (message \<times> string) list" where
  "context_band conversation_id since_ts context_hours d = rev (take MAX_MESSAGES_PER_GET_CONVERSATION
     (rev (sorted_by (ms_seq \<circ> fst) (join_senders
       (filter (\<lambda>m. since_ts - hours context_hours \<le> ms_created_at m \<and> ms_created_at m < since_ts)
         (conv_messages conversation_id d)) d))))"

fun context_dict :: "json \<Rightarrow> json" where
  "context_dict (JObj kvs) = JObj (kvs @ [(''context'', JBool True)])"
| "context_dict j = j"

definition since_bound :: "int option \<Rightarrow> int option \<Rightarrow> (int option \<times> bool) M" where
  "since_bound since since_seq =
     (case since of Some t \<Rightarrow> ret (Some t, False)
      | None \<Rightarrow> if since_seq \<noteq> None then ret (None, False)
          else bnd now (\<lambda>t. ret (Some (t - hours GET_CONVERSATION_DEFAULT_LOOKBACK_HOURS), True)))"

definition check_read_arguments :: "py_datetime option \<Rightarrow> int \<Rightarrow> err + int option" where
  "check_read_arguments since context_hours =
     (case since of
        Some (Naive t) \<Rightarrow> Inl (ValueError ''since must be timezone-aware'')
      | _ \<Rightarrow>
        if context_hours < 0 then Inl (ValueError ''context_hours must be >= 0'')
        else if GET_CONVERSATION_MAX_CONTEXT_HOURS < context_hours
        then Inl (ValueError ''context_hours may not exceed 168'')
        else Inr (case since of Some (Aware t) \<Rightarrow> Some t | _ \<Rightarrow> None))"

definition read_invited :: "conversation \<Rightarrow> participant \<Rightarrow> json list \<Rightarrow> conversation_view M" where
  "read_invited c p participants_view =
     seqm commit
    (bnd (conversation_dict c) (\<lambda>j.
     ret \<lparr>vw_conversation = j, vw_participants = participants_view, vw_messages = [],
          vw_invited = True, vw_messages_in_page = None, vw_has_more = False, vw_page_max_seq = None, vw_last_read_seq = None,
          vw_since_was_defaulted = False, vw_invited_by = pt_invited_by p\<rparr>))"

definition read_active ::
  "conversation \<Rightarrow> participant \<Rightarrow> json list \<Rightarrow> int option \<Rightarrow> int option \<Rightarrow> int \<Rightarrow> bool \<Rightarrow> conversation_view M" where
  "read_active c p participants_view since_seq since context_hours mark_read =
     (let resolved = (case since_seq of None \<Rightarrow> 0 | Some n \<Rightarrow> n) in
      bnd (since_bound since since_seq) (\<lambda>(since_ts, defaulted).
      bnd (query (\<lambda>d. take (MAX_MESSAGES_PER_GET_CONVERSATION + 1) (in_window (cv_id c) resolved since_ts d))) (\<lambda>rows.
      let has_more = MAX_MESSAGES_PER_GET_CONVERSATION < length rows;
          rows = take MAX_MESSAGES_PER_GET_CONVERSATION rows;
          page_max = page_max_seq resolved rows in
      bnd (query (\<lambda>d. case since_ts of None \<Rightarrow> []
             | Some t \<Rightarrow> if since_seq = None \<and> rows \<noteq> [] \<and> 0 < context_hours
                 then context_band (cv_id c) t context_hours d else [])) (\<lambda>context_rows.
      let advance = (mark_read \<and> rows \<noteq> [] \<and> int (pt_last_read_seq p) < page_max);
          last_read = (if advance then nat page_max else pt_last_read_seq p) in
      seqm (whenm advance (change (set_participant (cv_id c) (pt_agent_id p)
             (\<lambda>q. q\<lparr>pt_last_read_seq := nat page_max\<rparr>))))
     (seqm commit
     (bnd (conversation_dict c) (\<lambda>j.
      ret \<lparr>vw_conversation = j, vw_participants = participants_view,
           vw_messages = map (\<lambda>(m, s). context_dict (message_dict m s)) context_rows @
             map (\<lambda>(m, s). message_dict m s) rows,
           vw_invited = False, vw_messages_in_page = Some (length context_rows + length rows), vw_has_more = has_more, vw_page_max_seq = Some page_max,
           vw_last_read_seq = Some last_read, vw_since_was_defaulted = defaulted,
           vw_invited_by = None\<rparr>)))))))"

definition get_conversation ::
  "string \<Rightarrow> nat \<Rightarrow> nat \<Rightarrow> int option \<Rightarrow> py_datetime option \<Rightarrow> int \<Rightarrow> bool \<Rightarrow> conversation_view M" where
  "get_conversation actor_sub caller_agent_id conversation_id since_seq since context_hours mark_read =
     (case check_read_arguments since context_hours of Inl e \<Rightarrow> throw e
      | Inr since_ts \<Rightarrow>
          bnd (load_participant_for_read actor_sub caller_agent_id conversation_id False) (\<lambda>(c, p).
          bnd (query (\<lambda>d. map participant_view (sorted_by (ag_sub \<circ> snd)
                 (join_agents (conv_participants (cv_id c) d) d)))) (\<lambda>participants_view.
          if pt_status p = PtInvited then read_invited c p participants_view
          else read_active c p participants_view since_seq since_ts context_hours mark_read)))"

section \<open>The inbox\<close>

record unread_row =
  ur_conversation :: conversation
  ur_last_read_seq :: nat
  ur_max_seq :: nat
  ur_unread :: nat
  ur_latest_relevant_seq :: "nat option"
  ur_last_activity :: int

definition relevant_message :: "bool \<Rightarrow> nat \<Rightarrow> nat \<Rightarrow> message \<Rightarrow> bool" where
  "relevant_message include_own caller_agent_id last_read_seq m \<longleftrightarrow>
     last_read_seq < ms_seq m \<and> (include_own \<or> ms_sender_id m \<noteq> caller_agent_id)"

definition unread_row_of :: "bool \<Rightarrow> nat \<Rightarrow> db \<Rightarrow> conversation \<Rightarrow> unread_row option" where
  "unread_row_of include_own caller_agent_id d c =
     (case participant_of (cv_id c) caller_agent_id d of None \<Rightarrow> None
      | Some p \<Rightarrow>
          let ms = conv_messages (cv_id c) d;
              rel = filter (relevant_message include_own caller_agent_id (pt_last_read_seq p)) ms in
          if pt_status p \<noteq> PtActive \<or> ms = [] then None
          else Some \<lparr>ur_conversation = c, ur_last_read_seq = pt_last_read_seq p,
                 ur_max_seq = Max (set (map ms_seq ms)), ur_unread = length rel,
                 ur_latest_relevant_seq = (if rel = [] then None else Some (Max (set (map ms_seq rel)))),
                 ur_last_activity = Max (set (map ms_created_at ms))\<rparr>)"

definition unread_rows :: "nat \<Rightarrow> bool \<Rightarrow> bool \<Rightarrow> db \<Rightarrow> unread_row list" where
  "unread_rows caller_agent_id include_own include_read d =
     sorted_by (\<lambda>r. - ur_last_activity r) (filter (\<lambda>r. include_read \<or> 0 < ur_unread r)
       (List.map_filter (unread_row_of include_own caller_agent_id d) (conversations d)))"

definition latest_seq :: "unread_row \<Rightarrow> nat" where
  "latest_seq r = (case ur_latest_relevant_seq r of None \<Rightarrow> ur_max_seq r | Some n \<Rightarrow> n)"

definition latest_message :: "db \<Rightarrow> unread_row \<Rightarrow> (message \<times> string) option" where
  "latest_message d r = find (\<lambda>(m, s). ms_seq m = latest_seq r)
     (join_senders (conv_messages (cv_id (ur_conversation r)) d) d)"

definition with_fields :: "json \<Rightarrow> (string \<times> json) list \<Rightarrow> json" where
  "with_fields j kvs = (case j of JObj entries \<Rightarrow> JObj (entries @ kvs) | _ \<Rightarrow> j)"

fun unread_entries :: "(unread_row \<times> (message \<times> string) option) list \<Rightarrow> json list M" where
  "unread_entries [] = ret []"
| "unread_entries ((r, None) # rs) = throw KeyError"
| "unread_entries ((r, Some (m, sender_sub)) # rs) =
     bnd (conversation_dict (ur_conversation r)) (\<lambda>j.
     bnd (unread_entries rs) (\<lambda>js.
     ret (with_fields j [(''unread_count'', JInt (int (ur_unread r))),
            (''last_read_seq'', JInt (int (ur_last_read_seq r))),
            (''latest_message'', message_dict m sender_sub)] # js)))"

definition pending_rows :: "nat \<Rightarrow> db \<Rightarrow> (conversation \<times> participant) list" where
  "pending_rows caller_agent_id d = sorted_by (\<lambda>(c, p). - pt_invited_at p) (List.map_filter
     (\<lambda>p. map_option (\<lambda>c. (c, p)) (conversation_by_id (pt_conversation_id p) d))
     (filter (\<lambda>p. pt_agent_id p = caller_agent_id \<and> pt_status p = PtInvited) (participants d)))"

fun pending_invite_entries :: "(conversation \<times> participant) list \<Rightarrow> json list M" where
  "pending_invite_entries [] = ret []"
| "pending_invite_entries ((c, p) # rs) =
     bnd (conversation_dict c) (\<lambda>j.
     bnd (pending_invite_entries rs) (\<lambda>js.
     ret (with_fields j [(''invited_by'', (case pt_invited_by p of None \<Rightarrow> JNull | Some i \<Rightarrow> JId i)),
            (''invited_at'', JInt (pt_invited_at p))] # js)))"

record inbox_view =
  ib_unread :: "json list"
  ib_unread_has_more :: bool
  ib_pending_invites :: "json list"
  ib_pending_invites_has_more :: bool
  ib_total_count :: nat

definition inbox :: "nat \<Rightarrow> bool \<Rightarrow> bool \<Rightarrow> inbox_view M" where
  "inbox caller_agent_id include_own include_read =
     bnd (query (\<lambda>d. take (MAX_UNREAD_CONVERSATIONS_PER_INBOX + 1)
            (unread_rows caller_agent_id include_own include_read d))) (\<lambda>rows.
     let unread_has_more = MAX_UNREAD_CONVERSATIONS_PER_INBOX < length rows;
         rows = take MAX_UNREAD_CONVERSATIONS_PER_INBOX rows in
     bnd (query (\<lambda>d. if unread_has_more then length (unread_rows caller_agent_id include_own include_read d)
            else length rows)) (\<lambda>unread_total.
     bnd (query (\<lambda>d. map (\<lambda>r. (r, latest_message d r)) rows)) (\<lambda>latest.
     bnd (unread_entries latest) (\<lambda>unread.
     bnd (query (\<lambda>d. take (MAX_PENDING_INVITES_PER_INBOX + 1) (pending_rows caller_agent_id d))) (\<lambda>invites.
     let pending_has_more = MAX_PENDING_INVITES_PER_INBOX < length invites;
         invites = take MAX_PENDING_INVITES_PER_INBOX invites in
     bnd (query (\<lambda>d. if pending_has_more
            then length (filter (\<lambda>p. pt_agent_id p = caller_agent_id \<and> pt_status p = PtInvited) (participants d))
            else length invites)) (\<lambda>pending_total.
     bnd (pending_invite_entries invites) (\<lambda>pending_invites.
     ret \<lparr>ib_unread = unread, ib_unread_has_more = unread_has_more,
          ib_pending_invites = pending_invites, ib_pending_invites_has_more = pending_has_more,
          ib_total_count = unread_total + pending_total\<rparr>)))))))"

section \<open>The one read that writes\<close>

lemma commits_ok_conversation_dict: "commits_ok (conversation_dict c)"
  unfolding conversation_dict_def Let_def by (intro commits_ok_rules)

lemma commits_ok_get_conversation: "commits_ok (get_conversation a i c n t h mr)"
  unfolding get_conversation_def read_active_def read_invited_def since_bound_def Let_def
  by (intro commits_ok_rules commits_ok_guards commits_ok_loads commits_ok_conversation_dict)

lemma hist_read_cursor: "keeps hist (change (set_participant c i (\<lambda>q. q\<lparr>pt_last_read_seq := n\<rparr>)))"
  by (intro hs.keeps_change hist_set_participant) (simp_all add: participant_step_def)

lemma hist_get_conversation: "keeps hist (get_conversation a i c n t h mr)"
  unfolding get_conversation_def read_active_def read_invited_def since_bound_def conversation_dict_def Let_def
  by (intro hs.keeps_rules guards_hist hist_read_cursor)

lemma raises_conversation_dict: "raises X (bnd (conversation_dict c) (\<lambda>j. ret (f j)))"
  unfolding conversation_dict_def by (auto simp: raises_def bnd_def now_def ret_def)

lemma errs_read_invited: "errs X lazy (read_invited c p v)"
  unfolding read_invited_def
  by (intro lz.errs_rolls_back rolls_back_commit raises_conversation_dict)

lemma errs_read_active: "errs X lazy (read_active c p v n t h mr)"
proof -
  have tail: "errs X lazy (seqm (whenm b (change f)) (seqm commit (bnd (conversation_dict c) (\<lambda>j. ret (g j)))))" for b f g
    by (intro lz.errs_rolls_back rolls_back_seqm rolls_back_commit raises_conversation_dict silent_whenm silent_prims)
  show ?thesis
    unfolding read_active_def since_bound_def Let_def
    by (intro tail lz.errs_bnd lz.errs_case_prod lz.keeps_rules)
qed

lemma errs_get_conversation: "errs X lazy (get_conversation a i c n t h mr)"
  unfolding get_conversation_def
  by (intro lz.errs_rules errs_leaves keeps_guards lz.keeps_prims errs_read_invited errs_read_active)

end
