(* ===== verification/Board.thy ===== *)
theory Board
  imports Holds Registration Reads
begin

text \<open>
  The board as a whole: every request a caller can make, run in its own session against the committed
  database, and the databases that any sequence of requests can reach from the empty one. The clock of
  each request is arbitrary, and so is its outcome; the collaborators are those of one deployment.
\<close>

section \<open>Requests\<close>

datatype request =
    AdminRegister string bool string string string string "string list option" bool int int bool
  | Register string string string string string "string list option" int int bool bool bool
  | WriteThroughOwnership nat "string option" "string option"
  | SetAgentShared string nat bool bool
  | DeregisterAgent string nat bool
  | RequestOwnerReassignment string nat string bool
  | ApplyOwnerReassignment string string string "string option" "string option" string
  | ReconcileOwnership int
  | StartConversation string nat string "nat list" json string "py_datetime option"
      "string option" "string option"
  | PostMessage string nat nat string json int "string option" "string option"
  | AcceptInvite string nat nat
  | DeclineInvite string nat nat
  | Invite string nat nat nat "string option"
  | Leave string nat nat
  | ArchiveConversation string nat nat
  | RenameConversation string nat nat "string option"
  | ExtendConversation string nat nat "py_datetime option" "py_number option"
  | ReopenConversation string nat nat "py_datetime option" "py_number option"
  | GetHoldStatus string nat nat
  | ListPendingHolds string int
  | HoldParticipants string nat
  | DecideHold string nat string "string option"
  | AuditSubscription string nat string string "nat option"
  | GetConversation string nat nat "int option" "py_datetime option" int bool

definition discard :: "'a M \<Rightarrow> unit M" where
  "discard m = bnd m (\<lambda>_. ret ())"

text \<open>The write-through acts on the row of the agent that makes the verified request.\<close>

definition write_through_for :: "nat \<Rightarrow> string option \<Rightarrow> string option \<Rightarrow> unit M" where
  "write_through_for i owner_sub owner_email =
     bnd (find_agent_by_id i) (\<lambda>agent.
       case agent of None \<Rightarrow> ret () | Some a \<Rightarrow> write_through_ownership a owner_sub owner_email)"

fun perform :: "plugins \<Rightarrow> request \<Rightarrow> unit M" where
  "perform pl (AdminRegister a p x os oe n ts sh lo hi cf) =
     discard (admin_register_agent a p x os oe n ts sh lo hi cf)"
| "perform pl (Register x b os oe n ts lo hi sh sa cf) =
     discard (register_agent x b os oe n ts lo hi sh sa cf)"
| "perform pl (WriteThroughOwnership i os oe) = write_through_for i os oe"
| "perform pl (SetAgentShared a i sh p) = discard (set_agent_shared a i sh p)"
| "perform pl (DeregisterAgent a i p) = discard (deregister_agent a i p)"
| "perform pl (RequestOwnerReassignment a i m p) =
     discard (request_owner_reassignment (\<lambda>x. x) a i m p)"
| "perform pl (ApplyOwnerReassignment a x m ns ex ap) =
     discard (apply_owner_reassignment a x m ns ex ap)"
| "perform pl (ReconcileOwnership n) = discard (reconcile_agent_ownership (ownership_client pl) n)"
| "perform pl (StartConversation a i ct ts m mt e oc n) =
     discard (start_conversation pl a i ct ts m mt e oc n)"
| "perform pl (PostMessage a i c mt j v oc rv) = discard (post_message pl a i c mt j v oc rv)"
| "perform pl (AcceptInvite a i c) = discard (accept_invite a i c)"
| "perform pl (DeclineInvite a i c) = decline_invite a i c"
| "perform pl (Invite a i c t oc) = discard (invite pl a i c t oc)"
| "perform pl (Leave a i c) = leave a i c"
| "perform pl (ArchiveConversation a i c) = discard (archive_conversation a i c)"
| "perform pl (RenameConversation a i c n) = discard (rename_conversation a i c n)"
| "perform pl (ExtendConversation a i c e n) = discard (extend_conversation a i c e n)"
| "perform pl (ReopenConversation a i c e n) = discard (reopen_conversation a i c e n)"
| "perform pl (GetHoldStatus a i h) = discard (get_hold_status a i h)"
| "perform pl (ListPendingHolds a n) = discard (list_pending_approval_holds a n)"
| "perform pl (HoldParticipants a h) = discard (get_hold_conversation_participants a h)"
| "perform pl (DecideHold a h dn r) = discard (decide_hold pl a h dn r)"
| "perform pl (AuditSubscription a i b u c) = audit_resource_subscription a i b u c"
| "perform pl (GetConversation a i c n t h mr) = discard (get_conversation a i c n t h mr)"

text \<open>
  One request, begun in any session that has nothing uncommitted, and what it leaves committed; a fresh
  session is one of them. Then everything that can be reached.
\<close>

inductive board_step :: "plugins \<Rightarrow> db \<Rightarrow> db \<Rightarrow> bool" for pl where
  request: "committed s = d \<Longrightarrow> working s = d \<Longrightarrow> perform pl rq s = (r, s') \<Longrightarrow> board_step pl d (committed s')"

inductive_cases board_stepE: "board_step pl d d'"

lemma run_step: "run (perform pl rq) clk d = (r, d') \<Longrightarrow> board_step pl d d'"
  using board_step.request [of "open_session clk d" d pl rq]
  by (auto simp: run_def open_session_def split: prod.splits)

inductive reachable :: "plugins \<Rightarrow> db \<Rightarrow> bool" for pl where
  empty: "reachable pl empty_db"
| step: "reachable pl d \<Longrightarrow> board_step pl d d' \<Longrightarrow> reachable pl d'"

text \<open>What any number of requests leads to from a given database.\<close>

inductive board_steps :: "plugins \<Rightarrow> db \<Rightarrow> db \<Rightarrow> bool" for pl where
  refl: "board_steps pl d d"
| more: "board_steps pl d e \<Longrightarrow> board_step pl e f \<Longrightarrow> board_steps pl d f"

section \<open>Every request preserves the constraints and the history\<close>

lemma commits_ok_discard: "commits_ok m \<Longrightarrow> commits_ok (discard m)"
  unfolding discard_def by (intro commits_ok_rules)

lemma commits_ok_perform: "commits_ok (perform pl rq)"
  by (cases rq)
     (simp_all add: commits_ok_discard commits_ok_admin_register_agent commits_ok_register_agent
       commits_ok_agent_updates commits_ok_reassignment commits_ok_reconcile
       commits_ok_start_conversation commits_ok_post_message commits_ok_membership commits_ok_invite
       commits_ok_extend commits_ok_hold_status commits_ok_list_pending commits_ok_hold_participants
       commits_ok_decide_hold commits_ok_audit_only commits_ok_get_conversation write_through_for_def commits_ok_bnd
       commits_ok_case_option commits_ok_prims commits_ok_finds)

lemma hist_at_discard: "keeps_at hist m s \<Longrightarrow> keeps_at hist (discard m) s"
  unfolding discard_def by (intro hs.keeps_at_last hs.keeps_prims)

lemma hist_write_through: "keeps hist (write_through_for i os oe)"
  unfolding write_through_for_def by (intro hs.keeps_rules hist_finds hist_agent_updates)

lemma hist_at_perform: "db_ok (working s) \<Longrightarrow> keeps_at hist (perform pl rq) s"
  by (cases rq)
     (simp_all add: hist_at_discard hist_at_register_agent hist_at_list_pending
       hs.keepsD [OF hist_admin_register_agent] hs.keepsD [OF hist_write_through]
       hist_agent_updates [THEN hs.keepsD] hist_reassignment [THEN hs.keepsD]
       hs.keepsD [OF hist_reconcile] hs.keepsD [OF hist_start_conversation]
       hs.keepsD [OF hist_post_message] hs.keepsD [OF hist_accept_invite]
       hs.keepsD [OF hist_decline_invite] hs.keepsD [OF hist_invite] hs.keepsD [OF hist_leave]
       hist_archive_rename [THEN hs.keepsD] hist_extend [THEN hs.keepsD]
       hs.keepsD [OF hist_hold_status] hs.keepsD [OF hist_hold_participants]
       hs.keepsD [OF hist_decide_hold] hist_audit_only [THEN hs.keepsD]
       hs.keepsD [OF hist_get_conversation])

lemma step_ok: "board_step pl d d' \<Longrightarrow> db_ok d \<Longrightarrow> db_ok d'"
  using commits_ok_perform [unfolded commits_ok_def] by (elim board_stepE) (metis snd_conv)

lemma step_hist: "board_step pl d d' \<Longrightarrow> db_ok d \<Longrightarrow> hist d d'"
  using hist_at_perform [unfolded keeps_at_def evolved_def] by (elim board_stepE) (metis snd_conv)

lemma steps_hist: "board_steps pl d d' \<Longrightarrow> db_ok d \<Longrightarrow> hist d d' \<and> db_ok d'"
  by (induction rule: board_steps.induct) (auto intro: hs.R_refl hs.R_trans step_hist step_ok)

lemma reachable_invariant: "reachable pl d \<Longrightarrow> db_ok d \<and> gapless d \<and> holds_coherent d"
proof (induction rule: reachable.induct)
  case empty
  then show ?case by (simp add: db_ok_empty hist_empty)
next
  case (step d d')
  then have "hist d d'" "db_ok d'" by (auto intro: step_hist step_ok)
  with step.IH show ?case by (simp add: hist_def)
qed

end
