(* ===== verification/Demo.thy ===== *)
theory Demo
  imports Board
begin

text \<open>
  A small concrete deployment and board, on which the hypotheses of the conditional theorems are
  shown to be satisfiable: four agents (two of one owner, one of another, one suspended), an
  internal, an asymmetric and an archived conversation, and an approval hold awaiting its owner.
\<close>

definition demo_plugins :: plugins where
  "demo_plugins = default_plugins (\<lambda>_. 10) (\<lambda>t j. Inr j)"

text \<open>A deployment whose auto-approver clears every hold.\<close>

definition clearing_plugins :: plugins where
  "clearing_plugins = demo_plugins\<lparr>auto_approver := \<lambda>_. Returned True\<rparr>"

definition demo_clock :: "nat \<Rightarrow> int" where
  "demo_clock n = 1000000 + int n"

definition demo_agent :: "nat \<Rightarrow> string \<Rightarrow> string \<Rightarrow> agent_status \<Rightarrow> agent" where
  "demo_agent i name owner st = \<lparr>ag_id = i, ag_sub = name, ag_owner_sub = owner,
     ag_owner_email = ''e'', ag_display_name = name, ag_accepted_types = [],
     ag_status = st, ag_min_schema_version = 1, ag_max_schema_version = 1, ag_is_shared = False,
     ag_bound_at = Some 0, ag_owner_reconciled_at = None, ag_created_at = 0\<rparr>"

definition demo_conversation :: "nat \<Rightarrow> string \<Rightarrow> string list option \<Rightarrow> int option \<Rightarrow> conversation" where
  "demo_conversation i ty owners arch = \<lparr>cv_id = i, cv_name = None, cv_type = ty, cv_state = CvActive,
     cv_created_by = 0, cv_expires_at = days 30, cv_owner_snapshot = owners, cv_archived_at = arch,
     cv_created_at = 0\<rparr>"

definition demo_participant :: "nat \<Rightarrow> nat \<Rightarrow> part_role \<Rightarrow> part_status \<Rightarrow> participant" where
  "demo_participant c a role st = \<lparr>pt_conversation_id = c, pt_agent_id = a, pt_role = role,
     pt_status = st, pt_invited_by = None, pt_invited_at = 0, pt_joined_at = None,
     pt_last_read_seq = 0\<rparr>"

definition demo_message :: "nat \<Rightarrow> nat \<Rightarrow> nat \<Rightarrow> string \<Rightarrow> message" where
  "demo_message i c n ty = \<lparr>ms_id = i, ms_conversation_id = c, ms_seq = n, ms_sender_id = 0,
     ms_type = ty, ms_schema_version = 1, ms_payload = JObj [], ms_created_at = 0\<rparr>"

definition demo_hold :: approval_hold where
  "demo_hold = \<lparr>hd_id = 30, hd_conversation_id = 11, hd_sender_agent_id = 0,
     hd_target_agent_id = None, hd_kind = KindMessage, hd_owner_sub = ''o1'',
     hd_message_type = ''note'', hd_schema_version = 1, hd_payload = JObj [],
     hd_risk_reason = ''boundary_crossing'', hd_risk_scorer = ''boundary_v1'',
     hd_status = PendingHuman, hd_auto_approver = Some ''escalate_all'',
     hd_auto_decision = Some Escalated, hd_auto_decided_at = Some 0, hd_decided_by_sub = None,
     hd_decided_at = None, hd_decision_reason = None, hd_message_id = None,
     hd_expires_at = days 7, hd_created_at = 0\<rparr>"

text \<open>
  Agents 0 and 1 belong to \<open>o1\<close>, agent 2 to \<open>o2\<close>, agent 3 is suspended. Conversation 10 is internal
  between 0 and 1, conversation 11 asymmetric between 0 and 2, conversation 12 archived.
\<close>

definition demo_db :: db where
  "demo_db = \<lparr>
     agents = [demo_agent 0 ''ann'' ''o1'' AgActive, demo_agent 1 ''bea'' ''o1'' AgActive,
               demo_agent 2 ''cid'' ''o2'' AgActive, demo_agent 3 ''dan'' ''o1'' AgSuspended],
     conversations = [demo_conversation 10 ''internal'' (Some [''o1'']) None,
                      demo_conversation 11 ''asymmetric'' (Some [''o1'', ''o2'']) None,
                      demo_conversation 12 ''open'' None (Some 5)],
     participants = [demo_participant 10 0 RoleOwner PtActive, demo_participant 10 1 RoleMember PtInvited,
                     demo_participant 11 0 RoleOwner PtActive, demo_participant 11 2 RoleMember PtActive,
                     demo_participant 12 0 RoleOwner PtActive, demo_participant 12 2 RoleMember PtLeft],
     messages = [demo_message 20 10 1 ''availability_request'', demo_message 21 11 1 ''availability_request'',
                 demo_message 22 12 1 ''availability_request''],
     holds = [demo_hold], audit_log = [], next_id = 40\<rparr>"

lemmas demo_defs = demo_plugins_def clearing_plugins_def demo_clock_def demo_agent_def
  demo_conversation_def demo_participant_def demo_message_def demo_hold_def

lemma demo_db_ok: "db_ok demo_db"
  by code_simp

section \<open>Running a request by rewriting\<close>

text \<open>
  A handler is unfolded only once it is applied to a session, and a board stays a short term of table
  operations over \<open>demo_db\<close>: only the tables asked for are ever computed.
\<close>

lemma demo_tables:
  "agents demo_db = [demo_agent 0 ''ann'' ''o1'' AgActive, demo_agent 1 ''bea'' ''o1'' AgActive,
     demo_agent 2 ''cid'' ''o2'' AgActive, demo_agent 3 ''dan'' ''o1'' AgSuspended]"
  "conversations demo_db = [demo_conversation 10 ''internal'' (Some [''o1'']) None,
     demo_conversation 11 ''asymmetric'' (Some [''o1'', ''o2'']) None,
     demo_conversation 12 ''open'' None (Some 5)]"
  "participants demo_db = [demo_participant 10 0 RoleOwner PtActive,
     demo_participant 10 1 RoleMember PtInvited, demo_participant 11 0 RoleOwner PtActive,
     demo_participant 11 2 RoleMember PtActive, demo_participant 12 0 RoleOwner PtActive,
     demo_participant 12 2 RoleMember PtLeft]"
  "messages demo_db = [demo_message 20 10 1 ''availability_request'',
     demo_message 21 11 1 ''availability_request'', demo_message 22 12 1 ''availability_request'']"
  "holds demo_db = [demo_hold]" "audit_log demo_db = []" "next_id demo_db = 40"
  by (simp_all add: demo_db_def)

lemma tables_of_writes:
  "agents (set_agent i f d) = update_where (\<lambda>a. ag_id a = i) f (agents d)"
  "conversations (set_conversation i g d) = update_where (\<lambda>c. cv_id c = i) g (conversations d)"
  "participants (set_participant c j h d) =
     update_where (\<lambda>p. pt_conversation_id p = c \<and> pt_agent_id p = j) h (participants d)"
  "holds (set_hold i k d) = update_where (\<lambda>h. hd_id h = i) k (holds d)"
  by (simp_all add: table_op_defs)

lemma exec_cong:
  "s = t \<Longrightarrow> bnd m f s = bnd m f t"
  "s = t \<Longrightarrow> seqm u n s = seqm u n t"
  "s = t \<Longrightarrow> whenm b u s = whenm b u t"
  "s = t \<Longrightarrow> try_except m h s = try_except m h t"
  "s = t \<Longrightarrow> audit a b' c d k j s = audit a b' c d k j t"
  "s = t \<Longrightarrow> refuse e a b' c d j s = refuse e a b' c d j t"
  by simp_all



lemmas exec_session = ret_def throw_def bnd_def try_except_def query_def change_def now_def
  txn_now_def new_id_def flush_def commit_def rollback_def run_def open_session_def Let_def comp_def

lemmas handler_defs =
  seqm_def whenm_def raise_result_def audit_at_def audit_def refuse_def deny_def
  deny_agent_retired_def deny_agent_suspended_def deny_sibling_identity_exists_def
  deny_display_name_collision_def deny_agent_already_registered_def deny_bad_state_def
  deny_archived_def deny_rate_limited_def deny_schema_version_mismatch_def deny_bad_schema_def
  deny_docs_unverified_def deny_if_system_message_type_def find_agent_by_id_def
  get_agent_by_sub_def list_sibling_identities_def fk_safe_agent_id_def require_active_agent_def
  is_active_safe_def find_conversation_def find_participant_def
  conversation_pinned_schema_version_def maybe_expire_def deny_not_member_def
  load_participant_for_transition_def load_participant_for_read_def negotiate_schema_version_def
  verify_docs_message_def deny_rate_limited_holds_def find_hold_def maybe_expire_hold_def
  conversation_dict_def enforce_message_rate_limit_def enforce_sender_global_rate_limit_def
  enforce_start_rate_limit_def score_message_risk_def enforce_message_type_accepted_def
  fetch_boundary_participants_def check_boundary_crossing_def require_message_sender_role_def
  insert_message_def insert_message_for_hold_def insert_hold_def clear_message_hold_def
  escalate_hold_def divert_high_risk_message_def insert_participant_def clear_invite_hold_def
  divert_invite_for_approval_def fire_approval_notifier_def get_active_participant_agent_ids_def
  accept_invite_def decline_invite_def leave_def authorize_invite_owner_freeze_def
  invite_target_def invite_admission_def invite_by_approval_def invite_def archive_conversation_def
  rename_conversation_def extend_conversation_def reopen_conversation_def close_conversation_def
  resolve_targets_def authorize_conversation_open_def start_arguments_def start_admission_def
  validated_payload_def start_message_checks_def start_guards_def insert_conversation_def
  open_conversation_def audit_start_def start_held_def start_posted_def start_conversation_def
  post_guards_def post_docs_checks_def post_held_def check_about_seq_def post_effects_def
  post_direct_def post_message_def get_hold_status_def list_pending_approval_holds_def
  load_decidable_hold_def get_hold_conversation_participants_def reject_hold_def
  load_release_conversation_def revalidate_target_def reject_ineligible_def revalidation_failed_def
  release_invite_def release_message_def decide_hold_def resolve_inbox_target_def
  resolve_conversation_participant_def deny_resource_subscribe_def audit_resource_subscription_def
  deny_siblings_def deny_colliding_display_name_def admin_register_admission_def
  admin_register_conflict_def insert_agent_def admin_register_agent_def register_admission_def
  reregister_agent_def register_conflict_def register_agent_def write_through_ownership_def
  set_agent_shared_def deregister_agent_def authorize_owner_reassignment_def reassignment_email_def
  request_owner_reassignment_def reassign_agent_def apply_owner_reassignment_def reconcile_one_def
  reconcile_agent_ownership_def discard_def write_through_for_def

lemmas exec_handlers = handler_defs [THEN fun_cong]

lemmas exec_values =
  MAX_CONVERSATION_TTL_def MAX_MESSAGES_PER_CONVERSATION_PER_HOUR_def
  MAX_CONVERSATION_STARTS_PER_HOUR_def MAX_MESSAGES_PER_SENDER_PER_HOUR_def APPROVAL_HOLD_TTL_def
  MAX_APPROVAL_HOLDS_PER_MINUTE_def SYSTEM_MESSAGE_TYPES_def CONVERSATION_TTL_def json_extend_def
  agent_key_from_sub_def is_identity_under_def negotiated_version_def required_floor_def
  recent_holds_def when_some_def hold_dict_def owner_sets_for_def may_invite_def may_rename_def
  may_extend_def may_reopen_def agent_public_def json_opt_time_def message_dict_def
  validate_schema_version_range_def validate_conversation_name_def
  validate_display_name_and_accepted_types_def INVITE_HOLD_MESSAGE_TYPE_def
  INVITE_HOLD_SCHEMA_VERSION_def INVITE_HOLD_RISK_REASON_def INVITE_HOLD_RISK_SCORER_LABEL_def
  AGENT_REQUESTED_RISK_REASON_def AGENT_REQUESTED_RISK_SCORER_LABEL_def recent_messages_def
  recent_starts_def all_non_owners_declined_def join_agents_def other_participants_def
  participant_info_of_def MESSAGE_TYPE_SENDER_ROLES_def last_seq_def auto_decided_def
  system_actor_def set_part_status_def accepted_def snapshot_owners_def
  conversation_has_note_history_def check_extend_by_days_def check_aware_def
  check_extend_arguments_def resolve_extended_expires_at_def extended_def reopened_expires_at_def
  reopened_def set_state_def invited_infos_def review_requested_def review_detail_def
  pending_holds_of_def pending_entry_def human_decided_def active_capabilities_def
  MAX_SUB_LENGTH_def MAX_LOOKUP_EMAIL_LENGTH_def MAX_RECONCILIATION_BATCH_SIZE_def sibling_subs_def
  colliding_subs_def is_constraint_violation_def admin_register_arguments_def reregistered_def
  field_change_def is_lower_alnum_def corp_local_part_def normalize_corp_email_def
  require_reassignable_sub_def reassigned_owner_sub_def reconcile_batch_def
  lookup_defs time_defs used_ids_def fresh_id_def violation_def constraint_defs
  has_agent_def has_conversation_def has_message_def opt_all_def sorted_by_def sorted_set_def
  update_where_def map_filter_def expired_conversation_def expired_hold_def json_opt_str_def
  json_opt_id_def json_get_def str_strip_def is_space_def str_lower_def lower_char_def
  starts_with_def is_control_def

lemmas exec_plugins = demo_defs default_plugins_def always_active_def escalate_all_def log_only_def
  reject_all_docs_def boundary_score_def asymmetric_score_def agent_table_owners_def owners_of_def
  crossing_def low_risk_def risk_infra_def may_assign_def pair_admitted_def pairwise_admitted_def
  BARRIER_SENSITIVE_TYPES_def CONVERSATION_TYPES_def MESSAGE_TYPES_def MESSAGE_SCHEMAS_def
  max_registered_schema_version MAX_PAYLOAD_BYTES_def MAX_DISPLAY_NAME_LENGTH_def
  MAX_ACCEPTED_TYPES_def MAX_ACCEPTED_TYPE_LENGTH_def MAX_CONVERSATION_NAME_LENGTH_def
  validate_payload_def check_payload_size_def get_schema_def is_message_legal_def
  resulting_conversation_state_def

lemmas exec = exec_session exec_handlers exec_values exec_plugins demo_tables tables_of_writes

end
