(* ===== verification/Identity.thy ===== *)
theory Identity
  imports Prelude
begin

text \<open>
  Caller identity and scope enforcement (\<open>identity.py\<close>, \<open>scopes.py\<close>): which claim of a verified token
  names the caller, when scopes apply, and which scope a tool or a resource URI requires. A token's
  claims are a map from claim names to JSON values. \<open>str_of\<close> stands for Python's \<open>str\<close> on a claim
  value; on a JSON string it is the string itself (hypothesis \<open>str_of_string\<close> where it matters).
\<close>

section \<open>Identity resolution\<close>

definition AGENT_JWT_ISSUER :: string where "AGENT_JWT_ISSUER = ''agent-jwt''"

type_synonym claims = "string \<Rightarrow> json option"

text \<open>\<open>claims.get(k)\<close>: \<open>None\<close> for a missing claim and for a JSON null alike.\<close>

definition claim :: "claims \<Rightarrow> string \<Rightarrow> json option" where
  "claim cs k = (case cs k of Some JNull \<Rightarrow> None | v \<Rightarrow> v)"

definition nonempty_claim :: "json option \<Rightarrow> bool" where
  "nonempty_claim v = (case v of
      None \<Rightarrow> False
    | Some (JStr s) \<Rightarrow> s \<noteq> []
    | Some (JBool b) \<Rightarrow> b
    | Some (JInt n) \<Rightarrow> n \<noteq> 0
    | Some (JFloat x) \<Rightarrow> (case x of None \<Rightarrow> True | Some (m, e) \<Rightarrow> m \<noteq> 0)
    | Some (JList xs) \<Rightarrow> xs \<noteq> []
    | Some (JObj kvs) \<Rightarrow> kvs \<noteq> []
    | Some (JId n) \<Rightarrow> True
    | Some JNull \<Rightarrow> False)"

text \<open>\<open>True\<close>: accepted. \<open>False\<close>: \<open>ToolError("invalid token sub claim")\<close>.\<close>

definition validate_sub_shape :: "(json \<Rightarrow> string) \<Rightarrow> claims \<Rightarrow> bool" where
  "validate_sub_shape str_of cs =
     (case claim cs ''sub'' of
        None \<Rightarrow> True
      | Some sub \<Rightarrow>
          let sub_str = str_strip (str_of sub) in
          if sub_str = [] then False
          else if CHR ''@'' \<in> set sub_str then False
          else True)"

definition is_agent_jwt_token :: "claims \<Rightarrow> bool" where
  "is_agent_jwt_token cs =
     (case claim cs ''iss'' of
        None \<Rightarrow> True
      | Some issuer \<Rightarrow> issuer = JStr AGENT_JWT_ISSUER)"

definition try_resolve_email :: "(json \<Rightarrow> string) \<Rightarrow> claims \<Rightarrow> string option" where
  "try_resolve_email str_of cs =
     (if \<not> validate_sub_shape str_of cs then None
      else if is_agent_jwt_token cs then
        (case claim cs ''sub'' of None \<Rightarrow> None | Some sub \<Rightarrow> Some (str_strip (str_of sub)))
      else
        (let email = (if nonempty_claim (claim cs ''email'') then claim cs ''email''
                      else claim cs ''preferred_username'') in
         if nonempty_claim email then Some (str_of (the email))
         else (case claim cs ''sub'' of None \<Rightarrow> None | Some sub \<Rightarrow> Some (str_strip (str_of sub)))))"

section \<open>Scopes\<close>

record access_token =
  tk_claims :: claims
  tk_client_id :: string

definition PROPOSAL_SUBMIT_SCOPE :: string where
  "PROPOSAL_SUBMIT_SCOPE = ''comms:proposals:write''"

definition TOOL_SCOPES :: "(string \<times> string) list" where
  "TOOL_SCOPES = [
     (''comms_whoami'', ''comms:read''),
     (''comms_list_agents'', ''comms:read''),
     (''comms_lookup_agent_by_email'', ''comms:read''),
     (''comms_list_conversations'', ''comms:read''),
     (''comms_get_conversation'', ''comms:read''),
     (''comms_inbox'', ''comms:read''),
     (''comms_get_hold_status'', ''comms:read''),
     (''comms_register'', ''comms:write''),
     (''comms_set_agent_shared'', ''comms:write''),
     (''comms_deregister_agent'', ''comms:write''),
     (''comms_admin_register'', ''comms:write''),
     (''comms_request_owner_reassignment'', ''comms:write''),
     (''comms_start_conversation'', ''comms:write''),
     (''comms_post_message'', ''comms:write''),
     (''comms_accept'', ''comms:write''),
     (''comms_decline_invite'', ''comms:write''),
     (''comms_invite'', ''comms:write''),
     (''comms_rename_conversation'', ''comms:write''),
     (''comms_leave'', ''comms:write''),
     (''comms_archive_conversation'', ''comms:write''),
     (''comms_extend_conversation'', ''comms:write''),
     (''comms_reopen_conversation'', ''comms:write''),
     (''proposals_submit'', PROPOSAL_SUBMIT_SCOPE),
     (''proposals_get'', PROPOSAL_SUBMIT_SCOPE),
     (''proposals_list_pending'', PROPOSAL_SUBMIT_SCOPE),
     (''proposals_list_history'', PROPOSAL_SUBMIT_SCOPE),
     (''proposals_withdraw'', PROPOSAL_SUBMIT_SCOPE),
     (''proposals_arcana_source_metadata'', PROPOSAL_SUBMIT_SCOPE),
     (''proposals_arcana_source_span'', PROPOSAL_SUBMIT_SCOPE)]"

definition RESOURCE_SCOPES :: "(string \<times> string) list" where
  "RESOURCE_SCOPES = [(''comms://comms/agents'', ''comms:read'')]"

definition RESOURCE_TEMPLATE_SCOPES :: "(string \<times> string) list" where
  "RESOURCE_TEMPLATE_SCOPES = [
     (''comms://comms/conversations/{conversation_id}'', ''comms:read''),
     (''comms://comms/agents/{agent_id}/inbox'', ''comms:read'')]"

subsection \<open>URI templates\<close>

text \<open>
  A compiled template is the sequence its pattern is joined from: escaped literal characters and
  \<open>[^/]+\<close> for a parameter. \<open>_TEMPLATE_PARAM_RE\<close> is \<open>\{[^/{}]+\}\<close>, scanned from the left.
\<close>

datatype template_part = Lit char | Param

definition is_param_char :: "char \<Rightarrow> bool" where
  "is_param_char c \<longleftrightarrow> c \<noteq> CHR ''/'' \<and> c \<noteq> CHR ''{'' \<and> c \<noteq> CHR ''}''"

function compile_resource_template :: "string \<Rightarrow> template_part list" where
  "compile_resource_template [] = []"
| "compile_resource_template (c # cs) =
     (let name = takeWhile is_param_char cs; rest = dropWhile is_param_char cs in
      if c = CHR ''{'' \<and> name \<noteq> [] \<and> rest \<noteq> [] \<and> hd rest = CHR ''}''
      then Param # compile_resource_template (tl rest)
      else Lit c # compile_resource_template cs)"
  by pat_completeness auto
termination
proof (relation "measure length", goal_cases)
  case 1
  then show ?case by simp
next
  case (2 c cs name rest)
  have "length (tl rest) \<le> length rest" by simp
  also have "length rest \<le> length cs" using 2 by (simp add: length_dropWhile_le)
  finally show ?case by simp
next
  case (3 c cs name rest)
  then show ?case by simp
qed

text \<open>
  \<open>pattern.match(uri)\<close> of \<open>^...$\<close>: \<open>$\<close> also matches before a final line feed. A parameter takes one
  or more characters other than a slash.
\<close>

definition line_feed :: char where "line_feed = char_of (10::nat)"

fun template_match :: "template_part list \<Rightarrow> string \<Rightarrow> bool" where
  "template_match [] s = (s = [] \<or> s = [line_feed])"
| "template_match (Lit c # ps) [] = False"
| "template_match (Lit c # ps) (x # s) = (x = c \<and> template_match ps s)"
| "template_match (Param # ps) [] = False"
| "template_match (Param # ps) (x # s) =
     (x \<noteq> CHR ''/'' \<and> (template_match ps s \<or> template_match (Param # ps) s))"

definition required_scope_for :: "string \<Rightarrow> string option" where
  "required_scope_for tool_name = map_of TOOL_SCOPES tool_name"

definition required_scope_for_resource :: "string \<Rightarrow> string option" where
  "required_scope_for_resource uri =
     (case map_of RESOURCE_SCOPES uri of
        Some scope \<Rightarrow> Some scope
      | None \<Rightarrow> map_option snd
          (find (\<lambda>(template, _). template_match (compile_resource_template template) uri)
            RESOURCE_TEMPLATE_SCOPES))"

subsection \<open>Scope checks\<close>

definition is_interactive_token :: "access_token option \<Rightarrow> bool" where
  "is_interactive_token token =
     (case token of
        None \<Rightarrow> False
      | Some t \<Rightarrow> (case claim (tk_claims t) ''iss'' of
            None \<Rightarrow> False
          | Some issuer \<Rightarrow> issuer \<noteq> JStr AGENT_JWT_ISSUER))"

definition is_registry_backed_agent_token :: "string \<Rightarrow> string \<Rightarrow> access_token option \<Rightarrow> bool" where
  "is_registry_backed_agent_token verifier_claim default_verifier token =
     (case token of
        None \<Rightarrow> False
      | Some t \<Rightarrow>
          if claim (tk_claims t) ''iss'' \<noteq> Some (JStr AGENT_JWT_ISSUER) then False
          else (case claim (tk_claims t) verifier_claim of
              None \<Rightarrow> False
            | Some verifier_name \<Rightarrow> verifier_name \<noteq> JStr default_verifier))"

definition scopes_for_token :: "(json \<Rightarrow> string) \<Rightarrow> access_token \<Rightarrow> string list" where
  "scopes_for_token str_of t =
     (if claim (tk_claims t) ''iss'' \<noteq> Some (JStr AGENT_JWT_ISSUER) then []
      else if \<not> nonempty_claim (claim (tk_claims t) ''sub'') then []
      else if \<not> validate_sub_shape str_of (tk_claims t) then []
      else case tk_claims t ''scopes'' of
          Some (JList raw) \<Rightarrow> map str_of raw
        | _ \<Rightarrow> [])"

definition safe_client_id :: "(json \<Rightarrow> string) \<Rightarrow> access_token \<Rightarrow> string" where
  "safe_client_id str_of t =
     (if claim (tk_claims t) ''iss'' = Some (JStr AGENT_JWT_ISSUER) \<and>
         (\<not> nonempty_claim (claim (tk_claims t) ''sub'') \<or> \<not> validate_sub_shape str_of (tk_claims t))
      then ''invalid_sub''
      else if tk_client_id t \<noteq> [] then tk_client_id t else ''unknown'')"

definition check_resource_scope :: "(json \<Rightarrow> string) \<Rightarrow> access_token option \<Rightarrow> string \<Rightarrow> bool" where
  "check_resource_scope str_of token uri =
     (if is_interactive_token token then True
      else case token of
          None \<Rightarrow> False
        | Some t \<Rightarrow> (case required_scope_for_resource uri of
              None \<Rightarrow> False
            | Some required \<Rightarrow> required \<in> set (scopes_for_token str_of t)))"

section \<open>Properties\<close>

lemma validate_sub_shape_accepts:
  "validate_sub_shape str_of cs \<Longrightarrow> claim cs ''sub'' = Some v \<Longrightarrow>
     str_strip (str_of v) \<noteq> [] \<and> CHR ''@'' \<notin> set (str_strip (str_of v))"
  by (auto simp: validate_sub_shape_def Let_def split: if_splits)

text \<open>
  C24. Anti-impersonation: whatever an agent-jwt token (or one with no issuer) says in its \<open>email\<close>
  and \<open>preferred_username\<close> claims, the identity it resolves to is its stripped \<open>sub\<close>, which is
  neither empty nor email-shaped; changing those two claims changes nothing.
\<close>

theorem agent_token_identity_is_sub:
  assumes "claim cs ''iss'' = None \<or> claim cs ''iss'' = Some (JStr ''agent-jwt'')"
  shows "try_resolve_email str_of (cs(''email'' := e, ''preferred_username'' := u)) =
           try_resolve_email str_of cs \<and>
         (\<forall>who. try_resolve_email str_of cs = Some who \<longrightarrow>
            who \<noteq> [] \<and> CHR ''@'' \<notin> set who \<and>
            (\<exists>v. claim cs ''sub'' = Some v \<and> who = str_strip (str_of v)))"
proof -
  let ?cs = "cs(''email'' := e, ''preferred_username'' := u)"
  have agent: "is_agent_jwt_token cs" using assms by (auto simp: is_agent_jwt_token_def AGENT_JWT_ISSUER_def)
  have same: "claim ?cs ''sub'' = claim cs ''sub''" "claim ?cs ''iss'' = claim cs ''iss''"
    by (simp_all add: claim_def)
  then have "validate_sub_shape str_of ?cs = validate_sub_shape str_of cs" "is_agent_jwt_token ?cs"
    using agent by (simp_all add: validate_sub_shape_def is_agent_jwt_token_def)
  with agent same show ?thesis
    by (auto simp: try_resolve_email_def split: option.splits if_splits
        dest!: validate_sub_shape_accepts)
qed

theorem agent_token_identity_is_sub_witness:
  "try_resolve_email (\<lambda>j. case j of JStr s \<Rightarrow> s | _ \<Rightarrow> [])
     [''iss'' \<mapsto> JStr ''agent-jwt'', ''sub'' \<mapsto> JStr ''bot-1'', ''email'' \<mapsto> JStr ''alice@x.com''] = Some ''bot-1''"
proof -
  let ?cs = "[''iss'' \<mapsto> JStr ''agent-jwt'', ''sub'' \<mapsto> JStr ''bot-1'', ''email'' \<mapsto> JStr ''alice@x.com'']"
  let ?str = "\<lambda>j. case j of JStr s \<Rightarrow> s | _ \<Rightarrow> []"
  have "try_resolve_email ?str (?cs(''email'' := None, ''preferred_username'' := None)) = Some ''bot-1''"
    by (simp add: try_resolve_email_def validate_sub_shape_def claim_def str_strip_def is_space_def
        is_agent_jwt_token_def AGENT_JWT_ISSUER_def)
  with agent_token_identity_is_sub [of ?cs ?str None None] show ?thesis by (simp add: claim_def)
qed

end
