(* ===== verification/Canonical.thy ===== *)
theory Canonical
  imports Demo Identity
begin

text \<open>
  The canonical forms and the scope check: what the validators of names and emails accept and that
  their results are stable, which schema version a group of agents agrees on, and which resource a
  token may read.
\<close>

section \<open>Canonical emails and names\<close>

lemma split_at_sign_not_nil [simp]: "split_at_sign s \<noteq> []"
  by (induction s) (auto split: list.splits)

lemma split_at_sign_one: "split_at_sign s = [w] \<longleftrightarrow> s = w \<and> CHR ''@'' \<notin> set s"
proof (induction s arbitrary: w)
  case (Cons c s)
  show ?case
  proof (cases "split_at_sign s")
    case (Cons v vs)
    with Cons.IH [of v] Cons.IH [of s] show ?thesis by (cases vs) auto
  qed simp
qed auto

lemma split_at_sign_two:
  "split_at_sign s = [l, d] \<longleftrightarrow> s = l @ CHR ''@'' # d \<and> CHR ''@'' \<notin> set l \<and> CHR ''@'' \<notin> set d"
proof (induction s arbitrary: l)
  case (Cons c s)
  show ?case
  proof (cases "c = CHR ''@''")
    case True
    then show ?thesis by (cases l) (auto simp: split_at_sign_one)
  next
    case False
    show ?thesis
    proof (cases l)
      case Nil
      with False show ?thesis by (auto split: list.splits)
    next
      case (Cons e l')
      have "split_at_sign (c # s) = [l, d] \<longleftrightarrow> e = c \<and> split_at_sign s = [l', d]"
        using False Cons by (cases "split_at_sign s") auto
      with Cons.IH [of l'] False Cons show ?thesis by auto
    qed
  qed
qed auto

lemma lower_char_idem [simp]: "lower_char (lower_char c) = lower_char c"
proof -
  let ?n = "of_char c :: nat"
  have "?n < 256" using of_char_mod_256 [of c] by (metis mod_less_divisor zero_less_numeral)
  then show ?thesis by (auto simp: lower_char_def Let_def of_char_of mod_less)
qed

lemma str_lower_idem [simp]: "str_lower (str_lower s) = str_lower s"
  by (simp add: str_lower_def)

lemma str_strip_id: "\<forall>c\<in>set s. \<not> is_space c \<Longrightarrow> str_strip s = s"
proof -
  assume a: "\<forall>c\<in>set s. \<not> is_space c"
  have "dropWhile is_space s = s" using a by (cases s) auto
  moreover have "dropWhile is_space (rev s) = rev s" using a by (cases s rule: rev_cases) auto
  ultimately show ?thesis by (simp add: str_strip_def)
qed

lemma str_strip_last: "str_strip s \<noteq> [] \<Longrightarrow> \<not> is_space (hd (str_strip s))"
proof -
  assume ne: "str_strip s \<noteq> []"
  let ?u = "dropWhile is_space s"
  have "suffix (rev (str_strip s)) (rev ?u)" by (simp add: str_strip_def suffix_dropWhile)
  then obtain zs where "rev ?u = zs @ rev (str_strip s)" by (auto simp: suffix_def)
  then have u: "?u = str_strip s @ rev zs" by (metis rev_append rev_rev_ident)
  with ne have "hd (str_strip s) = hd ?u" "?u \<noteq> []" by auto
  then show ?thesis by (simp add: hd_dropWhile)
qed

lemma str_strip_idem [simp]: "str_strip (str_strip s) = str_strip s"
proof (cases "str_strip s = []")
  case False
  then have "dropWhile is_space (str_strip s) = str_strip s"
    using str_strip_last [of s] by (cases "str_strip s") auto
  moreover have "dropWhile is_space (rev (str_strip s)) = rev (str_strip s)"
    using False str_strip_hd_not_space [of s] by (cases "str_strip s" rule: rev_cases) auto
  ultimately show ?thesis by (simp add: str_strip_def [of "str_strip s"])
next
  case True
  show ?thesis unfolding True by (simp add: str_strip_def)
qed

lemma lower_alnum_chars: "is_lower_alnum c \<longleftrightarrow> c \<in> set ''abcdefghijklmnopqrstuvwxyz0123456789''"
proof -
  let ?cs = "''abcdefghijklmnopqrstuvwxyz0123456789''"
  have codes: "map of_char ?cs = [97..<123] @ [48..<58 :: nat]" by code_simp
  have "c \<in> set ?cs \<longleftrightarrow> (of_char c :: nat) \<in> of_char ` set ?cs"
    by (simp only: inj_image_mem_iff [OF inj_of_char])
  also have "\<dots> \<longleftrightarrow> (of_char c :: nat) \<in> set ([97..<123] @ [48..<58])"
    by (simp only: codes [symmetric] set_map)
  also have "\<dots> \<longleftrightarrow> is_lower_alnum c"
    unfolding is_lower_alnum_def Let_def set_append set_upt Un_iff atLeastLessThan_iff by presburger
  finally show ?thesis ..
qed

lemma has_double_dot_later: "has_double_dot s \<Longrightarrow> has_double_dot (c # s)"
  by (cases s) simp_all

lemma has_double_dot_found: "has_double_dot l \<Longrightarrow> \<exists>u v. l = u @ ''..'' @ v"
proof (induction l rule: has_double_dot.induct)
  case (1 c d s)
  show ?case
  proof (cases "c = CHR ''.'' \<and> d = CHR ''.''")
    case True
    then show ?thesis by (intro exI [of _ "[]"] exI [of _ s]) simp
  next
    case False
    then obtain u v where "d # s = u @ ''..'' @ v" using 1 by auto
    then show ?thesis by (intro exI [of _ "c # u"] exI [of _ v]) simp
  qed
qed simp_all

lemma has_double_dot_here: "has_double_dot (u @ ''..'' @ v)"
  by (induction u) (simp_all add: has_double_dot_later)

lemma has_double_dot_iff: "has_double_dot l \<longleftrightarrow> (\<exists>u v. l = u @ ''..'' @ v)"
  using has_double_dot_found has_double_dot_here by blast

lemma normalize_corp_email_parts:
  "normalize_corp_email m = Inr e \<longleftrightarrow>
    e = str_lower (str_strip m) \<and> (\<exists>l. e = l @ ''@redesignhealth.com'' \<and> length l \<le> 64 \<and>
      corp_local_part l \<and> \<not> has_double_dot l)"
proof -
  let ?c = "str_lower (str_strip m)"
  have at: "CHR ''@'' \<notin> set l" if "corp_local_part l" for l
    using that by (auto simp: corp_local_part_def list_all_iff is_lower_alnum_def)
  have clean: "\<not> is_space c \<and> \<not> is_control c" if "corp_local_part l" "c \<in> set (l @ ''@redesignhealth.com'')" for c l
  proof -
    have "list_all (\<lambda>c. \<not> is_space c \<and> \<not> is_control c) (''._+-'' @ ''@redesignhealth.com'')" by code_simp
    moreover have "\<not> is_space c \<and> \<not> is_control c" if "is_lower_alnum c"
      using that by (simp add: is_lower_alnum_def is_space_def is_control_def Let_def) linarith
    moreover have "is_lower_alnum c \<or> c \<in> set (''._+-'' @ ''@redesignhealth.com'')"
      using that unfolding corp_local_part_def list_all_iff set_append Un_iff by blast
    ultimately show ?thesis unfolding list_all_iff by blast
  qed
  show ?thesis
  proof
    assume "normalize_corp_email m = Inr e"
    then show "e = ?c \<and> (\<exists>l. e = l @ ''@redesignhealth.com'' \<and> length l \<le> 64 \<and>
      corp_local_part l \<and> \<not> has_double_dot l)"
      by (auto simp: normalize_corp_email_def Let_def split_at_sign_two split: if_splits list.splits)
  next
    assume a: "e = ?c \<and> (\<exists>l. e = l @ ''@redesignhealth.com'' \<and> length l \<le> 64 \<and>
      corp_local_part l \<and> \<not> has_double_dot l)"
    then obtain l where l: "?c = l @ ''@redesignhealth.com''" "length l \<le> 64" "corp_local_part l" "\<not> has_double_dot l"
      by auto
    have "split_at_sign ?c = [l, ''redesignhealth.com'']" using at [OF l(3)] by (simp add: split_at_sign_two l(1))
    moreover have "\<not> (\<exists>c\<in>set ?c. is_space c \<or> is_control c)" using clean [OF l(3)] l(1) by auto
    moreover have "?c \<noteq> [] \<and> length ?c \<le> 254" using l(2) by (simp add: l(1))
    moreover have "l \<noteq> []" using l(3) by (simp add: corp_local_part_def)
    ultimately show "normalize_corp_email m = Inr e" using a l(2,3,4)
      by (simp add: normalize_corp_email_def Let_def)
  qed
qed

text \<open>
  C33. The canonical corporate email is characterised exactly: an email is accepted if and only if,
  stripped and lower-cased, it is a local part of 1 to 64 characters over \<open>a-z 0-9 . _ + -\<close> that
  starts and ends with a letter or digit and has no two dots in a row, followed by the corporate domain;
  the result is that stripped, lower-cased text.
\<close>

theorem normalize_corp_email_exact:
  "normalize_corp_email m = Inr e \<longleftrightarrow>
    e = str_lower (str_strip m) \<and> (\<exists>l. e = l @ ''@redesignhealth.com'' \<and> l \<noteq> [] \<and> length l \<le> 64 \<and>
      hd l \<in> set ''abcdefghijklmnopqrstuvwxyz0123456789'' \<and>
      last l \<in> set ''abcdefghijklmnopqrstuvwxyz0123456789'' \<and>
      set l \<subseteq> set ''abcdefghijklmnopqrstuvwxyz0123456789._+-'' \<and> (\<nexists>u v. l = u @ ''..'' @ v))"
proof -
  have "''abcdefghijklmnopqrstuvwxyz0123456789._+-'' = ''abcdefghijklmnopqrstuvwxyz0123456789'' @ ''._+-''"
    by (simp only: append.simps)
  then have "set l \<subseteq> set ''abcdefghijklmnopqrstuvwxyz0123456789._+-'' \<longleftrightarrow>
      list_all (\<lambda>c. is_lower_alnum c \<or> c \<in> set ''._+-'') l" for l
    by (simp only: list_all_iff lower_alnum_chars set_append subset_iff Un_iff Ball_def)
  then show ?thesis
    unfolding normalize_corp_email_parts corp_local_part_def lower_alnum_chars [symmetric] has_double_dot_iff
    by (auto simp only:)
qed

theorem normalize_corp_email_exact_witness:
  "normalize_corp_email ''  ann@redesignhealth.com '' = Inr ''ann@redesignhealth.com''"
proof -
  have "str_lower (str_strip ''  ann@redesignhealth.com '') = ''ann'' @ ''@redesignhealth.com''"
    by (simp add: str_strip_def is_space_def str_lower_def lower_char_def)
  then show ?thesis unfolding normalize_corp_email_exact
    by (intro conjI exI [of _ "''ann''"]) (simp_all add: Cons_eq_append_conv)
qed

text \<open>
  The canonical forms are stable: an email, a conversation name or a display name with its
  accepted types that a validator returned is accepted again and returned unchanged, so storing it and
  validating what was stored is a round trip.
\<close>

theorem canonical_forms_are_stable:
  "(normalize_corp_email m = Inr e \<longrightarrow> normalize_corp_email e = Inr e) \<and>
   (validate_conversation_name n = Inr n' \<longrightarrow> validate_conversation_name n' = Inr n') \<and>
   (validate_display_name_and_accepted_types x ts = Inr (x', ts') \<longrightarrow>
      validate_display_name_and_accepted_types x' ts' = Inr (x', ts'))"
proof (intro conjI impI)
  assume a: "normalize_corp_email m = Inr e"
  then have e: "e = str_lower (str_strip m)" "\<forall>c\<in>set e. \<not> is_space c"
    by (auto simp: normalize_corp_email_def Let_def split: if_splits list.splits)
  then have "str_lower (str_strip e) = str_lower (str_strip m)" by (simp add: str_strip_id)
  with a show "normalize_corp_email e = Inr e" by (simp add: normalize_corp_email_def)
next
  assume a: "validate_display_name_and_accepted_types x ts = Inr (x', ts')"
  have "MAX_ACCEPTED_TYPES < length (sorted_set us) \<Longrightarrow> MAX_ACCEPTED_TYPES < length us" for us :: "string list"
    using length_remdups_leq [of us] by (simp add: sorted_set_def del: length_remdups_leq)
  moreover have "sorted_set (sorted_set us) = sorted_set us" for us :: "string list"
    by (simp add: sorted_set_def distinct_remdups_id sorted_sort_id)
  moreover have "sorted_set us = [] \<longleftrightarrow> us = []" for us :: "string list"
    by (metis set_empty set_sorted_set)
  ultimately show "validate_display_name_and_accepted_types x' ts' = Inr (x', ts')" using a
    by (auto simp: validate_display_name_and_accepted_types_def Let_def split: option.splits if_splits)
qed (auto simp: validate_conversation_name_def Let_def split: option.splits if_splits)


theorem canonical_forms_are_stable_witness:
  "normalize_corp_email ''ann@redesignhealth.com'' = Inr ''ann@redesignhealth.com'' \<and>
   validate_conversation_name (Some ''plan b'') = Inr (Some ''plan b'') \<and>
   validate_display_name_and_accepted_types ''ann'' (Some [''docs'', ''note'']) = Inr (''ann'', Some [''docs'', ''note''])"
proof -
  have "normalize_corp_email ''  ann@redesignhealth.com'' = Inr ''ann@redesignhealth.com''" by code_simp
  moreover have "validate_conversation_name (Some '' plan b '') = Inr (Some ''plan b'')" by code_simp
  moreover have "validate_display_name_and_accepted_types '' ann'' (Some [''note'', ''docs'', ''note'']) =
      Inr (''ann'', Some [''docs'', ''note''])" by code_simp
  ultimately show ?thesis using canonical_forms_are_stable by blast
qed

section \<open>Schema versions\<close>

text \<open>
  C34. Version negotiation picks the best version there is: it returns v exactly when v lies in the
  range of the initiator and of every target, does not exceed the highest registered version, and no
  higher version would do.
\<close>

theorem negotiated_version_is_best:
  "fst (negotiate_schema_version a i ts s) = Inr v \<longleftrightarrow>
    (let ok = (\<lambda>w. w \<le> MAX_REGISTERED_SCHEMA_VERSION \<and>
       (\<forall>g\<in>set (i # ts). ag_min_schema_version g \<le> w \<and> w \<le> ag_max_schema_version g))
     in ok v \<and> (\<forall>w. ok w \<longrightarrow> w \<le> v))"
proof -
  let ?n = "negotiated_version i ts" and ?f = "required_floor i ts"
  have n: "w \<le> ?n \<longleftrightarrow> w \<le> MAX_REGISTERED_SCHEMA_VERSION \<and> (\<forall>g\<in>set (i # ts). w \<le> ag_max_schema_version g)" for w
    by (auto simp: negotiated_version_def foldr_min)
  have f: "?f \<le> w \<longleftrightarrow> (\<forall>g\<in>set (i # ts). ag_min_schema_version g \<le> w)" for w
    by (auto simp: required_floor_def foldr_max)
  have "fst (negotiate_schema_version a i ts s) = Inr v \<longleftrightarrow> v = ?n \<and> ?f \<le> v"
    by (metis fst_conv negotiate_Inr prod.collapse)
  also have "\<dots> \<longleftrightarrow> (v \<le> ?n \<and> ?f \<le> v) \<and> (\<forall>w. w \<le> ?n \<and> ?f \<le> w \<longrightarrow> w \<le> v)"
    by (auto intro: order_antisym)
  finally show ?thesis by (auto simp: n f Let_def)
qed

theorem negotiated_version_is_best_witness:
  "fst (negotiate_schema_version ''ann'' (demo_agent 0 ''ann'' ''o1'' AgActive) [demo_agent 2 ''cid'' ''o2'' AgActive]
     (open_session demo_clock demo_db)) = Inr 1"
  unfolding negotiated_version_is_best by (simp add: max_registered_schema_version demo_agent_def)

section \<open>Resource scopes\<close>

text \<open>A template filled with one word per parameter.\<close>

fun fill :: "template_part list \<Rightarrow> string list \<Rightarrow> string" where
  "fill [] ws = []"
| "fill (Lit c # ps) ws = c # fill ps ws"
| "fill (Param # ps) (w # ws) = w @ fill ps ws"
| "fill (Param # ps) [] = []"

definition param_count :: "template_part list \<Rightarrow> nat" where
  "param_count ps = length (filter (\<lambda>p. p = Param) ps)"

text \<open>
  A URI matches a compiled template if and only if it is the template with every parameter replaced by
  a non-empty word without a slash, possibly followed by one line feed.
\<close>

lemma template_match_filling:
  "template_match ps u \<longleftrightarrow> (\<exists>ws v. length ws = param_count ps \<and> list_all (\<lambda>w. w \<noteq> [] \<and> CHR ''/'' \<notin> set w) ws \<and>
     v \<in> {[], [line_feed]} \<and> u = fill ps ws @ v)"
proof (induction ps u rule: template_match.induct)
  case (5 ps x s)
  let ?ok = "list_all (\<lambda>w. w \<noteq> [] \<and> CHR ''/'' \<notin> set w)"
  have shape: "(length ws = param_count (Param # ps) \<and> ?ok ws \<and> x # s = fill (Param # ps) ws @ v) \<longleftrightarrow>
      (\<exists>w ws'. ws = (x # w) # ws' \<and> x \<noteq> CHR ''/'' \<and> CHR ''/'' \<notin> set w \<and> length ws' = param_count ps \<and> ?ok ws' \<and>
         s = w @ fill ps ws' @ v)" for ws v
    by (cases ws) (auto simp: param_count_def Cons_eq_append_conv)
  have more: "(length ws = param_count (Param # ps) \<and> ?ok ws \<and> s = fill (Param # ps) ws @ v) \<longleftrightarrow>
      (\<exists>w ws'. ws = w # ws' \<and> w \<noteq> [] \<and> CHR ''/'' \<notin> set w \<and> length ws' = param_count ps \<and> ?ok ws' \<and>
         s = w @ fill ps ws' @ v)" for ws v
    by (cases ws) (auto simp: param_count_def)
  have "template_match (Param # ps) (x # s) \<longleftrightarrow> x \<noteq> CHR ''/'' \<and>
      ((\<exists>ws v. length ws = param_count ps \<and> ?ok ws \<and> v \<in> {[], [line_feed]} \<and> s = fill ps ws @ v) \<or>
       (\<exists>ws v. v \<in> {[], [line_feed]} \<and> (length ws = param_count (Param # ps) \<and> ?ok ws \<and> s = fill (Param # ps) ws @ v)))"
    unfolding template_match.simps 5 by blast
  also have "\<dots> \<longleftrightarrow> (\<exists>w ws v. v \<in> {[], [line_feed]} \<and> x \<noteq> CHR ''/'' \<and> CHR ''/'' \<notin> set w \<and>
      length ws = param_count ps \<and> ?ok ws \<and> s = w @ fill ps ws @ v)"
    (is "?L \<longleftrightarrow> ?R")
  proof
    assume ?R
    then obtain w ws v where w: "v \<in> {[], [line_feed]}" "x \<noteq> CHR ''/''" "CHR ''/'' \<notin> set w"
      "length ws = param_count ps" "?ok ws" "s = w @ fill ps ws @ v" by blast
    show ?L
    proof (cases "w = []")
      case True
      show ?thesis by (intro conjI disjI1 exI [of _ ws] exI [of _ v]) (use w True in simp_all)
    next
      case False
      show ?thesis unfolding more
        by (intro conjI disjI2 exI [of _ "w # ws"] exI [of _ v] exI [of _ w] exI [of _ ws]) (use w False in simp_all)
    qed
  next
    assume ?L
    then show ?R unfolding more by (elim conjE disjE exE) (rule exI [of _ "[]"], auto)
  qed
  also have "\<dots> \<longleftrightarrow> (\<exists>ws v. v \<in> {[], [line_feed]} \<and>
      (length ws = param_count (Param # ps) \<and> ?ok ws \<and> x # s = fill (Param # ps) ws @ v))"
    unfolding shape by blast
  finally show ?case by blast
next
  case (4 ps)
  have "fill (Param # ps) ws \<noteq> []" if "list_all (\<lambda>w. w \<noteq> [] \<and> CHR ''/'' \<notin> set w) ws" "length ws = Suc n" for ws n
    using that by (cases ws) auto
  then show ?case by (auto simp: param_count_def)
qed (auto simp: param_count_def)

lemma fill_literals: "fill (map Lit s @ ps) ws = s @ fill ps ws"
  by (induction s) simp_all

lemma resource_templates:
  "compile_resource_template ''comms://comms/conversations/{conversation_id}'' =
     map Lit ''comms://comms/conversations/'' @ [Param]"
  "compile_resource_template ''comms://comms/agents/{agent_id}/inbox'' =
     map Lit ''comms://comms/agents/'' @ Param # map Lit ''/inbox''"
  by code_simp+

lemma one_parameter:
  "template_match (map Lit s @ Param # map Lit r) u \<longleftrightarrow>
    (\<exists>w v. (w \<noteq> [] \<and> CHR ''/'' \<notin> set w) \<and> v \<in> {[], [line_feed]} \<and> u = s @ w @ r @ v)"
proof -
  have "param_count (map Lit s @ Param # map Lit r) = 1"
    by (simp add: param_count_def filter_empty_conv)
  moreover have "fill (map Lit s @ Param # map Lit r) [w] = s @ w @ r" for w
    using fill_literals [of r "[]" "[]"] by (simp add: fill_literals)
  moreover have "length ws = 1 \<longleftrightarrow> (\<exists>w. ws = [w])" for ws :: "string list"
    by (cases ws) auto
  ultimately show ?thesis unfolding template_match_filling by (auto 0 3)
qed

text \<open>
  C35. The resource scope check, exactly: a token that is not interactive reads a resource if and only
  if it is an agent token with a well-shaped \<open>sub\<close> whose \<open>scopes\<close> list holds \<open>comms:read\<close>, and the
  URI is the agent list, a conversation or an inbox; every other URI is refused whatever the scopes.
\<close>

theorem resource_scope_exact:
  "check_resource_scope str token u \<longleftrightarrow> is_interactive_token token \<or>
    (\<exists>t raw. token = Some t \<and> claim (tk_claims t) ''iss'' = Some (JStr ''agent-jwt'') \<and>
       nonempty_claim (claim (tk_claims t) ''sub'') \<and> validate_sub_shape str (tk_claims t) \<and>
       tk_claims t ''scopes'' = Some (JList raw) \<and> ''comms:read'' \<in> str ` set raw \<and>
       (u = ''comms://comms/agents'' \<or> (\<exists>w v. w \<noteq> [] \<and> CHR ''/'' \<notin> set w \<and> v \<in> {[], [line_feed]} \<and>
          (u = ''comms://comms/conversations/'' @ w @ v \<or> u = ''comms://comms/agents/'' @ w @ ''/inbox'' @ v))))"
proof -
  let ?shape = "\<lambda>w. w \<noteq> [] \<and> CHR ''/'' \<notin> set w"
  have t: "template_match (compile_resource_template ''comms://comms/conversations/{conversation_id}'') u \<longleftrightarrow>
      (\<exists>w v. ?shape w \<and> v \<in> {[], [line_feed]} \<and> u = ''comms://comms/conversations/'' @ w @ v)"
    "template_match (compile_resource_template ''comms://comms/agents/{agent_id}/inbox'') u \<longleftrightarrow>
      (\<exists>w v. ?shape w \<and> v \<in> {[], [line_feed]} \<and> u = ''comms://comms/agents/'' @ w @ ''/inbox'' @ v)"
    unfolding resource_templates
    using one_parameter [of "''comms://comms/conversations/''" "[]" u] one_parameter [of "''comms://comms/agents/''" "''/inbox''" u]
    by simp_all
  let ?A = "template_match (compile_resource_template ''comms://comms/conversations/{conversation_id}'') u"
  let ?B = "template_match (compile_resource_template ''comms://comms/agents/{agent_id}/inbox'') u"
  have r: "required_scope_for_resource u = Some r \<longleftrightarrow> r = ''comms:read'' \<and> (u = ''comms://comms/agents'' \<or> ?A \<or> ?B)" for r
    by (auto simp: required_scope_for_resource_def RESOURCE_SCOPES_def RESOURCE_TEMPLATE_SCOPES_def
        simp del: compile_resource_template.simps)
  have s: "x \<in> set (scopes_for_token str t) \<longleftrightarrow> (\<exists>raw. claim (tk_claims t) ''iss'' = Some (JStr ''agent-jwt'') \<and>
       nonempty_claim (claim (tk_claims t) ''sub'') \<and> validate_sub_shape str (tk_claims t) \<and>
       tk_claims t ''scopes'' = Some (JList raw) \<and> x \<in> str ` set raw)" for x t
    by (cases "tk_claims t ''scopes''") (auto simp: scopes_for_token_def AGENT_JWT_ISSUER_def split: json.splits)
  have "check_resource_scope str token u \<longleftrightarrow> is_interactive_token token \<or>
      (\<exists>t r. token = Some t \<and> required_scope_for_resource u = Some r \<and> r \<in> set (scopes_for_token str t))"
    by (auto simp: check_resource_scope_def split: option.splits)
  then show ?thesis unfolding r s t by blast
qed

end
