(* ===== verification/ProposalText.thy ===== *)
theory ProposalText
  imports Store
begin

text \<open>
  Text as the proposal pipeline handles it: the part of Python's standard library it uses on strings
  (\<open>repr\<close>, decimal numerals, \<open>json.dumps\<close> and \<open>json.loads\<close>, \<open>base64\<close>), the regular expressions of
  the service written out as matchers, and the service's own scrubbing and truncation of messages
  that go back to a caller. Text is ASCII or Latin-1, as everywhere in the development: a JSON escape
  above \<open>\u00ff\<close> and a UTF-8 sequence of more than two bytes have no value here.
\<close>

section \<open>Numerals\<close>

definition digit_char :: "nat \<Rightarrow> char" where
  "digit_char n = char_of (48 + n)"

definition is_digit :: "char \<Rightarrow> bool" where
  "is_digit c = (let n = (of_char c :: nat) in 48 \<le> n \<and> n \<le> 57)"

definition digit_value :: "char \<Rightarrow> nat" where
  "digit_value c = of_char c - 48"

fun dec :: "nat \<Rightarrow> string" where
  "dec n = (if n < 10 then [digit_char n] else dec (n div 10) @ [digit_char (n mod 10)])"

declare dec.simps [simp del]

definition undec :: "string \<Rightarrow> nat" where
  "undec s = foldl (\<lambda>n c. 10 * n + digit_value c) 0 s"

definition int_text :: "int \<Rightarrow> string" where
  "int_text n = (if n < 0 then CHR ''-'' # dec (nat (- n)) else dec (nat n))"

lemma is_digit_digit_char: "n < 10 \<Longrightarrow> is_digit (digit_char n)"
  by (simp add: is_digit_def digit_char_def of_char_of)

lemma digit_value_digit_char: "n < 10 \<Longrightarrow> digit_value (digit_char n) = n"
  by (simp add: digit_value_def digit_char_def of_char_of)

lemma undec_snoc: "undec (s @ [c]) = 10 * undec s + digit_value c"
  by (simp add: undec_def)

lemma undec_dec [simp]: "undec (dec n) = n"
proof (induction n rule: dec.induct)
  case (1 n)
  show ?case
  proof (cases "n < 10")
    case True
    then show ?thesis by (simp add: dec.simps [of n] undec_def digit_value_digit_char)
  next
    case False
    then show ?thesis using 1
      by (simp add: dec.simps [of n] undec_snoc digit_value_digit_char)
  qed
qed

lemma dec_digits: "list_all is_digit (dec n)"
proof (induction n rule: dec.induct)
  case (1 n)
  then show ?case
    by (cases "n < 10") (simp_all add: dec.simps [of n] is_digit_digit_char)
qed

lemma dec_nonempty [simp]: "dec n \<noteq> []"
  by (subst dec.simps) simp

lemma dec_no_leading_zero: "hd (dec n) = CHR ''0'' \<Longrightarrow> dec n = ''0''"
proof (induction n rule: dec.induct)
  case (1 n)
  show ?case
  proof (cases "n < 10")
    case True
    then show ?thesis using 1(2) by (simp add: dec.simps [of n])
  next
    case False
    then have "hd (dec (n div 10)) = CHR ''0''"
      using 1(2) by (simp add: dec.simps [of n])
    then have z: "dec (n div 10) = ''0''" using 1(1) False by simp
    have "n div 10 = undec (dec (n div 10))" by simp
    also have "\<dots> = 0" by (simp only: z) (simp add: undec_def digit_value_def)
    finally show ?thesis using False by simp
  qed
qed

section \<open>\<open>repr\<close>\<close>

definition hex_char :: "nat \<Rightarrow> char" where
  "hex_char n = (if n < 10 then char_of (48 + n) else char_of (87 + n))"

definition hex2 :: "nat \<Rightarrow> string" where
  "hex2 n = [hex_char (n div 16), hex_char (n mod 16)]"

definition printable :: "char \<Rightarrow> bool" where
  "printable c = (let n = (of_char c :: nat) in
     (32 \<le> n \<and> n \<le> 126) \<or> (161 \<le> n \<and> n \<noteq> 173))"

definition repr_char :: "char \<Rightarrow> char \<Rightarrow> string" where
  "repr_char q c =
     (let n = (of_char c :: nat) in
      if c = q \<or> n = 92 then [CHR 0x5C, c]
      else if n = 10 then [CHR 0x5C, CHR ''n'']
      else if n = 13 then [CHR 0x5C, CHR ''r'']
      else if n = 9 then [CHR 0x5C, CHR ''t'']
      else if printable c then [c]
      else [CHR 0x5C, CHR ''x''] @ hex2 n)"

definition py_repr :: "string \<Rightarrow> string" where
  "py_repr s =
     (let q = (if CHR 0x27 \<in> set s \<and> CHR 0x22 \<notin> set s then CHR 0x22 else CHR 0x27)
      in q # concat (map (repr_char q) s) @ [q])"

text \<open>\<open>sep.join(xs)\<close> and \<open>s.split(sep)\<close> for a one-character separator.\<close>

fun join :: "string \<Rightarrow> string list \<Rightarrow> string" where
  "join sep [] = []"
| "join sep [x] = x"
| "join sep (x # y # ys) = x @ sep @ join sep (y # ys)"

fun split_on :: "char \<Rightarrow> string \<Rightarrow> string list" where
  "split_on sep [] = [[]]"
| "split_on sep (c # cs) =
     (if c = sep then [] # split_on sep cs
      else case split_on sep cs of [] \<Rightarrow> [[c]] | x # xs \<Rightarrow> (c # x) # xs)"

definition repr_list :: "string list \<Rightarrow> string" where
  "repr_list xs = ''['' @ join '', '' (map py_repr xs) @ '']''"

definition repr_tuple :: "string list \<Rightarrow> string" where
  "repr_tuple xs = ''('' @ join '', '' (map py_repr xs) @ (if length xs = 1 then '','' else []) @ '')''"

section \<open>Character classes\<close>

definition is_lower_az :: "char \<Rightarrow> bool" where
  "is_lower_az c = (let n = (of_char c :: nat) in 97 \<le> n \<and> n \<le> 122)"

definition is_upper_az :: "char \<Rightarrow> bool" where
  "is_upper_az c = (let n = (of_char c :: nat) in 65 \<le> n \<and> n \<le> 90)"

text \<open>\<open>[a-z][a-z0-9_]{0,k}\<close>, matched in full.\<close>

definition is_name_char :: "char \<Rightarrow> bool" where
  "is_name_char c = (is_lower_az c \<or> is_digit c \<or> c = CHR ''_'')"

definition matches_name :: "nat \<Rightarrow> string \<Rightarrow> bool" where
  "matches_name k s = (case s of [] \<Rightarrow> False
     | c # cs \<Rightarrow> is_lower_az c \<and> length cs \<le> k \<and> list_all is_name_char cs)"

text \<open>\<open>\w\<close>: the characters of a word, for the boundary \<open>\b\<close>.\<close>

definition is_word_char :: "char \<Rightarrow> bool" where
  "is_word_char c = (let n = (of_char c :: nat) in
     is_lower_az c \<or> is_upper_az c \<or> is_digit c \<or> n = 95 \<or> n = 170 \<or> n = 178 \<or> n = 179
     \<or> n = 181 \<or> n = 185 \<or> n = 186 \<or> (188 \<le> n \<and> n \<le> 190)
     \<or> (192 \<le> n \<and> n \<noteq> 215 \<and> n \<noteq> 247))"


section \<open>Scrubbing and truncating\<close>

text \<open>
  \<open>re.sub\<close>: scan from the left, replace every match, go on after it. A matcher is given the character
  before the position and the text from it on, and returns the replacement and the length of the
  match, which is positive; the fuel is the length of the text.
\<close>

fun re_sub ::
  "(char option \<Rightarrow> string \<Rightarrow> (string \<times> nat) option) \<Rightarrow> nat \<Rightarrow> char option \<Rightarrow> string \<Rightarrow> string" where
  "re_sub m 0 prev s = s"
| "re_sub m (Suc n) prev [] = []"
| "re_sub m (Suc n) prev (c # cs) =
     (case m prev (c # cs) of
        None \<Rightarrow> c # re_sub m n (Some c) cs
      | Some (r, k) \<Rightarrow> r @ re_sub m n (Some ((c # cs) ! (k - 1))) (drop k (c # cs)))"

definition sub_all :: "(char option \<Rightarrow> string \<Rightarrow> (string \<times> nat) option) \<Rightarrow> string \<Rightarrow> string" where
  "sub_all m s = re_sub m (length s) None s"

definition is_quote_or_bracket :: "char \<Rightarrow> bool" where
  "is_quote_or_bracket c = (c \<in> set [CHR 0x27, CHR 0x22, CHR ''<'', CHR ''>'', CHR ''('', CHR '')''])"

definition url_char :: "char \<Rightarrow> bool" where
  "url_char c = (\<not> is_space c \<and> c \<noteq> CHR ''?'' \<and> c \<noteq> CHR ''#'' \<and> \<not> is_quote_or_bracket c)"

definition query_char :: "char \<Rightarrow> bool" where
  "query_char c = (\<not> is_space c \<and> \<not> is_quote_or_bracket c)"

definition url_prefix_length :: "string \<Rightarrow> nat" where
  "url_prefix_length s =
     (if starts_with s ''http://'' then 7 else if starts_with s ''https://'' then 8
      else if starts_with s ''/'' then 1 else 0)"

text \<open>A URL or an absolute path, then \<open>?\<close> and a non-empty query: the query goes.\<close>

definition url_query_match :: "char option \<Rightarrow> string \<Rightarrow> (string \<times> nat) option" where
  "url_query_match prev s =
     (let n = url_prefix_length s;
          base = takeWhile url_char (drop n s);
          rest = dropWhile url_char (drop n s)
      in if n = 0 \<or> base = [] then None
         else case rest of
             [] \<Rightarrow> None
           | c # r \<Rightarrow> if c = CHR ''?'' \<and> takeWhile query_char r \<noteq> []
                      then Some (take n s @ base,
                                 n + length base + 1 + length (takeWhile query_char r))
                      else None)"

text \<open>
  \<open>KEY = value\<close> for a credential-like key: the key's parts with an optional \<open>_\<close> or \<open>-\<close> between them,
  in any case, at a word boundary.
\<close>

definition credential_keys :: "(string \<times> string) list" where
  "credential_keys =
     [(''api'', ''key''), (''access'', ''token''), (''refresh'', ''token''), (''auth'', ''token''),
      (''client'', ''secret''), (''secret'', ''key''), (''private'', ''key''), (''password'', []),
      (''passwd'', []), (''token'', []), (''secret'', [])]"

definition drop_word :: "string \<Rightarrow> string \<Rightarrow> string option" where
  "drop_word w s = (if starts_with (str_lower s) w then Some (drop (length w) s) else None)"

definition drop_key :: "string \<times> string \<Rightarrow> string \<Rightarrow> string option" where
  "drop_key key s =
     (case drop_word (fst key) s of
        None \<Rightarrow> None
      | Some r \<Rightarrow>
          if snd key = [] then Some r
          else case r of
              [] \<Rightarrow> None
            | c # r' \<Rightarrow> drop_word (snd key) (if c = CHR ''_'' \<or> c = CHR ''-'' then r' else r))"

definition bare_char :: "char \<Rightarrow> bool" where
  "bare_char c = (\<not> is_space c \<and>
     c \<notin> set [CHR '','', CHR '';'', CHR 0x27, CHR 0x22, CHR ''('', CHR '')''])"

definition drop_value :: "string \<Rightarrow> string option" where
  "drop_value s =
     (case s of
        [] \<Rightarrow> None
      | c # r \<Rightarrow>
          if c = CHR 0x27 \<or> c = CHR 0x22
          then (case dropWhile (\<lambda>d. d \<noteq> c) r of [] \<Rightarrow> None | d # r' \<Rightarrow> Some r')
          else if bare_char c then Some (dropWhile bare_char s) else None)"

definition drop_separator :: "string \<Rightarrow> string" where
  "drop_separator s =
     (case s of [] \<Rightarrow> []
      | c # r \<Rightarrow> if c = CHR '','' \<or> c = CHR '';'' then dropWhile is_space r else s)"

definition drop_assignment :: "string \<Rightarrow> string option" where
  "drop_assignment s =
     (case dropWhile is_space s of
        [] \<Rightarrow> None
      | c # r \<Rightarrow> if c = CHR ''='' then map_option drop_separator (drop_value (dropWhile is_space r))
                 else None)"

fun first_some :: "('a \<Rightarrow> 'b option) \<Rightarrow> 'a list \<Rightarrow> 'b option" where
  "first_some f [] = None"
| "first_some f (x # xs) = (case f x of None \<Rightarrow> first_some f xs | Some y \<Rightarrow> Some y)"

definition credential_match :: "char option \<Rightarrow> string \<Rightarrow> (string \<times> nat) option" where
  "credential_match prev s =
     (if (case prev of None \<Rightarrow> False | Some c \<Rightarrow> is_word_char c) then None
      else case first_some (\<lambda>key. Option.bind (drop_key key s) drop_assignment) credential_keys of
             None \<Rightarrow> None
           | Some rest \<Rightarrow> Some ([], length s - length rest))"

fun collapse_spaces :: "string \<Rightarrow> string" where
  "collapse_spaces [] = []"
| "collapse_spaces [c] = [c]"
| "collapse_spaces (c # d # s) =
     (if c = CHR '' '' \<and> d = CHR '' '' then collapse_spaces (d # s)
      else c # collapse_spaces (d # s))"

definition scrub_proposal_error_string :: "string \<Rightarrow> string" where
  "scrub_proposal_error_string text =
     str_strip (collapse_spaces (sub_all credential_match (sub_all url_query_match text)))"

definition truncated_suffix :: string where
  "truncated_suffix = ''... [truncated]''"

definition truncate_proposal_string :: "string \<Rightarrow> nat \<Rightarrow> string" where
  "truncate_proposal_string text max_length =
     (if length text \<le> max_length then text
      else take (max_length - length truncated_suffix) text @ truncated_suffix)"

lemma length_truncate:
  "length truncated_suffix \<le> n \<Longrightarrow> length (truncate_proposal_string s n) \<le> n"
  by (simp add: truncate_proposal_string_def)

definition max_proposal_error_detail_length :: nat where
  "max_proposal_error_detail_length = 500"

definition bound_proposal_error_message :: "string \<Rightarrow> string" where
  "bound_proposal_error_message message =
     truncate_proposal_string (scrub_proposal_error_string message) max_proposal_error_detail_length"

end
