(* ===== verification/ProposalCodec.thy ===== *)
theory ProposalCodec
  imports ProposalText
begin

text \<open>
  The codecs of the proposal pipeline: \<open>json.dumps\<close> and \<open>json.loads\<close> with Python's defaults, URL-safe
  \<open>base64\<close> with Python's lenient decoder, and on top of them the opaque cursor of the incremental
  proposal log (\<open>_encode_proposal_cursor\<close>, \<open>_decode_proposal_cursor\<close>), with the proof that decoding
  inverts encoding.
\<close>

section \<open>\<open>json.dumps\<close>\<close>

definition json_char :: "char \<Rightarrow> string" where
  "json_char c =
     (let n = (of_char c :: nat) in
      if n = 34 \<or> n = 92 then [CHR 0x5C, c]
      else if n = 10 then [CHR 0x5C, CHR ''n'']
      else if n = 13 then [CHR 0x5C, CHR ''r'']
      else if n = 9 then [CHR 0x5C, CHR ''t'']
      else if n = 12 then [CHR 0x5C, CHR ''f'']
      else if n = 8 then [CHR 0x5C, CHR ''b'']
      else if 32 \<le> n \<and> n \<le> 126 then [c]
      else [CHR 0x5C, CHR ''u'', CHR ''0'', CHR ''0''] @ hex2 n)"

definition json_quote :: "string \<Rightarrow> string" where
  "json_quote s = CHR 0x22 # concat (map json_char s) @ [CHR 0x22]"

definition json_pair :: "string \<times> string \<Rightarrow> string" where
  "json_pair kv = json_quote (fst kv) @ '': '' @ snd kv"

text \<open>\<open>float_text\<close> is \<open>float.__repr__\<close> and \<open>id_text\<close> is \<open>str(uuid)\<close>.\<close>

primrec json_dumps ::
  "((int \<times> int) option \<Rightarrow> string) \<Rightarrow> (nat \<Rightarrow> string) \<Rightarrow> json \<Rightarrow> string" where
  "json_dumps float_text id_text JNull = ''null''"
| "json_dumps float_text id_text (JBool b) = (if b then ''true'' else ''false'')"
| "json_dumps float_text id_text (JInt n) = int_text n"
| "json_dumps float_text id_text (JFloat x) = float_text x"
| "json_dumps float_text id_text (JStr s) = json_quote s"
| "json_dumps float_text id_text (JId n) = json_quote (id_text n)"
| "json_dumps float_text id_text (JList xs) =
     ''['' @ join '', '' (map (json_dumps float_text id_text) xs) @ '']''"
| "json_dumps float_text id_text (JObj kvs) =
     CHR 0x7B # join '', '' (map json_pair (map (map_prod id (json_dumps float_text id_text)) kvs))
       @ [CHR 0x7D]"

section \<open>\<open>json.loads\<close>\<close>

definition json_space :: "char \<Rightarrow> bool" where
  "json_space c = (let n = (of_char c :: nat) in n = 32 \<or> n = 9 \<or> n = 10 \<or> n = 13)"

definition skip_ws :: "string \<Rightarrow> string" where
  "skip_ws s = dropWhile json_space s"

definition hex_value :: "char \<Rightarrow> nat option" where
  "hex_value c =
     (let n = (of_char c :: nat) in
      if 48 \<le> n \<and> n \<le> 57 then Some (n - 48)
      else if 97 \<le> n \<and> n \<le> 102 then Some (n - 87)
      else if 65 \<le> n \<and> n \<le> 70 then Some (n - 55) else None)"

definition hex4 :: "string \<Rightarrow> nat option" where
  "hex4 s = (case s of
      [a, b, c, d] \<Rightarrow>
        (case (hex_value a, hex_value b, hex_value c, hex_value d) of
           (Some w, Some x, Some y, Some z) \<Rightarrow> Some (((w * 16 + x) * 16 + y) * 16 + z)
         | _ \<Rightarrow> None)
    | _ \<Rightarrow> None)"

definition simple_escape :: "char \<Rightarrow> char option" where
  "simple_escape c =
     (let n = (of_char c :: nat) in
      if n = 34 \<or> n = 92 \<or> n = 47 then Some c
      else if n = 110 then Some (CHR 0x0A)
      else if n = 114 then Some (CHR 0x0D)
      else if n = 116 then Some (CHR 0x09)
      else if n = 102 then Some (CHR 0x0C)
      else if n = 98 then Some (CHR 0x08) else None)"

text \<open>The characters of a string literal after its opening quote, and what follows the closing one.\<close>

fun json_chars :: "nat \<Rightarrow> string \<Rightarrow> (string \<times> string) option" where
  "json_chars 0 s = None"
| "json_chars (Suc n) [] = None"
| "json_chars (Suc n) (c # cs) =
     (let k = (of_char c :: nat);
          more = (\<lambda>x r. map_option (\<lambda>(t, r'). (x # t, r')) (json_chars n r))
      in if k = 34 then Some ([], cs)
         else if k = 92 then
           (case cs of
              [] \<Rightarrow> None
            | e # r \<Rightarrow>
                if e = CHR ''u''
                then (case hex4 (take 4 r) of
                        None \<Rightarrow> None
                      | Some m \<Rightarrow> if m < 256 then more (char_of m) (drop 4 r) else None)
                else (case simple_escape e of None \<Rightarrow> None | Some x \<Rightarrow> more x r))
         else if k < 32 then None
         else more c cs)"

definition json_string :: "string \<Rightarrow> (string \<times> string) option" where
  "json_string s = json_chars (Suc (length s)) s"

text \<open>\<open>-?(0|[1-9][0-9]*)(\.[0-9]+)?([eE][-+]?[0-9]+)?\<close>\<close>

definition exponent_part :: "string \<Rightarrow> (int \<times> string) option" where
  "exponent_part s =
     (case s of
        [] \<Rightarrow> None
      | c # r \<Rightarrow>
          if c = CHR ''e'' \<or> c = CHR ''E''
          then let neg = starts_with r ''-'';
                   r' = (if neg \<or> starts_with r ''+'' then drop 1 r else r);
                   ds = takeWhile is_digit r'
               in if ds = [] then None
                  else Some (if neg then - int (undec ds) else int (undec ds), dropWhile is_digit r')
          else None)"

definition integer_digits :: "string \<Rightarrow> string" where
  "integer_digits s = (if starts_with s ''0'' then ''0'' else takeWhile is_digit s)"

definition json_number :: "string \<Rightarrow> (json \<times> string) option" where
  "json_number s =
     (let neg = starts_with s ''-'';
          s1 = (if neg then drop 1 s else s);
          ds = integer_digits s1;
          s2 = drop (length ds) s1;
          frac = (if starts_with s2 ''.'' then takeWhile is_digit (drop 1 s2) else []);
          s3 = (if frac = [] then s2 else drop (Suc (length frac)) s2);
          sign = (\<lambda>n. if neg then - int n else int n)
      in if ds = [] then None
         else case exponent_part s3 of
                None \<Rightarrow> if frac = [] then Some (JInt (sign (undec ds)), s3)
                        else Some (JFloat (Some (sign (undec (ds @ frac)), - int (length frac))), s3)
              | Some (e, s4) \<Rightarrow>
                  Some (JFloat (Some (sign (undec (ds @ frac)), e - int (length frac))), s4))"

definition json_word :: "string \<Rightarrow> (json \<times> string) option" where
  "json_word s =
     (if starts_with s ''null'' then Some (JNull, drop 4 s)
      else if starts_with s ''true'' then Some (JBool True, drop 4 s)
      else if starts_with s ''false'' then Some (JBool False, drop 5 s)
      else if starts_with s ''NaN'' then Some (JFloat None, drop 3 s)
      else if starts_with s ''Infinity'' then Some (JFloat None, drop 8 s)
      else if starts_with s ''-Infinity'' then Some (JFloat None, drop 9 s)
      else json_number s)"

text \<open>
  One value, the items of a list after \<open>[\<close>, the members of an object after \<open>{\<close>. Every call consumes
  a character, so a fuel of the length of the text plus one never runs out.
\<close>

fun json_value :: "nat \<Rightarrow> string \<Rightarrow> (json \<times> string) option"
and json_items :: "nat \<Rightarrow> string \<Rightarrow> (json list \<times> string) option"
and json_members :: "nat \<Rightarrow> string \<Rightarrow> ((string \<times> json) list \<times> string) option" where
  "json_value 0 s = None"
| "json_value (Suc n) s =
     (if starts_with s [CHR 0x22] then map_option (map_prod JStr id) (json_string (drop 1 s))
      else if starts_with s ''['' then
        let r = skip_ws (drop 1 s) in
        if starts_with r '']'' then Some (JList [], drop 1 r)
        else map_option (map_prod JList id) (json_items n r)
      else if starts_with s [CHR 0x7B] then
        let r = skip_ws (drop 1 s) in
        if starts_with r [CHR 0x7D] then Some (JObj [], drop 1 r)
        else map_option (map_prod JObj id) (json_members n r)
      else json_word s)"
| "json_items 0 s = None"
| "json_items (Suc n) s =
     (case json_value n s of
        None \<Rightarrow> None
      | Some (x, r) \<Rightarrow>
          let r' = skip_ws r in
          if starts_with r' '']'' then Some ([x], drop 1 r')
          else if starts_with r' '','' then
            map_option (map_prod (\<lambda>xs. x # xs) id) (json_items n (skip_ws (drop 1 r')))
          else None)"
| "json_members 0 s = None"
| "json_members (Suc n) s =
     (if starts_with s [CHR 0x22] then
        (case json_string (drop 1 s) of
           None \<Rightarrow> None
         | Some (k, r) \<Rightarrow>
             let r1 = skip_ws r in
             if starts_with r1 '':'' then
               (case json_value n (skip_ws (drop 1 r1)) of
                  None \<Rightarrow> None
                | Some (x, r2) \<Rightarrow>
                    let r3 = skip_ws r2 in
                    if starts_with r3 [CHR 0x7D] then Some ([(k, x)], drop 1 r3)
                    else if starts_with r3 '','' then
                      map_option (map_prod (\<lambda>kvs. (k, x) # kvs) id)
                        (json_members n (skip_ws (drop 1 r3)))
                    else None)
             else None)
      else None)"

text \<open>The pairs of an object are kept in order, duplicates included; \<open>None\<close>: \<open>JSONDecodeError\<close>.\<close>

definition json_loads :: "string \<Rightarrow> json option" where
  "json_loads s =
     (let t = skip_ws s in
      case json_value (Suc (length t)) t of
        None \<Rightarrow> None
      | Some (j, r) \<Rightarrow> if skip_ws r = [] then Some j else None)"

text \<open>\<open>d.get(k)\<close> on the dictionary of such pairs: the last one wins.\<close>

definition pairs_get :: "(string \<times> json) list \<Rightarrow> string \<Rightarrow> json option" where
  "pairs_get kvs k = map_of (rev kvs) k"


section \<open>Reading back what was printed\<close>

lemma starts_with_simps [simp]:
  "starts_with s []"
  "\<not> starts_with [] (d # p)"
  "starts_with (c # s) (d # p) = (c = d \<and> starts_with s p)"
  by (auto simp: starts_with_def)

lemma hex_value_hex_char: "n < 16 \<Longrightarrow> hex_value (hex_char n) = Some n"
  by (auto simp: hex_value_def hex_char_def of_char_of Let_def)

lemma hex4_hex2: "n < 256 \<Longrightarrow> hex4 (CHR ''0'' # CHR ''0'' # hex2 n) = Some n"
proof -
  assume n: "n < 256"
  then have "n div 16 < 16" by auto
  moreover have "hex_value (CHR ''0'') = Some 0" by (simp add: hex_value_def)
  ultimately show ?thesis by (simp add: hex4_def hex2_def hex_value_hex_char)
qed

lemma char_codes:
  "((of_char c :: nat) = 34) = (c = CHR 0x22)" "((of_char c :: nat) = 92) = (c = CHR 0x5C)"
  "((of_char c :: nat) = 10) = (c = CHR 0x0A)" "((of_char c :: nat) = 13) = (c = CHR 0x0D)"
  "((of_char c :: nat) = 9) = (c = CHR 0x09)" "((of_char c :: nat) = 12) = (c = CHR 0x0C)"
  "((of_char c :: nat) = 8) = (c = CHR 0x08)"
  using of_char_eq_iff [of c "CHR 0x22", where ?'a = nat] of_char_eq_iff [of c "CHR 0x5C", where ?'a = nat]
    of_char_eq_iff [of c "CHR 0x0A", where ?'a = nat] of_char_eq_iff [of c "CHR 0x0D", where ?'a = nat]
    of_char_eq_iff [of c "CHR 0x09", where ?'a = nat] of_char_eq_iff [of c "CHR 0x0C", where ?'a = nat]
    of_char_eq_iff [of c "CHR 0x08", where ?'a = nat]
  by simp_all

lemma json_chars_char:
  assumes "0 < n"
  shows "json_chars n (json_char c @ s) = map_option (\<lambda>(t, r). (c # t, r)) (json_chars (n - 1) s)"
proof -
  obtain m where n: "n = Suc m" using assms by (cases n) auto
  have lt: "(of_char c :: nat) < 256" by simp
  have hex: "hex4 [CHR ''0'', CHR ''0'', hex_char (of_char c div 16), hex_char (of_char c mod 16)]
    = Some (of_char c)"
    using hex4_hex2 [OF lt] by (simp add: hex2_def)
  have d4: "drop 4 (w # x # y # z # s) = s" for w x y z by (simp add: numeral_eq_Suc)
  show ?thesis unfolding n json_char_def Let_def
    by (auto simp: hex d4 simple_escape_def hex2_def Let_def char_codes)
qed

lemma json_chars_text:
  "length s < n \<Longrightarrow> json_chars n (concat (map json_char s) @ CHR 0x22 # rest) = Some (s, rest)"
proof (induction s arbitrary: n)
  case Nil
  then obtain m where "n = Suc m" by (cases n) auto
  then show ?case by simp
next
  case (Cons c s)
  then have "json_chars (n - 1) (concat (map json_char s) @ CHR 0x22 # rest) = Some (s, rest)"
    by simp
  with Cons.prems show ?case by (simp add: json_chars_char)
qed

lemma json_char_nonempty: "1 \<le> length (json_char c)"
  by (simp add: json_char_def Let_def)

lemma length_json_chars: "length s \<le> length (concat (map json_char s))"
proof (induction s)
  case (Cons c s)
  then show ?case using json_char_nonempty [of c] by simp
qed simp

lemma json_string_quote:
  "json_string (concat (map json_char s) @ CHR 0x22 # rest) = Some (s, rest)"
  unfolding json_string_def using length_json_chars [of s] by (intro json_chars_text) simp

text \<open>What may follow a value in printed text.\<close>

definition value_end :: "string \<Rightarrow> bool" where
  "value_end rest = (case rest of [] \<Rightarrow> True
     | c # r \<Rightarrow> c = CHR '','' \<or> c = CHR '']'' \<or> c = CHR 0x7D)"

lemma value_end_Nil [simp]: "value_end []"
  by (simp add: value_end_def)

lemma value_end_Cons [simp]:
  "value_end (c # r) = (c = CHR '','' \<or> c = CHR '']'' \<or> c = CHR 0x7D)"
  by (simp add: value_end_def)

lemma take_digits:
  "list_all is_digit ds \<Longrightarrow> value_end rest \<Longrightarrow> takeWhile is_digit (ds @ rest) = ds"
  by (induction ds) (auto simp: value_end_def is_digit_def split: list.splits)

lemma undec_zero: "undec ''0'' = 0"
  by (simp add: undec_def digit_value_def)

lemma json_number_dec:
  assumes "value_end rest" and "\<not> starts_with (dec n @ rest) ''-''"
  shows "json_number (dec n @ rest) = Some (JInt (int n), rest)"
    and "json_number (CHR ''-'' # dec n @ rest) = Some (JInt (- int n), rest)"
proof -
  have all: "takeWhile is_digit (dec n @ rest) = dec n"
    using dec_digits assms(1) by (rule take_digits)
  have ds: "integer_digits (dec n @ rest) = dec n"
  proof (cases "starts_with (dec n @ rest) ''0''")
    case True
    then have "hd (dec n) = CHR ''0''" by (cases "dec n") auto
    then show ?thesis using True dec_no_leading_zero by (simp add: integer_digits_def)
  next
    case False
    then show ?thesis using all by (simp add: integer_digits_def)
  qed
  have tail: "\<not> starts_with rest ''.''" "exponent_part rest = None"
    using assms(1) by (auto simp: value_end_def exponent_part_def split: list.splits)
  show "json_number (dec n @ rest) = Some (JInt (int n), rest)"
    using assms(2) by (simp add: json_number_def Let_def ds tail)
  show "json_number (CHR ''-'' # dec n @ rest) = Some (JInt (- int n), rest)"
    by (simp add: json_number_def Let_def ds tail)
qed

text \<open>JSON without the leaves whose text is left to a parameter.\<close>

primrec plain_json :: "json \<Rightarrow> bool" where
  "plain_json JNull = True"
| "plain_json (JBool b) = True"
| "plain_json (JInt n) = True"
| "plain_json (JFloat x) = False"
| "plain_json (JStr s) = True"
| "plain_json (JId n) = False"
| "plain_json (JList xs) = list_all plain_json xs"
| "plain_json (JObj kvs) = list_all (\<lambda>kv. snd kv) (map (map_prod id plain_json) kvs)"

abbreviation dumps :: "json \<Rightarrow> string" where
  "dumps \<equiv> json_dumps (\<lambda>_. []) (\<lambda>_. [])"

definition starts_value :: "string \<Rightarrow> bool" where
  "starts_value s = (case s of [] \<Rightarrow> False
     | c # r \<Rightarrow> \<not> json_space c \<and> c \<noteq> CHR '']'' \<and> c \<noteq> CHR 0x7D)"

lemma dec_split: obtains c r where "dec n = c # r" "is_digit c"
  using dec_digits [of n] dec_nonempty [of n] by (cases "dec n") auto

lemma int_text_starts: "starts_value (int_text n)"
proof (cases "n < 0")
  case True
  then show ?thesis by (simp add: int_text_def starts_value_def json_space_def)
next
  case False
  obtain c r where "dec (nat n) = c # r" "is_digit c" by (rule dec_split)
  with False show ?thesis
    by (auto simp: int_text_def starts_value_def json_space_def is_digit_def Let_def)
qed

lemma dumps_starts: "plain_json j \<Longrightarrow> starts_value (dumps j)"
  by (cases j) (auto simp: int_text_starts, auto simp: starts_value_def json_space_def json_quote_def)

lemma starts_append: "starts_value s \<Longrightarrow> skip_ws (s @ t) = s @ t \<and> \<not> starts_with (s @ t) '']'' \<and>
    \<not> starts_with (s @ t) [CHR 0x7D]"
  by (cases s) (auto simp: starts_value_def skip_ws_def)

lemma json_value_int:
  assumes "value_end rest"
  shows "json_value (Suc n) (int_text k @ rest) = Some (JInt k, rest)"
proof (cases "k < 0")
  case True
  obtain c r where c: "dec (nat (- k)) = c # r" "is_digit c" by (rule dec_split)
  have "\<not> starts_with (dec (nat (- k)) @ rest) ''-''" "\<not> starts_with (dec (nat (- k)) @ rest) ''Infinity''"
    using c by (auto simp: is_digit_def)
  then show ?thesis using True json_number_dec(2) [OF assms, of "nat (- k)"]
    by (simp add: int_text_def json_word_def)
next
  case False
  obtain c r where c: "dec (nat k) = c # r" "is_digit c" by (rule dec_split)
  have "\<not> starts_with (dec (nat k) @ rest) (d # p)" if "\<not> is_digit d" for d p
    using c that by auto
  moreover have "\<not> is_digit d"
    if "d \<in> set [CHR ''-'', CHR 0x22, CHR ''['', CHR 0x7B, CHR ''n'', CHR ''t'', CHR ''f'', CHR ''N'',
      CHR ''I'']" for d
    using that by (auto simp: is_digit_def)
  ultimately show ?thesis using False json_number_dec(1) [OF assms, of "nat k"]
    by (simp add: int_text_def json_word_def)
qed

lemma json_items_join:
  assumes "\<And>x n rest. x \<in> set xs \<Longrightarrow> length (dumps x) < n \<Longrightarrow> value_end rest \<Longrightarrow>
      json_value n (dumps x @ rest) = Some (x, rest)"
    and "list_all plain_json xs" and "xs \<noteq> []"
    and "Suc (length (join '', '' (map dumps xs))) < n"
  shows "json_items n (join '', '' (map dumps xs) @ CHR '']'' # rest) = Some (xs, rest)"
  using assms
proof (induction xs arbitrary: n)
  case (Cons x xs)
  obtain m where n: "n = Suc m" using Cons.prems(4) by (cases n) auto
  show ?case
  proof (cases xs)
    case Nil
    then show ?thesis using Cons.prems n
      by (simp add: Cons.prems(1) skip_ws_def json_space_def)
  next
    case (Cons y ys)
    let ?tl = "join '', '' (map dumps xs) @ CHR '']'' # rest"
    have st: "starts_value (dumps y)" using Cons Cons.prems(2) dumps_starts by simp
    have tl: "?tl = dumps y @ drop (length (dumps y)) ?tl" using Cons by (cases ys) simp_all
    have skip: "skip_ws ?tl = ?tl" using starts_append [OF st] tl by metis
    have "json_value m (dumps x @ CHR '','' # CHR '' '' # ?tl) = Some (x, CHR '','' # CHR '' '' # ?tl)"
      using Cons.prems(1, 4) n Cons by simp
    moreover have "json_items m ?tl = Some (xs, rest)"
      using Cons.IH [of m] Cons.prems n Cons by simp
    ultimately show ?thesis using n Cons skip
      by (simp add: skip_ws_def json_space_def)
  qed
qed simp

lemma json_members_join:
  assumes "\<And>k x n rest. (k, x) \<in> set kvs \<Longrightarrow> length (dumps x) < n \<Longrightarrow> value_end rest \<Longrightarrow>
      json_value n (dumps x @ rest) = Some (x, rest)"
    and "\<forall>kv \<in> set kvs. plain_json (snd kv)" and "kvs \<noteq> []"
    and "Suc (length (join '', '' (map json_pair (map (map_prod id dumps) kvs)))) < n"
  shows "json_members n (join '', '' (map json_pair (map (map_prod id dumps) kvs)) @ CHR 0x7D # rest)
    = Some (kvs, rest)"
  using assms
proof (induction kvs arbitrary: n)
  case (Cons kx kvs)
  obtain k x where kx: "kx = (k, x)" by (cases kx)
  obtain m where n: "n = Suc m" using Cons.prems(4) by (cases n) auto
  have stx: "starts_value (dumps x)" using Cons.prems(2) kx dumps_starts by simp
  have "length (dumps x) < m"
    using Cons.prems(4) n kx by (cases kvs) (simp_all add: json_pair_def json_quote_def)
  then have val: "json_value m (dumps x @ r) = Some (x, r)" if "value_end r" for r
    using Cons.prems(1) [of k x m r] kx that by simp
  have one: "json_members n (json_pair (k, dumps x) @ r) =
      (let r3 = skip_ws r in
       if starts_with r3 [CHR 0x7D] then Some ([(k, x)], drop 1 r3)
       else if starts_with r3 '','' then
         map_option (map_prod (\<lambda>kvs. (k, x) # kvs) id) (json_members m (skip_ws (drop 1 r3)))
       else None)" if "value_end r" for r
    using starts_append [OF stx, of r] val [OF that] n
    by (simp add: json_pair_def json_quote_def json_string_quote skip_ws_def json_space_def)
  show ?case
  proof (cases kvs)
    case Nil
    then show ?thesis using one [of "CHR 0x7D # rest"] kx by (simp add: skip_ws_def json_space_def)
  next
    case (Cons ky kys)
    let ?tl = "join '', '' (map json_pair (map (map_prod id dumps) kvs)) @ CHR 0x7D # rest"
    have "\<exists>u. ?tl = CHR 0x22 # u" using Cons
      by (cases kys) (simp_all add: json_pair_def json_quote_def)
    then have skip: "skip_ws ?tl = ?tl" by (auto simp: skip_ws_def json_space_def)
    have "json_members m ?tl = Some (kvs, rest)"
    proof (rule Cons.IH)
      show "json_value n' (dumps x' @ rest') = Some (x', rest')"
        if "(k', x') \<in> set kvs" "length (dumps x') < n'" "value_end rest'" for k' x' n' rest'
        by (rule Cons.prems(1)) (use that in auto)
    qed (use Cons.prems n Cons in simp_all)
    then show ?thesis using one [of "CHR '','' # CHR '' '' # ?tl"] Cons kx skip
      by (simp add: skip_ws_def json_space_def id_def)
  qed
qed simp

lemma json_value_dumps:
  "plain_json j \<Longrightarrow> length (dumps j) < n \<Longrightarrow> value_end rest \<Longrightarrow>
   json_value n (dumps j @ rest) = Some (j, rest)"
proof (induction j arbitrary: n rest)
  case (JStr s)
  then obtain m where "n = Suc m" by (cases n) auto
  then show ?case using json_string_quote [of s rest] by (simp add: json_quote_def)
next
  case (JInt k)
  then obtain m where "n = Suc m" by (cases n) auto
  then show ?case using json_value_int JInt by simp
next
  case (JList xs)
  then obtain m where n: "n = Suc m" by (cases n) auto
  show ?case
  proof (cases xs)
    case Nil
    then show ?thesis using n by (simp add: skip_ws_def json_space_def)
  next
    case (Cons x ys)
    let ?body = "join '', '' (map dumps xs) @ CHR '']'' # rest"
    have "starts_value (dumps x)" using JList.prems(1) Cons dumps_starts by simp
    moreover have "?body = dumps x @ drop (length (dumps x)) ?body" using Cons by (cases ys) simp_all
    ultimately have "skip_ws ?body = ?body \<and> \<not> starts_with ?body '']''" using starts_append by metis
    moreover have "json_items m ?body = Some (xs, rest)"
      using JList n Cons by (intro json_items_join) (auto simp: list_all_iff)
    ultimately show ?thesis using n by simp
  qed
next
  case (JObj kvs)
  then obtain m where n: "n = Suc m" by (cases n) auto
  show ?case
  proof (cases kvs)
    case Nil
    then show ?thesis using n by (simp add: skip_ws_def json_space_def)
  next
    case (Cons kx kys)
    let ?body = "join '', '' (map json_pair (map (map_prod id dumps) kvs)) @ CHR 0x7D # rest"
    have "\<exists>u. ?body = CHR 0x22 # u" using Cons
      by (cases kys) (simp_all add: json_pair_def json_quote_def)
    then have "skip_ws ?body = ?body \<and> \<not> starts_with ?body [CHR 0x7D]"
      by (auto simp: skip_ws_def json_space_def)
    moreover have "json_members m ?body = Some (kvs, rest)"
    proof (rule json_members_join)
      fix k x n' rest'
      assume kv: "(k, x) \<in> set kvs" and len: "length (dumps x) < n'" and ve: "value_end rest'"
      have "plain_json x" using JObj.prems(1) kv by (auto simp: list_all_iff)
      then show "json_value n' (dumps x @ rest') = Some (x, rest')"
        using JObj.IH [OF kv, of x n' rest'] len ve by simp
    qed (use JObj.prems n Cons in \<open>auto simp: list_all_iff\<close>)
    ultimately show ?thesis using n by simp
  qed
next
  case JNull
  then obtain m where "n = Suc m" by (cases n) auto
  then show ?case by (simp add: json_word_def)
next
  case (JBool b)
  then obtain m where "n = Suc m" by (cases n) auto
  then show ?case by (simp add: json_word_def)
qed simp_all

lemma json_loads_dumps: "plain_json j \<Longrightarrow> json_loads (dumps j) = Some j"
proof -
  assume p: "plain_json j"
  have "skip_ws (dumps j) = dumps j" using starts_append [OF dumps_starts [OF p], of "[]"] by simp
  moreover have "json_value (Suc (length (dumps j))) (dumps j) = Some (j, [])"
    using json_value_dumps [OF p, of "Suc (length (dumps j))" "[]"] by simp
  ultimately show ?thesis by (simp add: json_loads_def Let_def skip_ws_def)
qed

section \<open>\<open>base64.urlsafe_b64encode\<close> and \<open>urlsafe_b64decode\<close>\<close>

definition b64_char :: "nat \<Rightarrow> char" where
  "b64_char n = (if n < 26 then char_of (65 + n) else if n < 52 then char_of (71 + n)
     else if n < 62 then char_of (n - 4) else if n = 62 then CHR ''-'' else CHR ''_'')"

definition b64_value :: "char \<Rightarrow> nat option" where
  "b64_value c =
     (let n = (of_char c :: nat) in
      if 65 \<le> n \<and> n \<le> 90 then Some (n - 65)
      else if 97 \<le> n \<and> n \<le> 122 then Some (n - 71)
      else if 48 \<le> n \<and> n \<le> 57 then Some (n + 4)
      else if n = 43 \<or> n = 45 then Some 62
      else if n = 47 \<or> n = 95 then Some 63 else None)"

text \<open>Bytes are characters; the last group is padded with \<open>=\<close>.\<close>

fun b64_encode :: "string \<Rightarrow> string" where
  "b64_encode [] = []"
| "b64_encode [a] = (let x = (of_char a :: nat) in
     [b64_char (x div 4), b64_char (x mod 4 * 16), CHR ''='', CHR ''=''])"
| "b64_encode [a, b] = (let x = (of_char a :: nat); y = of_char b in
     [b64_char (x div 4), b64_char (x mod 4 * 16 + y div 16), b64_char (y mod 16 * 4), CHR ''=''])"
| "b64_encode (a # b # c # s) = (let x = (of_char a :: nat); y = of_char b; z = of_char c in
     b64_char (x div 4) # b64_char (x mod 4 * 16 + y div 16) # b64_char (y mod 16 * 4 + z div 64)
       # b64_char (z mod 64) # b64_encode s)"

text \<open>
  The lenient decoder of \<open>binascii\<close>: \<open>quad\<close> is the position in the group of four, \<open>left\<close> the bits not
  yet written, \<open>pads\<close> the padding seen. Characters outside the alphabet are skipped, a complete
  padding ends the data, an incomplete group is an error.
\<close>

fun b64_decode_from :: "nat \<Rightarrow> nat \<Rightarrow> nat \<Rightarrow> string \<Rightarrow> string option" where
  "b64_decode_from quad left pads [] = (if quad = 0 then Some [] else None)"
| "b64_decode_from quad left pads (c # cs) =
     (if c = CHR ''='' then
        (if 2 \<le> quad \<and> 4 \<le> quad + pads + 1 then Some []
         else b64_decode_from quad left (if 2 \<le> quad then pads + 1 else pads) cs)
      else case b64_value c of
        None \<Rightarrow> b64_decode_from quad left pads cs
      | Some v \<Rightarrow>
          if quad = 0 then b64_decode_from 1 v 0 cs
          else if quad = 1 then
            map_option (\<lambda>t. char_of (left * 4 + v div 16) # t) (b64_decode_from 2 (v mod 16) 0 cs)
          else if quad = 2 then
            map_option (\<lambda>t. char_of (left * 16 + v div 4) # t) (b64_decode_from 3 (v mod 4) 0 cs)
          else map_option (\<lambda>t. char_of (left * 64 + v) # t) (b64_decode_from 0 0 0 cs))"

definition b64_decode :: "string \<Rightarrow> string option" where
  "b64_decode s = b64_decode_from 0 0 0 s"

lemma b64_value_char: "n < 64 \<Longrightarrow> b64_value (b64_char n) = Some n"
  by (auto simp: b64_value_def b64_char_def of_char_of Let_def)

lemma b64_char_not_pad: "n < 64 \<Longrightarrow> b64_char n \<noteq> CHR ''=''"
  using b64_value_char [of n] by (auto simp: b64_value_def)

lemma byte_parts:
  fixes x y :: nat
  assumes "x < 256" "y < 256"
  shows "x div 4 < 64" "x mod 4 * 16 < 64" "x mod 4 * 16 + y div 16 < 64" "x mod 16 * 4 < 64"
    "x mod 16 * 4 + y div 64 < 64" "x mod 64 < 64"
  using assms by auto

lemma byte_join:
  fixes y :: nat
  assumes "y < 256"
  shows "y div 16 div 16 = 0" "y div 16 mod 16 = y div 16" "y div 64 div 4 = 0" "y div 64 mod 4 = y div 64"
  using assms by auto

lemma b64_decode_encode: "b64_decode (b64_encode s) = Some s"
  unfolding b64_decode_def
proof (induction s rule: b64_encode.induct)
  case (2 a)
  have a: "(of_char a :: nat) < 256" by simp
  show ?case using byte_parts [OF a a] by (simp add: Let_def b64_char_not_pad b64_value_char)
next
  case (3 a b)
  have a: "(of_char a :: nat) < 256" and b: "(of_char b :: nat) < 256" by simp_all
  show ?case using byte_parts [OF a b] byte_parts [OF b a]
    by (simp add: Let_def b64_char_not_pad b64_value_char byte_join [OF b])
next
  case (4 a b c s)
  have a: "(of_char a :: nat) < 256" and b: "(of_char b :: nat) < 256" and c: "(of_char c :: nat) < 256"
    by simp_all
  show ?case using byte_parts [OF a b] byte_parts [OF b c] byte_parts [OF c a] 4
    by (simp add: Let_def b64_char_not_pad b64_value_char byte_join [OF b] byte_join [OF c])
qed simp

section \<open>The cursor of the proposal log\<close>

text \<open>\<open>decode("utf-8")\<close> of bytes, and \<open>encode("ascii")\<close>, which must not fail.\<close>

fun utf8_decode :: "string \<Rightarrow> string option" where
  "utf8_decode [] = Some []"
| "utf8_decode (c # cs) =
     (let n = (of_char c :: nat) in
      if n < 128 then map_option (\<lambda>t. c # t) (utf8_decode cs)
      else if n = 194 \<or> n = 195 then
        (case cs of
           [] \<Rightarrow> None
         | d # ds \<Rightarrow>
             let m = (of_char d :: nat) in
             if 128 \<le> m \<and> m < 192
             then map_option (\<lambda>t. char_of (m + (n - 194) * 64) # t) (utf8_decode ds) else None)
      else None)"

definition is_ascii :: "string \<Rightarrow> bool" where
  "is_ascii s = list_all (\<lambda>c. (of_char c :: nat) < 128) s"

definition rstrip_char :: "char \<Rightarrow> string \<Rightarrow> string" where
  "rstrip_char c s = rev (dropWhile (\<lambda>d. d = c) (rev s))"

definition encode_proposal_cursor :: "string \<Rightarrow> nat \<Rightarrow> string" where
  "encode_proposal_cursor kind seq =
     rstrip_char (CHR ''='') (b64_encode (dumps
       (JObj [(''v'', JInt 2), (''k'', JStr kind), (''s'', JInt (int seq))])))"

text \<open>Python's \<open>x == 2\<close>: a \<open>float\<close> of the same value is equal too.\<close>

definition equals_two :: "json option \<Rightarrow> bool" where
  "equals_two j = (case j of
      Some (JInt n) \<Rightarrow> n = 2
    | Some (JFloat (Some (m, e))) \<Rightarrow>
        (if 0 \<le> e then m * 10 ^ nat e = 2 else m = 2 * 10 ^ nat (- e))
    | _ \<Rightarrow> False)"

definition max_bigint :: int where
  "max_bigint = 2 ^ 63 - 1"

text \<open>\<open>None\<close>: \<open>ValueError("invalid cursor")\<close>. The position returned is a \<open>BIGINT\<close>.\<close>

definition decode_proposal_cursor :: "string \<Rightarrow> string \<Rightarrow> nat option" where
  "decode_proposal_cursor cursor expected_kind =
     (if str_strip cursor = [] \<or> \<not> is_ascii cursor then None
      else
        let padded = cursor @ replicate (nat ((- int (length cursor)) mod 4)) (CHR ''='')
        in case Option.bind (Option.bind (b64_decode padded) utf8_decode) json_loads of
             Some (JObj kvs) \<Rightarrow>
               if \<not> equals_two (pairs_get kvs ''v'') then None
               else if pairs_get kvs ''k'' \<noteq> Some (JStr expected_kind) then None
               else (case pairs_get kvs ''s'' of
                       Some (JInt s) \<Rightarrow> if s < 0 \<or> s > max_bigint then None else Some (nat s)
                     | _ \<Rightarrow> None)
           | _ \<Rightarrow> None)"

lemma byte_high: "n < 256 \<Longrightarrow> n div 16 < (16::nat)"
  by auto

lemma hex_char_ascii: "n < 16 \<Longrightarrow> (of_char (hex_char n) :: nat) < 128"
  by (auto simp: hex_char_def of_char_of)

lemma json_char_ascii: "is_ascii (json_char c)"
proof -
  have "(of_char c :: nat) < 256" by simp
  then have "(of_char c :: nat) div 16 < 16" by (rule byte_high)
  then show ?thesis
    by (auto simp: json_char_def is_ascii_def hex2_def hex_char_ascii Let_def)
qed

lemma is_ascii_append [simp]: "is_ascii (s @ t) = (is_ascii s \<and> is_ascii t)"
  by (simp add: is_ascii_def)

lemma is_ascii_Nil [simp]: "is_ascii []"
  by (simp add: is_ascii_def)

lemma is_ascii_Cons [simp]: "is_ascii (c # s) = ((of_char c :: nat) < 128 \<and> is_ascii s)"
  by (simp add: is_ascii_def)

lemma json_quote_ascii: "is_ascii (json_quote s)"
  by (induction s) (simp_all add: json_quote_def json_char_ascii)

lemma dec_ascii: "is_ascii (dec n)"
  using dec_digits [of n] by (auto simp: is_ascii_def list_all_iff is_digit_def Let_def)

lemma utf8_decode_ascii: "is_ascii s \<Longrightarrow> utf8_decode s = Some s"
  by (induction s) simp_all

definition b64_alphabet :: "char \<Rightarrow> bool" where
  "b64_alphabet c = (c = CHR ''='' \<or> b64_value c \<noteq> None)"

lemma b64_alphabet_char: "n < 64 \<Longrightarrow> b64_alphabet (b64_char n)"
  by (simp add: b64_alphabet_def b64_value_char)

lemma b64_alphabet_pad [simp]: "b64_alphabet (CHR ''='')"
  by (simp add: b64_alphabet_def)

lemma b64_encode_alphabet: "list_all b64_alphabet (b64_encode s)"
proof (induction s rule: b64_encode.induct)
  case (2 a)
  have a: "(of_char a :: nat) < 256" by simp
  show ?case using byte_parts [OF a a] by (simp add: Let_def b64_alphabet_char)
next
  case (3 a b)
  have a: "(of_char a :: nat) < 256" and b: "(of_char b :: nat) < 256" by simp_all
  show ?case using byte_parts [OF a b] byte_parts [OF b a] by (simp add: Let_def b64_alphabet_char)
next
  case (4 a b c s)
  have a: "(of_char a :: nat) < 256" and b: "(of_char b :: nat) < 256" and c: "(of_char c :: nat) < 256"
    by simp_all
  show ?case using byte_parts [OF a b] byte_parts [OF b c] byte_parts [OF c a] 4
    by (simp add: Let_def b64_alphabet_char)
qed simp

lemma b64_alphabet_ascii: "b64_alphabet c \<Longrightarrow> (of_char c :: nat) < 128 \<and> \<not> is_space c"
  by (auto simp: b64_alphabet_def b64_value_def is_space_def Let_def split: if_splits)

lemma str_strip_no_space: "s \<noteq> [] \<Longrightarrow> list_all (\<lambda>c. \<not> is_space c) s \<Longrightarrow> str_strip s \<noteq> []"
proof -
  assume s: "s \<noteq> []" "list_all (\<lambda>c. \<not> is_space c) s"
  have "dropWhile is_space s = s" using s by (cases s) auto
  moreover have "dropWhile is_space (rev s) = rev s"
    using s by (cases "rev s") (auto simp: list_all_iff simp flip: set_rev [of s])
  ultimately show ?thesis using s by (simp add: str_strip_def)
qed

text \<open>Padding stripped from an encoding is what the decoder puts back.\<close>

lemma b64_padding:
  "\<exists>body k. b64_encode s = body @ replicate k (CHR ''='') \<and> k < 3 \<and> (length body + k) mod 4 = 0 \<and>
     (body = [] \<longleftrightarrow> s = []) \<and> (body \<noteq> [] \<longrightarrow> last body \<noteq> CHR ''='')"
proof (induction s rule: b64_encode.induct)
  case 1
  show ?case by (intro exI [of _ "[]"] exI [of _ 0]) simp
next
  case (2 a)
  have a: "(of_char a :: nat) < 256" by simp
  show ?case using byte_parts [OF a a]
    by (intro exI [of _ "[b64_char (of_char a div 4), b64_char (of_char a mod 4 * 16)]"] exI [of _ 2])
      (simp add: Let_def b64_char_not_pad numeral_2_eq_2)
next
  case (3 a b)
  have a: "(of_char a :: nat) < 256" and b: "(of_char b :: nat) < 256" by simp_all
  show ?case using byte_parts [OF a b] byte_parts [OF b a]
    by (intro exI [of _ "[b64_char (of_char a div 4), b64_char (of_char a mod 4 * 16 + of_char b div 16),
        b64_char (of_char b mod 16 * 4)]"] exI [of _ 1])
      (simp add: Let_def b64_char_not_pad)
next
  case (4 a b c s)
  from 4 [OF HOL.refl HOL.refl HOL.refl] obtain body k where s: "b64_encode s = body @ replicate k (CHR ''='')" "k < 3"
    "(length body + k) mod 4 = 0" "body = [] \<longleftrightarrow> s = []" "body \<noteq> [] \<longrightarrow> last body \<noteq> CHR ''=''"
    by (elim exE conjE)
  have c: "(of_char c :: nat) < 256" by simp
  obtain q where q: "b64_encode (a # b # c # s) = q @ b64_encode s" "length q = 4"
    "last q = b64_char (of_char c mod 64)"
    by (rule that [of "[b64_char (of_char a div 4), b64_char (of_char a mod 4 * 16 + of_char b div 16),
        b64_char (of_char b mod 16 * 4 + of_char c div 64), b64_char (of_char c mod 64)]"])
      (simp_all add: Let_def)
  have "last q \<noteq> CHR ''=''" using byte_parts [OF c c] q(3) by (simp add: b64_char_not_pad)
  moreover have "q \<noteq> []" using q(2) by auto
  moreover have "(4 + length body + k) mod 4 = 0" using s(3) by presburger
  ultimately show ?case unfolding q(1) using s q(2)
    by (intro exI [of _ "q @ body"] exI [of _ k]) (auto simp: last_append)
qed

lemma rstrip_padding:
  "body \<noteq> [] \<Longrightarrow> last body \<noteq> c \<Longrightarrow> rstrip_char c (body @ replicate k c) = body"
proof -
  assume b: "body \<noteq> []" "last body \<noteq> c"
  have "dropWhile (\<lambda>d. d = c) (replicate k c @ rev body) = dropWhile (\<lambda>d. d = c) (rev body)"
    by (induction k) simp_all
  moreover have "dropWhile (\<lambda>d. d = c) (rev body) = rev body"
    using b by (cases "rev body") (auto simp: last_rev [symmetric] hd_rev)
  ultimately show ?thesis by (simp add: rstrip_char_def)
qed

lemma b64_repad:
  assumes "s \<noteq> []"
  shows "let c = rstrip_char (CHR ''='') (b64_encode s) in
    str_strip c \<noteq> [] \<and> is_ascii c \<and>
    b64_decode (c @ replicate (nat ((- int (length c)) mod 4)) (CHR ''='')) = Some s"
proof -
  obtain body k where e: "b64_encode s = body @ replicate k (CHR ''='')" "k < 3"
    "(length body + k) mod 4 = 0" "body \<noteq> []" "last body \<noteq> CHR ''=''"
    using b64_padding [of s] by (elim exE conjE) (use assms in simp)
  have c: "rstrip_char (CHR ''='') (b64_encode s) = body"
    unfolding e(1) using e(4, 5) by (rule rstrip_padding)
  have "(- int (length body)) mod 4 = int k"
    using e(2, 3) by presburger
  then have k: "nat ((- int (length body)) mod 4) = k" by simp
  have "list_all b64_alphabet body" using b64_encode_alphabet [of s] unfolding e(1) by simp
  then have "list_all (\<lambda>c. \<not> is_space c) body" "is_ascii body"
    using b64_alphabet_ascii by (auto simp: list_all_iff is_ascii_def)
  then show ?thesis
    using str_strip_no_space [OF e(4)] b64_decode_encode [of s] by (simp add: c k flip: e(1))
qed

lemma cursor_payload_ascii:
  "is_ascii (dumps (JObj [(''v'', JInt 2), (''k'', JStr kind), (''s'', JInt (int n))]))"
  by (simp add: json_pair_def json_quote_ascii int_text_def dec_ascii)

lemma decode_encoded_payload:
  assumes "seq < 2 ^ 63"
  shows "decode_proposal_cursor (encode_proposal_cursor kind seq) kind' =
    (if kind' = kind then Some seq else None)"
proof -
  let ?j = "JObj [(''v'', JInt 2), (''k'', JStr kind), (''s'', JInt (int seq))]"
  have "dumps ?j \<noteq> []" by simp
  note repad = b64_repad [OF this, folded encode_proposal_cursor_def, unfolded Let_def]
  have loads: "json_loads (dumps ?j) = Some ?j" by (rule json_loads_dumps) simp
  have "int seq \<le> max_bigint" using assms by (simp add: max_bigint_def)
  then show ?thesis using repad
    by (simp add: decode_proposal_cursor_def Let_def utf8_decode_ascii [OF cursor_payload_ascii]
      loads pairs_get_def equals_two_def del: json_dumps.simps)
qed

text \<open>
  C17. Round trip of the log cursor: what \<open>_encode_proposal_cursor\<close> hands out for a position of the log
  is decoded by \<open>_decode_proposal_cursor\<close> to the same position when the same list is read on, and
  refused when it is presented to the other list; every \<open>BIGINT\<close> position is covered.
\<close>

theorem proposal_cursor_roundtrip:
  assumes "seq < 2 ^ 63"
  shows "decode_proposal_cursor (encode_proposal_cursor kind seq) kind' =
    (if kind' = kind then Some seq else None)"
  by (rule decode_encoded_payload [OF assms])

theorem proposal_cursor_roundtrip_witness:
  "decode_proposal_cursor (encode_proposal_cursor ''pending'' 41) ''pending'' = Some 41 \<and>
   decode_proposal_cursor (encode_proposal_cursor ''pending'' 41) ''history'' = None"
  using proposal_cursor_roundtrip [of 41 "''pending''" "''pending''"]
    proposal_cursor_roundtrip [of 41 "''pending''" "''history''"] by simp

end
