(* ===== verification/ProposalRules.thy ===== *)
theory ProposalRules
  imports ProposalCodec Plugins
begin

text \<open>
  The rules of the proposal pipeline that need no database: the closed vocabularies of
  \<open>proposal_holds\<close>, the exceptions of the pipeline, the validators of a submission, the reading of
  the environment (rate limits, kill switch, daily caps, cross-brain settings), and the defensive
  reading of what the configured judge plug-in returns from \<open>classify\<close>, \<open>fingerprint\<close>, \<open>judge\<close> and
  \<open>apply\<close>. A plug-in is a third party: its results are raw values whose attributes may be missing
  or of any type, and everything here is total on them.
\<close>

section \<open>Vocabularies\<close>

datatype proposal_status =
  PhPending | PhApproved | PhApplying | PhRejected | PhApplied | PhApplyFailed | PhStale | PhWithdrawn

datatype decision_source = ByHuman | ByAuto | ByBot

fun proposal_status_name :: "proposal_status \<Rightarrow> string" where
  "proposal_status_name PhPending = ''pending''"
| "proposal_status_name PhApproved = ''approved''"
| "proposal_status_name PhApplying = ''applying''"
| "proposal_status_name PhRejected = ''rejected''"
| "proposal_status_name PhApplied = ''applied''"
| "proposal_status_name PhApplyFailed = ''apply_failed''"
| "proposal_status_name PhStale = ''stale''"
| "proposal_status_name PhWithdrawn = ''withdrawn''"

fun decision_source_name :: "decision_source \<Rightarrow> string" where
  "decision_source_name ByHuman = ''human''"
| "decision_source_name ByAuto = ''auto''"
| "decision_source_name ByBot = ''bot''"

definition proposal_hold_levels :: "string list" where
  "proposal_hold_levels = [''low'', ''medium'', ''high'']"

definition decision_reason_codes :: "string list" where
  "decision_reason_codes = [''not_now'', ''wrong_target'', ''incorrect_facts'',
     ''insufficient_evidence'', ''duplicate'', ''policy'', ''human_will_handle'', ''other'']"

definition proposal_terminal_statuses :: "proposal_status list" where
  "proposal_terminal_statuses = [PhRejected, PhApplied, PhApplyFailed, PhStale, PhWithdrawn]"

definition non_terminal_proposal_statuses :: "proposal_status list" where
  "non_terminal_proposal_statuses = [PhPending, PhApplying, PhApproved]"

text \<open>The two checks the module makes when it is imported: the sets are disjoint and complete.\<close>

lemma proposal_statuses_partition:
  "set proposal_terminal_statuses \<inter> set non_terminal_proposal_statuses = {}"
  "set proposal_terminal_statuses \<union> set non_terminal_proposal_statuses = UNIV"
proof -
  show "set proposal_terminal_statuses \<inter> set non_terminal_proposal_statuses = {}"
    by (auto simp: proposal_terminal_statuses_def non_terminal_proposal_statuses_def)
  show "set proposal_terminal_statuses \<union> set non_terminal_proposal_statuses = UNIV"
  proof (intro set_eqI iffI UNIV_I)
    fix st :: proposal_status
    show "st \<in> set proposal_terminal_statuses \<union> set non_terminal_proposal_statuses"
      by (cases st) (simp_all add: proposal_terminal_statuses_def non_terminal_proposal_statuses_def)
  qed
qed

section \<open>Exceptions\<close>

text \<open>
  \<open>ProposalAccessDenied\<close> is the uniform \<open>AccessDeniedError\<close>; \<open>ProposalDatabaseError\<close> is whatever a
  failing commit raises, \<open>ProposalInvariantViolation\<close> the \<open>AssertionError\<close>s.
\<close>

datatype proposal_error =
    ProposalValueError string
  | InvalidProposalActionError string "(string \<times> string) list" nat
  | ProposalTargetUnavailableError int string string
  | ProposalRateLimited string string
  | ProposalAccessDenied
  | ProposalAlreadyDecided proposal_status
  | ProposalDecisionInvalid string
  | ProposalInvariantViolation string
  | ProposalDatabaseError
  | ProposalCancelled

section \<open>Rate limits from the environment\<close>

definition max_proposals_per_bot_per_window :: nat where
  "max_proposals_per_bot_per_window = 5"

definition max_configurable_rate_limit :: int where
  "max_configurable_rate_limit = 1000"

definition proposal_rate_limit_window :: int where
  "proposal_rate_limit_window = minutes 1"

text \<open>
  \<open>json.loads(raw, object_pairs_hook=_reject_duplicate_keys)\<close>: the hook runs on every object,
  nested ones included.
\<close>

primrec no_duplicate_keys :: "json \<Rightarrow> bool" where
  "no_duplicate_keys JNull = True"
| "no_duplicate_keys (JBool b) = True"
| "no_duplicate_keys (JInt n) = True"
| "no_duplicate_keys (JFloat x) = True"
| "no_duplicate_keys (JStr s) = True"
| "no_duplicate_keys (JId n) = True"
| "no_duplicate_keys (JList xs) = list_all id (map no_duplicate_keys xs)"
| "no_duplicate_keys (JObj kvs) =
     (distinct (map fst kvs) \<and> list_all snd (map (map_prod id no_duplicate_keys) kvs))"

definition loads_no_duplicates :: "string \<Rightarrow> json option" where
  "loads_no_duplicates raw =
     (case json_loads raw of None \<Rightarrow> None
      | Some j \<Rightarrow> if no_duplicate_keys j then Some j else None)"

fun usable_rate_limits :: "(string \<times> json) list \<Rightarrow> (string \<times> nat) list" where
  "usable_rate_limits [] = []"
| "usable_rate_limits ((k, v) # kvs) =
     (if k = [] then usable_rate_limits kvs
      else case v of
          JInt n \<Rightarrow>
            if n \<le> 0 then usable_rate_limits kvs
            else if n > max_configurable_rate_limit then usable_rate_limits kvs
            else (k, nat n) # usable_rate_limits kvs
        | _ \<Rightarrow> usable_rate_limits kvs)"

definition parse_proposal_rate_limit_overrides :: "string option \<Rightarrow> (string \<times> nat) list" where
  "parse_proposal_rate_limit_overrides raw =
     (case raw of
        None \<Rightarrow> []
      | Some r \<Rightarrow>
          if str_strip r = [] then []
          else case loads_no_duplicates r of
              Some (JObj kvs) \<Rightarrow> usable_rate_limits kvs
            | _ \<Rightarrow> [])"

definition proposal_rate_limit_for :: "string option \<Rightarrow> string option \<Rightarrow> nat" where
  "proposal_rate_limit_for raw bot_id =
     (case bot_id of
        None \<Rightarrow> max_proposals_per_bot_per_window
      | Some b \<Rightarrow>
          if b = [] then max_proposals_per_bot_per_window
          else case map_of (parse_proposal_rate_limit_overrides raw) b of
              None \<Rightarrow> max_proposals_per_bot_per_window
            | Some n \<Rightarrow> n)"

section \<open>Kill switch and daily caps\<close>

definition parse_proposal_auto_approve_kill_switch :: "string option \<Rightarrow> bool" where
  "parse_proposal_auto_approve_kill_switch raw =
     (case raw of
        None \<Rightarrow> False
      | Some r \<Rightarrow>
          let cleaned = str_lower (str_strip r) in
          if cleaned = [] then False
          else if cleaned \<in> set [''true'', ''1'', ''yes'', ''on''] then True
          else if cleaned \<in> set [''false'', ''0'', ''no'', ''off''] then False
          else True)"

text \<open>Uncapped, every action type closed (\<open>_AllClosedMap\<close>), or a map.\<close>

datatype daily_caps = Uncapped | AllClosed | Caps "(string \<times> nat) list"

fun usable_caps :: "(string \<times> json) list \<Rightarrow> (string \<times> nat) list" where
  "usable_caps [] = []"
| "usable_caps ((k, v) # kvs) =
     (if str_strip k = [] then usable_caps kvs
      else case v of
          JInt n \<Rightarrow> (k, if n < 0 then 0 else nat n) # usable_caps kvs
        | _ \<Rightarrow> (k, 0) # usable_caps kvs)"

definition parse_proposal_auto_approve_daily_caps :: "string option \<Rightarrow> daily_caps" where
  "parse_proposal_auto_approve_daily_caps raw =
     (case raw of
        None \<Rightarrow> Uncapped
      | Some r \<Rightarrow>
          if str_strip r = [] then AllClosed
          else case loads_no_duplicates r of
              Some (JObj kvs) \<Rightarrow> Caps (usable_caps kvs)
            | _ \<Rightarrow> AllClosed)"

definition proposal_auto_approve_daily_cap_for :: "daily_caps \<Rightarrow> string \<Rightarrow> nat option" where
  "proposal_auto_approve_daily_cap_for caps action_type =
     (case caps of
        Uncapped \<Rightarrow> None
      | AllClosed \<Rightarrow> Some 0
      | Caps m \<Rightarrow> map_of m action_type)"

text \<open>Midnight UTC of the day an instant falls on.\<close>

definition utc_day_start :: "int \<Rightarrow> int" where
  "utc_day_start t = t - t mod days 1"

section \<open>Cross-brain settings\<close>

definition cross_brain_kinds :: "string list" where
  "cross_brain_kinds = [''arcana_source_add'']"

definition cross_brain_enabled :: "string option \<Rightarrow> bool" where
  "cross_brain_enabled raw =
     (case raw of None \<Rightarrow> False
      | Some r \<Rightarrow> str_lower (str_strip r) \<in> set [''1'', ''true'', ''yes'', ''on''])"

definition cross_brain_auto_rules :: "string option \<Rightarrow> string list" where
  "cross_brain_auto_rules raw =
     (case raw of None \<Rightarrow> []
      | Some r \<Rightarrow> filter (\<lambda>x. x \<noteq> []) (map str_strip (split_on (CHR '','') r)))"

text \<open>
  \<open>int(raw)\<close> of stripped text: an optional sign, digits, single underscores between digits.
\<close>

fun digit_groups :: "string \<Rightarrow> bool" where
  "digit_groups [] = False"
| "digit_groups [c] = is_digit c"
| "digit_groups (c # d # s) = (is_digit c \<and> (if d = CHR ''_'' then digit_groups s else digit_groups (d # s)))"

definition py_int :: "string \<Rightarrow> int option" where
  "py_int s =
     (let signed = starts_with s ''-'' \<or> starts_with s ''+'';
          body = (if signed then drop 1 s else s);
          n = int (undec (filter is_digit body))
      in if digit_groups body \<and> length (filter is_digit body) \<le> 4300 then Some (if starts_with s ''-'' then - n else n) else None)"

definition env_positive_int :: "string option \<Rightarrow> nat \<Rightarrow> nat" where
  "env_positive_int raw dflt =
     (let r = str_strip (case raw of None \<Rightarrow> [] | Some r \<Rightarrow> r) in
      if r = [] then dflt
      else case py_int r of
          None \<Rightarrow> dflt
        | Some n \<Rightarrow> if n > 0 then nat n else dflt)"

section \<open>Validating a submission\<close>

text \<open>\<open>action\<close> is a dictionary: its keys are distinct.\<close>

type_synonym action = "(string \<times> json) list"

definition extract_proposal_target :: "action \<Rightarrow> proposal_error + string \<times> string" where
  "extract_proposal_target action =
     (case map_of action ''target_id'' of
        Some (JStr target_id) \<Rightarrow>
          if target_id = []
          then Inl (ProposalValueError ''action.target_id is required and must be a non-empty string'')
          else
            (case map_of action ''action_type'' of
               Some (JStr action_type) \<Rightarrow>
                 if action_type = []
                 then Inl (ProposalValueError ''action.action_type is required and must be a non-empty string'')
                 else Inr (target_id, action_type)
             | _ \<Rightarrow> Inl (ProposalValueError ''action.action_type is required and must be a non-empty string''))
      | _ \<Rightarrow> Inl (ProposalValueError ''action.target_id is required and must be a non-empty string''))"

text \<open>\<open>[a-zA-Z][a-zA-Z0-9_:]{0,63}\<close>, matched in full.\<close>

definition matches_dedup_field :: "string \<Rightarrow> bool" where
  "matches_dedup_field s = (case s of [] \<Rightarrow> False
     | c # cs \<Rightarrow> (is_lower_az c \<or> is_upper_az c) \<and> length cs \<le> 63 \<and>
         list_all (\<lambda>d. is_lower_az d \<or> is_upper_az d \<or> is_digit d \<or> d = CHR ''_'' \<or> d = CHR '':'') cs)"

definition extract_proposal_dedup_field :: "action \<Rightarrow> proposal_error + string" where
  "extract_proposal_dedup_field action =
     (case map_of action ''dedup_field'' of
        None \<Rightarrow> Inr []
      | Some (JStr v) \<Rightarrow>
          if matches_dedup_field v then Inr v
          else Inl (ProposalValueError ''action.dedup_field must be a string matching ^[a-zA-Z][a-zA-Z0-9_:]{0,63}$'')
      | Some v \<Rightarrow> Inl (ProposalValueError ''action.dedup_field must be a string matching ^[a-zA-Z][a-zA-Z0-9_:]{0,63}$''))"

definition validate_hold_level :: "string \<Rightarrow> string \<Rightarrow> proposal_error + string" where
  "validate_hold_level v name =
     (if v \<notin> set proposal_hold_levels
      then Inl (ProposalValueError (name @ '' must be one of '' @ repr_tuple proposal_hold_levels))
      else Inr v)"

definition allowed_proposal_label_keys :: "string list" where
  "allowed_proposal_label_keys = [''evidence_type'', ''lane'', ''source_type'']"

text \<open>The loop over the items: the first offending one raises.\<close>

fun check_labels :: "(string \<times> json) list \<Rightarrow> proposal_error + (string \<times> string) list" where
  "check_labels [] = Inr []"
| "check_labels ((k, v) # kvs) =
     (if k \<notin> set allowed_proposal_label_keys
      then Inl (ProposalValueError (''unknown label key: '' @ py_repr k @ '' (allowed keys: '' @
             repr_list allowed_proposal_label_keys @ '')''))
      else case v of
          JStr s \<Rightarrow>
            if \<not> matches_name 31 s
            then Inl (ProposalValueError (''label value for '' @ py_repr k @
                   '' is invalid: must match ^[a-z][a-z0-9_]{0,31}$ (got '' @ py_repr s @ '')''))
            else (case check_labels kvs of Inl e \<Rightarrow> Inl e | Inr m \<Rightarrow> Inr ((k, s) # m))
        | _ \<Rightarrow> Inl (ProposalValueError (''label value for '' @ py_repr k @ '' must be a string'')))"

definition validate_proposal_labels :: "json \<Rightarrow> proposal_error + (string \<times> string) list option" where
  "validate_proposal_labels labels =
     (case labels of
        JNull \<Rightarrow> Inr None
      | JObj kvs \<Rightarrow>
          if kvs = [] then Inr None
          else if length kvs > 3 then Inl (ProposalValueError ''labels may contain at most 3 entries'')
          else (case check_labels kvs of Inl e \<Rightarrow> Inl e | Inr m \<Rightarrow> Inr (Some m))
      | _ \<Rightarrow> Inl (ProposalValueError ''labels must be an object''))"

lemma check_labels_ok:
  "check_labels kvs = Inr m \<Longrightarrow> map fst m = map fst kvs \<and>
     (\<forall>(k, s) \<in> set m. k \<in> set allowed_proposal_label_keys \<and> matches_name 31 s)"
proof (induction kvs arbitrary: m)
  case (Cons kv kvs)
  obtain k v where kv: "kv = (k, v)" by (cases kv)
  from Cons.prems kv obtain s m' where "v = JStr s" "matches_name 31 s"
    "k \<in> set allowed_proposal_label_keys" "check_labels kvs = Inr m'" "m = (k, s) # m'"
    by (auto split: if_splits json.splits sum.splits)
  with Cons.IH kv show ?case by auto
qed simp

definition max_proposal_string_field_length :: nat where
  "max_proposal_string_field_length = 4000"

text \<open>A field's value is any JSON value; a missing one is \<open>None\<close>.\<close>

definition validate_proposal_string_field ::
  "string \<Rightarrow> json option \<Rightarrow> nat \<Rightarrow> bool \<Rightarrow> proposal_error + string" where
  "validate_proposal_string_field name v max_length required =
     (if \<not> required \<and> (v = None \<or> v = Some JNull \<or> v = Some (JStr [])) then Inr []
      else case v of
          Some (JStr s) \<Rightarrow>
            if s = [] then Inl (ProposalValueError (name @ '' is required and must be a non-empty string''))
            else if length s > max_length
            then Inl (ProposalValueError (name @ '' exceeds '' @ dec max_length @ '' characters''))
            else Inr s
        | _ \<Rightarrow> Inl (ProposalValueError (name @ '' is required and must be a non-empty string'')))"

definition document_proposal_kinds :: "string list" where
  "document_proposal_kinds = [''arcana_source_add'', ''arcana_source_revise'']"

definition max_proposal_action_bytes :: "string option \<Rightarrow> nat" where
  "max_proposal_action_bytes kind =
     (if kind \<in> Some ` set document_proposal_kinds then 4 * 1024 * 1024 else 16384)"

definition proposal_action_serialized_bytes ::
  "((int \<times> int) option \<Rightarrow> string) \<Rightarrow> (nat \<Rightarrow> string) \<Rightarrow> json \<Rightarrow> nat" where
  "proposal_action_serialized_bytes float_text id_text action = length (json_dumps float_text id_text action)"

definition resolve_proposal_owner_sub :: "(string \<Rightarrow> json option) \<Rightarrow> string option" where
  "resolve_proposal_owner_sub claims_hold =
     (case claims_hold ''owner_sub'' of Some (JStr s) \<Rightarrow> if s = [] then None else Some s | _ \<Rightarrow> None)"

section \<open>\<open>classify\<close>\<close>

text \<open>
  The attribute \<open>proposal_action_errors\<close> of a \<open>ValueError\<close>: absent, raising, a tuple or list, or
  anything else. An exact tuple or list is \<open>JList\<close> here, an exact \<open>str\<close> is \<open>JStr\<close>.
\<close>

datatype action_errors_attr = NoActionErrors | ActionErrorsRaise | ActionErrorsOther | ActionErrors "json list"

text \<open>\<open>supported_proposal_kinds\<close>: absent or of an unusable type, or an iterable; \<open>None\<close> raises there.\<close>

datatype supported_kinds_attr = NoSupportedKinds | SupportedKinds "json option list"

text \<open>What calling \<open>classify\<close> gives: an object with a \<open>priority\<close> attribute or none, or an exception.\<close>

datatype classify_result =
    Classified "json option" | ClassifyValueError action_errors_attr | ClassifyRaised

definition safe_proposal_kind_label :: "string \<Rightarrow> string option" where
  "safe_proposal_kind_label kind = (if matches_name 63 kind then Some kind else None)"

definition proposal_action_error_codes :: "string list" where
  "proposal_action_error_codes = [''missing'', ''extra_field'', ''invalid_type'', ''too_short'',
     ''too_long'', ''out_of_range'', ''invalid_format'', ''invalid_value'', ''not_canonical'',
     ''digest_mismatch'', ''unsupported'']"

definition matches_error_path :: "string \<Rightarrow> bool" where
  "matches_error_path path =
     (case split_on (CHR ''.'') path of
        [] \<Rightarrow> False
      | seg # segs \<Rightarrow> matches_name 63 seg \<and> length segs \<le> 7 \<and>
          list_all (\<lambda>s. matches_name 63 s \<or> (s \<noteq> [] \<and> length s \<le> 4 \<and> list_all is_digit s)) segs)"

definition max_plugin_action_errors_inspected :: nat where
  "max_plugin_action_errors_inspected = 200"

definition max_reported_proposal_action_errors :: nat where
  "max_reported_proposal_action_errors = 20"

definition sanitize_action_error :: "json \<Rightarrow> string \<times> string" where
  "sanitize_action_error item =
     (case item of
        JList [JStr path, JStr code] \<Rightarrow>
          (if length path > 128 \<or> \<not> matches_error_path path then ''action'' else path,
           if code \<in> set proposal_action_error_codes then code else ''invalid_value'')
      | _ \<Rightarrow> (''action'', ''invalid_value''))"

text \<open>\<open>(signalled, field_errors, omitted)\<close>\<close>

definition sanitize_plugin_action_errors ::
  "action_errors_attr \<Rightarrow> bool \<times> (string \<times> string) list \<times> nat" where
  "sanitize_plugin_action_errors attr =
     (case attr of
        NoActionErrors \<Rightarrow> (False, [], 0)
      | ActionErrorsRaise \<Rightarrow> (True, [], 0)
      | ActionErrorsOther \<Rightarrow> (True, [], 0)
      | ActionErrors raw \<Rightarrow>
          let ordered = sorted_set (map sanitize_action_error (take max_plugin_action_errors_inspected raw));
              reported = take max_reported_proposal_action_errors ordered
          in (True, reported,
              (length ordered - length reported) + (length raw - max_plugin_action_errors_inspected)))"

definition max_supported_proposal_kinds :: nat where
  "max_supported_proposal_kinds = 32"

text \<open>The loop over the first 33 items: \<open>None\<close> when one of them is unusable.\<close>

fun kind_labels :: "json option list \<Rightarrow> string list option" where
  "kind_labels [] = Some []"
| "kind_labels (item # items) =
     (case item of
        Some (JStr s) \<Rightarrow>
          (case (safe_proposal_kind_label s, kind_labels items) of
             (Some l, Some ls) \<Rightarrow> Some (l # ls) | _ \<Rightarrow> None)
      | _ \<Rightarrow> None)"

definition read_supported_proposal_kinds :: "supported_kinds_attr \<Rightarrow> string list option" where
  "read_supported_proposal_kinds attr =
     (case attr of
        NoSupportedKinds \<Rightarrow> None
      | SupportedKinds raw \<Rightarrow>
          let inspected = take (max_supported_proposal_kinds + 1) raw in
          case kind_labels inspected of
            None \<Rightarrow> None
          | Some ls \<Rightarrow>
              if inspected = [] \<or> length inspected > max_supported_proposal_kinds then None
              else Some (sorted_set ls))"

definition invalid_proposal_action_error :: "string \<Rightarrow> (string \<times> string) list \<Rightarrow> nat \<Rightarrow> proposal_error" where
  "invalid_proposal_action_error kind field_errors omitted =
     (let start = (case safe_proposal_kind_label kind of
                     Some l \<Rightarrow> ''invalid '' @ l @ '' action'' | None \<Rightarrow> ''invalid proposal action'');
          reasons = (if field_errors = [] then []
                     else '': '' @ join ''; '' (map (\<lambda>(p, c). p @ '': '' @ c) field_errors));
          more = (if omitted = 0 then [] else '' (+'' @ dec omitted @ '' more)'')
      in InvalidProposalActionError (bound_proposal_error_message (start @ reasons @ more))
           field_errors omitted)"

definition classify_value_error ::
  "supported_kinds_attr \<Rightarrow> string \<Rightarrow> action_errors_attr \<Rightarrow> proposal_error" where
  "classify_value_error kinds kind attr =
     (let (signalled, field_errors, omitted) = sanitize_plugin_action_errors attr;
          supported = read_supported_proposal_kinds kinds;
          label = safe_proposal_kind_label kind
      in if signalled then invalid_proposal_action_error kind field_errors omitted
         else case (supported, label) of
             (Some ks, Some l) \<Rightarrow>
               if l \<in> set ks then invalid_proposal_action_error kind [] 0
               else ProposalValueError (bound_proposal_error_message
                      (''unsupported proposal kind: '' @ py_repr l @ ''; supported kinds: '' @ join '', '' ks))
           | (Some ks, None) \<Rightarrow>
               ProposalValueError (bound_proposal_error_message
                 (''unsupported proposal kind; supported kinds: '' @ join '', '' ks))
           | (None, Some l) \<Rightarrow>
               ProposalValueError (bound_proposal_error_message (''unsupported proposal kind: '' @ py_repr l))
           | (None, None) \<Rightarrow>
               ProposalValueError (bound_proposal_error_message ''unsupported proposal kind''))"

definition classify_proposal ::
  "supported_kinds_attr \<Rightarrow> string \<Rightarrow> classify_result \<Rightarrow> proposal_error + string" where
  "classify_proposal kinds kind result =
     (case result of
        ClassifyValueError attr \<Rightarrow> Inl (classify_value_error kinds kind attr)
      | ClassifyRaised \<Rightarrow> Inl (ProposalValueError (''proposal classification failed for kind '' @ py_repr kind))
      | Classified priority \<Rightarrow>
          let bad = Inl (ProposalValueError (''proposal judge returned invalid priority for kind '' @
                      py_repr kind @ ''; must be one of '' @ repr_list (sort proposal_hold_levels)))
          in case priority of
              Some (JStr p) \<Rightarrow> if p \<in> set proposal_hold_levels then Inr p else bad
            | _ \<Rightarrow> bad)"

section \<open>\<open>fingerprint\<close>\<close>

text \<open>What the judge is told about one proposal.\<close>

record proposal_context =
  pc_kind :: string
  pc_action :: action
  pc_target_id :: string
  pc_action_type :: string
  pc_rationale :: string
  pc_bot_id :: string
  pc_owner_sub :: string
  pc_hold_id :: "nat option"
  pc_cross_brain_target_sub :: "string option"

text \<open>A raw \<open>ProposalTargetError\<close> and a raw fingerprint: attributes of any type; \<open>None\<close>: missing.\<close>

record raw_target_error =
  rt_status_code :: "json option"
  rt_error_code :: "json option"
  rt_detail :: "json option"
  rt_log_detail :: "json option"

record raw_fingerprint =
  rf_status :: "json option"
  rf_digest :: "json option"
  rf_error :: "raw_target_error option"

record target_error =
  te_status_code :: int
  te_error_code :: string
  te_detail :: string
  te_log_detail :: "string option"

datatype fingerprint = FpDigest string | FpNoTarget | FpUnavailable target_error

definition allowed_target_error_status_codes :: "int list" where
  "allowed_target_error_status_codes = [403, 404, 422, 500, 503]"

definition max_proposal_error_code_length :: nat where
  "max_proposal_error_code_length = 64"

definition fingerprint_contract_violation_detail :: string where
  "fingerprint_contract_violation_detail = ''unable to verify target status''"

definition optional_text :: "json option \<Rightarrow> string option option" where
  "optional_text v = (case v of None \<Rightarrow> Some None | Some JNull \<Rightarrow> Some None
     | Some (JStr s) \<Rightarrow> Some (Some s) | _ \<Rightarrow> None)"

definition well_formed_target_error :: "raw_target_error \<Rightarrow> target_error option" where
  "well_formed_target_error err =
     (case (rt_status_code err, rt_error_code err, rt_detail err, optional_text (rt_log_detail err)) of
        (Some (JInt code), Some (JStr error_code), Some (JStr detail), Some log_detail) \<Rightarrow>
          if code \<in> set allowed_target_error_status_codes \<and> error_code \<noteq> [] \<and>
             length error_code \<le> max_proposal_error_code_length \<and> detail \<noteq> []
          then Some \<lparr>te_status_code = code, te_error_code = error_code, te_detail = detail,
                     te_log_detail = log_detail\<rparr>
          else None
      | _ \<Rightarrow> None)"

definition fingerprint_contract_violation :: fingerprint where
  "fingerprint_contract_violation = FpUnavailable
     \<lparr>te_status_code = 500, te_error_code = ''server_configuration_error'',
      te_detail = fingerprint_contract_violation_detail,
      te_log_detail = Some ''proposal judge fingerprint() violated its contract; see WARNING log above''\<rparr>"

definition scrubbed_target_error :: "target_error \<Rightarrow> target_error" where
  "scrubbed_target_error err =
     (let scrubbed = scrub_proposal_error_string (te_detail err) in
      err\<lparr>te_detail := truncate_proposal_string
            (if scrubbed = [] then fingerprint_contract_violation_detail else scrubbed)
            max_proposal_error_detail_length\<rparr>)"

definition read_fingerprint :: "raw_fingerprint \<Rightarrow> fingerprint" where
  "read_fingerprint r =
     (case rf_status r of
        Some (JStr status) \<Rightarrow>
          if status = ''digest'' then
            (case rf_digest r of Some (JStr d) \<Rightarrow> FpDigest d | _ \<Rightarrow> fingerprint_contract_violation)
          else if status = ''no_target'' then FpNoTarget
          else if status = ''unavailable'' then
            (case Option.bind (rf_error r) well_formed_target_error of
               Some err \<Rightarrow> FpUnavailable (scrubbed_target_error err)
             | None \<Rightarrow> fingerprint_contract_violation)
          else fingerprint_contract_violation
      | _ \<Rightarrow> fingerprint_contract_violation)"

text \<open>\<open>None\<close>: the call was cancelled, and the cancellation propagates.\<close>

definition safe_fingerprint :: "raw_fingerprint outcome \<Rightarrow> fingerprint option" where
  "safe_fingerprint result =
     (case result of
        Returned r \<Rightarrow> Some (read_fingerprint r)
      | Raised n m \<Rightarrow> Some fingerprint_contract_violation
      | Cancelled \<Rightarrow> None)"

section \<open>\<open>judge\<close>\<close>

datatype approved_attr = ApprovedMissing | ApprovedBool bool | ApprovedOther string
datatype note_attr = NoteMissing | NoteNone | NoteStr string | NoteOther string

text \<open>The strings are the names of the types the code reports; \<open>rv_rule\<close> is \<open>None\<close> when missing.\<close>

record raw_verdict =
  rv_type_name :: string
  rv_approved :: approved_attr
  rv_note :: note_attr
  rv_rule :: json

text \<open>What \<open>create_proposal\<close> makes of it.\<close>

record judged =
  jd_approved :: bool
  jd_note :: "string option"
  jd_error :: bool
  jd_rule :: json

definition max_decision_reason_length :: nat where
  "max_decision_reason_length = 2000"

definition judge_error :: "string \<Rightarrow> json \<Rightarrow> judged" where
  "judge_error note rule = \<lparr>jd_approved = False, jd_note = Some (''judge error: '' @ note),
     jd_error = True, jd_rule = rule\<rparr>"

definition read_verdict :: "raw_verdict \<Rightarrow> judged" where
  "read_verdict v =
     (if rv_approved v = ApprovedMissing \<or> rv_note v = NoteMissing
      then judge_error (''verdict missing approved/decision_note, got '' @ rv_type_name v) (rv_rule v)
      else case rv_approved v of
          ApprovedOther t \<Rightarrow>
            judge_error (''ProposalVerdict.approved must be a bool, got '' @ t) (rv_rule v)
        | ApprovedBool b \<Rightarrow>
            (case rv_note v of
               NoteOther t \<Rightarrow>
                 judge_error (''ProposalVerdict.decision_note must be None or str, got '' @ t) (rv_rule v)
             | NoteStr s \<Rightarrow> \<lparr>jd_approved = b,
                 jd_note = Some (truncate_proposal_string s max_decision_reason_length),
                 jd_error = False, jd_rule = rv_rule v\<rparr>
             | _ \<Rightarrow> \<lparr>jd_approved = b, jd_note = None, jd_error = False, jd_rule = rv_rule v\<rparr>)
        | ApprovedMissing \<Rightarrow> judge_error [] (rv_rule v))"

definition judge_verdict :: "raw_verdict outcome \<Rightarrow> judged option" where
  "judge_verdict result =
     (case result of
        Returned v \<Rightarrow> Some (read_verdict v)
      | Raised n m \<Rightarrow> Some (judge_error n JNull)
      | Cancelled \<Rightarrow> None)"

section \<open>\<open>apply\<close>\<close>

datatype applied_attr = AppliedBool bool | AppliedOther string
datatype result_attr =
  ResultNone | ResultDict "(string \<times> json) list" | ResultUnserializable string | ResultOther string

text \<open>
  A returned value that is not a \<open>ProposalApplyOutcome\<close> (with its \<open>repr\<close>), or one, whose fields may
  still be of any type.
\<close>

datatype raw_apply =
    NotAnOutcome string
  | RawOutcome applied_attr result_attr "json option" "json option" "json option"

record apply_outcome =
  ao_applied :: bool
  ao_result :: "(string \<times> json) list option"
  ao_caller_error :: "string option"
  ao_log_detail :: "string option"
  ao_indeterminate :: bool

definition apply_error_cancelled_message :: string where
  "apply_error_cancelled_message = ''Apply cancelled before completion''"

definition cancellation_apply_error :: string where
  "cancellation_apply_error =
     ''apply cancelled before completion (request disconnected or task cancelled)''"

definition plugin_contract_violation_message :: string where
  "plugin_contract_violation_message = ''unable to apply this proposal''"

definition board_commit_failure_message :: string where
  "board_commit_failure_message = ''apply failed due to a board infrastructure error''"

definition apply_error_indeterminate_message :: string where
  "apply_error_indeterminate_message =
     ''apply outcome could not be confirmed; awaiting manual reconciliation''"

definition or_else :: "string option \<Rightarrow> string \<Rightarrow> string option" where
  "or_else x y = (case x of None \<Rightarrow> Some y | Some s \<Rightarrow> if s = [] then Some y else Some s)"

text \<open>\<open>log_detail\<close> is only logged and audited: a value that is not text is dropped here.\<close>

definition text_of :: "json option \<Rightarrow> string option" where
  "text_of v = (case v of Some (JStr s) \<Rightarrow> Some s | _ \<Rightarrow> None)"

definition normalize_outcome ::
  "bool \<Rightarrow> bool \<Rightarrow> json option \<Rightarrow> (string \<times> json) list option \<Rightarrow> string option \<Rightarrow> apply_outcome" where
  "normalize_outcome applied indeterminate caller_error result log_detail =
     (let contradictory = applied \<and> indeterminate;
          applied' = (applied \<and> \<not> indeterminate);
          caller_error' = (if contradictory then Some (JStr plugin_contract_violation_message)
                           else caller_error);
          log_detail' = (if contradictory
                         then or_else log_detail ''apply() illegally returned applied=True with indeterminate=True''
                         else log_detail)
      in if applied'
         then \<lparr>ao_applied = True, ao_result = result, ao_caller_error = None,
               ao_log_detail = log_detail', ao_indeterminate = False\<rparr>
         else case text_of caller_error' of
             Some s \<Rightarrow>
               if str_strip s = []
               then \<lparr>ao_applied = False, ao_result = None,
                     ao_caller_error = Some plugin_contract_violation_message,
                     ao_log_detail = or_else log_detail' ''apply() returned applied=False with no caller_error'',
                     ao_indeterminate = indeterminate\<rparr>
               else
                 let scrubbed = scrub_proposal_error_string s in
                 \<lparr>ao_applied = False, ao_result = None,
                  ao_caller_error = Some (truncate_proposal_string
                    (if scrubbed = [] then plugin_contract_violation_message else scrubbed)
                    max_proposal_error_detail_length),
                  ao_log_detail = log_detail', ao_indeterminate = indeterminate\<rparr>
           | None \<Rightarrow>
               \<lparr>ao_applied = False, ao_result = None,
                ao_caller_error = Some plugin_contract_violation_message,
                ao_log_detail = or_else log_detail' ''apply() returned applied=False with no caller_error'',
                ao_indeterminate = indeterminate\<rparr>)"

abbreviation contract_violation :: "bool \<Rightarrow> string \<Rightarrow> apply_outcome" where
  "contract_violation indeterminate log_detail \<equiv>
     normalize_outcome False indeterminate (Some (JStr plugin_contract_violation_message)) None
       (Some log_detail)"

definition read_apply :: "raw_apply \<Rightarrow> apply_outcome" where
  "read_apply r =
     (case r of
        NotAnOutcome rep \<Rightarrow> contract_violation False (''apply() returned a malformed result: '' @ rep)
      | RawOutcome applied result caller_error log_detail indeterminate \<Rightarrow>
          let is_indeterminate = truthy indeterminate in
          (case applied of
             AppliedOther rep \<Rightarrow>
               contract_violation is_indeterminate (''apply() returned non-bool applied: '' @ rep)
           | AppliedBool True \<Rightarrow>
               if is_indeterminate
               then contract_violation True
                      ''apply() illegally returned applied=True with indeterminate=True''
               else (case result of
                   ResultOther rep \<Rightarrow>
                     contract_violation False (''apply() returned applied=True with a non-dict result: '' @ rep)
                 | ResultUnserializable exc \<Rightarrow>
                     contract_violation False
                       (''apply() returned applied=True with a non-JSON-serializable result: '' @ exc)
                 | ResultDict d \<Rightarrow> normalize_outcome True False None (Some d) (text_of log_detail)
                 | ResultNone \<Rightarrow> normalize_outcome True False None None (text_of log_detail))
           | AppliedBool False \<Rightarrow>
               normalize_outcome False is_indeterminate caller_error None (text_of log_detail)))"

definition safe_apply :: "raw_apply outcome \<Rightarrow> apply_outcome option" where
  "safe_apply result =
     (case result of
        Returned r \<Rightarrow> Some (read_apply r)
      | Raised n m \<Rightarrow> Some (contract_violation True (''apply() raised '' @ n @ '': '' @ m))
      | Cancelled \<Rightarrow> None)"

definition stale_decision_note :: "string option \<Rightarrow> string" where
  "stale_decision_note original =
     (case original of
        Some s \<Rightarrow>
          if s = [] then ''not applied: target changed after approval; no write to the target was performed''
          else ''not applied: target changed after approval; no write to the target was performed (approval reason was: '' @ s @ '')''
      | None \<Rightarrow> ''not applied: target changed after approval; no write to the target was performed'')"

section \<open>What the rules guarantee\<close>

lemma normalize_outcome_exclusive:
  "ao_applied (normalize_outcome a i ce r l) \<Longrightarrow>
     a \<and> \<not> i \<and> \<not> ao_indeterminate (normalize_outcome a i ce r l) \<and>
     ao_caller_error (normalize_outcome a i ce r l) = None"
  by (auto simp: normalize_outcome_def Let_def split: if_splits option.splits)

lemma normalize_outcome_failed:
  "\<not> ao_applied (normalize_outcome a i ce r l) \<Longrightarrow>
     ao_result (normalize_outcome a i ce r l) = None \<and>
     ao_indeterminate (normalize_outcome a i ce r l) = i \<and>
     (\<exists>m. ao_caller_error (normalize_outcome a i ce r l) = Some m \<and> m \<noteq> [] \<and>
          length m \<le> max_proposal_error_detail_length)"
  by (auto simp: normalize_outcome_def Let_def truncate_proposal_string_def truncated_suffix_def
        max_proposal_error_detail_length_def plugin_contract_violation_message_def
      split: if_splits option.splits)

end
