(* ===== verification/ProposalStore.thy ===== *)
theory ProposalStore
  imports ProposalRules
begin

text \<open>
  The tables of the proposal pipeline (\<open>ProposalHold\<close>, \<open>ProposalBotLogSeq\<close>, and the audit log and
  agent directory it reads): rows, the trigger that numbers every write of a bot's rows, the schema's
  constraints, the dictionaries that are returned to owners and bots, and the listings with their
  elision of oversize document content.

  \<open>updated_at\<close> is left out, as everywhere. A write that changes no column issues no \<open>UPDATE\<close> and fires
  no trigger.
\<close>

section \<open>Rows\<close>

record cross_brain =
  cb_target_sub :: string
  cb_target_agent_id :: nat
  cb_target_display_name :: string
  cb_target_owner_sub :: string
  cb_target_owner_email :: string
  cb_required_owner_subs :: "string list"
  cb_auto_rule :: "string option"

record owner_approval =
  oa_sub :: string
  oa_at :: int
  oa_note :: "string option"
  oa_reason_code :: "string option"

record proposal_hold =
  ph_id :: nat
  ph_sender_agent_id :: "nat option"
  ph_kind :: string
  ph_bot_id :: string
  ph_log_seq :: nat
  ph_owner_sub :: string
  ph_action :: action
  ph_rationale :: string
  ph_confidence :: string
  ph_importance :: string
  ph_impact :: string
  ph_priority :: string
  ph_status :: proposal_status
  ph_decision_source :: "decision_source option"
  ph_decided_by :: "string option"
  ph_decided_at :: "int option"
  ph_decision_note :: "string option"
  ph_reason_code :: "string option"
  ph_fingerprint :: string
  ph_applied_at :: "int option"
  ph_apply_error :: "string option"
  ph_apply_result :: "(string \<times> json) list option"
  ph_cross_brain :: "cross_brain option"
  ph_approvals :: "owner_approval list option"
  ph_labels :: "(string \<times> string) list option"
  ph_created_at :: int

text \<open>\<open>pd_next_id\<close> bounds the identifiers drawn so far, as in the board's database.\<close>

record pdb =
  pd_agents :: "agent list"
  pd_audit :: "audit_row list"
  pd_holds :: "proposal_hold list"
  pd_counters :: "(string \<times> nat) list"
  pd_next_id :: nat

section \<open>Writes\<close>

text \<open>\<open>proposal_holds_assign_log_seq\<close>: the counter row of the bot is created or incremented.\<close>

definition counter_of :: "string \<Rightarrow> pdb \<Rightarrow> nat" where
  "counter_of bot_id d = (case map_of (pd_counters d) bot_id of None \<Rightarrow> 0 | Some n \<Rightarrow> n)"

definition bump_counter :: "string \<Rightarrow> pdb \<Rightarrow> pdb" where
  "bump_counter bot_id d =
     d\<lparr>pd_counters := (bot_id, Suc (counter_of bot_id d)) # filter (\<lambda>c. fst c \<noteq> bot_id) (pd_counters d)\<rparr>"

definition insert_proposal :: "proposal_hold \<Rightarrow> pdb \<Rightarrow> pdb" where
  "insert_proposal h d =
     (let d' = bump_counter (ph_bot_id h) d in
      d'\<lparr>pd_holds := pd_holds d @ [h\<lparr>ph_log_seq := counter_of (ph_bot_id h) d'\<rparr>]\<rparr>)"

definition proposal_by_id :: "nat \<Rightarrow> pdb \<Rightarrow> proposal_hold option" where
  "proposal_by_id i d = find (\<lambda>h. ph_id h = i) (pd_holds d)"

text \<open>An \<open>UPDATE\<close> by primary key of the columns \<open>f\<close> sets.\<close>

definition write_proposal :: "nat \<Rightarrow> (proposal_hold \<Rightarrow> proposal_hold) \<Rightarrow> pdb \<Rightarrow> pdb" where
  "write_proposal i f d =
     (case proposal_by_id i d of
        None \<Rightarrow> d
      | Some h \<Rightarrow>
          if f h = h then d
          else let d' = bump_counter (ph_bot_id h) d in
               d'\<lparr>pd_holds := update_where (\<lambda>r. ph_id r = i)
                    (\<lambda>r. (f r)\<lparr>ph_log_seq := counter_of (ph_bot_id h) d'\<rparr>) (pd_holds d)\<rparr>)"

definition add_proposal_audit :: "int \<Rightarrow> string \<Rightarrow> string \<Rightarrow> json \<Rightarrow> pdb \<Rightarrow> pdb" where
  "add_proposal_audit at actor_sub act detail d =
     d\<lparr>pd_audit := pd_audit d @ [\<lparr>al_at = at, al_actor_sub = actor_sub, al_action = act,
        al_agent_id = None, al_conversation_id = None, al_message_id = None, al_detail = detail\<rparr>]\<rparr>"

section \<open>Constraints\<close>

definition action_text :: "action \<Rightarrow> string \<Rightarrow> string option" where
  "action_text action k = (case map_of action k of Some (JStr s) \<Rightarrow> Some s | _ \<Rightarrow> None)"

definition cross_target :: "cross_brain option \<Rightarrow> string" where
  "cross_target cross = (case cross of None \<Rightarrow> [] | Some c \<Rightarrow> cb_target_sub c)"

type_synonym dedup_columns = "string \<times> string \<times> string option \<times> string option \<times> string \<times> string"

definition dedup_key :: "proposal_hold \<Rightarrow> dedup_columns" where
  "dedup_key h = (ph_kind h, ph_bot_id h, action_text (ph_action h) ''target_id'',
     action_text (ph_action h) ''action_type'', cross_target (ph_cross_brain h),
     case action_text (ph_action h) ''dedup_field'' of None \<Rightarrow> [] | Some f \<Rightarrow> f)"

definition live :: "proposal_hold \<Rightarrow> bool" where
  "live h = (ph_status h \<in> set [PhPending, PhApplying])"

text \<open>The row's \<open>CHECK\<close>s; those on the enumerated columns are the datatypes.\<close>

definition decision_consistent :: "proposal_hold \<Rightarrow> bool" where
  "decision_consistent h =
     (if ph_status h = PhPending
      then ph_decided_at h = None \<and> ph_decided_by h = None \<and> ph_decision_source h = None
      else ph_decided_at h \<noteq> None \<and> ph_decided_by h \<noteq> None \<and> ph_decision_source h \<noteq> None)"

definition proposal_row_constraints :: "(string \<times> (proposal_hold \<Rightarrow> bool)) list" where
  "proposal_row_constraints =
     [(''ck_proposal_holds_confidence'', \<lambda>h. ph_confidence h \<in> set proposal_hold_levels),
      (''ck_proposal_holds_importance'', \<lambda>h. ph_importance h \<in> set proposal_hold_levels),
      (''ck_proposal_holds_impact'', \<lambda>h. ph_impact h \<in> set proposal_hold_levels),
      (''ck_proposal_holds_priority'', \<lambda>h. ph_priority h \<in> set proposal_hold_levels),
      (''ck_proposal_holds_decision_consistency'', decision_consistent),
      (''ck_proposal_holds_applied_at_consistency'',
         \<lambda>h. ph_status h = PhApplied \<or> ph_applied_at h = None),
      (''ck_proposal_holds_apply_result_consistency'',
         \<lambda>h. ph_apply_result h = None \<or> ph_status h = PhApplied),
      (''ck_proposal_holds_decision_reason_code'',
         \<lambda>h. case ph_reason_code h of None \<Rightarrow> True | Some c \<Rightarrow> c \<in> set decision_reason_codes)]"

definition proposal_row_ok :: "proposal_hold \<Rightarrow> bool" where
  "proposal_row_ok h = list_all (\<lambda>c. snd c h) proposal_row_constraints"

text \<open>The primary key and the two unique indexes.\<close>

definition proposal_keys_ok :: "pdb \<Rightarrow> bool" where
  "proposal_keys_ok d =
     (distinct (map ph_id (pd_holds d)) \<and>
      distinct (map dedup_key (filter live (pd_holds d))) \<and>
      distinct (map (\<lambda>h. (ph_bot_id h, ph_log_seq h)) (pd_holds d)))"

definition proposals_ok :: "pdb \<Rightarrow> bool" where
  "proposals_ok d = (list_all proposal_row_ok (pd_holds d) \<and> proposal_keys_ok d)"

section \<open>Dictionaries\<close>

definition json_entries :: "(string \<times> json) list \<Rightarrow> json" where
  "json_entries kvs = JObj kvs"

definition opt_entry :: "string \<Rightarrow> ('a \<Rightarrow> json) \<Rightarrow> 'a option \<Rightarrow> (string \<times> json) list" where
  "opt_entry k f x = (case x of None \<Rightarrow> [] | Some v \<Rightarrow> [(k, f v)])"

definition cross_brain_json :: "cross_brain \<Rightarrow> json" where
  "cross_brain_json c = JObj ([(''target_sub'', JStr (cb_target_sub c)),
     (''target_agent_id'', JId (cb_target_agent_id c)),
     (''target_display_name'', JStr (cb_target_display_name c)),
     (''target_owner_sub'', JStr (cb_target_owner_sub c)),
     (''target_owner_email'', JStr (cb_target_owner_email c)),
     (''required_owner_subs'', JList (map JStr (cb_required_owner_subs c)))]
     @ opt_entry ''auto_rule'' JStr (cb_auto_rule c))"

definition approval_json :: "owner_approval \<Rightarrow> json" where
  "approval_json a = JObj ([(''sub'', JStr (oa_sub a)), (''at'', JInt (oa_at a)),
     (''note'', json_opt_str (oa_note a))] @ opt_entry ''reason_code'' JStr (oa_reason_code a))"

definition approvals_json :: "owner_approval list option \<Rightarrow> json" where
  "approvals_json as = JList (map approval_json (case as of None \<Rightarrow> [] | Some xs \<Rightarrow> xs))"

definition labels_json :: "(string \<times> string) list \<Rightarrow> json" where
  "labels_json ls = JObj (map (map_prod id JStr) ls)"

text \<open>\<open>_proposal_dict\<close>, with the projected action and the elision note of a listing.\<close>

definition proposal_dict_with ::
  "json \<Rightarrow> json option \<Rightarrow> proposal_hold \<Rightarrow> (string \<times> json) list" where
  "proposal_dict_with action elided h =
     [(''proposal_id'', JId (ph_id h)), (''kind'', JStr (ph_kind h)),
      (''proposed_by_bot_id'', JStr (ph_bot_id h)), (''action'', action),
      (''rationale'', JStr (ph_rationale h)), (''confidence'', JStr (ph_confidence h)),
      (''importance'', JStr (ph_importance h)), (''impact'', JStr (ph_impact h)),
      (''priority'', JStr (ph_priority h)), (''status'', JStr (proposal_status_name (ph_status h))),
      (''created_at'', JInt (ph_created_at h))]
     @ opt_entry ''elided_action_fields'' id elided
     @ opt_entry ''decision_source'' (\<lambda>x. JStr (decision_source_name x)) (ph_decision_source h)
     @ opt_entry ''decided_by_actor_id'' JStr (ph_decided_by h)
     @ opt_entry ''decided_at'' JInt (ph_decided_at h)
     @ opt_entry ''decision_note'' JStr (ph_decision_note h)
     @ opt_entry ''decision_reason_code'' JStr (ph_reason_code h)
     @ opt_entry ''applied_at'' JInt (ph_applied_at h)
     @ opt_entry ''apply_error'' JStr (ph_apply_error h)
     @ opt_entry ''apply_result'' JObj (ph_apply_result h)
     @ opt_entry ''sender_agent_id'' JId (ph_sender_agent_id h)
     @ (case ph_cross_brain h of None \<Rightarrow> []
        | Some c \<Rightarrow> [(''cross_brain'', cross_brain_json c), (''approvals'', approvals_json (ph_approvals h))])
     @ opt_entry ''labels'' labels_json (ph_labels h)"

definition proposal_dict :: "proposal_hold \<Rightarrow> (string \<times> json) list" where
  "proposal_dict h = proposal_dict_with (JObj (ph_action h)) None h"

text \<open>\<open>result.pop(k, None)\<close> and \<open>result[k] = v\<close> for a key that is present.\<close>

definition without :: "string \<Rightarrow> (string \<times> json) list \<Rightarrow> (string \<times> json) list" where
  "without k kvs = filter (\<lambda>kv. fst kv \<noteq> k) kvs"

definition replace_entry :: "string \<Rightarrow> json \<Rightarrow> (string \<times> json) list \<Rightarrow> (string \<times> json) list" where
  "replace_entry k v kvs = map (\<lambda>kv. if fst kv = k then (k, v) else kv) kvs"

definition json_length :: "json option \<Rightarrow> nat" where
  "json_length v = (case v of Some (JList xs) \<Rightarrow> length xs | _ \<Rightarrow> 0)"

definition or_null :: "json option \<Rightarrow> json" where
  "or_null v = (case v of None \<Rightarrow> JNull | Some j \<Rightarrow> j)"

definition redact_bot_facing_dict ::
  "decision_source option \<Rightarrow> (string \<times> json) list \<Rightarrow> (string \<times> json) list" where
  "redact_bot_facing_dict source result =
     (let r = (if source = Some ByHuman then without ''decided_by_actor_id'' result else result) in
      case map_of r ''cross_brain'' of
        None \<Rightarrow> r
      | Some cross \<Rightarrow>
          without ''approvals'' (replace_entry ''cross_brain''
            (JObj [(''target_sub'', or_null (json_get cross ''target_sub'')),
                   (''target_display_name'', or_null (json_get cross ''target_display_name'')),
                   (''approvals_required'', JInt (int (json_length (json_get cross ''required_owner_subs'')))),
                   (''approvals_received'', JInt (int (json_length (map_of r ''approvals''))))]) r))"

definition bot_facing_proposal_dict :: "proposal_hold \<Rightarrow> (string \<times> json) list" where
  "bot_facing_proposal_dict h = redact_bot_facing_dict (ph_decision_source h) (proposal_dict h)"

section \<open>Listings\<close>

definition content_elision_bytes :: nat where
  "content_elision_bytes = 16384"

text \<open>\<open>octet_length\<close> of a text in UTF-8.\<close>

definition utf8_length :: "string \<Rightarrow> nat" where
  "utf8_length s = sum_list (map (\<lambda>c. if (of_char c :: nat) < 128 then 1 else 2) s)"

definition elided_content :: "proposal_hold \<Rightarrow> string option" where
  "elided_content h =
     (if ph_kind h \<in> set document_proposal_kinds then
        (case map_of (ph_action h) ''content'' of
           Some (JStr s) \<Rightarrow> if utf8_length s > content_elision_bytes then Some s else None
         | _ \<Rightarrow> None)
      else None)"

definition projected_action :: "proposal_hold \<Rightarrow> json" where
  "projected_action h =
     (if elided_content h = None then JObj (ph_action h) else JObj (without ''content'' (ph_action h)))"

definition elided_fields :: "proposal_hold \<Rightarrow> json option" where
  "elided_fields h = (case elided_content h of None \<Rightarrow> None
     | Some s \<Rightarrow> Some (JObj [(''content'',
         JObj [(''utf8_bytes'', JInt (int (utf8_length s))), (''chars'', JInt (int (length s)))])]))"

definition listed_proposal :: "proposal_hold \<Rightarrow> (string \<times> json) list" where
  "listed_proposal h = proposal_dict_with (projected_action h) (elided_fields h) h"

definition bot_listed_proposal :: "proposal_hold \<Rightarrow> (string \<times> json) list" where
  "bot_listed_proposal h = redact_bot_facing_dict (ph_decision_source h) (listed_proposal h)"

record proposals_page =
  pp_proposals :: "(string \<times> json) list list"
  pp_has_more :: bool
  pp_next_cursor :: "string option"

text \<open>
  \<open>_list_proposals_with_elision\<close>: the rows that satisfy the filter in the listing's order, one more
  than the limit, and the cursor of the last row returned.
\<close>

definition list_proposals_with_elision ::
  "proposal_hold list \<Rightarrow> nat \<Rightarrow> (proposal_hold \<Rightarrow> (string \<times> json) list) \<Rightarrow> string option \<Rightarrow>
   string option \<Rightarrow> proposals_page" where
  "list_proposals_with_elision ordered limit to_dict cursor_kind since =
     (let rows = take (limit + 1) ordered;
          returned = take limit rows
      in \<lparr>pp_proposals = map to_dict returned, pp_has_more = length rows > limit,
          pp_next_cursor =
            (case cursor_kind of
               None \<Rightarrow> None
             | Some kind \<Rightarrow>
                 if returned \<noteq> [] then Some (encode_proposal_cursor kind (ph_log_seq (last returned)))
                 else since)\<rparr>)"

definition clamp_limit :: "int \<Rightarrow> nat" where
  "clamp_limit limit = nat (max 1 (min limit 200))"

definition visible_to_owner :: "string \<Rightarrow> proposal_hold \<Rightarrow> bool" where
  "visible_to_owner owner_sub h =
     (ph_owner_sub h = owner_sub \<or>
      (case ph_cross_brain h of None \<Rightarrow> False | Some c \<Rightarrow> owner_sub \<in> set (cb_required_owner_subs c)))"

definition oldest_first :: "proposal_hold list \<Rightarrow> proposal_hold list" where
  "oldest_first hs = sorted_by (\<lambda>h. (ph_created_at h, ph_id h)) hs"

definition list_pending_proposal_holds :: "pdb \<Rightarrow> string \<Rightarrow> int \<Rightarrow> proposals_page" where
  "list_pending_proposal_holds d owner_sub limit =
     list_proposals_with_elision
       (oldest_first (filter (\<lambda>h. visible_to_owner owner_sub h \<and> ph_status h = PhPending) (pd_holds d)))
       (clamp_limit limit) listed_proposal None None"

definition list_proposal_history_for_owner :: "pdb \<Rightarrow> string \<Rightarrow> int \<Rightarrow> proposals_page" where
  "list_proposal_history_for_owner d owner_sub limit =
     list_proposals_with_elision
       (rev (oldest_first (filter (\<lambda>h. visible_to_owner owner_sub h \<and>
          ph_status h \<in> set proposal_terminal_statuses) (pd_holds d))))
       (clamp_limit limit) listed_proposal None None"

text \<open>The order is \<open>"created_at"\<close> or \<open>"log"\<close>; the two tools pass a status list and a cursor kind.\<close>

definition log_cursor_kind :: "proposal_status list \<Rightarrow> string option \<Rightarrow> string option" where
  "log_cursor_kind statuses cursor_kind =
     (case cursor_kind of
        Some k \<Rightarrow> Some k
      | None \<Rightarrow>
          if statuses = [PhPending] then Some ''pending''
          else if set statuses = set proposal_terminal_statuses then Some ''history'' else None)"

definition list_proposals_for_bot ::
  "pdb \<Rightarrow> string \<Rightarrow> proposal_status list \<Rightarrow> int \<Rightarrow> string \<Rightarrow> string option \<Rightarrow> string option \<Rightarrow>
   proposal_error + proposals_page" where
  "list_proposals_for_bot d bot_sub statuses limit order since cursor_kind =
     (let own = filter (\<lambda>h. ph_bot_id h = bot_sub \<and> ph_status h \<in> set statuses) (pd_holds d) in
      if order \<noteq> ''created_at'' \<and> order \<noteq> ''log''
      then Inl (ProposalValueError (''invalid order: must be 'created_at' or '' @ py_repr ''log''))
      else if since \<noteq> None \<and> order \<noteq> ''log''
      then Inl (ProposalValueError (''since requires order='' @ py_repr ''log''))
      else if order = ''created_at'' then
        Inr (list_proposals_with_elision (oldest_first own) (clamp_limit limit) bot_listed_proposal None since)
      else case log_cursor_kind statuses cursor_kind of
          None \<Rightarrow> Inl (ProposalValueError (
            ''unsupported status combination for log cursor without explicit cursor_kind: '' @
            repr_tuple (map proposal_status_name statuses)))
        | Some kind \<Rightarrow>
            (case since of
               None \<Rightarrow> Inr (list_proposals_with_elision (sorted_by ph_log_seq own) (clamp_limit limit)
                        bot_listed_proposal (Some kind) since)
             | Some cursor \<Rightarrow>
                 (case decode_proposal_cursor cursor kind of
                    None \<Rightarrow> Inl (ProposalValueError ''invalid cursor'')
                  | Some last_seq \<Rightarrow>
                      Inr (list_proposals_with_elision
                        (sorted_by ph_log_seq (filter (\<lambda>h. ph_log_seq h > last_seq) own))
                        (clamp_limit limit) bot_listed_proposal (Some kind) since))))"

end
