(* ===== verification/ProposalFlow.thy ===== *)
theory ProposalFlow
  imports ProposalStore
begin

text \<open>
  The operations of the proposal pipeline, cut where the code ends a transaction or waits for the
  judge: submission (\<open>create_proposal\<close>), the owner's decision (\<open>decide_proposal\<close>), the claim
  (\<open>_claim_proposal_hold_for_applying\<close>), the apply and its terminal write with both recovery writes
  (\<open>_apply_or_finalize_proposal_hold\<close>), withdrawal and the two single reads. A process is a request
  and the place it has reached; \<open>advance\<close> runs it to the next place.

  Inside one segment the database does not change under the code's feet, because the segment holds the
  row lock (and for rate limit and daily cap the advisory lock) it takes in the code. The two places
  where the code writes a row it has read without a lock are separate segments: the resubmission into
  an existing row, and the note of a failed judge.

  A commit may fail before or after it reached the database, or be interrupted by a cancellation; the
  environment decides, as it decides clock readings and what the judge returns.
\<close>

section \<open>Environment, requests, places\<close>

text \<open>A commit that raises an exception, or is cancelled, may or may not be in the database.\<close>

datatype commit_result = Committed | CommitRaised bool | CommitInterrupted bool

text \<open>
  The judge (third-party code), the clock (by step and reading), the commits, failures of the queries
  of the cap check, the environment variables (those read live by step), and \<open>uuid.UUID\<close>.
\<close>

record proposal_env =
  pe_classify :: "string \<Rightarrow> action \<Rightarrow> classify_result"
  pe_supported_kinds :: supported_kinds_attr
  pe_fingerprint :: "nat \<Rightarrow> proposal_context \<Rightarrow> raw_fingerprint outcome"
  pe_judge :: "nat \<Rightarrow> proposal_context \<Rightarrow> raw_verdict outcome"
  pe_apply :: "nat \<Rightarrow> proposal_context \<Rightarrow> raw_apply outcome"
  pe_clock :: "nat \<Rightarrow> nat \<Rightarrow> int"
  pe_commit :: "nat \<Rightarrow> commit_result"
  pe_cap_query_fails :: "nat \<Rightarrow> bool"
  pe_rate_limits :: "string option"
  pe_kill_switch :: "string option"
  pe_daily_caps :: "string option"
  pe_cross_brain :: "nat \<Rightarrow> string option"
  pe_auto_rules :: "nat \<Rightarrow> string option"
  pe_max_pending_submitter :: "nat \<Rightarrow> string option"
  pe_max_pending_target :: "nat \<Rightarrow> string option"
  pe_uuid :: "string \<Rightarrow> nat option"

record submission =
  sm_kind :: string
  sm_bot_id :: string
  sm_owner_sub :: string
  sm_action :: action
  sm_rationale :: string
  sm_confidence :: string
  sm_importance :: string
  sm_impact :: string
  sm_sender_agent_id :: "nat option"
  sm_labels :: json

datatype proposal_request =
    Submit submission
  | Decide string nat string "string option" "string option"
  | Withdraw string nat "string option"
  | GetForBot string nat
  | ApplyRecord string nat

text \<open>What a submission has established before it is counted and stored.\<close>

record checked =
  ck_cross :: "cross_brain option"
  ck_action :: action
  ck_target_id :: string
  ck_action_type :: string
  ck_dedup_field :: string
  ck_priority :: string
  ck_fingerprint :: string
  ck_labels :: "(string \<times> string) list option"

text \<open>A claimed hold on its way to a terminal status: the parameters of the apply.\<close>

record apply_job =
  aj_hold :: nat
  aj_actor :: string
  aj_source :: decision_source
  aj_note :: "string option"
  aj_code :: "string option"

record resolution =
  rs_target_id :: string
  rs_stale :: bool
  rs_error :: "string option"
  rs_raw_error :: "string option"
  rs_result :: "(string \<times> json) list option"
  rs_indeterminate :: bool
  rs_cancelled :: bool

text \<open>A claim's parameters: the note, the payload it was judged on, the stand-in rule, the rule, the cap.\<close>

record claim_args =
  cl_note :: "string option"
  cl_judged :: proposal_hold
  cl_auto_rule :: "string option"
  cl_action_type :: string
  cl_rule :: json

type_synonym proposal_result = "proposal_error + (string \<times> json) list"

datatype proposal_pc =
    AtStart
  | AtRateLimit checked
  | AtDedup checked
  | AtWrite checked "proposal_hold option"
  | AtJudge checked proposal_hold
  | AtJudgeNote checked proposal_hold judged
  | AtVerdict checked proposal_hold judged
  | AtKill proposal_hold checked judged
  | AtCap nat claim_args
  | AtCapFailed claim_args
  | AtClaim claim_args
  | AtCheck apply_job
  | AtApply apply_job proposal_context proposal_hold
  | AtFinalize apply_job resolution
  | AtIndeterminate apply_job resolution
  | AtRecovery apply_job resolution proposal_hold
  | AtLastDitch apply_job resolution proposal_hold
  | AtLost apply_job
  | Done proposal_result

section \<open>Commits\<close>

text \<open>The database after a commit of \<open>d'\<close> over \<open>d\<close>, and where the process goes on.\<close>

definition commit_to ::
  "proposal_env \<Rightarrow> nat \<Rightarrow> pdb \<Rightarrow> pdb \<Rightarrow> proposal_pc \<Rightarrow> pdb \<times> proposal_pc" where
  "commit_to env t d d' pc =
     (case pe_commit env t of
        Committed \<Rightarrow> (d', pc)
      | CommitRaised stored \<Rightarrow> (if stored then d' else d, Done (Inl ProposalDatabaseError))
      | CommitInterrupted stored \<Rightarrow> (if stored then d' else d, Done (Inl ProposalCancelled)))"

text \<open>\<open>_deny\<close>: the denial is audited and committed, then raised.\<close>

definition deny_proposal ::
  "proposal_env \<Rightarrow> nat \<Rightarrow> pdb \<Rightarrow> string \<Rightarrow> string \<Rightarrow> nat \<Rightarrow> pdb \<times> proposal_pc" where
  "deny_proposal env t d actor_sub act hold_id =
     commit_to env t d
       (add_proposal_audit (pe_clock env t 0) actor_sub act (JObj [(''attempted_hold_id'', JId hold_id)]) d)
       (Done (Inl ProposalAccessDenied))"

section \<open>Submission: checks\<close>

definition cross_brain_pending_counts :: "pdb \<Rightarrow> string \<Rightarrow> string \<Rightarrow> nat \<times> nat" where
  "cross_brain_pending_counts d bot_id target_sub =
     (length (filter (\<lambda>h. live h \<and> ph_bot_id h = bot_id \<and> ph_cross_brain h \<noteq> None) (pd_holds d)),
      length (filter (\<lambda>h. live h \<and> (case ph_cross_brain h of None \<Rightarrow> False
         | Some c \<Rightarrow> cb_target_sub c = target_sub)) (pd_holds d)))"

definition find_target_agent :: "proposal_env \<Rightarrow> pdb \<Rightarrow> string \<Rightarrow> agent option" where
  "find_target_agent env d ref =
     find (\<lambda>a. (case pe_uuid env ref of Some i \<Rightarrow> ag_id a = i | None \<Rightarrow> ag_sub a = ref) \<and>
               ag_status a = AgActive) (pd_agents d)"

definition resolve_cross_brain_target ::
  "proposal_env \<Rightarrow> nat \<Rightarrow> pdb \<Rightarrow> string \<Rightarrow> action \<Rightarrow> string \<Rightarrow> string \<Rightarrow>
   proposal_error + cross_brain option \<times> action" where
  "resolve_cross_brain_target env t d kind action bot_id owner_sub =
     (if kind \<notin> set cross_brain_kinds \<or> map_of action ''target'' = None then Inr (None, action)
      else if \<not> cross_brain_enabled (pe_cross_brain env t)
      then Inl (ProposalValueError (''unsupported proposal kind: '' @ py_repr kind))
      else case map_of action ''target'' of
          Some (JStr raw) \<Rightarrow>
            if str_strip raw = [] \<or> length raw > 256
            then Inl (ProposalValueError ''action.target must be a non-empty string (a board agent id or sub)'')
            else (case find_target_agent env d (str_strip raw) of
                None \<Rightarrow> Inl (ProposalTargetUnavailableError 404 ''target_not_found'' ''target not found'')
              | Some target \<Rightarrow>
                  if ag_sub target = bot_id then Inr (None, without ''target'' action)
                  else if truthy (map_of action ''citations'')
                  then Inl (invalid_proposal_action_error kind [(''citations'', ''unsupported'')] 0)
                  else
                    let (per_submitter, per_target) = cross_brain_pending_counts d bot_id (ag_sub target) in
                    if per_submitter \<ge> env_positive_int (pe_max_pending_submitter env t) 5 \<or>
                       per_target \<ge> env_positive_int (pe_max_pending_target env t) 20
                    then Inl (ProposalRateLimited
                      ''too many pending cross-brain proposals; wait for the owners to decide''
                      ''cross_brain_pending_cap'')
                    else Inr (Some \<lparr>cb_target_sub = ag_sub target, cb_target_agent_id = ag_id target,
                       cb_target_display_name = ag_display_name target,
                       cb_target_owner_sub = ag_owner_sub target,
                       cb_target_owner_email = ag_owner_email target,
                       cb_required_owner_subs =
                         (if owner_sub = ag_owner_sub target then [owner_sub] else [ag_owner_sub target, owner_sub]),
                       cb_auto_rule = None\<rparr>, without ''target'' action))
        | _ \<Rightarrow> Inl (ProposalValueError ''action.target must be a non-empty string (a board agent id or sub)''))"

definition no_pre_existing_target_fingerprint :: string where
  "no_pre_existing_target_fingerprint = ''n/a:no-pre-existing-target''"

text \<open>\<open>do\<close>-style sequencing of validators.\<close>

definition check_then :: "proposal_error + 'a \<Rightarrow> ('a \<Rightarrow> proposal_error + 'b) \<Rightarrow> proposal_error + 'b" where
  "check_then r f = (case r of Inl e \<Rightarrow> Inl e | Inr x \<Rightarrow> f x)"

definition submit_context :: "submission \<Rightarrow> cross_brain option \<Rightarrow> action \<Rightarrow> string \<Rightarrow> string \<Rightarrow> proposal_context" where
  "submit_context sm cross action target_id action_type =
     \<lparr>pc_kind = sm_kind sm, pc_action = action, pc_target_id = target_id, pc_action_type = action_type,
      pc_rationale = sm_rationale sm, pc_bot_id = sm_bot_id sm, pc_owner_sub = sm_owner_sub sm,
      pc_hold_id = None, pc_cross_brain_target_sub = map_option cb_target_sub cross\<rparr>"

definition submitted_fingerprint :: "fingerprint option \<Rightarrow> proposal_error + string" where
  "submitted_fingerprint fp =
     (case fp of
        None \<Rightarrow> Inl ProposalCancelled
      | Some FpNoTarget \<Rightarrow> Inr no_pre_existing_target_fingerprint
      | Some (FpDigest digest) \<Rightarrow> Inr digest
      | Some (FpUnavailable e) \<Rightarrow>
          Inl (ProposalTargetUnavailableError (te_status_code e) (te_error_code e) (te_detail e)))"

definition submit_checks ::
  "proposal_env \<Rightarrow> nat \<Rightarrow> pdb \<Rightarrow> submission \<Rightarrow> proposal_error + checked" where
  "submit_checks env t d sm =
     check_then (validate_hold_level (sm_confidence sm) ''confidence'') (\<lambda>_.
     check_then (validate_hold_level (sm_importance sm) ''importance'') (\<lambda>_.
     check_then (validate_hold_level (sm_impact sm) ''impact'') (\<lambda>_.
     check_then (validate_proposal_labels (sm_labels sm)) (\<lambda>labels.
     check_then (resolve_cross_brain_target env t d (sm_kind sm) (sm_action sm) (sm_bot_id sm)
                   (sm_owner_sub sm)) (\<lambda>(cross, action).
     check_then (extract_proposal_target action) (\<lambda>(target_id, action_type).
     check_then (extract_proposal_dedup_field action) (\<lambda>dedup_field.
     check_then (classify_proposal (pe_supported_kinds env) (sm_kind sm)
                   (pe_classify env (sm_kind sm) action)) (\<lambda>priority.
     check_then (submitted_fingerprint (safe_fingerprint (pe_fingerprint env t
                   (submit_context sm cross action target_id action_type)))) (\<lambda>fingerprint.
     Inr \<lparr>ck_cross = cross, ck_action = action, ck_target_id = target_id,
          ck_action_type = action_type, ck_dedup_field = dedup_field, ck_priority = priority,
          ck_fingerprint = fingerprint, ck_labels = labels\<rparr>)))))))))"

section \<open>Submission: rate limit\<close>

definition submission_attempts :: "pdb \<Rightarrow> string \<Rightarrow> int \<Rightarrow> nat" where
  "submission_attempts d bot_id window_start =
     length (filter (\<lambda>a. al_actor_sub a = bot_id \<and> al_action a = ''proposal.submission_attempt'' \<and>
                         al_at a > window_start) (pd_audit d))"

definition rate_limit_segment ::
  "proposal_env \<Rightarrow> nat \<Rightarrow> pdb \<Rightarrow> submission \<Rightarrow> checked \<Rightarrow> pdb \<times> proposal_pc" where
  "rate_limit_segment env t d sm ck =
     (let limit = proposal_rate_limit_for (pe_rate_limits env) (Some (sm_bot_id sm));
          window_start = pe_clock env t 1 - proposal_rate_limit_window
      in if submission_attempts d (sm_bot_id sm) window_start \<ge> limit
         then commit_to env t d
           (add_proposal_audit (pe_clock env t 0) (sm_bot_id sm) ''denied.proposal_rate_limited''
             (JObj [(''limit'', JStr ''proposals_per_bot_per_window''), (''max'', JInt (int limit))]) d)
           (Done (Inl (ProposalRateLimited (''rate_limited: at most '' @ dec limit @ '' proposals per 60s per bot'')
             ''proposals_per_bot_per_window'')))
         else commit_to env t d
           (add_proposal_audit (pe_clock env t 0) (sm_bot_id sm) ''proposal.submission_attempt'' JNull d)
           (AtDedup ck))"

section \<open>Submission: deduplication\<close>

definition submitted_key :: "submission \<Rightarrow> checked \<Rightarrow> dedup_columns" where
  "submitted_key sm ck = (sm_kind sm, sm_bot_id sm, Some (ck_target_id ck), Some (ck_action_type ck),
     cross_target (ck_cross ck), ck_dedup_field ck)"

text \<open>The first live row, oldest first, that \<open>_proposal_dedup_where\<close> selects.\<close>

definition dedup_select :: "pdb \<Rightarrow> submission \<Rightarrow> checked \<Rightarrow> proposal_hold option" where
  "dedup_select d sm ck =
     (case oldest_first (filter (\<lambda>h. live h \<and> dedup_key h = submitted_key sm ck) (pd_holds d)) of
        [] \<Rightarrow> None | h # hs \<Rightarrow> Some h)"

text \<open>\<open>_apply_proposal_resubmission\<close> on the object in memory.\<close>

definition resubmitted :: "submission \<Rightarrow> checked \<Rightarrow> proposal_hold \<Rightarrow> proposal_hold" where
  "resubmitted sm ck h = h\<lparr>ph_action := ck_action ck, ph_rationale := sm_rationale sm,
     ph_confidence := sm_confidence sm, ph_importance := sm_importance sm, ph_impact := sm_impact sm,
     ph_priority := ck_priority ck, ph_fingerprint := ck_fingerprint ck,
     ph_sender_agent_id := (case sm_sender_agent_id sm of None \<Rightarrow> ph_sender_agent_id h | Some i \<Rightarrow> Some i),
     ph_cross_brain := ck_cross ck, ph_approvals := None, ph_labels := ck_labels ck\<rparr>"

text \<open>The columns the \<open>UPDATE\<close> sets: those whose value in memory differs from the one loaded.\<close>

definition upd :: "'a \<Rightarrow> 'a \<Rightarrow> 'a \<Rightarrow> 'a" where
  "upd loaded new current = (if new = loaded then current else new)"

definition resubmission_update :: "proposal_hold \<Rightarrow> proposal_hold \<Rightarrow> proposal_hold \<Rightarrow> proposal_hold" where
  "resubmission_update l n r = r\<lparr>
     ph_action := upd (ph_action l) (ph_action n) (ph_action r),
     ph_rationale := upd (ph_rationale l) (ph_rationale n) (ph_rationale r),
     ph_confidence := upd (ph_confidence l) (ph_confidence n) (ph_confidence r),
     ph_importance := upd (ph_importance l) (ph_importance n) (ph_importance r),
     ph_impact := upd (ph_impact l) (ph_impact n) (ph_impact r),
     ph_priority := upd (ph_priority l) (ph_priority n) (ph_priority r),
     ph_fingerprint := upd (ph_fingerprint l) (ph_fingerprint n) (ph_fingerprint r),
     ph_sender_agent_id := upd (ph_sender_agent_id l) (ph_sender_agent_id n) (ph_sender_agent_id r),
     ph_cross_brain := upd (ph_cross_brain l) (ph_cross_brain n) (ph_cross_brain r),
     ph_approvals := upd (ph_approvals l) (ph_approvals n) (ph_approvals r),
     ph_labels := upd (ph_labels l) (ph_labels n) (ph_labels r)\<rparr>"

definition new_proposal :: "proposal_env \<Rightarrow> nat \<Rightarrow> nat \<Rightarrow> submission \<Rightarrow> checked \<Rightarrow> proposal_hold" where
  "new_proposal env t i sm ck =
     \<lparr>ph_id = i, ph_sender_agent_id = sm_sender_agent_id sm, ph_kind = sm_kind sm,
      ph_bot_id = sm_bot_id sm, ph_log_seq = 0, ph_owner_sub = sm_owner_sub sm,
      ph_action = ck_action ck, ph_rationale = sm_rationale sm, ph_confidence = sm_confidence sm,
      ph_importance = sm_importance sm, ph_impact = sm_impact sm, ph_priority = ck_priority ck,
      ph_status = PhPending, ph_decision_source = None, ph_decided_by = None, ph_decided_at = None,
      ph_decision_note = None, ph_reason_code = None, ph_fingerprint = ck_fingerprint ck,
      ph_applied_at = None, ph_apply_error = None, ph_apply_result = None,
      ph_cross_brain = ck_cross ck, ph_approvals = None, ph_labels = ck_labels ck,
      ph_created_at = pe_clock env t 0\<rparr>"

text \<open>
  The write of \<open>_dedup_or_insert_proposal\<close> and the commit after it. Without an existing row the
  \<open>INSERT\<close> meets the partial unique index \<open>idx_proposal_holds_pending_dedup\<close>: if a live row with the
  key has appeared since the \<open>SELECT\<close>, it is rolled back and the row is read again.
\<close>

definition dedup_write ::
  "proposal_env \<Rightarrow> nat \<Rightarrow> pdb \<Rightarrow> submission \<Rightarrow> checked \<Rightarrow> proposal_hold option \<Rightarrow> pdb \<times> proposal_pc" where
  "dedup_write env t d sm ck existing =
     (case existing of
        Some h \<Rightarrow>
          if ph_status h = PhPending
          then commit_to env t d (write_proposal (ph_id h) (resubmission_update h (resubmitted sm ck h)) d)
                 (AtJudge ck (resubmitted sm ck h))
          else commit_to env t d d (AtJudge ck h)
      | None \<Rightarrow>
          let h = new_proposal env t (pd_next_id d) sm ck in
          if dedup_key h \<in> set (map dedup_key (filter live (pd_holds d))) then
            (case dedup_select d sm ck of
               None \<Rightarrow> (d, Done (Inl ProposalDatabaseError))
             | Some h' \<Rightarrow> (d, AtWrite ck (Some h')))
          else commit_to env t d ((insert_proposal h d)\<lparr>pd_next_id := Suc (pd_next_id d)\<rparr>) (AtJudge ck h))"

section \<open>Submission: judging\<close>

definition hold_context :: "proposal_hold \<Rightarrow> string \<Rightarrow> string \<Rightarrow> proposal_context" where
  "hold_context h target_id action_type =
     \<lparr>pc_kind = ph_kind h, pc_action = ph_action h, pc_target_id = target_id,
      pc_action_type = action_type, pc_rationale = ph_rationale h, pc_bot_id = ph_bot_id h,
      pc_owner_sub = ph_owner_sub h, pc_hold_id = Some (ph_id h),
      pc_cross_brain_target_sub = map_option cb_target_sub (ph_cross_brain h)\<rparr>"

text \<open>The context \<open>create_proposal\<close> passes: kind, bot and owner of the submission.\<close>

definition judge_context :: "submission \<Rightarrow> checked \<Rightarrow> proposal_hold \<Rightarrow> proposal_context" where
  "judge_context sm ck h = (hold_context h (ck_target_id ck) (ck_action_type ck))
     \<lparr>pc_kind := sm_kind sm, pc_bot_id := sm_bot_id sm, pc_owner_sub := sm_owner_sub sm\<rparr>"

definition judge_segment ::
  "proposal_env \<Rightarrow> nat \<Rightarrow> pdb \<Rightarrow> submission \<Rightarrow> checked \<Rightarrow> proposal_hold \<Rightarrow> pdb \<times> proposal_pc" where
  "judge_segment env t d sm ck h =
     (case judge_verdict (pe_judge env t (judge_context sm ck h)) of
        None \<Rightarrow> (d, Done (Inl ProposalCancelled))
      | Some jd \<Rightarrow> (d, if jd_error jd then AtJudgeNote ck h jd else AtVerdict ck h jd))"

text \<open>The note of a failed judge, written without a lock or a look at the status.\<close>

definition judge_note_segment ::
  "proposal_env \<Rightarrow> nat \<Rightarrow> pdb \<Rightarrow> checked \<Rightarrow> proposal_hold \<Rightarrow> judged \<Rightarrow> pdb \<times> proposal_pc" where
  "judge_note_segment env t d ck h jd =
     commit_to env t d
       (write_proposal (ph_id h)
          (\<lambda>r. r\<lparr>ph_decision_note := upd (ph_decision_note h) (jd_note jd) (ph_decision_note r)\<rparr>) d)
       (AtVerdict ck h jd)"

text \<open>
  After the refresh: the cross-brain rule, then the kill switch, the cap, or directly the claim. A
  cross-brain proposal keeps its approval only when the verdict names an allowed rule.
\<close>

definition stand_in_rule :: "proposal_env \<Rightarrow> nat \<Rightarrow> checked \<Rightarrow> judged \<Rightarrow> string option" where
  "stand_in_rule env t ck jd =
     (if ck_cross ck \<noteq> None \<and> jd_approved jd then
        (case jd_rule jd of
           JStr r \<Rightarrow> if r \<in> set (cross_brain_auto_rules (pe_auto_rules env t)) then Some r else None
         | _ \<Rightarrow> None)
      else None)"

definition bot_result :: "proposal_hold \<Rightarrow> proposal_pc" where
  "bot_result h = Done (Inr (bot_facing_proposal_dict h))"

text \<open>A hold that has vanished is the \<open>AssertionError\<close> of the code.\<close>

definition with_hold ::
  "pdb \<Rightarrow> nat \<Rightarrow> (proposal_hold \<Rightarrow> pdb \<times> proposal_pc) \<Rightarrow> pdb \<times> proposal_pc" where
  "with_hold d i f = (case proposal_by_id i d of
      None \<Rightarrow> (d, Done (Inl (ProposalInvariantViolation ''hold vanished'')))
    | Some h \<Rightarrow> f h)"

definition verdict_segment ::
  "proposal_env \<Rightarrow> nat \<Rightarrow> pdb \<Rightarrow> checked \<Rightarrow> proposal_hold \<Rightarrow> judged \<Rightarrow> pdb \<times> proposal_pc" where
  "verdict_segment env t d ck judged jd =
     with_hold d (ph_id judged) (\<lambda>h.
       let auto_rule = stand_in_rule env t ck jd;
           approved = (jd_approved jd \<and> (ck_cross ck = None \<or> auto_rule \<noteq> None));
           args = \<lparr>cl_note = jd_note jd, cl_judged = judged, cl_auto_rule = auto_rule,
                   cl_action_type = ck_action_type ck, cl_rule = jd_rule jd\<rparr>
       in if \<not> approved then (d, bot_result h)
          else if parse_proposal_auto_approve_kill_switch (pe_kill_switch env) then (d, AtKill h ck jd)
          else case proposal_auto_approve_daily_cap_for
                      (parse_proposal_auto_approve_daily_caps (pe_daily_caps env)) (ck_action_type ck) of
              Some cap \<Rightarrow> (d, AtCap cap args)
            | None \<Rightarrow> (d, if ph_status h = PhPending then AtClaim args else bot_result h))"

text \<open>Holding a pending row for human review: its note, and the audited denial.\<close>

definition hold_for_review :: "int \<Rightarrow> proposal_hold \<Rightarrow> string \<Rightarrow> (string \<times> json) list \<Rightarrow> pdb \<Rightarrow> pdb" where
  "hold_for_review at h note detail d =
     add_proposal_audit at (ph_bot_id h) ''denied.proposal_auto_approve'' (JObj detail)
       (write_proposal (ph_id h) (\<lambda>r. r\<lparr>ph_decision_note := Some note\<rparr>) d)"

text \<open>Commit, refresh, and return what the bot may see.\<close>

definition commit_and_show ::
  "proposal_env \<Rightarrow> nat \<Rightarrow> pdb \<Rightarrow> pdb \<Rightarrow> nat \<Rightarrow> pdb \<times> proposal_pc" where
  "commit_and_show env t d d' i =
     commit_to env t d d' (case proposal_by_id i d' of
        None \<Rightarrow> Done (Inl (ProposalInvariantViolation ''hold vanished''))
      | Some h \<Rightarrow> bot_result h)"

definition kill_segment ::
  "proposal_env \<Rightarrow> nat \<Rightarrow> pdb \<Rightarrow> proposal_hold \<Rightarrow> checked \<Rightarrow> judged \<Rightarrow> pdb \<times> proposal_pc" where
  "kill_segment env t d refreshed ck jd =
     with_hold d (ph_id refreshed) (\<lambda>h.
       if ph_status h \<noteq> PhPending then commit_to env t d d (bot_result h)
       else commit_and_show env t d
         (hold_for_review (pe_clock env t 0) h ''auto-approval is globally disabled; held for human review''
            [(''rule'', JStr ''auto_approve.kill_switch''), (''original_rule'', jd_rule jd),
             (''action_type'', JStr (ck_action_type ck)), (''hold_id'', JId (ph_id h)),
             (''reason'', JStr ''kill_switch'')] d)
         (ph_id h))"

section \<open>The claim\<close>

text \<open>\<open>_proposal_resubmission_snapshot\<close>: JSON values are compared as Python compares them.\<close>

primrec json_norm :: "json \<Rightarrow> json" where
  "json_norm JNull = JNull"
| "json_norm (JBool b) = JInt (if b then 1 else 0)"
| "json_norm (JInt n) = JInt n"
| "json_norm (JFloat x) = JFloat x"
| "json_norm (JStr s) = JStr s"
| "json_norm (JId n) = JId n"
| "json_norm (JList xs) = JList (map json_norm xs)"
| "json_norm (JObj kvs) = JObj (sorted_by fst (map (map_prod id json_norm) kvs))"

definition resubmission_snapshot ::
  "proposal_hold \<Rightarrow> json \<times> string \<times> string \<times> string \<times> string \<times> string \<times> string \<times> json option" where
  "resubmission_snapshot h = (json_norm (JObj (ph_action h)), ph_rationale h, ph_confidence h,
     ph_importance h, ph_impact h, ph_priority h, ph_fingerprint h,
     map_option (\<lambda>ls. json_norm (labels_json ls)) (ph_labels h))"

definition claimed_by ::
  "string \<Rightarrow> decision_source \<Rightarrow> int \<Rightarrow> string option \<Rightarrow> string option \<Rightarrow> proposal_hold \<Rightarrow> proposal_hold" where
  "claimed_by actor source at note code h = h\<lparr>ph_status := PhApplying, ph_decision_source := Some source,
     ph_decided_by := Some actor, ph_decided_at := Some at, ph_decision_note := note,
     ph_reason_code := code\<rparr>"

definition judge_decided_by :: string where
  "judge_decided_by = ''system:judge''"

text \<open>\<open>_claim_proposal_hold_for_applying\<close>, as \<open>create_proposal\<close> calls it.\<close>

definition auto_claimed :: "int \<Rightarrow> claim_args \<Rightarrow> proposal_hold \<Rightarrow> proposal_hold" where
  "auto_claimed at args h =
     (claimed_by judge_decided_by ByAuto at (cl_note args) (ph_reason_code h) h)
       \<lparr>ph_cross_brain := (case (cl_auto_rule args, ph_cross_brain h) of
           (Some r, Some c) \<Rightarrow> Some (c\<lparr>cb_auto_rule := Some r\<rparr>)
         | _ \<Rightarrow> ph_cross_brain h)\<rparr>"

definition claim_audits :: "int \<Rightarrow> claim_args \<Rightarrow> proposal_hold \<Rightarrow> pdb \<Rightarrow> pdb" where
  "claim_audits at args h d =
     (let d1 = (case (cl_auto_rule args, ph_cross_brain h) of
            (Some r, Some c) \<Rightarrow> add_proposal_audit at judge_decided_by ''proposal.cross_brain_auto_approved''
               (JObj [(''hold_id'', JId (ph_id h)), (''rule'', JStr r)]) d
          | _ \<Rightarrow> d)
      in add_proposal_audit at judge_decided_by ''proposal.auto_approved''
           (JObj [(''action_type'', JStr (cl_action_type args)), (''rule'', cl_rule args),
                  (''hold_id'', JId (ph_id h))]) d1)"

definition auto_job :: "nat \<Rightarrow> string option \<Rightarrow> apply_job" where
  "auto_job i note = \<lparr>aj_hold = i, aj_actor = judge_decided_by, aj_source = ByAuto, aj_note = note,
     aj_code = None\<rparr>"

definition claim_segment ::
  "proposal_env \<Rightarrow> nat \<Rightarrow> pdb \<Rightarrow> int \<Rightarrow> claim_args \<Rightarrow> pdb \<times> proposal_pc" where
  "claim_segment env t d at args =
     with_hold d (ph_id (cl_judged args)) (\<lambda>h.
       if ph_status h \<noteq> PhPending \<or> resubmission_snapshot h \<noteq> resubmission_snapshot (cl_judged args)
       then commit_to env t d d (bot_result h)
       else commit_to env t d
         (claim_audits at args h (write_proposal (ph_id h) (auto_claimed at args) d))
         (AtCheck (auto_job (ph_id h) (cl_note args))))"

text \<open>The daily cap: counted over the audit log, under the action type's advisory lock.\<close>

definition auto_approvals_since :: "pdb \<Rightarrow> string \<Rightarrow> int \<Rightarrow> nat" where
  "auto_approvals_since d action_type day_start =
     length (filter (\<lambda>a. al_action a = ''proposal.auto_approved'' \<and>
                         json_get (al_detail a) ''action_type'' = Some (JStr action_type) \<and>
                         al_at a \<ge> day_start) (pd_audit d))"

definition cap_segment ::
  "proposal_env \<Rightarrow> nat \<Rightarrow> pdb \<Rightarrow> nat \<Rightarrow> claim_args \<Rightarrow> pdb \<times> proposal_pc" where
  "cap_segment env t d cap args =
     (if pe_cap_query_fails env t then (d, AtCapFailed args)
      else with_hold d (ph_id (cl_judged args)) (\<lambda>h.
        if ph_status h \<noteq> PhPending then commit_to env t d d (bot_result h)
        else
          let db_now = pe_clock env t 1;
              count = auto_approvals_since d (cl_action_type args) (utc_day_start db_now)
          in if count \<ge> cap then
               (let d' = hold_for_review (pe_clock env t 0) h
                      (''daily auto-approval cap reached for '' @ cl_action_type args @ ''; held for human review'')
                      [(''rule'', JStr (''auto_approve.cap_exhausted.'' @ cl_action_type args)),
                       (''original_rule'', cl_rule args), (''action_type'', JStr (cl_action_type args)),
                       (''hold_id'', JId (ph_id h)), (''cap'', JInt (int cap)), (''count'', JInt (int count)),
                       (''reason'', JStr ''cap_exhausted'')] d
                in case pe_commit env t of
                     CommitRaised stored \<Rightarrow> (if stored then d' else d, AtCapFailed args)
                   | _ \<Rightarrow> commit_and_show env t d d' (ph_id h))
             else claim_segment env t d db_now args))"

definition cap_failed_segment ::
  "proposal_env \<Rightarrow> nat \<Rightarrow> pdb \<Rightarrow> claim_args \<Rightarrow> pdb \<times> proposal_pc" where
  "cap_failed_segment env t d args =
     with_hold d (ph_id (cl_judged args)) (\<lambda>h.
       if ph_status h \<noteq> PhPending then commit_to env t d d (bot_result h)
       else commit_and_show env t d
         (hold_for_review (pe_clock env t 0) h
            (''daily auto-approval cap check failed for '' @ cl_action_type args @ ''; held for human review'')
            [(''rule'', JStr ''auto_approve.cap_check_failed''), (''original_rule'', cl_rule args),
             (''action_type'', JStr (cl_action_type args)), (''hold_id'', JId (ph_id h)),
             (''reason'', JStr ''cap_check_failed'')] d)
         (ph_id h))"

section \<open>The apply\<close>

definition required_owners :: "proposal_hold \<Rightarrow> string list" where
  "required_owners h =
     (case ph_cross_brain h of
        None \<Rightarrow> [ph_owner_sub h]
      | Some c \<Rightarrow> if cb_required_owner_subs c = [] then [ph_owner_sub h] else cb_required_owner_subs c)"

definition approvals_of :: "proposal_hold \<Rightarrow> owner_approval list" where
  "approvals_of h = (case ph_approvals h of None \<Rightarrow> [] | Some as \<Rightarrow> as)"

definition all_approved :: "string list \<Rightarrow> owner_approval list \<Rightarrow> bool" where
  "all_approved required as = list_all (\<lambda>r. r \<in> set (map oa_sub as)) required"

definition cross_brain_unapproved :: "proposal_env \<Rightarrow> nat \<Rightarrow> decision_source \<Rightarrow> proposal_hold \<Rightarrow> bool" where
  "cross_brain_unapproved env t source h =
     (case ph_cross_brain h of
        None \<Rightarrow> False
      | Some c \<Rightarrow>
          \<not> ((source = ByHuman \<and> all_approved (required_owners h) (approvals_of h)) \<or>
             (source = ByAuto \<and> (case cb_auto_rule c of None \<Rightarrow> False
                | Some r \<Rightarrow> r \<in> set (cross_brain_auto_rules (pe_auto_rules env t))))))"

definition failed_resolution :: "string \<Rightarrow> string \<Rightarrow> string \<Rightarrow> resolution" where
  "failed_resolution target_id err raw = \<lparr>rs_target_id = target_id, rs_stale = False, rs_error = Some err,
     rs_raw_error = Some raw, rs_result = None, rs_indeterminate = False, rs_cancelled = False\<rparr>"

definition log_or_detail :: "string option \<Rightarrow> string \<Rightarrow> string" where
  "log_or_detail log detail = (case log of None \<Rightarrow> detail | Some s \<Rightarrow> if s = [] then detail else s)"

text \<open>The unlocked read, the defence-in-depth check of the approvals, and the fingerprint.\<close>

definition check_segment ::
  "proposal_env \<Rightarrow> nat \<Rightarrow> pdb \<Rightarrow> apply_job \<Rightarrow> pdb \<times> proposal_pc" where
  "check_segment env t d job =
     with_hold d (aj_hold job) (\<lambda>h.
       case extract_proposal_target (ph_action h) of
         Inl e \<Rightarrow> (d, Done (Inl e))
       | Inr (target_id, action_type) \<Rightarrow>
           let ctx = hold_context h target_id action_type;
               missing = ''cross-brain proposal is missing a required owner approval''
           in if cross_brain_unapproved env t (aj_source job) h
              then (d, AtFinalize job (failed_resolution target_id missing missing))
              else case safe_fingerprint (pe_fingerprint env t ctx) of
                  None \<Rightarrow> (d, AtFinalize job
                    ((failed_resolution target_id apply_error_cancelled_message cancellation_apply_error)
                       \<lparr>rs_cancelled := True\<rparr>))
                | Some (FpDigest digest) \<Rightarrow>
                    if digest \<noteq> ph_fingerprint h
                    then (d, AtFinalize job \<lparr>rs_target_id = target_id, rs_stale = True, rs_error = None,
                           rs_raw_error = None, rs_result = None, rs_indeterminate = False,
                           rs_cancelled = False\<rparr>)
                    else (d, AtApply job ctx h)
                | Some FpNoTarget \<Rightarrow> (d, AtApply job ctx h)
                | Some (FpUnavailable e) \<Rightarrow>
                    (d, AtFinalize job (failed_resolution target_id (te_detail e)
                       (log_or_detail (te_log_detail e) (te_detail e)))))"

definition or_empty :: "string option \<Rightarrow> string" where
  "or_empty x = (case x of None \<Rightarrow> [] | Some s \<Rightarrow> s)"

definition applied_resolution :: "string \<Rightarrow> apply_outcome option \<Rightarrow> resolution" where
  "applied_resolution target_id outcome =
     (case outcome of
        None \<Rightarrow> \<lparr>rs_target_id = target_id, rs_stale = False, rs_error = Some apply_error_cancelled_message,
          rs_raw_error = Some cancellation_apply_error, rs_result = None, rs_indeterminate = True,
          rs_cancelled = True\<rparr>
      | Some oc \<Rightarrow>
          if ao_applied oc
          then \<lparr>rs_target_id = target_id, rs_stale = False, rs_error = None, rs_raw_error = None,
                rs_result = ao_result oc, rs_indeterminate = False, rs_cancelled = False\<rparr>
          else \<lparr>rs_target_id = target_id, rs_stale = False, rs_error = ao_caller_error oc,
                rs_raw_error = Some (log_or_detail (ao_log_detail oc) (or_empty (ao_caller_error oc))),
                rs_result = None, rs_indeterminate = ao_indeterminate oc, rs_cancelled = False\<rparr>)"

text \<open>The call of \<open>judge.apply\<close>, the only external write: its outcome decides what is to be recorded.\<close>

definition apply_result_of :: "proposal_env \<Rightarrow> nat \<Rightarrow> proposal_context \<Rightarrow> apply_outcome option" where
  "apply_result_of env t ctx = safe_apply (pe_apply env t ctx)"

definition apply_segment :: "proposal_env \<Rightarrow> nat \<Rightarrow> apply_job \<Rightarrow> proposal_context \<Rightarrow> proposal_pc" where
  "apply_segment env t job ctx =
     AtFinalize job (applied_resolution (pc_target_id ctx) (apply_result_of env t ctx))"

text \<open>
  The terminal write: every branch stamps the decision again; an indeterminate outcome leaves the
  status alone.
\<close>

definition decision_stamped :: "int \<Rightarrow> apply_job \<Rightarrow> proposal_hold \<Rightarrow> proposal_hold" where
  "decision_stamped at job h = h\<lparr>ph_decision_source := Some (aj_source job),
     ph_decided_by := Some (aj_actor job), ph_decided_at := Some at, ph_decision_note := aj_note job,
     ph_reason_code := aj_code job\<rparr>"

definition finalized :: "int \<Rightarrow> int \<Rightarrow> apply_job \<Rightarrow> resolution \<Rightarrow> proposal_hold \<Rightarrow> proposal_hold" where
  "finalized at at' job rs h =
     (let s = decision_stamped at job h in
      if rs_indeterminate rs then s\<lparr>ph_apply_error := Some apply_error_indeterminate_message\<rparr>
      else if rs_stale rs
      then s\<lparr>ph_status := PhStale, ph_decision_note := Some (stale_decision_note (aj_note job))\<rparr>
      else case rs_error rs of
          Some e \<Rightarrow> s\<lparr>ph_status := PhApplyFailed, ph_apply_error := Some e\<rparr>
        | None \<Rightarrow> s\<lparr>ph_status := PhApplied, ph_applied_at := Some at', ph_apply_error := None,
            ph_apply_result := (case rs_result rs of None \<Rightarrow> ph_apply_result h | Some r \<Rightarrow> Some r)\<rparr>)"

definition outcome_detail :: "apply_job \<Rightarrow> resolution \<Rightarrow> bool \<Rightarrow> json" where
  "outcome_detail job rs with_error = JObj ([(''hold_id'', JId (aj_hold job)),
     (''target_id'', JStr (rs_target_id rs))]
     @ (if with_error then [(''error'', json_opt_str (rs_raw_error rs))] else [])
     @ opt_entry ''decision_reason_code'' JStr (aj_code job))"

definition outcome_audit :: "int \<Rightarrow> apply_job \<Rightarrow> resolution \<Rightarrow> pdb \<Rightarrow> pdb" where
  "outcome_audit at job rs d =
     (if rs_indeterminate rs
      then add_proposal_audit at (aj_actor job) ''proposal.apply_indeterminate''
        (JObj [(''hold_id'', JId (aj_hold job)), (''target_id'', JStr (rs_target_id rs)),
               (''error'', json_opt_str (rs_raw_error rs))]) d
      else if rs_stale rs
      then add_proposal_audit at (aj_actor job) ''proposal.stale'' (outcome_detail job rs False) d
      else if rs_error rs \<noteq> None
      then add_proposal_audit at (aj_actor job) ''proposal.apply_failed'' (outcome_detail job rs True) d
      else add_proposal_audit at (aj_actor job) ''proposal.applied'' (outcome_detail job rs False) d)"

text \<open>What the caller of the helper gets: the row for the human, the redacted row for the bot.\<close>

definition job_result :: "apply_job \<Rightarrow> proposal_hold \<Rightarrow> proposal_pc" where
  "job_result job h =
     (if aj_source job = ByHuman then Done (Inr (proposal_dict h))
      else Done (Inr (redact_bot_facing_dict (ph_decision_source h) (proposal_dict h))))"

definition cancelled_or :: "resolution \<Rightarrow> proposal_pc \<Rightarrow> proposal_pc" where
  "cancelled_or rs pc = (if rs_cancelled rs then Done (Inl ProposalCancelled) else pc)"

definition finalize_segment ::
  "proposal_env \<Rightarrow> nat \<Rightarrow> pdb \<Rightarrow> apply_job \<Rightarrow> resolution \<Rightarrow> pdb \<times> proposal_pc" where
  "finalize_segment env t d job rs =
     with_hold d (aj_hold job) (\<lambda>h.
       if ph_status h \<noteq> PhApplying then commit_to env t d d (cancelled_or rs (AtLost job))
       else
         let f = finalized (pe_clock env t 1) (pe_clock env t 2) job rs;
             d' = outcome_audit (pe_clock env t 0) job rs (write_proposal (aj_hold job) f d)
         in case pe_commit env t of
              CommitRaised stored \<Rightarrow>
                (if stored then d' else d,
                 if rs_indeterminate rs then AtIndeterminate job rs else AtRecovery job rs (f h))
            | _ \<Rightarrow> commit_to env t d d' (cancelled_or rs
                (case proposal_by_id (aj_hold job) d' of
                   None \<Rightarrow> Done (Inl (ProposalInvariantViolation ''hold vanished''))
                 | Some h' \<Rightarrow> job_result job h')))"

text \<open>The commit of an indeterminate outcome failed: an audit row is attempted, the row left alone.\<close>

definition indeterminate_segment ::
  "proposal_env \<Rightarrow> nat \<Rightarrow> pdb \<Rightarrow> apply_job \<Rightarrow> resolution \<Rightarrow> pdb \<times> proposal_pc" where
  "indeterminate_segment env t d job rs =
     (let d' = add_proposal_audit (pe_clock env t 0) (aj_actor job) ''proposal.apply_indeterminate_commit_failed''
            (JObj [(''hold_id'', JId (aj_hold job)), (''target_id'', JStr (rs_target_id rs)),
                   (''error'', JStr ''commit failed'')]) d
      in case pe_commit env t of
           Committed \<Rightarrow> (d', cancelled_or rs (AtLost job))
         | CommitRaised stored \<Rightarrow> (if stored then d' else d, cancelled_or rs (AtLost job))
         | CommitInterrupted stored \<Rightarrow> (if stored then d' else d, Done (Inl ProposalCancelled)))"

text \<open>
  The recovery write puts the terminal values captured before the failed commit back, if the row is
  still being applied.
\<close>

definition recovered :: "apply_job \<Rightarrow> proposal_hold \<Rightarrow> proposal_hold \<Rightarrow> proposal_hold" where
  "recovered job terminal h = h\<lparr>ph_status := ph_status terminal, ph_apply_error := ph_apply_error terminal,
     ph_apply_result := (case ph_apply_result terminal of None \<Rightarrow> ph_apply_result h | Some r \<Rightarrow> Some r),
     ph_applied_at := ph_applied_at terminal, ph_decision_source := Some (aj_source job),
     ph_decided_by := Some (aj_actor job), ph_decided_at := ph_decided_at terminal,
     ph_decision_note := ph_decision_note terminal, ph_reason_code := ph_reason_code terminal\<rparr>"

definition terminal_audit :: "int \<Rightarrow> apply_job \<Rightarrow> resolution \<Rightarrow> proposal_hold \<Rightarrow> pdb \<Rightarrow> pdb" where
  "terminal_audit at job rs terminal d =
     add_proposal_audit at (aj_actor job)
       (if ph_status terminal = PhApplied then ''proposal.applied''
        else if ph_status terminal = PhStale then ''proposal.stale'' else ''proposal.apply_failed'')
       (outcome_detail job rs (ph_status terminal = PhApplyFailed)) d"

definition database_error :: "resolution \<Rightarrow> proposal_pc" where
  "database_error rs = cancelled_or rs (Done (Inl ProposalDatabaseError))"

definition recovery_segment ::
  "proposal_env \<Rightarrow> nat \<Rightarrow> pdb \<Rightarrow> apply_job \<Rightarrow> resolution \<Rightarrow> proposal_hold \<Rightarrow> pdb \<times> proposal_pc" where
  "recovery_segment env t d job rs terminal =
     (case proposal_by_id (aj_hold job) d of
        None \<Rightarrow> (d, database_error rs)
      | Some h \<Rightarrow>
          if ph_status h \<noteq> PhApplying then (d, database_error rs)
          else
            let d' = terminal_audit (pe_clock env t 0) job rs terminal
                       (write_proposal (aj_hold job) (recovered job terminal) d)
            in case pe_commit env t of
                 CommitRaised stored \<Rightarrow> (if stored then d' else d, AtLastDitch job rs terminal)
               | _ \<Rightarrow> commit_to env t d d' (cancelled_or rs
                   (case proposal_by_id (aj_hold job) d' of
                      None \<Rightarrow> Done (Inl (ProposalInvariantViolation ''hold vanished''))
                    | Some h' \<Rightarrow> job_result job h')))"

text \<open>The last-ditch write: a failure is recorded as the board's own, any other outcome as it is.\<close>

definition last_ditch :: "apply_job \<Rightarrow> proposal_hold \<Rightarrow> proposal_hold \<Rightarrow> proposal_hold" where
  "last_ditch job terminal h =
     (if ph_status terminal = PhApplyFailed
      then h\<lparr>ph_status := PhApplyFailed, ph_apply_error := Some board_commit_failure_message,
             ph_applied_at := None, ph_apply_result := None\<rparr>
      else recovered job terminal h)"

definition last_ditch_audit :: "int \<Rightarrow> apply_job \<Rightarrow> resolution \<Rightarrow> proposal_hold \<Rightarrow> pdb \<Rightarrow> pdb" where
  "last_ditch_audit at job rs terminal d =
     terminal_audit at job
       (if ph_status terminal = PhApplyFailed then rs\<lparr>rs_raw_error := Some board_commit_failure_message\<rparr>
        else rs) terminal d"

definition last_ditch_segment ::
  "proposal_env \<Rightarrow> nat \<Rightarrow> pdb \<Rightarrow> apply_job \<Rightarrow> resolution \<Rightarrow> proposal_hold \<Rightarrow> pdb \<times> proposal_pc" where
  "last_ditch_segment env t d job rs terminal =
     (case proposal_by_id (aj_hold job) d of
        None \<Rightarrow> (d, database_error rs)
      | Some h \<Rightarrow>
          if ph_status h \<noteq> PhApplying then (d, database_error rs)
          else
            let d' = last_ditch_audit (pe_clock env t 0) job rs terminal
                       (write_proposal (aj_hold job) (last_ditch job terminal) d)
            in case pe_commit env t of
                 Committed \<Rightarrow> (d', database_error rs)
               | CommitRaised stored \<Rightarrow> (if stored then d' else d, database_error rs)
               | CommitInterrupted stored \<Rightarrow> (if stored then d' else d, Done (Inl ProposalCancelled)))"

text \<open>The helper returned \<open>None\<close>: the bot is shown the current row, the human is refused.\<close>

definition lost_segment :: "proposal_env \<Rightarrow> nat \<Rightarrow> pdb \<Rightarrow> apply_job \<Rightarrow> pdb \<times> proposal_pc" where
  "lost_segment env t d job =
     with_hold d (aj_hold job) (\<lambda>h. commit_to env t d d
       (if aj_source job = ByHuman then Done (Inl (ProposalAlreadyDecided (ph_status h))) else bot_result h))"

section \<open>The decision\<close>

text \<open>Either the decision is refused, or the row the owner may decide.\<close>

definition decision_note_missing :: "string option \<Rightarrow> string option \<Rightarrow> bool" where
  "decision_note_missing note code =
     (\<not> ((case note of None \<Rightarrow> False | Some s \<Rightarrow> str_strip s \<noteq> []) \<or>
         (case code of None \<Rightarrow> False | Some c \<Rightarrow> c \<noteq> ''other'')))"

definition rejected_by :: "string \<Rightarrow> int \<Rightarrow> string option \<Rightarrow> string option \<Rightarrow> proposal_hold \<Rightarrow> proposal_hold" where
  "rejected_by actor at note code h = h\<lparr>ph_status := PhRejected, ph_decision_source := Some ByHuman,
     ph_decided_by := Some actor, ph_decided_at := Some at, ph_decision_note := note,
     ph_reason_code := code\<rparr>"

definition decision_detail :: "nat \<Rightarrow> string option \<Rightarrow> json" where
  "decision_detail i code = JObj ((''hold_id'', JId i) # opt_entry ''decision_reason_code'' JStr code)"

text \<open>The approvals after this owner's: approving again changes nothing.\<close>

definition with_approval ::
  "string \<Rightarrow> int \<Rightarrow> string option \<Rightarrow> string option \<Rightarrow> proposal_hold \<Rightarrow> owner_approval list" where
  "with_approval actor at note code h =
     (if actor \<in> set (map oa_sub (approvals_of h)) then approvals_of h
      else approvals_of h @ [\<lparr>oa_sub = actor, oa_at = at, oa_note = note, oa_reason_code = code\<rparr>])"

definition approval_recorded ::
  "string \<Rightarrow> int \<Rightarrow> string option \<Rightarrow> string option \<Rightarrow> proposal_hold \<Rightarrow> proposal_hold" where
  "approval_recorded actor at note code h =
     (if ph_cross_brain h = None \<or> actor \<in> set (map oa_sub (approvals_of h)) then h
      else h\<lparr>ph_approvals := Some (with_approval actor at note code h)\<rparr>)"

definition approval_audit :: "int \<Rightarrow> string \<Rightarrow> string option \<Rightarrow> proposal_hold \<Rightarrow> pdb \<Rightarrow> pdb" where
  "approval_audit at actor code h d =
     (if ph_cross_brain h = None \<or> actor \<in> set (map oa_sub (approvals_of h)) then d
      else add_proposal_audit at actor ''proposal.approve_partial'' (decision_detail (ph_id h) code) d)"

definition human_job :: "string \<Rightarrow> nat \<Rightarrow> string option \<Rightarrow> string option \<Rightarrow> apply_job" where
  "human_job actor i note code = \<lparr>aj_hold = i, aj_actor = actor, aj_source = ByHuman, aj_note = note,
     aj_code = code\<rparr>"

definition approve_segment ::
  "proposal_env \<Rightarrow> nat \<Rightarrow> pdb \<Rightarrow> proposal_hold \<Rightarrow> string \<Rightarrow> string option \<Rightarrow> string option \<Rightarrow>
   pdb \<times> proposal_pc" where
  "approve_segment env t d h approver note code =
     (let record = approval_recorded approver (pe_clock env t 1) note code;
          audited = approval_audit (pe_clock env t 0) approver code h
      in if ph_cross_brain h \<noteq> None \<and> \<not> all_approved (required_owners h) (approvals_of (record h))
         then
           let d' = audited (write_proposal (ph_id h) record d) in
           commit_to env t d d' (case proposal_by_id (ph_id h) d' of
               None \<Rightarrow> Done (Inl (ProposalInvariantViolation ''hold vanished''))
             | Some h' \<Rightarrow> Done (Inr (proposal_dict h')))
         else commit_to env t d
           (audited (write_proposal (ph_id h)
             (\<lambda>r. claimed_by approver ByHuman (pe_clock env t 2) note code (record r)) d))
           (AtCheck (human_job approver (ph_id h) note code)))"

definition decide_segment ::
  "proposal_env \<Rightarrow> nat \<Rightarrow> pdb \<Rightarrow> string \<Rightarrow> nat \<Rightarrow> string \<Rightarrow> string option \<Rightarrow> string option \<Rightarrow>
   pdb \<times> proposal_pc" where
  "decide_segment env t d approver hold_id decision note code =
     (case proposal_by_id hold_id d of
        None \<Rightarrow> deny_proposal env t d approver ''denied.unknown_proposal_hold'' hold_id
      | Some h \<Rightarrow>
          if approver \<notin> set (required_owners h)
          then deny_proposal env t d approver ''denied.proposal_hold_not_owner'' hold_id
          else if ph_status h = PhApplied then commit_to env t d d (Done (Inr (proposal_dict h)))
          else if ph_status h \<noteq> PhPending
          then commit_to env t d d (Done (Inl (ProposalAlreadyDecided (ph_status h))))
          else if (case code of None \<Rightarrow> False | Some c \<Rightarrow> c \<notin> set decision_reason_codes)
          then (d, Done (Inl (ProposalDecisionInvalid
                 (''decision_reason_code must be one of '' @ repr_tuple decision_reason_codes))))
          else if decision = ''reject'' then
            (if decision_note_missing note code
             then (d, Done (Inl (ProposalDecisionInvalid
               ''decision_note is required and must be non-empty to reject unless a decision_reason_code other than 'other' is supplied'')))
             else
               let d' = add_proposal_audit (pe_clock env t 0) approver ''proposal.reject''
                      (decision_detail hold_id code)
                      (write_proposal hold_id (rejected_by approver (pe_clock env t 1) note code) d)
               in commit_to env t d d' (case proposal_by_id hold_id d' of
                    None \<Rightarrow> Done (Inl (ProposalInvariantViolation ''hold vanished''))
                  | Some h' \<Rightarrow> Done (Inr (proposal_dict h'))))
          else approve_segment env t d h approver note code)"

section \<open>The submitting bot's own operations\<close>

definition load_own_proposal ::
  "proposal_env \<Rightarrow> nat \<Rightarrow> pdb \<Rightarrow> string \<Rightarrow> nat \<Rightarrow> (proposal_hold \<Rightarrow> pdb \<times> proposal_pc) \<Rightarrow>
   pdb \<times> proposal_pc" where
  "load_own_proposal env t d bot_sub hold_id f =
     (case proposal_by_id hold_id d of
        None \<Rightarrow> deny_proposal env t d bot_sub ''denied.unknown_proposal_hold'' hold_id
      | Some h \<Rightarrow>
          if ph_bot_id h \<noteq> bot_sub
          then deny_proposal env t d bot_sub ''denied.proposal_hold_not_submitter'' hold_id
          else f h)"

definition get_for_bot_segment ::
  "proposal_env \<Rightarrow> nat \<Rightarrow> pdb \<Rightarrow> string \<Rightarrow> nat \<Rightarrow> pdb \<times> proposal_pc" where
  "get_for_bot_segment env t d bot_sub hold_id =
     load_own_proposal env t d bot_sub hold_id (\<lambda>h. (d, bot_result h))"

definition withdrawn_by :: "string \<Rightarrow> int \<Rightarrow> string option \<Rightarrow> proposal_hold \<Rightarrow> proposal_hold" where
  "withdrawn_by bot_sub at reason h = h\<lparr>ph_status := PhWithdrawn, ph_decision_source := Some ByBot,
     ph_decided_by := Some bot_sub, ph_decided_at := Some at, ph_decision_note := reason\<rparr>"

definition withdraw_segment ::
  "proposal_env \<Rightarrow> nat \<Rightarrow> pdb \<Rightarrow> string \<Rightarrow> nat \<Rightarrow> string option \<Rightarrow> pdb \<times> proposal_pc" where
  "withdraw_segment env t d bot_sub hold_id reason =
     load_own_proposal env t d bot_sub hold_id (\<lambda>h.
       if ph_status h \<noteq> PhPending
       then commit_to env t d d (Done (Inl (ProposalAlreadyDecided (ph_status h))))
       else commit_and_show env t d
         (add_proposal_audit (pe_clock env t 0) bot_sub ''proposal.withdraw'' (JObj [(''hold_id'', JId hold_id)])
           (write_proposal hold_id (withdrawn_by bot_sub (pe_clock env t 1) reason) d))
         hold_id)"

text \<open>The service credential's read before an apply.\<close>

definition apply_record_segment ::
  "proposal_env \<Rightarrow> nat \<Rightarrow> pdb \<Rightarrow> string \<Rightarrow> nat \<Rightarrow> pdb \<times> proposal_pc" where
  "apply_record_segment env t d requesting_sub hold_id =
     (case proposal_by_id hold_id d of
        None \<Rightarrow> deny_proposal env t d requesting_sub ''denied.unknown_proposal_hold'' hold_id
      | Some h \<Rightarrow>
          case extract_proposal_target (ph_action h) of
            Inl e \<Rightarrow> (d, Done (Inl e))
          | Inr (target_id, action_type) \<Rightarrow> (d, Done (Inr
              [(''hold_id'', JId (ph_id h)), (''status'', JStr (proposal_status_name (ph_status h))),
               (''kind'', JStr (ph_kind h)), (''proposed_by_bot_id'', JStr (ph_bot_id h)),
               (''owner_sub'', JStr (ph_owner_sub h)), (''action'', JObj (ph_action h)),
               (''target_id'', JStr target_id), (''action_type'', JStr action_type),
               (''rationale'', JStr (ph_rationale h)),
               (''decision_source'', json_opt_str (map_option decision_source_name (ph_decision_source h))),
               (''decided_by_actor_id'', json_opt_str (ph_decided_by h)),
               (''decided_at'', case ph_decided_at h of None \<Rightarrow> JNull | Some x \<Rightarrow> JInt x),
               (''cross_brain'', case ph_cross_brain h of None \<Rightarrow> JNull | Some c \<Rightarrow> cross_brain_json c),
               (''approvals'', approvals_json (ph_approvals h))])))"

section \<open>Processes\<close>

text \<open>
  The external writes made so far: which hold, in which context, on whose decision, the row it was
  read from, what the judge's \<open>apply\<close> ended with, and what the board made of that.
\<close>

record apply_call =
  ac_hold :: nat
  ac_context :: proposal_context
  ac_source :: decision_source
  ac_actor :: string
  ac_row :: proposal_hold
  ac_reported :: "raw_apply outcome"
  ac_outcome :: "apply_outcome option"

record proposal_process =
  pr_request :: proposal_request
  pr_pc :: proposal_pc

definition start_segment ::
  "proposal_env \<Rightarrow> nat \<Rightarrow> pdb \<Rightarrow> proposal_request \<Rightarrow> pdb \<times> proposal_pc" where
  "start_segment env t d rq =
     (case rq of
        Submit sm \<Rightarrow> (case submit_checks env t d sm of
            Inl e \<Rightarrow> (d, Done (Inl e)) | Inr ck \<Rightarrow> (d, AtRateLimit ck))
      | Decide approver hold_id decision note code \<Rightarrow> decide_segment env t d approver hold_id decision note code
      | Withdraw bot_sub hold_id reason \<Rightarrow> withdraw_segment env t d bot_sub hold_id reason
      | GetForBot bot_sub hold_id \<Rightarrow> get_for_bot_segment env t d bot_sub hold_id
      | ApplyRecord requesting_sub hold_id \<Rightarrow> apply_record_segment env t d requesting_sub hold_id)"

definition submission_of :: "proposal_request \<Rightarrow> submission option" where
  "submission_of rq = (case rq of Submit sm \<Rightarrow> Some sm | _ \<Rightarrow> None)"

definition with_submission ::
  "pdb \<Rightarrow> proposal_request \<Rightarrow> (submission \<Rightarrow> pdb \<times> proposal_pc) \<Rightarrow> pdb \<times> proposal_pc" where
  "with_submission d rq f = (case rq of Submit sm \<Rightarrow> f sm
     | _ \<Rightarrow> (d, Done (Inl (ProposalInvariantViolation ''not a submission''))))"

fun segment ::
  "proposal_env \<Rightarrow> nat \<Rightarrow> pdb \<Rightarrow> proposal_request \<Rightarrow> proposal_pc \<Rightarrow> pdb \<times> proposal_pc" where
  "segment env t d rq AtStart = start_segment env t d rq"
| "segment env t d rq (AtRateLimit ck) = with_submission d rq (\<lambda>sm. rate_limit_segment env t d sm ck)"
| "segment env t d rq (AtDedup ck) =
     with_submission d rq (\<lambda>sm. (d, AtWrite ck (dedup_select d sm ck)))"
| "segment env t d rq (AtWrite ck existing) =
     with_submission d rq (\<lambda>sm. dedup_write env t d sm ck existing)"
| "segment env t d rq (AtJudge ck h) = with_submission d rq (\<lambda>sm. judge_segment env t d sm ck h)"
| "segment env t d rq (AtJudgeNote ck h jd) = judge_note_segment env t d ck h jd"
| "segment env t d rq (AtVerdict ck h jd) = verdict_segment env t d ck h jd"
| "segment env t d rq (AtKill h ck jd) = kill_segment env t d h ck jd"
| "segment env t d rq (AtCap cap args) = cap_segment env t d cap args"
| "segment env t d rq (AtCapFailed args) = cap_failed_segment env t d args"
| "segment env t d rq (AtClaim args) = claim_segment env t d (pe_clock env t 1) args"
| "segment env t d rq (AtCheck job) = check_segment env t d job"
| "segment env t d rq (AtApply job ctx h) = (d, apply_segment env t job ctx)"
| "segment env t d rq (AtFinalize job rs) = finalize_segment env t d job rs"
| "segment env t d rq (AtIndeterminate job rs) = indeterminate_segment env t d job rs"
| "segment env t d rq (AtRecovery job rs terminal) = recovery_segment env t d job rs terminal"
| "segment env t d rq (AtLastDitch job rs terminal) = last_ditch_segment env t d job rs terminal"
| "segment env t d rq (AtLost job) = lost_segment env t d job"
| "segment env t d rq (Done r) = (d, Done r)"

text \<open>The external writes a segment makes: one, at \<open>AtApply\<close>.\<close>

definition applies_of :: "proposal_env \<Rightarrow> nat \<Rightarrow> proposal_pc \<Rightarrow> apply_call list" where
  "applies_of env t pc = (case pc of
      AtApply job ctx h \<Rightarrow> [\<lparr>ac_hold = aj_hold job, ac_context = ctx, ac_source = aj_source job,
        ac_actor = aj_actor job, ac_row = h, ac_reported = pe_apply env t ctx,
        ac_outcome = apply_result_of env t ctx\<rparr>]
    | _ \<Rightarrow> [])"

text \<open>A single request run to its end, alone: the sequential reading of the service's functions.\<close>

definition is_done :: "proposal_pc \<Rightarrow> bool" where
  "is_done pc = (case pc of Done r \<Rightarrow> True | _ \<Rightarrow> False)"

fun run_request ::
  "proposal_env \<Rightarrow> nat \<Rightarrow> nat \<Rightarrow> pdb \<Rightarrow> proposal_request \<Rightarrow> proposal_pc \<Rightarrow> pdb \<times> proposal_pc" where
  "run_request env 0 t d rq pc = (d, pc)"
| "run_request env (Suc n) t d rq pc =
     (if is_done pc then (d, pc)
      else (case segment env t d rq pc of (d', pc') \<Rightarrow> run_request env n (Suc t) d' rq pc'))"

end
