(* ===== verification/ProposalRuns.thy ===== *)
theory ProposalRuns
  imports ProposalFlow
begin

text \<open>
  Many proposal requests at once: the interleaving of processes as a step relation, and what holds in
  every state it reaches. A request arrives, a process runs its next segment on the shared database, or
  the rest of the board changes the directory and writes its own audit rows. Nothing is assumed about
  the judge, the clock, the commits or the order of the steps.
\<close>

section \<open>The system\<close>

record proposal_system =
  sy_db :: pdb
  sy_ticks :: nat
  sy_processes :: "proposal_process list"
  sy_applies :: "apply_call list"

definition advance :: "proposal_env \<Rightarrow> nat \<Rightarrow> proposal_system \<Rightarrow> proposal_system" where
  "advance env k s =
     (let p = sy_processes s ! k;
          (d', pc') = segment env (sy_ticks s) (sy_db s) (pr_request p) (pr_pc p)
      in \<lparr>sy_db = d', sy_ticks = Suc (sy_ticks s),
          sy_processes = (sy_processes s)[k := p\<lparr>pr_pc := pc'\<rparr>],
          sy_applies = sy_applies s @ applies_of env (sy_ticks s) (pr_pc p)\<rparr>)"

inductive proposal_step :: "proposal_env \<Rightarrow> proposal_system \<Rightarrow> proposal_system \<Rightarrow> bool"
  for env :: proposal_env where
  arrives: "proposal_step env s (s\<lparr>sy_processes := sy_processes s @ [\<lparr>pr_request = rq, pr_pc = AtStart\<rparr>]\<rparr>)"
| advances: "k < length (sy_processes s) \<Longrightarrow> proposal_step env s (advance env k s)"
| board: "\<forall>a \<in> set rows. al_action a \<noteq> ''proposal.auto_approved'' \<Longrightarrow>
     proposal_step env s (s\<lparr>sy_db := (sy_db s)\<lparr>pd_agents := ags, pd_audit := pd_audit (sy_db s) @ rows\<rparr>\<rparr>)"

definition empty_system :: "agent list \<Rightarrow> proposal_system" where
  "empty_system ags = \<lparr>sy_db = \<lparr>pd_agents = ags, pd_audit = [], pd_holds = [], pd_counters = [],
     pd_next_id = 0\<rparr>, sy_ticks = 0, sy_processes = [], sy_applies = []\<rparr>"

inductive proposal_reachable :: "proposal_env \<Rightarrow> proposal_system \<Rightarrow> bool" for env :: proposal_env where
  start: "proposal_reachable env (empty_system ags)"
| further: "proposal_reachable env s \<Longrightarrow> proposal_step env s s' \<Longrightarrow> proposal_reachable env s'"

text \<open>An invariant of the system is proved for the empty system and for each of the three steps.\<close>

lemma proposal_invariant:
  assumes "proposal_reachable env s"
    and "\<And>ags. I (empty_system ags)"
    and "\<And>s rq. I s \<Longrightarrow> I (s\<lparr>sy_processes := sy_processes s @ [\<lparr>pr_request = rq, pr_pc = AtStart\<rparr>]\<rparr>)"
    and "\<And>s k. I s \<Longrightarrow> k < length (sy_processes s) \<Longrightarrow> I (advance env k s)"
    and "\<And>s ags rows. I s \<Longrightarrow> \<forall>a \<in> set rows. al_action a \<noteq> ''proposal.auto_approved'' \<Longrightarrow>
       I (s\<lparr>sy_db := (sy_db s)\<lparr>pd_agents := ags, pd_audit := pd_audit (sy_db s) @ rows\<rparr>\<rparr>)"
  shows "I s"
  using assms(1)
proof (induction rule: proposal_reachable.induct)
  case (start ags)
  show ?case by (rule assms(2))
next
  case (further s s')
  from further.hyps(2) show ?case
    by (cases rule: proposal_step.cases) (use further.IH assms(3-5) in auto)
qed

section \<open>Every request ends\<close>

text \<open>A measure of how far a request is from its end; it does not look at the database.\<close>

fun distance_to_end :: "proposal_pc \<Rightarrow> nat" where
  "distance_to_end AtStart = 14"
| "distance_to_end (AtRateLimit ck) = 13"
| "distance_to_end (AtDedup ck) = 12"
| "distance_to_end (AtWrite ck None) = 11"
| "distance_to_end (AtWrite ck (Some h)) = 10"
| "distance_to_end (AtJudge ck h) = 9"
| "distance_to_end (AtJudgeNote ck h jd) = 8"
| "distance_to_end (AtVerdict ck h jd) = 7"
| "distance_to_end (AtKill h ck jd) = 6"
| "distance_to_end (AtCap cap args) = 6"
| "distance_to_end (AtCapFailed args) = 5"
| "distance_to_end (AtClaim args) = 6"
| "distance_to_end (AtCheck job) = 5"
| "distance_to_end (AtApply job ctx h) = 4"
| "distance_to_end (AtFinalize job rs) = 3"
| "distance_to_end (AtIndeterminate job rs) = 2"
| "distance_to_end (AtRecovery job rs h) = 2"
| "distance_to_end (AtLastDitch job rs h) = 1"
| "distance_to_end (AtLost job) = 1"
| "distance_to_end (Done r) = 0"

lemma is_done_iff [simp]: "is_done pc \<longleftrightarrow> (\<exists>r. pc = Done r)"
  by (cases pc) (simp_all add: is_done_def)

lemma distance_zero: "distance_to_end pc = 0 \<longleftrightarrow> is_done pc"
  by (cases pc rule: distance_to_end.cases) simp_all

named_theorems segment_defs

lemmas [segment_defs] = start_segment_def rate_limit_segment_def dedup_write_def judge_segment_def
  judge_note_segment_def verdict_segment_def kill_segment_def cap_segment_def cap_failed_segment_def
  claim_segment_def check_segment_def apply_segment_def finalize_segment_def indeterminate_segment_def
  recovery_segment_def last_ditch_segment_def lost_segment_def decide_segment_def approve_segment_def
  withdraw_segment_def get_for_bot_segment_def apply_record_segment_def load_own_proposal_def
  deny_proposal_def commit_and_show_def commit_to_def with_hold_def with_submission_def bot_result_def
  cancelled_or_def database_error_def job_result_def

lemma commit_to_distance:
  "commit_to env t d d' pc = (d'', pc') \<Longrightarrow> distance_to_end pc' \<le> distance_to_end pc"
  by (auto simp: commit_to_def split: commit_result.splits)

lemma distance_at_write: "distance_to_end (AtWrite ck x) < 12"
  by (cases x) simp_all

lemma segment_distance:
  assumes "segment env t d rq pc = (d', pc')" and "\<not> is_done pc"
  shows "distance_to_end pc' < distance_to_end pc"
  using assms
  by (cases pc rule: distance_to_end.cases)
    (auto simp: segment_defs Let_def distance_at_write split: if_splits option.splits sum.splits prod.splits
      commit_result.splits proposal_request.splits fingerprint.splits)

text \<open>What a request is seen to do while others change the database under it: \<open>dbs n\<close> before its step \<open>n\<close>.\<close>

fun place_after ::
  "proposal_env \<Rightarrow> (nat \<Rightarrow> nat) \<Rightarrow> (nat \<Rightarrow> pdb) \<Rightarrow> proposal_request \<Rightarrow> nat \<Rightarrow> proposal_pc" where
  "place_after env ticks dbs rq 0 = AtStart"
| "place_after env ticks dbs rq (Suc n) =
     snd (segment env (ticks n) (dbs n) rq (place_after env ticks dbs rq n))"

lemma done_stays: "segment env t d rq (Done r) = (d, Done r)"
  by simp

lemma distance_place_after: "distance_to_end (place_after env ticks dbs rq n) \<le> 14 - n"
proof (induction n)
  case (Suc n)
  let ?pc = "place_after env ticks dbs rq n"
  obtain d' pc' where s: "segment env (ticks n) (dbs n) rq ?pc = (d', pc')" by fastforce
  show ?case
  proof (cases "is_done ?pc")
    case True
    then obtain r where "?pc = Done r" by auto
    then show ?thesis by simp
  next
    case False
    then show ?thesis using segment_distance [OF s] Suc s by simp
  qed
qed simp

text \<open>
  Every request of the proposal pipeline comes to an end: after at most 14 of its own steps it has
  returned a value or raised an exception, whatever other requests do to the database in between,
  whatever the judge answers, and whichever commits fail.
\<close>

lemma proposal_requests_end: "\<exists>r. place_after env ticks dbs rq 14 = Done r"
  using distance_place_after [of env ticks dbs rq 14] distance_zero by simp

end
