(* ===== verification/ProposalTables.thy ===== *)
theory ProposalTables
  imports ProposalRuns
begin

text \<open>
  What the segments do to the rows of \<open>proposal_holds\<close>, as a relation with one rule for each write the
  code makes, and the invariants of the table that follow: every reachable database satisfies the
  \<open>CHECK\<close> constraints, the unique indexes and the numbering of the log.
\<close>

section \<open>The writes\<close>

inductive row_write ::
  "proposal_env \<Rightarrow> nat \<Rightarrow> proposal_request \<Rightarrow> proposal_hold \<Rightarrow> proposal_pc \<Rightarrow>
   (proposal_hold \<Rightarrow> proposal_hold) \<Rightarrow> bool"
  for env :: proposal_env and t :: nat and rq :: proposal_request and h :: proposal_hold where
  resubmission: "rq = Submit sm \<Longrightarrow> ph_status l = PhPending \<Longrightarrow> ph_id l = ph_id h \<Longrightarrow>
    row_write env t rq h (AtWrite ck (Some l)) (resubmission_update l (resubmitted sm ck l))"
| judge_note: "ph_id l = ph_id h \<Longrightarrow> row_write env t rq h (AtJudgeNote ck l jd)
    (\<lambda>r. r\<lparr>ph_decision_note := upd (ph_decision_note l) (jd_note jd) (ph_decision_note r)\<rparr>)"
| review: "ph_status h = PhPending \<Longrightarrow> row_write env t rq h pc (\<lambda>r. r\<lparr>ph_decision_note := Some note\<rparr>)"
| auto_claim: "ph_status h = PhPending \<Longrightarrow>
    resubmission_snapshot h = resubmission_snapshot (cl_judged args) \<Longrightarrow>
    pc = AtClaim args \<or> (\<exists>cap. pc = AtCap cap args) \<Longrightarrow> row_write env t rq h pc (auto_claimed at args)"
| approval: "ph_status h = PhPending \<Longrightarrow> rq = Decide approver (ph_id h) decision note code \<Longrightarrow>
    decision \<noteq> ''reject'' \<Longrightarrow> approver \<in> set (required_owners h) \<Longrightarrow>
    row_write env t rq h AtStart (approval_recorded approver at note code)"
| human_claim: "ph_status h = PhPending \<Longrightarrow> rq = Decide approver (ph_id h) decision note code \<Longrightarrow>
    decision \<noteq> ''reject'' \<Longrightarrow> approver \<in> set (required_owners h) \<Longrightarrow> code \<in> insert None (Some ` set decision_reason_codes) \<Longrightarrow>
    row_write env t rq h AtStart
      (\<lambda>r. claimed_by approver ByHuman at' note code (approval_recorded approver at note code r))"
| rejection: "ph_status h = PhPending \<Longrightarrow> rq = Decide approver (ph_id h) ''reject'' note code \<Longrightarrow>
    approver \<in> set (required_owners h) \<Longrightarrow> code \<in> insert None (Some ` set decision_reason_codes) \<Longrightarrow>
    row_write env t rq h AtStart (rejected_by approver at note code)"
| withdrawal: "ph_status h = PhPending \<Longrightarrow> rq = Withdraw (ph_bot_id h) (ph_id h) reason \<Longrightarrow>
    row_write env t rq h AtStart (withdrawn_by (ph_bot_id h) at reason)"
| terminal: "ph_status h = PhApplying \<Longrightarrow> aj_hold job = ph_id h \<Longrightarrow>
    row_write env t rq h (AtFinalize job rs) (finalized at at' job rs)"
| recovery: "ph_status h = PhApplying \<Longrightarrow> aj_hold job = ph_id h \<Longrightarrow>
    row_write env t rq h (AtRecovery job rs r) (recovered job r)"
| last_ditch: "ph_status h = PhApplying \<Longrightarrow> aj_hold job = ph_id h \<Longrightarrow>
    row_write env t rq h (AtLastDitch job rs r) (last_ditch job r)"

definition same_rows :: "pdb \<Rightarrow> pdb \<Rightarrow> bool" where
  "same_rows d d' = (pd_holds d' = pd_holds d \<and> pd_counters d' = pd_counters d \<and> pd_next_id d' = pd_next_id d)"

lemma same_rows_refl [simp]: "same_rows d d"
  by (simp add: same_rows_def)

lemma same_rows_audit [simp]: "same_rows d (add_proposal_audit at a b j d') = same_rows d d'"
  by (simp add: same_rows_def add_proposal_audit_def)

lemma proposal_by_id_audit [simp]: "proposal_by_id i (add_proposal_audit at a b j d) = proposal_by_id i d"
  by (simp add: proposal_by_id_def add_proposal_audit_def)

lemma proposal_by_idD: "proposal_by_id i d = Some h \<Longrightarrow> ph_id h = i \<and> h \<in> set (pd_holds d)"
  by (auto simp: proposal_by_id_def find_Some_iff)

inductive effect :: "proposal_env \<Rightarrow> nat \<Rightarrow> proposal_request \<Rightarrow> proposal_pc \<Rightarrow> pdb \<Rightarrow> pdb \<Rightarrow> bool"
  for env :: proposal_env and t :: nat and rq :: proposal_request and pc :: proposal_pc and d :: pdb where
  keeps: "same_rows d d' \<Longrightarrow> effect env t rq pc d d'"
| inserts: "rq = Submit sm \<Longrightarrow> pc = AtWrite ck None \<Longrightarrow> h = new_proposal env t (pd_next_id d) sm ck \<Longrightarrow>
    dedup_key h \<notin> set (map dedup_key (filter live (pd_holds d))) \<Longrightarrow>
    same_rows ((insert_proposal h d)\<lparr>pd_next_id := Suc (pd_next_id d)\<rparr>) d' \<Longrightarrow> effect env t rq pc d d'"
| writes: "proposal_by_id i d = Some h \<Longrightarrow> row_write env t rq h pc f \<Longrightarrow>
    same_rows (write_proposal i f d) d' \<Longrightarrow> effect env t rq pc d d'"

lemma effect_keep [simp]: "effect env t rq pc d d"
  by (rule effect.keeps) simp

lemma effect_commit:
  "commit_to env t' d d1 pc1 = (d', pc') \<Longrightarrow> effect env t rq pc d d1 \<Longrightarrow> effect env t rq pc d d'"
  by (auto simp: commit_to_def split: commit_result.splits if_splits)

lemma effect_audit [simp]:
  "effect env t rq pc d d1 \<Longrightarrow> effect env t rq pc d (add_proposal_audit at a b j d1)"
  by (erule effect.cases) (auto intro: effect.intros)

lemma effect_write:
  "proposal_by_id i d = Some h \<Longrightarrow> row_write env t rq h pc f \<Longrightarrow> effect env t rq pc d (write_proposal i f d)"
  by (rule effect.writes) (auto simp: same_rows_def)

lemma effect_deny: "deny_proposal env t' d a b i = (d', pc') \<Longrightarrow> effect env t rq pc d d'"
  unfolding deny_proposal_def by (erule effect_commit) simp

lemma effect_review:
  "proposal_by_id i d = Some h \<Longrightarrow> ph_status h = PhPending \<Longrightarrow>
   effect env t rq pc d (hold_for_review at h note detail d)"
  unfolding hold_for_review_def
  by (intro effect_audit effect_write [of "ph_id h"] row_write.review) (auto dest: proposal_by_idD)

lemma effect_claim:
  assumes "claim_segment env t' d at args = (d', pc')"
    and "pc = AtClaim args \<or> (\<exists>cap. pc = AtCap cap args)"
  shows "effect env t rq pc d d'"
proof (cases "proposal_by_id (ph_id (cl_judged args)) d")
  case None
  then show ?thesis using assms(1) by (simp add: claim_segment_def with_hold_def)
next
  case (Some h)
  note id = proposal_by_idD [OF Some]
  show ?thesis
  proof (cases "ph_status h \<noteq> PhPending \<or> resubmission_snapshot h \<noteq> resubmission_snapshot (cl_judged args)")
    case True
    then show ?thesis using assms(1) Some effect_commit
      by (auto simp: claim_segment_def with_hold_def)
  next
    case False
    then have w: "row_write env t rq h pc (auto_claimed at args)"
      using assms(2) by (intro row_write.auto_claim) auto
    have "effect env t rq pc d (claim_audits at args h (write_proposal (ph_id h) (auto_claimed at args) d))"
      using effect_write [OF Some w] id
      by (auto simp: claim_audits_def Let_def split: option.splits)
    then show ?thesis using assms(1) Some False effect_commit
      by (auto simp: claim_segment_def with_hold_def)
  qed
qed

lemma effect_commit_and_show:
  "commit_and_show env t' d d1 i = (d', pc') \<Longrightarrow> effect env t rq pc d d1 \<Longrightarrow> effect env t rq pc d d'"
  unfolding commit_and_show_def by (rule effect_commit)

lemma effect_own:
  assumes "load_own_proposal env t' d b i g = (d', pc')"
    and "\<And>h. proposal_by_id i d = Some h \<Longrightarrow> ph_bot_id h = b \<Longrightarrow> g h = (d', pc') \<Longrightarrow> effect env t rq pc d d'"
  shows "effect env t rq pc d d'"
  using assms by (auto simp: load_own_proposal_def effect_deny split: option.splits if_splits)

lemma effect_decide:
  assumes "decide_segment env t' d approver i decision note code = (d', pc')"
    and rq: "rq = Decide approver i decision note code"
  shows "effect env t rq AtStart d d'"
proof (cases "proposal_by_id i d")
  case None
  then show ?thesis using assms(1) by (simp add: decide_segment_def effect_deny)
next
  case (Some h)
  note id = proposal_by_idD [OF Some]
  show ?thesis
  proof (cases "approver \<in> set (required_owners h) \<and> ph_status h = PhPending \<and>
      code \<in> insert None (Some ` set decision_reason_codes)")
    case False
    then show ?thesis using assms(1) Some effect_commit effect_deny
      by (auto simp: decide_segment_def split: option.splits if_splits)
  next
    case ok: True
    show ?thesis
    proof (cases "decision = ''reject''")
      case True
      then have "row_write env t rq h AtStart (rejected_by approver (pe_clock env t' 1) note code)"
        using ok rq id by (intro row_write.rejection) auto
      from effect_write [OF Some this] show ?thesis
        using assms(1) Some ok True effect_commit
        by (auto simp: decide_segment_def Let_def split: option.splits if_splits)
    next
      case False
      have a: "row_write env t rq h AtStart (approval_recorded approver (pe_clock env t' 1) note code)"
        using ok rq id False by (intro row_write.approval) auto
      have c: "row_write env t rq h AtStart (\<lambda>r. claimed_by approver ByHuman (pe_clock env t' 2) note code
          (approval_recorded approver (pe_clock env t' 1) note code r))"
        using ok rq id False by (intro row_write.human_claim) auto
      have "approve_segment env t' d h approver note code = (d', pc')"
        using assms(1) Some ok False by (auto simp: decide_segment_def split: option.splits)
      then show ?thesis using effect_write [OF Some a] effect_write [OF Some c] id
        by (auto simp: approve_segment_def approval_audit_def Let_def split: if_splits
          elim!: effect_commit)
    qed
  qed
qed

lemma effect_withdraw:
  "withdraw_segment env t' d b i reason = (d', pc') \<Longrightarrow> rq = Withdraw b i reason \<Longrightarrow>
   effect env t rq AtStart d d'"
  unfolding withdraw_segment_def
proof (erule effect_own)
  fix h
  assume h: "proposal_by_id i d = Some h" "ph_bot_id h = b" and rq: "rq = Withdraw b i reason"
    and g: "(if ph_status h \<noteq> PhPending then commit_to env t' d d (Done (Inl (ProposalAlreadyDecided (ph_status h))))
      else commit_and_show env t' d (add_proposal_audit (pe_clock env t' 0) b ''proposal.withdraw''
        (JObj [(''hold_id'', JId i)]) (write_proposal i (withdrawn_by b (pe_clock env t' 1) reason) d)) i)
      = (d', pc')"
  note id = proposal_by_idD [OF h(1)]
  have "row_write env t rq h AtStart (withdrawn_by (ph_bot_id h) (pe_clock env t' 1) reason)"
    if "ph_status h = PhPending" using that rq h id by (intro row_write.withdrawal) auto
  from effect_write [OF h(1) this] show "effect env t rq AtStart d d'"
    using g h(2) by (auto split: if_splits elim!: effect_commit effect_commit_and_show)
qed

lemma effect_start: "start_segment env t d rq = (d', pc') \<Longrightarrow> effect env t rq AtStart d d'"
  by (auto simp: start_segment_def get_for_bot_segment_def apply_record_segment_def bot_result_def
      effect_decide effect_withdraw effect_deny
    split: proposal_request.splits sum.splits option.splits elim!: effect_own)

lemma effect_dedup_write:
  assumes "dedup_write env t d sm ck e = (d', pc')" and "rq = Submit sm"
    and "\<And>l. e = Some l \<Longrightarrow> \<exists>h. proposal_by_id (ph_id l) d = Some h"
  shows "effect env t rq (AtWrite ck e) d d'"
proof (cases e)
  case None
  show ?thesis
  proof (cases "dedup_key (new_proposal env t (pd_next_id d) sm ck) \<in> set (map dedup_key (filter live (pd_holds d)))")
    case True
    then show ?thesis using assms(1) None
      by (auto simp: dedup_write_def Let_def split: option.splits)
  next
    case False
    then have "effect env t rq (AtWrite ck e) d
      ((insert_proposal (new_proposal env t (pd_next_id d) sm ck) d)\<lparr>pd_next_id := Suc (pd_next_id d)\<rparr>)"
      using assms(2) None by (intro effect.inserts) auto
    then show ?thesis using assms(1) None False
      by (auto simp: dedup_write_def Let_def elim!: effect_commit)
  qed
next
  case (Some l)
  with assms(3) obtain h where h: "proposal_by_id (ph_id l) d = Some h" by blast
  have "row_write env t rq h (AtWrite ck (Some l)) (resubmission_update l (resubmitted sm ck l))"
    if "ph_status l = PhPending"
    using that proposal_by_idD [OF h] assms(2) by (intro row_write.resubmission) auto
  from effect_write [OF h this] show ?thesis using assms(1) Some
    by (auto simp: dedup_write_def split: if_splits elim!: effect_commit)
qed

lemma effect_judge_note:
  assumes "judge_note_segment env t d ck l jd = (d', pc')" "proposal_by_id (ph_id l) d = Some h"
  shows "effect env t rq (AtJudgeNote ck l jd) d d'"
  using assms(1) unfolding judge_note_segment_def
  by (rule effect_commit)
    (intro effect_write [OF assms(2)] row_write.judge_note, simp add: proposal_by_idD [OF assms(2)])

lemma effect_kill: "kill_segment env t d h0 ck jd = (d', pc') \<Longrightarrow> effect env t rq pc d d'"
  by (auto simp: kill_segment_def with_hold_def effect_review split: option.splits if_splits
    elim!: effect_commit effect_commit_and_show)

lemma effect_cap_failed: "cap_failed_segment env t d args = (d', pc') \<Longrightarrow> effect env t rq pc d d'"
  by (auto simp: cap_failed_segment_def with_hold_def effect_review split: option.splits if_splits
    elim!: effect_commit effect_commit_and_show)

lemma effect_cap:
  assumes "cap_segment env t d cap args = (d', pc')"
  shows "effect env t rq (AtCap cap args) d d'"
  using assms
  by (auto simp: cap_segment_def with_hold_def Let_def effect_review effect_claim
    split: option.splits if_splits commit_result.splits elim!: effect_commit effect_commit_and_show)

lemma effect_finalize:
  assumes "finalize_segment env t d job rs = (d', pc')"
  shows "effect env t rq (AtFinalize job rs) d d'"
proof (cases "proposal_by_id (aj_hold job) d")
  case (Some h)
  have "row_write env t rq h (AtFinalize job rs) (finalized a b job rs)" if "ph_status h = PhApplying" for a b
    using that proposal_by_idD [OF Some] by (intro row_write.terminal) auto
  from effect_write [OF Some this] show ?thesis using assms Some
    by (auto simp: finalize_segment_def with_hold_def outcome_audit_def Let_def
      split: if_splits commit_result.splits elim!: effect_commit)
qed (use assms in \<open>simp add: finalize_segment_def with_hold_def\<close>)

lemma effect_recovery:
  assumes "recovery_segment env t d job rs r = (d', pc')"
  shows "effect env t rq (AtRecovery job rs r) d d'"
proof (cases "proposal_by_id (aj_hold job) d")
  case (Some h)
  have "row_write env t rq h (AtRecovery job rs r) (recovered job r)" if "ph_status h = PhApplying"
    using that proposal_by_idD [OF Some] by (intro row_write.recovery) auto
  from effect_write [OF Some this] show ?thesis using assms Some
    by (auto simp: recovery_segment_def terminal_audit_def Let_def
      split: if_splits commit_result.splits elim!: effect_commit)
qed (use assms in \<open>simp add: recovery_segment_def\<close>)

lemma effect_last_ditch:
  assumes "last_ditch_segment env t d job rs r = (d', pc')"
  shows "effect env t rq (AtLastDitch job rs r) d d'"
proof (cases "proposal_by_id (aj_hold job) d")
  case (Some h)
  have "row_write env t rq h (AtLastDitch job rs r) (last_ditch job r)" if "ph_status h = PhApplying"
    using that proposal_by_idD [OF Some] by (intro row_write.last_ditch) auto
  from effect_write [OF Some this] show ?thesis using assms Some
    by (auto simp: last_ditch_segment_def last_ditch_audit_def terminal_audit_def Let_def
      split: if_splits commit_result.splits)
qed (use assms in \<open>simp add: last_ditch_segment_def\<close>)

section \<open>What a process knows\<close>

definition known :: "pdb \<Rightarrow> nat \<Rightarrow> bool" where
  "known d i = (\<exists>h. proposal_by_id i d = Some h)"

definition dedup_field_of :: "action \<Rightarrow> string" where
  "dedup_field_of action = (case action_text action ''dedup_field'' of None \<Rightarrow> [] | Some f \<Rightarrow> f)"

definition checked_ok :: "submission \<Rightarrow> checked \<Rightarrow> bool" where
  "checked_ok sm ck =
     (sm_confidence sm \<in> set proposal_hold_levels \<and> sm_importance sm \<in> set proposal_hold_levels \<and>
      sm_impact sm \<in> set proposal_hold_levels \<and> ck_priority ck \<in> set proposal_hold_levels \<and>
      action_text (ck_action ck) ''target_id'' = Some (ck_target_id ck) \<and>
      action_text (ck_action ck) ''action_type'' = Some (ck_action_type ck) \<and>
      dedup_field_of (ck_action ck) = ck_dedup_field ck)"

definition submission_ok :: "proposal_request \<Rightarrow> checked \<Rightarrow> bool" where
  "submission_ok rq ck = (\<exists>sm. rq = Submit sm \<and> checked_ok sm ck)"

text \<open>A row in memory: the table holds a row with its identifier and deduplication key.\<close>

definition loaded_ok :: "pdb \<Rightarrow> proposal_request \<Rightarrow> checked \<Rightarrow> proposal_hold \<Rightarrow> bool" where
  "loaded_ok d rq ck l =
     (\<exists>sm h. rq = Submit sm \<and> dedup_key l = submitted_key sm ck \<and>
             proposal_by_id (ph_id l) d = Some h \<and> dedup_key h = dedup_key l)"

definition job_ok :: "pdb \<Rightarrow> apply_job \<Rightarrow> bool" where
  "job_ok d job = (known d (aj_hold job) \<and> aj_code job \<in> insert None (Some ` set decision_reason_codes))"

definition terminal_ok :: "proposal_hold \<Rightarrow> bool" where
  "terminal_ok r = (proposal_row_ok r \<and> ph_status r \<in> {PhApplied, PhStale, PhApplyFailed})"

fun pc_ok :: "pdb \<Rightarrow> proposal_request \<Rightarrow> proposal_pc \<Rightarrow> bool" where
  "pc_ok d rq AtStart = True"
| "pc_ok d rq (AtRateLimit ck) = submission_ok rq ck"
| "pc_ok d rq (AtDedup ck) = submission_ok rq ck"
| "pc_ok d rq (AtWrite ck e) = (submission_ok rq ck \<and> (\<forall>l. e = Some l \<longrightarrow> loaded_ok d rq ck l))"
| "pc_ok d rq (AtJudge ck h) = (submission_ok rq ck \<and> known d (ph_id h))"
| "pc_ok d rq (AtJudgeNote ck h jd) = (submission_ok rq ck \<and> known d (ph_id h))"
| "pc_ok d rq (AtVerdict ck h jd) = (submission_ok rq ck \<and> known d (ph_id h))"
| "pc_ok d rq (AtKill h ck jd) = known d (ph_id h)"
| "pc_ok d rq (AtCap cap args) = known d (ph_id (cl_judged args))"
| "pc_ok d rq (AtCapFailed args) = known d (ph_id (cl_judged args))"
| "pc_ok d rq (AtClaim args) = known d (ph_id (cl_judged args))"
| "pc_ok d rq (AtCheck job) = job_ok d job"
| "pc_ok d rq (AtApply job ctx h) = job_ok d job"
| "pc_ok d rq (AtFinalize job rs) = job_ok d job"
| "pc_ok d rq (AtIndeterminate job rs) = job_ok d job"
| "pc_ok d rq (AtRecovery job rs r) = (job_ok d job \<and> terminal_ok r)"
| "pc_ok d rq (AtLastDitch job rs r) = (job_ok d job \<and> terminal_ok r)"
| "pc_ok d rq (AtLost job) = job_ok d job"
| "pc_ok d rq (Done r) = True"

section \<open>The table\<close>

definition table_ok :: "pdb \<Rightarrow> bool" where
  "table_ok d = (proposals_ok d \<and> (\<forall>h \<in> set (pd_holds d). ph_id h < pd_next_id d \<and>
     ph_log_seq h \<le> counter_of (ph_bot_id h) d))"

text \<open>What no write changes.\<close>

definition same_identity :: "proposal_hold \<Rightarrow> proposal_hold \<Rightarrow> bool" where
  "same_identity h r = (ph_id r = ph_id h \<and> ph_bot_id r = ph_bot_id h \<and> ph_kind r = ph_kind h \<and>
     ph_owner_sub r = ph_owner_sub h \<and> ph_created_at r = ph_created_at h \<and> dedup_key r = dedup_key h)"

lemma dedup_key_def':
  "dedup_key h = (ph_kind h, ph_bot_id h, action_text (ph_action h) ''target_id'',
     action_text (ph_action h) ''action_type'', cross_target (ph_cross_brain h), dedup_field_of (ph_action h))"
  by (simp add: dedup_key_def dedup_field_of_def)

text \<open>A column that is written with a value of the same reading.\<close>

lemma upd_same: "g n = g c \<Longrightarrow> g (upd l n c) = g c"
  by (simp add: upd_def)

lemma row_write_identity:
  assumes "row_write env t rq h pc f" and "pc_ok d rq pc" and "proposal_by_id (ph_id h) d = Some h"
  shows "same_identity h (f h)"
  using assms(1)
proof cases
  case (resubmission sm l ck)
  then have ck: "checked_ok sm ck" and l: "dedup_key l = submitted_key sm ck" "dedup_key h = dedup_key l"
    using assms(2, 3) by (auto simp: submission_ok_def loaded_ok_def)
  then have h: "dedup_key h = submitted_key sm ck" by simp
  have parts: "action_text (ck_action ck) ''target_id'' = action_text (ph_action h) ''target_id''"
    "action_text (ck_action ck) ''action_type'' = action_text (ph_action h) ''action_type''"
    "dedup_field_of (ck_action ck) = dedup_field_of (ph_action h)"
    "cross_target (ck_cross ck) = cross_target (ph_cross_brain h)"
    using ck h by (simp_all add: dedup_key_def' submitted_key_def checked_ok_def)
  show ?thesis unfolding resubmission(2)
    by (simp add: same_identity_def resubmission_update_def resubmitted_def dedup_key_def'
      upd_same [of "\<lambda>a. action_text a ''target_id''", OF parts(1)]
      upd_same [of "\<lambda>a. action_text a ''action_type''", OF parts(2)]
      upd_same [of dedup_field_of, OF parts(3)] upd_same [of cross_target, OF parts(4)])
next
  case (auto_claim args at)
  then show ?thesis
    by (auto simp: same_identity_def auto_claimed_def claimed_by_def dedup_key_def' cross_target_def
      split: option.splits)
qed (auto simp: same_identity_def dedup_key_def' approval_recorded_def claimed_by_def rejected_by_def
      withdrawn_by_def finalized_def decision_stamped_def recovered_def last_ditch_def Let_def
      split: option.splits)

text \<open>Every row satisfies the \<open>CHECK\<close>s after a write if it did before.\<close>

definition levels_ok :: "proposal_hold \<Rightarrow> bool" where
  "levels_ok h = (ph_confidence h \<in> set proposal_hold_levels \<and> ph_importance h \<in> set proposal_hold_levels \<and>
     ph_impact h \<in> set proposal_hold_levels \<and> ph_priority h \<in> set proposal_hold_levels)"

lemma row_ok_defs:
  "proposal_row_ok h = (levels_ok h \<and> decision_consistent h \<and>
     (ph_status h \<noteq> PhApplied \<longrightarrow> ph_applied_at h = None \<and> ph_apply_result h = None) \<and>
     ph_reason_code h \<in> insert None (Some ` set decision_reason_codes))"
  unfolding proposal_row_ok_def proposal_row_constraints_def levels_ok_def
  by (cases "ph_reason_code h") auto

lemma levels_ok_same:
  "ph_confidence r = ph_confidence h \<Longrightarrow> ph_importance r = ph_importance h \<Longrightarrow>
   ph_impact r = ph_impact h \<Longrightarrow> ph_priority r = ph_priority h \<Longrightarrow> levels_ok r = levels_ok h"
  by (simp add: levels_ok_def)

lemma row_write_levels:
  assumes "row_write env t rq h pc f" and "pc_ok d rq pc" and "levels_ok h"
  shows "levels_ok (f h)"
  using assms(1)
proof cases
  case (resubmission sm l ck)
  then have ck: "checked_ok sm ck" using assms(2) by (auto simp: submission_ok_def)
  have "upd a b c \<in> set proposal_hold_levels"
    if "b \<in> set proposal_hold_levels" "c \<in> set proposal_hold_levels" for a b c
    using that by (simp add: upd_def)
  with ck assms(3) show ?thesis unfolding resubmission(2) levels_ok_def checked_ok_def
    by (simp add: resubmission_update_def resubmitted_def)
qed (use assms(3) in \<open>simp_all add: levels_ok_def approval_recorded_def claimed_by_def auto_claimed_def
      rejected_by_def withdrawn_by_def finalized_def decision_stamped_def recovered_def last_ditch_def
      Let_def split: option.split\<close>)

lemma row_write_ok:
  assumes "row_write env t rq h pc f" and "pc_ok d rq pc" and "proposal_row_ok h"
  shows "proposal_row_ok (f h)"
proof -
  have levels: "levels_ok (f h)"
    using row_write_levels [OF assms(1, 2)] assms(3) by (simp add: row_ok_defs)
  from assms(1) show ?thesis
  proof cases
    case (resubmission sm l ck)
    then show ?thesis using assms(3) levels
      by (simp add: row_ok_defs decision_consistent_def resubmission_update_def)
  next
    case (terminal job rs at at')
    then have "aj_code job \<in> insert None (Some ` set decision_reason_codes)" using assms(2)
      by (simp add: job_ok_def)
    then show ?thesis using assms(3) levels terminal
      by (simp add: row_ok_defs decision_consistent_def finalized_def decision_stamped_def Let_def
        split: option.split)
  next
    case (recovery job rs r)
    then have "terminal_ok r" using assms(2) by simp
    then show ?thesis using assms(3) levels recovery
      by (cases "ph_apply_result r")
        (auto simp: row_ok_defs decision_consistent_def recovered_def terminal_ok_def)
  next
    case (last_ditch job rs r)
    then have "terminal_ok r" using assms(2) by simp
    then show ?thesis using assms(3) levels last_ditch
      by (cases "ph_apply_result r")
        (auto simp: row_ok_defs decision_consistent_def recovered_def last_ditch_def terminal_ok_def)
  qed (use assms(3) levels in \<open>auto simp: row_ok_defs decision_consistent_def approval_recorded_def
        claimed_by_def auto_claimed_def rejected_by_def withdrawn_by_def\<close>)
qed

text \<open>Writing one row of a table with unique identifiers.\<close>

lemma counter_bump: "counter_of b (bump_counter c d) = (if b = c then Suc (counter_of c d) else counter_of b d)"
proof -
  have "map_of (filter (\<lambda>x. fst x \<noteq> c) xs) b = (if b = c then None else map_of xs b)"
    for xs :: "(string \<times> nat) list" by (induction xs) auto
  then show ?thesis by (simp add: counter_of_def bump_counter_def)
qed

lemma bump_counter_next: "pd_next_id (bump_counter c d) = pd_next_id d"
  by (simp add: bump_counter_def)

lemma write_proposal_cases:
  assumes "proposal_by_id i d = Some h"
  obtains (nothing) "f h = h" "write_proposal i f d = d"
  | (updated) "f h \<noteq> h"
      "pd_holds (write_proposal i f d) = update_where (\<lambda>r. ph_id r = i)
         (\<lambda>r. (f r)\<lparr>ph_log_seq := Suc (counter_of (ph_bot_id h) d)\<rparr>) (pd_holds d)"
      "pd_counters (write_proposal i f d) = pd_counters (bump_counter (ph_bot_id h) d)"
      "pd_next_id (write_proposal i f d) = pd_next_id d"
  using assms
  by (cases "f h = h") (auto simp: write_proposal_def counter_bump Let_def bump_counter_next intro: that)

text \<open>The moves of the status.\<close>

definition status_move :: "proposal_status \<Rightarrow> proposal_status \<Rightarrow> bool" where
  "status_move a b =
     (b = a \<or> (a = PhPending \<and> b \<in> set [PhApplying, PhRejected, PhWithdrawn]) \<or>
      (a = PhApplying \<and> b \<in> set [PhApplied, PhApplyFailed, PhStale]))"

lemma row_write_status:
  assumes "row_write env t rq h pc f" and "pc_ok d rq pc"
  shows "status_move (ph_status h) (ph_status (f h))"
  using assms(1)
proof cases
  case (terminal job rs at at')
  then show ?thesis
    by (auto simp: status_move_def finalized_def decision_stamped_def Let_def split: option.splits)
next
  case (recovery job rs r)
  then show ?thesis using assms(2) by (auto simp: status_move_def recovered_def terminal_ok_def)
next
  case (last_ditch job rs r)
  then show ?thesis using assms(2)
    by (auto simp: status_move_def last_ditch_def recovered_def terminal_ok_def)
qed (auto simp: status_move_def resubmission_update_def approval_recorded_def claimed_by_def
      auto_claimed_def rejected_by_def withdrawn_by_def)

lemma status_move_live: "status_move (ph_status h) (ph_status r) \<Longrightarrow> live r \<Longrightarrow> live h"
  by (auto simp: status_move_def live_def)

section \<open>The table invariant\<close>

lemma unique_row:
  "distinct (map ph_id xs) \<Longrightarrow> h \<in> set xs \<Longrightarrow> x \<in> set xs \<Longrightarrow> ph_id x = ph_id h \<Longrightarrow> x = h"
  by (metis distinct_map inj_onD)

lemma update_one_proposal:
  assumes "distinct (map ph_id xs)" and "h \<in> set xs"
  shows "update_where (\<lambda>r. ph_id r = ph_id h) g xs = map (\<lambda>x. if x = h then g h else x) xs"
  using unique_row [OF assms] by (auto simp: update_where_def)

text \<open>Uniqueness of a key survives replacing one row by a row of the same or of a fresh key.\<close>

lemma distinct_replace:
  assumes "distinct (map k (filter p xs))" and "distinct xs" and "h \<in> set xs"
    and "p r \<Longrightarrow> (p h \<and> k r = k h) \<or> k r \<notin> k ` set xs"
  shows "distinct (map k (filter p (map (\<lambda>x. if x = h then r else x) xs)))"
proof -
  obtain as bs where xs: "xs = as @ h # bs" "h \<notin> set as" "h \<notin> set bs"
    using split_list [OF assms(3)] assms(2) by auto
  have "map (\<lambda>x. if x = h then r else x) as = as" "map (\<lambda>x. if x = h then r else x) bs = bs"
    using xs(2, 3) by (auto intro!: map_idI)
  then have "map (\<lambda>x. if x = h then r else x) xs = as @ r # bs" by (simp add: xs(1))
  moreover have split: "distinct (map k (filter p as))" "distinct (map k (filter p bs))"
    "k ` set (filter p as) \<inter> k ` set (filter p bs) = {}"
    "p h \<Longrightarrow> k h \<notin> k ` set (filter p as) \<union> k ` set (filter p bs)"
    using assms(1) unfolding xs(1) by (simp_all split: if_splits)
  moreover have "k r \<notin> k ` set (filter p as) \<union> k ` set (filter p bs)" if "p r"
  proof (cases "k r = k h")
    case True
    then have "p h" using assms(3, 4) that by auto
    then show ?thesis using split(4) True by simp
  next
    case False
    then have "k r \<notin> k ` set xs" using assms(4) that by auto
    then show ?thesis unfolding xs(1) by auto
  qed
  ultimately show ?thesis by simp
qed

lemma distinct_replace_all:
  assumes "distinct (map k xs)" and "distinct xs" and "h \<in> set xs"
    and "k r = k h \<or> k r \<notin> k ` set xs"
  shows "distinct (map k (map (\<lambda>x. if x = h then r else x) xs))"
  using distinct_replace [of k "\<lambda>_. True" xs h r] assms by (simp del: map_map)

lemma row_ok_log_seq [simp]: "proposal_row_ok (h\<lparr>ph_log_seq := n\<rparr>) = proposal_row_ok h"
  by (simp add: row_ok_defs levels_ok_def decision_consistent_def)

lemma dedup_key_log_seq [simp]: "dedup_key (h\<lparr>ph_log_seq := n\<rparr>) = dedup_key h"
  by (simp add: dedup_key_def)

lemma live_log_seq [simp]: "live (h\<lparr>ph_log_seq := n\<rparr>) = live h"
  by (simp add: live_def)

lemma table_okD:
  assumes "table_ok d"
  shows "list_all proposal_row_ok (pd_holds d)" "distinct (map ph_id (pd_holds d))"
    "distinct (map dedup_key (filter live (pd_holds d)))"
    "distinct (map (\<lambda>h. (ph_bot_id h, ph_log_seq h)) (pd_holds d))"
    "\<And>h. h \<in> set (pd_holds d) \<Longrightarrow> ph_id h < pd_next_id d"
    "\<And>h. h \<in> set (pd_holds d) \<Longrightarrow> ph_log_seq h \<le> counter_of (ph_bot_id h) d"
    "distinct (pd_holds d)"
  using assms by (auto simp: table_ok_def proposals_ok_def proposal_keys_ok_def distinct_map)

lemma table_ok_write:
  assumes d: "table_ok d" and h: "proposal_by_id i d = Some h" and pc: "pc_ok d rq pc"
    and w: "row_write env t rq h pc f"
  shows "table_ok (write_proposal i f d)"
  using h
proof (cases rule: write_proposal_cases [where f = f])
  case nothing
  then show ?thesis using d by simp
next
  case updated
  note D = table_okD [OF d]
  note hd = proposal_by_idD [OF h]
  let ?r = "(f h)\<lparr>ph_log_seq := Suc (counter_of (ph_bot_id h) d)\<rparr>"
  let ?d = "write_proposal i f d"
  have id: "same_identity h (f h)" using w pc h hd by (intro row_write_identity) auto
  have rows: "pd_holds ?d = map (\<lambda>x. if x = h then ?r else x) (pd_holds d)"
    using update_one_proposal [OF D(2)] hd unfolding updated(2) by auto
  have counter: "counter_of b ?d = (if b = ph_bot_id h then Suc (counter_of b d) else counter_of b d)" for b
    using counter_bump [of b "ph_bot_id h" d] updated(3) by (simp add: counter_of_def)
  have ok: "list_all proposal_row_ok (pd_holds ?d)"
    using D(1) hd row_write_ok [OF w pc] by (auto simp: rows list_all_iff)
  have "live (f h) \<Longrightarrow> live h" using status_move_live row_write_status [OF w pc] by blast
  then have keys: "distinct (map dedup_key (filter live (pd_holds ?d)))"
    unfolding rows using D(3, 7) hd id
    by (intro distinct_replace) (auto simp: same_identity_def)
  have "(ph_bot_id ?r, ph_log_seq ?r) \<notin> (\<lambda>h. (ph_bot_id h, ph_log_seq h)) ` set (pd_holds d)"
    using D(6) id by (auto simp: same_identity_def) (metis Suc_n_not_le_n)
  then have seqs: "distinct (map (\<lambda>h. (ph_bot_id h, ph_log_seq h)) (pd_holds ?d))"
    unfolding rows using D(4, 7) hd by (intro distinct_replace_all) auto
  have ids: "distinct (map ph_id (pd_holds ?d))"
    unfolding rows using D(2, 7) hd id by (intro distinct_replace_all) (auto simp: same_identity_def)
  have bounds: "\<forall>h \<in> set (pd_holds ?d). ph_id h < pd_next_id ?d \<and> ph_log_seq h \<le> counter_of (ph_bot_id h) ?d"
  proof
    fix x assume "x \<in> set (pd_holds ?d)"
    then consider "x \<in> set (pd_holds d)" | "x = ?r" by (auto simp: rows split: if_splits)
    then show "ph_id x < pd_next_id ?d \<and> ph_log_seq x \<le> counter_of (ph_bot_id x) ?d"
    proof cases
      case 1
      then have "ph_log_seq x \<le> Suc (counter_of (ph_bot_id x) d)" using D(6) [OF 1] by simp
      then show ?thesis using D(5) [OF 1] D(6) [OF 1] by (auto simp: counter updated(4))
    next
      case 2
      then show ?thesis using D(5) [of h] id hd by (simp add: counter updated(4) same_identity_def)
    qed
  qed
  show ?thesis
    using ok keys seqs ids bounds by (simp add: table_ok_def proposals_ok_def proposal_keys_ok_def)
qed

lemma new_proposal_ok: "checked_ok sm ck \<Longrightarrow> proposal_row_ok (new_proposal env t i sm ck)"
  by (simp add: row_ok_defs levels_ok_def decision_consistent_def new_proposal_def checked_ok_def)

lemma table_ok_insert:
  assumes d: "table_ok d" and ck: "checked_ok sm ck"
    and h: "h = new_proposal env t (pd_next_id d) sm ck"
    and fresh: "dedup_key h \<notin> set (map dedup_key (filter live (pd_holds d)))"
  shows "table_ok ((insert_proposal h d)\<lparr>pd_next_id := Suc (pd_next_id d)\<rparr>)"
proof -
  note D = table_okD [OF d]
  let ?r = "h\<lparr>ph_log_seq := Suc (counter_of (ph_bot_id h) d)\<rparr>"
  let ?d = "(insert_proposal h d)\<lparr>pd_next_id := Suc (pd_next_id d)\<rparr>"
  have rows: "pd_holds ?d = pd_holds d @ [?r]"
    by (simp add: insert_proposal_def Let_def counter_bump)
  have counter: "counter_of b ?d = (if b = ph_bot_id h then Suc (counter_of b d) else counter_of b d)" for b
    using counter_bump [of b "ph_bot_id h" d] by (simp add: counter_of_def insert_proposal_def Let_def)
  have id: "ph_id h = pd_next_id d" by (simp add: h new_proposal_def)
  have "proposal_row_ok h" using ck h new_proposal_ok by simp
  then have "list_all proposal_row_ok (pd_holds ?d)" using D(1) by (simp add: rows)
  moreover have "distinct (map ph_id (pd_holds ?d))"
    using D(2) D(5) id by (auto simp: rows) (metis less_irrefl)
  moreover have "distinct (map dedup_key (filter live (pd_holds ?d)))"
    using D(3) fresh by (auto simp: rows)
  moreover have "distinct (map (\<lambda>h. (ph_bot_id h, ph_log_seq h)) (pd_holds ?d))"
    using D(4) D(6) by (auto simp: rows) (metis Suc_n_not_le_n)
  moreover have "\<forall>x \<in> set (pd_holds ?d). ph_id x < pd_next_id ?d \<and> ph_log_seq x \<le> counter_of (ph_bot_id x) ?d"
  proof
    fix x assume "x \<in> set (pd_holds ?d)"
    then consider "x \<in> set (pd_holds d)" | "x = ?r" by (auto simp: rows)
    then show "ph_id x < pd_next_id ?d \<and> ph_log_seq x \<le> counter_of (ph_bot_id x) ?d"
    proof cases
      case 1
      then have "ph_log_seq x \<le> Suc (counter_of (ph_bot_id x) d)" using D(6) [OF 1] by simp
      then show ?thesis using D(5) [OF 1] D(6) [OF 1] by (auto simp: counter less_SucI)
    qed (simp add: id counter)
  qed
  ultimately show ?thesis by (simp add: table_ok_def proposals_ok_def proposal_keys_ok_def)
qed

lemma table_ok_same_rows: "same_rows d d' \<Longrightarrow> table_ok d \<Longrightarrow> table_ok d'"
  by (simp add: same_rows_def table_ok_def proposals_ok_def proposal_keys_ok_def counter_of_def)

lemma table_ok_effect:
  assumes "effect env t rq pc d d'" and d: "table_ok d" and pc: "pc_ok d rq pc"
  shows "table_ok d'"
  using assms(1)
proof cases
  case keeps
  then show ?thesis using d by (rule table_ok_same_rows)
next
  case (inserts sm ck h)
  then have "table_ok ((insert_proposal h d)\<lparr>pd_next_id := Suc (pd_next_id d)\<rparr>)"
    using d pc by (intro table_ok_insert [of d sm ck]) (auto simp: submission_ok_def)
  with inserts show ?thesis by (intro table_ok_same_rows [of _ d'])
next
  case (writes i h f)
  have "table_ok (write_proposal i f d)" using d writes(1) pc writes(2) by (rule table_ok_write)
  with writes(3) show ?thesis by (rule table_ok_same_rows)
qed

section \<open>Rows before and after a segment\<close>

lemma find_by_id:
  "distinct (map ph_id xs) \<Longrightarrow> h \<in> set xs \<Longrightarrow> find (\<lambda>x. ph_id x = ph_id h) xs = Some h"
  by (induction xs) auto

lemma proposal_by_id_iff:
  "table_ok d \<Longrightarrow> proposal_by_id i d = Some h \<longleftrightarrow> h \<in> set (pd_holds d) \<and> ph_id h = i"
  using find_by_id [of "pd_holds d" h] proposal_by_idD [of i d h] table_okD(2) [of d]
  by (auto simp: proposal_by_id_def)

lemma proposal_by_id_same: "same_rows d d' \<Longrightarrow> proposal_by_id i d' = proposal_by_id i d"
  by (simp add: same_rows_def proposal_by_id_def)

lemma proposal_by_id_insert:
  "proposal_by_id i ((insert_proposal h d)\<lparr>pd_next_id := n\<rparr>) =
    (case proposal_by_id i d of Some r \<Rightarrow> Some r
     | None \<Rightarrow> if ph_id h = i then Some (h\<lparr>ph_log_seq := Suc (counter_of (ph_bot_id h) d)\<rparr>) else None)"
proof -
  have "find P (xs @ [x]) = (case find P xs of Some r \<Rightarrow> Some r | None \<Rightarrow> if P x then Some x else None)"
    for P :: "proposal_hold \<Rightarrow> bool" and xs x by (induction xs) auto
  then show ?thesis
    by (simp add: proposal_by_id_def insert_proposal_def Let_def counter_bump)
qed

lemma proposal_by_id_write:
  assumes "table_ok d" and "proposal_by_id i d = Some h" and "ph_id (f h) = i"
  shows "proposal_by_id j (write_proposal i f d) =
    (if j = i then (if f h = h then Some h
       else Some ((f h)\<lparr>ph_log_seq := Suc (counter_of (ph_bot_id h) d)\<rparr>)) else proposal_by_id j d)"
  using assms(2)
proof (cases rule: write_proposal_cases [where f = f])
  case nothing
  then show ?thesis using assms(2) by simp
next
  case updated
  have hd: "ph_id h = i" "h \<in> set (pd_holds d)" using proposal_by_idD [OF assms(2)] by auto
  let ?r = "(f h)\<lparr>ph_log_seq := Suc (counter_of (ph_bot_id h) d)\<rparr>"
  have rows: "pd_holds (write_proposal i f d) = map (\<lambda>x. if x = h then ?r else x) (pd_holds d)"
    using update_one_proposal [OF table_okD(2) [OF assms(1)] hd(2)] hd(1) unfolding updated(2) by auto
  have "find (\<lambda>x. ph_id x = j) (map (\<lambda>x. if x = h then ?r else x) xs) =
      map_option (\<lambda>x. if x = h then ?r else x) (find (\<lambda>x. ph_id x = j) xs)" for xs
    using assms(3) hd(1) by (induction xs) auto
  then have "proposal_by_id j (write_proposal i f d) =
      map_option (\<lambda>x. if x = h then ?r else x) (proposal_by_id j d)"
    by (simp add: proposal_by_id_def rows)
  then show ?thesis using updated(1) assms(2) hd proposal_by_idD [of j d h]
    by (cases "proposal_by_id j d") auto
qed

text \<open>A row is untouched, or one of the writes of the table has been made to it.\<close>

lemma effect_row:
  assumes e: "effect env t rq pc d d'" and d: "table_ok d" and pc: "pc_ok d rq pc"
    and h: "proposal_by_id i d = Some h"
  obtains (same) "proposal_by_id i d' = Some h"
  | (written) f n where "row_write env t rq h pc f" "proposal_by_id i d' = Some ((f h)\<lparr>ph_log_seq := n\<rparr>)"
  using e
proof cases
  case keeps
  then show ?thesis using h same proposal_by_id_same by metis
next
  case (inserts sm ck r)
  then show ?thesis using h same proposal_by_id_same proposal_by_id_insert [where i = i and h = r and d = d]
    by (simp add: proposal_by_id_same [OF inserts(5)])
next
  case (writes j r f)
  have "ph_id (f r) = j"
    using row_write_identity [OF writes(2) pc] writes(1) proposal_by_idD [OF writes(1)]
    by (simp add: same_identity_def)
  note W = proposal_by_id_write [where f = f and j = i, OF d writes(1) this] proposal_by_id_same [OF writes(3), of i]
  show ?thesis
  proof (cases "i = j \<and> f h \<noteq> h")
    case True
    then show ?thesis using written [of f] W writes h by auto
  next
    case False
    then show ?thesis using same W writes h by (auto split: if_splits)
  qed
qed

text \<open>A row that is new is the pending one just submitted.\<close>

lemma effect_new_row:
  assumes e: "effect env t rq pc d d'" and d: "table_ok d" and pc: "pc_ok d rq pc"
    and none: "proposal_by_id i d = None" and some: "proposal_by_id i d' = Some h'"
  shows "\<exists>sm ck n. rq = Submit sm \<and> pc = AtWrite ck None \<and>
    h' = (new_proposal env t i sm ck)\<lparr>ph_log_seq := n\<rparr>"
  using e
proof cases
  case keeps
  then show ?thesis using none some proposal_by_id_same by simp
next
  case (inserts sm ck r)
  have "h' = r\<lparr>ph_log_seq := Suc (counter_of (ph_bot_id r) d)\<rparr>" "ph_id r = i"
    using none some proposal_by_id_same [OF inserts(5), of i] proposal_by_id_insert [where i = i and h = r and d = d]
    by (simp_all split: if_splits)
  then show ?thesis using inserts by (auto simp: new_proposal_def)
next
  case (writes j r f)
  have "ph_id (f r) = j"
    using row_write_identity [OF writes(2) pc] writes(1) proposal_by_idD [OF writes(1)]
    by (simp add: same_identity_def)
  then show ?thesis using none some writes(1)
      proposal_by_id_write [where f = f and j = i, OF d writes(1)] proposal_by_id_same [OF writes(3), of i]
    by (auto split: if_splits)
qed

lemma effect_identity:
  assumes "effect env t rq pc d d'" and "table_ok d" and "pc_ok d rq pc" and "proposal_by_id i d = Some h"
  obtains h' where "proposal_by_id i d' = Some h'" "same_identity h h'"
    "status_move (ph_status h) (ph_status h')"
  using assms
proof (cases rule: effect_row)
  case same
  then show ?thesis using that by (simp add: same_identity_def status_move_def)
next
  case (written f n)
  have "same_identity h (f h)"
    using row_write_identity [OF written(1) assms(3)] assms(4) proposal_by_idD [OF assms(4)] by simp
  then show ?thesis using that [OF written(2)] row_write_status [OF written(1) assms(3)]
    by (simp add: same_identity_def)
qed

section \<open>What a process knows stays true\<close>

lemma known_effect:
  "effect env t rq pc d d' \<Longrightarrow> table_ok d \<Longrightarrow> pc_ok d rq pc \<Longrightarrow> known d i \<Longrightarrow> known d' i"
  unfolding known_def by (metis effect_identity)

lemma loaded_effect:
  assumes "effect env t rq pc d d'" "table_ok d" "pc_ok d rq pc" "loaded_ok d rq' ck l"
  shows "loaded_ok d' rq' ck l"
proof -
  obtain sm h where l: "rq' = Submit sm" "dedup_key l = submitted_key sm ck"
    "proposal_by_id (ph_id l) d = Some h" "dedup_key h = dedup_key l"
    using assms(4) by (auto simp: loaded_ok_def)
  obtain h' where "proposal_by_id (ph_id l) d' = Some h'" "same_identity h h'"
    using effect_identity [OF assms(1-3) l(3)] by metis
  then show ?thesis using l by (auto simp: loaded_ok_def same_identity_def)
qed

lemma pc_ok_effect:
  assumes e: "effect env t rq pc d d'" "table_ok d" "pc_ok d rq pc" and "pc_ok d rq' pc'"
  shows "pc_ok d' rq' pc'"
  using assms(4) known_effect [OF e] loaded_effect [OF e]
  by (cases "(d, rq', pc')" rule: pc_ok.cases) (auto simp: job_ok_def)

lemma submit_checks_ok:
  assumes "submit_checks env t d sm = Inr ck"
  shows "checked_ok sm ck"
proof -
  have dedup: "extract_proposal_dedup_field a = Inr f \<Longrightarrow> dedup_field_of a = f" for a f
    by (auto simp: extract_proposal_dedup_field_def dedup_field_of_def action_text_def
      split: option.splits json.splits if_splits)
  have target: "extract_proposal_target a = Inr (x, y) \<Longrightarrow>
      action_text a ''target_id'' = Some x \<and> action_text a ''action_type'' = Some y" for a x y
    by (auto simp: extract_proposal_target_def action_text_def
      split: option.splits json.splits if_splits)
  have level: "validate_hold_level v n = Inr w \<Longrightarrow> v \<in> set proposal_hold_levels" for v n w
    by (auto simp: validate_hold_level_def split: if_splits)
  have priority: "classify_proposal ks k r = Inr p \<Longrightarrow> p \<in> set proposal_hold_levels" for ks k r p
    by (auto simp: classify_proposal_def Let_def split: classify_result.splits option.splits
      json.splits if_splits)
  show ?thesis using assms unfolding submit_checks_def check_then_def checked_ok_def
    by (auto split: sum.splits prod.splits dest!: dedup target level priority)
qed

lemma dedup_select_loaded:
  assumes "dedup_select d sm ck = Some l" and "table_ok d"
  shows "loaded_ok d (Submit sm) ck l"
proof -
  let ?hs = "filter (\<lambda>h. live h \<and> dedup_key h = submitted_key sm ck) (pd_holds d)"
  have "l \<in> set (oldest_first ?hs)"
    using assms(1) by (auto simp: dedup_select_def split: list.splits)
  then have "l \<in> set (pd_holds d)" "dedup_key l = submitted_key sm ck"
    by (auto simp: oldest_first_def)
  then show ?thesis using proposal_by_id_iff [OF assms(2), of "ph_id l" l]
    by (auto simp: loaded_ok_def)
qed

text \<open>After a commit the process goes on only when the commit succeeded.\<close>

lemma commit_to_goes_on:
  "commit_to env t d d1 pc = (d', pc') \<Longrightarrow> (d' = d1 \<and> pc' = pc) \<or> (\<exists>r. pc' = Done r)"
  by (auto simp: commit_to_def split: commit_result.splits)

lemma segment_effect:
  assumes "segment env t d rq pc = (d', pc')" and "pc_ok d rq pc"
  shows "effect env t rq pc d d'"
  using assms
  by (cases pc rule: distance_to_end.cases)
    (auto simp: with_submission_def submission_ok_def judge_segment_def check_segment_def
      rate_limit_segment_def
      indeterminate_segment_def lost_segment_def with_hold_def verdict_segment_def Let_def
      loaded_ok_def known_def effect_start effect_kill effect_cap_failed effect_claim effect_cap
      effect_finalize effect_recovery effect_last_ditch bot_result_def
      split: option.splits sum.splits prod.splits if_splits commit_result.splits fingerprint.splits
      elim!: effect_commit intro: effect_dedup_write effect_judge_note)

end
