(* ===== verification/ProposalInvariant.thy ===== *)
theory ProposalInvariant
  imports ProposalTables
begin

text \<open>
  What a process knows of the table (\<open>pc_ok\<close>) stays true under the steps of every other process, and
  with the table's own invariant it holds in every reachable state of the system.
\<close>

lemma finalized_terminal_ok:
  assumes "table_ok d" and "job_ok d job" and h: "proposal_by_id (aj_hold job) d = Some h"
    and "ph_status h = PhApplying" and "\<not> rs_indeterminate rs"
  shows "terminal_ok (finalized at at' job rs h)"
proof -
  note hd = proposal_by_idD [OF h]
  have w: "row_write env t rq h (AtFinalize job rs) (finalized at at' job rs)" for env t rq
    using assms(4) hd by (intro row_write.terminal) auto
  then have "proposal_row_ok (finalized at at' job rs h)"
    using row_write_ok [where d = d and pc = "AtFinalize job rs", OF w] assms(2)
      table_okD(1) [OF assms(1)] hd by (auto simp: list_all_iff)
  then show ?thesis using assms(5)
    by (auto simp: terminal_ok_def finalized_def decision_stamped_def Let_def split: option.splits)
qed

lemma decide_job:
  assumes "decide_segment env t d approver i decision note code = (d', pc')"
  shows "pc_ok d rq pc'"
proof (cases "proposal_by_id i d")
  case None
  then show ?thesis using assms
    by (auto simp: decide_segment_def deny_proposal_def dest!: commit_to_goes_on)
next
  case (Some h)
  have approve: "pc_ok d rq pc'"
    if "approve_segment env t d h approver note code = (d', pc')"
      "\<not> (case code of None \<Rightarrow> False | Some c \<Rightarrow> c \<notin> set decision_reason_codes)"
    using that Some proposal_by_idD [OF Some]
    by (auto simp: approve_segment_def Let_def job_ok_def known_def human_job_def
      split: if_splits option.splits dest!: commit_to_goes_on)
  show ?thesis using assms Some
    by (auto simp: decide_segment_def deny_proposal_def Let_def intro: approve
      split: if_splits option.splits dest!: commit_to_goes_on)
qed

lemma claim_job:
  assumes "claim_segment env t d at args = (d', pc')"
  shows "pc_ok d rq pc'"
proof (cases "proposal_by_id (ph_id (cl_judged args)) d")
  case None
  then show ?thesis using assms by (auto simp: claim_segment_def with_hold_def)
next
  case (Some h)
  then have "job_ok d (auto_job (ph_id h) x)" for x
    using proposal_by_idD [OF Some] by (simp add: job_ok_def known_def auto_job_def)
  then show ?thesis using assms Some
    by (auto simp: claim_segment_def with_hold_def bot_result_def split: if_splits
      dest!: commit_to_goes_on)
qed

lemma show_done:
  "commit_and_show env t d d1 i = (d', pc') \<Longrightarrow> \<exists>r. pc' = Done r"
  by (auto simp: commit_and_show_def bot_result_def split: option.splits dest!: commit_to_goes_on)

lemma start_knows: "start_segment env t d rq = (d', pc') \<Longrightarrow> pc_ok d rq pc'"
  by (auto simp: start_segment_def withdraw_segment_def get_for_bot_segment_def
      apply_record_segment_def load_own_proposal_def deny_proposal_def bot_result_def
      submission_ok_def decide_job
    split: proposal_request.splits sum.splits option.splits if_splits
    dest: submit_checks_ok show_done dest!: commit_to_goes_on)

lemma write_knows:
  assumes "dedup_write env t d sm ck e = (d', pc')" and "table_ok d"
    and "pc_ok d (Submit sm) (AtWrite ck e)"
  shows "pc_ok d' (Submit sm) pc'"
proof (cases e)
  case None
  let ?h = "new_proposal env t (pd_next_id d) sm ck"
  have "known ((insert_proposal ?h d)\<lparr>pd_next_id := Suc (pd_next_id d)\<rparr>) (ph_id ?h)"
    by (auto simp: known_def proposal_by_id_insert split: option.splits)
  then show ?thesis using assms None dedup_select_loaded [OF _ assms(2)]
    by (auto simp: dedup_write_def Let_def split: if_splits option.splits dest!: commit_to_goes_on)
next
  case (Some l)
  have "pc_ok d (Submit sm) pc'" using assms Some
    by (auto simp: dedup_write_def resubmitted_def known_def loaded_ok_def
      split: if_splits dest!: commit_to_goes_on)
  moreover have "effect env t (Submit sm) (AtWrite ck e) d d'"
    using assms(1, 3) Some by (intro effect_dedup_write) (auto simp: loaded_ok_def)
  ultimately show ?thesis using pc_ok_effect assms(2, 3) by blast
qed

lemma segment_knows:
  assumes "segment env t d rq pc = (d', pc')" and "table_ok d" and "pc_ok d rq pc"
    and "\<nexists>ck e. pc = AtWrite ck e"
  shows "pc_ok d rq pc'"
  using assms
  by (cases pc rule: distance_to_end.cases)
    (auto simp: with_submission_def submission_ok_def start_knows rate_limit_segment_def
      judge_segment_def judge_note_segment_def verdict_segment_def kill_segment_def cap_segment_def
      cap_failed_segment_def check_segment_def apply_segment_def finalize_segment_def
      indeterminate_segment_def recovery_segment_def last_ditch_segment_def lost_segment_def
      cancelled_or_def database_error_def job_result_def with_hold_def bot_result_def Let_def
      claim_job dedup_select_loaded finalized_terminal_ok
      split: if_splits option.splits sum.splits prod.splits commit_result.splits fingerprint.splits
      dest: proposal_by_idD dest!: commit_to_goes_on show_done)

lemma segment_pc_ok:
  assumes s: "segment env t d rq pc = (d', pc')" and d: "table_ok d" and pc: "pc_ok d rq pc"
  shows "pc_ok d' rq pc'"
proof (cases "\<exists>ck e. pc = AtWrite ck e")
  case True
  then obtain ck e where w: "pc = AtWrite ck e" by blast
  then obtain sm where sm: "rq = Submit sm" using pc by (auto simp: submission_ok_def)
  then show ?thesis using s pc w write_knows [OF _ d] by (simp add: with_submission_def)
next
  case False
  then have "pc_ok d rq pc'" by (intro segment_knows [OF s d pc]) auto
  then show ?thesis by (rule pc_ok_effect [OF segment_effect [OF s pc] d pc])
qed

section \<open>The invariant of the system\<close>

definition system_ok :: "proposal_system \<Rightarrow> bool" where
  "system_ok s = (table_ok (sy_db s) \<and>
     (\<forall>p \<in> set (sy_processes s). pc_ok (sy_db s) (pr_request p) (pr_pc p)))"

lemma segment_effect_of:
  assumes "system_ok s" and "k < length (sy_processes s)"
    and "segment env (sy_ticks s) (sy_db s) (pr_request (sy_processes s ! k)) (pr_pc (sy_processes s ! k)) = (d', pc')"
  shows "effect env (sy_ticks s) (pr_request (sy_processes s ! k)) (pr_pc (sy_processes s ! k)) (sy_db s) d'"
  using assms segment_effect by (simp add: system_ok_def)

lemma board_rows: "same_rows d (d\<lparr>pd_agents := ags, pd_audit := as\<rparr>)"
  by (simp add: same_rows_def)

lemma pc_ok_same_rows: "same_rows d d' \<Longrightarrow> pc_ok d' rq pc = pc_ok d rq pc"
  by (cases "(d, rq, pc)" rule: pc_ok.cases)
    (simp_all add: proposal_by_id_same known_def loaded_ok_def job_ok_def)

lemma advance_ok:
  assumes s: "system_ok s" and k: "k < length (sy_processes s)"
  shows "system_ok (advance env k s)"
proof -
  let ?p = "sy_processes s ! k"
  obtain d' pc' where seg: "segment env (sy_ticks s) (sy_db s) (pr_request ?p) (pr_pc ?p) = (d', pc')"
    by fastforce
  have d: "table_ok (sy_db s)" and p: "pc_ok (sy_db s) (pr_request ?p) (pr_pc ?p)"
    using s k by (simp_all add: system_ok_def)
  note e = segment_effect [OF seg p]
  have "pc_ok d' (pr_request q) (pr_pc q)" if "q \<in> set ((sy_processes s)[k := ?p\<lparr>pr_pc := pc'\<rparr>])" for q
    using set_update_subset_insert [of "sy_processes s" k] that s segment_pc_ok [OF seg d p]
      pc_ok_effect [OF e d p] by (fastforce simp: system_ok_def)
  then show ?thesis using table_ok_effect [OF e d p] by (simp add: system_ok_def advance_def Let_def seg)
qed

lemma empty_table: "table_ok (sy_db (empty_system ags))"
  by (simp add: table_ok_def proposals_ok_def proposal_keys_ok_def empty_system_def)

lemma reachable_ok:
  assumes "proposal_reachable env s"
  shows "system_ok s"
  using assms
proof (rule proposal_invariant)
  show "system_ok (empty_system ags)" for ags
    using empty_table by (simp add: system_ok_def) (simp add: empty_system_def)
  show "system_ok (s\<lparr>sy_processes := sy_processes s @ [\<lparr>pr_request = rq, pr_pc = AtStart\<rparr>]\<rparr>)"
    if "system_ok s" for s rq
    using that by (simp add: system_ok_def)
  show "system_ok (advance env k s)" if "system_ok s" "k < length (sy_processes s)" for s k
    using that by (rule advance_ok)
  show "system_ok (s\<lparr>sy_db := (sy_db s)\<lparr>pd_agents := ags, pd_audit := pd_audit (sy_db s) @ rows\<rparr>\<rparr>)"
    if "system_ok s" for s ags and rows :: "audit_row list"
    using that table_ok_same_rows [OF board_rows] pc_ok_same_rows [OF board_rows]
    by (simp add: system_ok_def)
qed

text \<open>
  C14. In every state the proposal pipeline can reach, under any interleaving, any judge, any clock and
  any failing commits, the table of proposals satisfies the schema: every row its \<open>CHECK\<close>s (levels,
  decision columns, apply columns, reason code), identifiers are unique, no two pending or applying
  rows share a deduplication key, and no two rows of a bot share a place in its log. Apart from the
  collision of two submissions, which the code handles, no write ever meets a violated constraint.
\<close>

theorem reachable_proposals_are_valid:
  "proposal_reachable env s \<Longrightarrow> proposals_ok (sy_db s)"
  using reachable_ok [of env s] by (simp add: system_ok_def table_ok_def)

end
