(* ===== verification/ProposalEngagement.thy ===== *)
theory ProposalEngagement
  imports ProposalInvariant
begin

text \<open>
  What the pipeline promises of the external write: at most one call of \<open>judge.apply\<close> for a proposal,
  made only for a claimed row; the recorded status agrees with what the judge answered; and the life
  of a proposal is a small abstract machine, which the detailed system refines.
\<close>

section \<open>Engagement\<close>

text \<open>A process is engaged with a hold from its claim until it has recorded (or lost) the outcome.\<close>

fun before_call :: "nat \<Rightarrow> proposal_pc \<Rightarrow> bool" where
  "before_call i (AtCheck job) = (aj_hold job = i)"
| "before_call i (AtApply job ctx h) = (aj_hold job = i)"
| "before_call i pc = False"

fun recording :: "nat \<Rightarrow> proposal_pc \<Rightarrow> bool" where
  "recording i (AtFinalize job rs) = (aj_hold job = i)"
| "recording i (AtIndeterminate job rs) = (aj_hold job = i)"
| "recording i (AtRecovery job rs h) = (aj_hold job = i)"
| "recording i (AtLastDitch job rs h) = (aj_hold job = i)"
| "recording i pc = False"

definition engaged :: "nat \<Rightarrow> proposal_pc \<Rightarrow> bool" where
  "engaged i pc = (before_call i pc \<or> recording i pc)"

definition status_of :: "nat \<Rightarrow> pdb \<Rightarrow> proposal_status option" where
  "status_of i d = map_option ph_status (proposal_by_id i d)"

definition calls_of :: "nat \<Rightarrow> apply_call list \<Rightarrow> apply_call list" where
  "calls_of i cs = filter (\<lambda>c. ac_hold c = i) cs"

definition claims_hold :: "nat \<Rightarrow> pdb \<Rightarrow> pdb \<Rightarrow> bool" where
  "claims_hold i d d' = (status_of i d = Some PhPending \<and> status_of i d' = Some PhApplying)"

lemma proposal_by_id_claim_audits [simp]:
  "proposal_by_id i (claim_audits at args h d) = proposal_by_id i d"
  by (auto simp: claim_audits_def Let_def split: option.splits)

lemma proposal_by_id_approval_audit [simp]:
  "proposal_by_id i (approval_audit at a code h d) = proposal_by_id i d"
  by (simp add: approval_audit_def)

lemma claim_engages:
  assumes "claim_segment env t d at args = (d', pc')" and "engaged i pc'" and "table_ok d"
  shows "claims_hold i d d' \<and> before_call i pc'"
proof -
  obtain h where h: "proposal_by_id (ph_id (cl_judged args)) d = Some h"
    using assms(1, 2) by (auto simp: claim_segment_def with_hold_def engaged_def split: option.splits)
  note hd = proposal_by_idD [OF h]
  let ?a = "auto_claimed at args"
  have ok: "ph_status h = PhPending"
    using assms(1, 2) h by (auto simp: claim_segment_def with_hold_def engaged_def bot_result_def
      split: if_splits dest!: commit_to_goes_on)
  then have "?a h \<noteq> h" by (auto simp: auto_claimed_def claimed_by_def dest: arg_cong [where f = ph_status])
  moreover have "ph_id (?a h) = ph_id (cl_judged args)" using hd by (simp add: auto_claimed_def claimed_by_def)
  moreover have "ph_status (?a h) = PhApplying" by (simp add: auto_claimed_def claimed_by_def)
  ultimately have "status_of (ph_id (cl_judged args)) (write_proposal (ph_id (cl_judged args)) ?a d) = Some PhApplying"
    using proposal_by_id_write [where f = ?a, OF assms(3) h] by (simp add: status_of_def)
  then show ?thesis using assms(1, 2) h hd ok
    by (auto simp: claim_segment_def with_hold_def claims_hold_def status_of_def engaged_def auto_job_def
      bot_result_def split: if_splits dest!: commit_to_goes_on)
qed

lemma approve_engages:
  assumes "approve_segment env t d h approver note code = (d', pc')" and "engaged i pc'"
    and d: "table_ok d" and h: "proposal_by_id (ph_id h) d = Some h" and "ph_status h = PhPending"
  shows "claims_hold i d d' \<and> before_call i pc'"
proof -
  let ?c = "\<lambda>r. claimed_by approver ByHuman (pe_clock env t 2) note code
    (approval_recorded approver (pe_clock env t 1) note code r)"
  have "?c h \<noteq> h" using assms(5) by (auto simp: claimed_by_def dest: arg_cong [where f = ph_status])
  moreover have "ph_id (?c h) = ph_id h" by (simp add: claimed_by_def approval_recorded_def)
  moreover have "ph_status (?c h) = PhApplying" by (simp add: claimed_by_def)
  ultimately have "status_of (ph_id h) (write_proposal (ph_id h) ?c d) = Some PhApplying"
    using proposal_by_id_write [where f = ?c, OF d h] by (simp add: status_of_def)
  then show ?thesis using assms
    by (auto simp: approve_segment_def Let_def claims_hold_def status_of_def engaged_def human_job_def
      split: if_splits option.splits dest!: commit_to_goes_on)
qed

lemma decide_engages:
  assumes "decide_segment env t d approver j decision note code = (d', pc')" and "engaged i pc'"
    and "table_ok d"
  shows "claims_hold i d d' \<and> before_call i pc'"
proof (cases "proposal_by_id j d")
  case None
  then show ?thesis using assms(1, 2)
    by (auto simp: decide_segment_def deny_proposal_def engaged_def dest!: commit_to_goes_on)
next
  case (Some h)
  note hd = proposal_by_idD [OF Some]
  have "approve_segment env t d h approver note code = (d', pc') \<and> ph_status h = PhPending"
    using assms(1, 2) Some
    by (auto simp: decide_segment_def deny_proposal_def engaged_def Let_def
      split: if_splits option.splits dest!: commit_to_goes_on)
  then show ?thesis using approve_engages [where h = h] assms(2, 3) Some hd by auto
qed

lemma start_engages:
  assumes "start_segment env t d rq = (d', pc')" and "engaged i pc'" and "table_ok d"
  shows "claims_hold i d d' \<and> before_call i pc'"
  using assms
  by (auto simp: start_segment_def withdraw_segment_def get_for_bot_segment_def
      apply_record_segment_def load_own_proposal_def deny_proposal_def bot_result_def engaged_def
    split: proposal_request.splits sum.splits option.splits if_splits
    dest: decide_engages [unfolded engaged_def] dest!: show_done commit_to_goes_on)

text \<open>A process becomes engaged only by a claim, which takes the row from pending to applying.\<close>

lemma segment_engages:
  assumes "segment env t d rq pc = (d', pc')" and "engaged i pc'" and "table_ok d" and "\<not> engaged i pc"
  shows "claims_hold i d d' \<and> before_call i pc'"
  using assms
  by (cases pc rule: distance_to_end.cases)
    (auto simp: engaged_def with_submission_def rate_limit_segment_def dedup_write_def
      judge_segment_def judge_note_segment_def verdict_segment_def kill_segment_def cap_segment_def
      cap_failed_segment_def check_segment_def apply_segment_def finalize_segment_def
      indeterminate_segment_def recovery_segment_def last_ditch_segment_def lost_segment_def
      cancelled_or_def database_error_def job_result_def with_hold_def bot_result_def Let_def
      split: if_splits option.splits sum.splits prod.splits commit_result.splits fingerprint.splits
      proposal_request.splits
      dest: claim_engages [unfolded engaged_def] start_engages [unfolded engaged_def]
      dest!: commit_to_goes_on show_done)

end
