(* ===== verification/ProposalSafety.thy ===== *)
theory ProposalSafety
  imports ProposalEngagement
begin

text \<open>
  At most one process is engaged with a hold, no hold is passed to \<open>judge.apply\<close> twice, and only a
  process that records an outcome takes a row out of \<open>applying\<close>.
\<close>

section \<open>The row under a segment\<close>

lemma status_after:
  assumes "effect env t rq pc d d'" and "table_ok d" and "pc_ok d rq pc" and "status_of i d = Some a"
  shows "\<exists>b. status_of i d' = Some b \<and> status_move a b"
proof -
  obtain h where h: "proposal_by_id i d = Some h" "ph_status h = a"
    using assms(4) by (auto simp: status_of_def)
  obtain h' where "proposal_by_id i d' = Some h'" "status_move (ph_status h) (ph_status h')"
    using effect_identity [OF assms(1-3) h(1)] by metis
  then show ?thesis using h by (simp add: status_of_def)
qed

lemma status_new:
  assumes "effect env t rq pc d d'" and "table_ok d" and "pc_ok d rq pc" and "status_of i d = None"
  shows "status_of i d' \<in> {None, Some PhPending}"
proof (cases "proposal_by_id i d'")
  case None
  then show ?thesis by (simp add: status_of_def)
next
  case (Some h')
  have "proposal_by_id i d = None" using assms(4) by (simp add: status_of_def)
  from effect_new_row [OF assms(1-3) this Some] show ?thesis
    using Some by (auto simp: status_of_def new_proposal_def)
qed

lemma applying_left:
  assumes "effect env t rq pc d d'" and "table_ok d" and "pc_ok d rq pc"
    and a: "status_of i d = Some PhApplying" and b: "status_of i d' \<noteq> Some PhApplying"
  shows "recording i pc"
proof -
  obtain h where h: "proposal_by_id i d = Some h" "ph_status h = PhApplying"
    using a by (auto simp: status_of_def)
  note hd = proposal_by_idD [OF h(1)]
  from assms(1-3) h(1) show ?thesis
  proof (cases rule: effect_row)
    case same
    then show ?thesis using h b by (simp add: status_of_def)
  next
    case (written f n)
    from written(1) show ?thesis
    proof cases
      case terminal
      then show ?thesis using hd by simp
    next
      case recovery
      then show ?thesis using hd by simp
    next
      case last_ditch
      then show ?thesis using hd by simp
    qed (use h b written(2) in \<open>auto simp: status_of_def resubmission_update_def\<close>)
  qed
qed

section \<open>At most one call\<close>

definition count_where :: "(proposal_pc \<Rightarrow> bool) \<Rightarrow> proposal_system \<Rightarrow> nat" where
  "count_where P s = length (filter (\<lambda>p. P (pr_pc p)) (sy_processes s))"

lemma filter_update_length:
  "k < length xs \<Longrightarrow> length (filter P (xs[k := y])) + (if P (xs ! k) then 1 else 0) =
   length (filter P xs) + (if P y then 1 else 0)"
proof (induction xs arbitrary: k)
  case (Cons x xs)
  then show ?case by (cases k) auto
qed simp

lemma count_where_positive: "k < length (sy_processes s) \<Longrightarrow> P (pr_pc (sy_processes s ! k)) \<Longrightarrow> 0 < count_where P s"
  using nth_mem [of k "sy_processes s"] by (force simp: count_where_def filter_empty_conv)

lemma count_where_mono: "(\<And>pc. P pc \<Longrightarrow> Q pc) \<Longrightarrow> count_where P s \<le> count_where Q s"
proof -
  assume pq: "\<And>pc. P pc \<Longrightarrow> Q pc"
  have "length (filter (\<lambda>p. P (pr_pc p)) xs) \<le> length (filter (\<lambda>p. Q (pr_pc p)) xs)" for xs :: "proposal_process list"
    using pq by (induction xs) (auto intro: le_SucI)
  then show ?thesis by (simp add: count_where_def)
qed

definition call_number :: "nat \<Rightarrow> proposal_system \<Rightarrow> nat" where
  "call_number i s = length (calls_of i (sy_applies s))"

text \<open>One step of one process, taken apart.\<close>

lemma advanceE:
  assumes "system_ok s" and k: "k < length (sy_processes s)"
  obtains rq pc d' pc' where "pr_request (sy_processes s ! k) = rq" "pr_pc (sy_processes s ! k) = pc"
    "segment env (sy_ticks s) (sy_db s) rq pc = (d', pc')" "pc_ok (sy_db s) rq pc" "table_ok (sy_db s)"
    "effect env (sy_ticks s) rq pc (sy_db s) d'" "sy_db (advance env k s) = d'"
    "sy_processes (advance env k s) = (sy_processes s)[k := \<lparr>pr_request = rq, pr_pc = pc'\<rparr>]"
    "sy_applies (advance env k s) = sy_applies s @ applies_of env (sy_ticks s) pc"
proof -
  let ?p = "sy_processes s ! k"
  obtain d' pc' where seg: "segment env (sy_ticks s) (sy_db s) (pr_request ?p) (pr_pc ?p) = (d', pc')"
    by fastforce
  have p: "pc_ok (sy_db s) (pr_request ?p) (pr_pc ?p)" and d: "table_ok (sy_db s)"
    using assms by (simp_all add: system_ok_def)
  have q: "?p\<lparr>pr_pc := pc'\<rparr> = \<lparr>pr_request = pr_request ?p, pr_pc = pc'\<rparr>" by (cases ?p) simp
  have "sy_processes (advance env k s) = (sy_processes s)[k := ?p\<lparr>pr_pc := pc'\<rparr>]"
    by (simp add: advance_def Let_def seg)
  from this [unfolded q] show ?thesis
    by (rule that [OF HOL.refl HOL.refl seg p d segment_effect [OF seg p], rotated])
      (simp_all add: advance_def Let_def seg)
qed

lemma count_where_advance:
  assumes "k < length (sy_processes s)" and "pr_pc (sy_processes s ! k) = pc"
    and "sy_processes s' = (sy_processes s)[k := \<lparr>pr_request = rq, pr_pc = pc'\<rparr>]"
  shows "count_where P s' + (if P pc then 1 else 0) = count_where P s + (if P pc' then 1 else 0)"
  using filter_update_length [OF assms(1), of "\<lambda>p. P (pr_pc p)" "\<lparr>pr_request = rq, pr_pc = pc'\<rparr>"] assms(2, 3)
  by (simp add: count_where_def)

lemma recording_goes_on:
  "segment env t d rq pc = (d', pc') \<Longrightarrow> recording i pc \<Longrightarrow> \<not> before_call i pc'"
  by (cases pc rule: distance_to_end.cases)
    (auto simp: finalize_segment_def indeterminate_segment_def recovery_segment_def
      last_ditch_segment_def cancelled_or_def database_error_def job_result_def with_hold_def Let_def
      split: if_splits option.splits commit_result.splits dest!: commit_to_goes_on)

lemma calling_goes_on:
  "segment env t d rq pc = (d', pc') \<Longrightarrow> applies_of env t pc \<noteq> [] \<Longrightarrow>
   (\<exists>job ctx h. pc = AtApply job ctx h \<and> d' = d \<and>
      pc' = AtFinalize job (applied_resolution (pc_target_id ctx) (apply_result_of env t ctx)))"
  by (cases pc) (auto simp: applies_of_def apply_segment_def)

lemma before_not_recording: "before_call i pc \<Longrightarrow> \<not> recording i pc"
  by (cases pc) simp_all

lemma count_where_engaged:
  "count_where (engaged i) s = count_where (before_call i) s + count_where (recording i) s"
proof -
  have "length (filter (\<lambda>p. engaged i (pr_pc p)) xs) =
      length (filter (\<lambda>p. before_call i (pr_pc p)) xs) + length (filter (\<lambda>p. recording i (pr_pc p)) xs)"
    for xs using before_not_recording by (induction xs) (auto simp: engaged_def)
  then show ?thesis by (simp add: count_where_def)
qed

definition single :: "nat \<Rightarrow> proposal_system \<Rightarrow> bool" where
  "single i s =
     (count_where (engaged i) s \<le> 1 \<and> count_where (before_call i) s + call_number i s \<le> 1 \<and>
      (status_of i (sy_db s) \<in> {None, Some PhPending} \<longrightarrow>
         count_where (engaged i) s = 0 \<and> call_number i s = 0) \<and>
      (0 < count_where (before_call i) s \<longrightarrow> status_of i (sy_db s) = Some PhApplying))"

lemma single_advance:
  assumes ok: "system_ok s" and k: "k < length (sy_processes s)" and s: "single i s"
  shows "single i (advance env k s)"
proof -
  let ?s' = "advance env k s"
  obtain rq pc d' pc' where a: "pr_pc (sy_processes s ! k) = pc"
    "segment env (sy_ticks s) (sy_db s) rq pc = (d', pc')" "pc_ok (sy_db s) rq pc" "table_ok (sy_db s)"
    "effect env (sy_ticks s) rq pc (sy_db s) d'" "sy_db ?s' = d'"
    "sy_processes ?s' = (sy_processes s)[k := \<lparr>pr_request = rq, pr_pc = pc'\<rparr>]"
    "sy_applies ?s' = sy_applies s @ applies_of env (sy_ticks s) pc"
    by (rule advanceE [OF ok k]) (rule that; assumption)
  note count = count_where_advance [OF k a(1, 7)]
  have calls: "call_number i ?s' = call_number i s +
      (if applies_of env (sy_ticks s) pc \<noteq> [] \<and> before_call i pc then 1 else 0)"
    by (cases pc) (auto simp: call_number_def calls_of_def a(8) applies_of_def)
  have applying: "applies_of env (sy_ticks s) pc \<noteq> [] \<Longrightarrow> before_call i pc \<Longrightarrow> \<not> before_call i pc' \<and> engaged i pc'"
    using calling_goes_on [OF a(2)] by (auto simp: engaged_def)
  have parts: "count_where (engaged i) s = count_where (before_call i) s + count_where (recording i) s"
    by (rule count_where_engaged)
  note after = status_after [OF a(5, 4, 3), of i] status_new [OF a(5, 4, 3), of i]
  note left = applying_left [OF a(5, 4, 3), of i]
  note S = s [unfolded single_def]
  show ?thesis
  proof (cases "engaged i pc")
    case True
    then have one: "count_where (engaged i) s = 1"
      using S count_where_positive [of k s "engaged i"] k a(1) by simp
    then have "status_of i d' \<notin> {None, Some PhPending}"
      using S after(1) by (cases "status_of i (sy_db s)") (auto simp: status_move_def)
    moreover have "count_where (engaged i) ?s' \<le> 1" using count [of "engaged i"] one True by simp
    moreover have "status_of i d' = Some PhApplying" if "0 < count_where (before_call i) ?s'"
    proof -
      have "before_call i pc"
      proof (rule ccontr)
        assume "\<not> before_call i pc"
        then have r: "recording i pc" using True by (simp add: engaged_def)
        then have "0 < count_where (before_call i) s"
          using that count [of "before_call i"] recording_goes_on [OF a(2)] \<open>\<not> before_call i pc\<close> by simp
        then show False using one parts r count_where_positive [of k s "recording i"] k a(1) by simp
      qed
      moreover from this have "0 < count_where (before_call i) s"
        using count_where_positive k a(1) by simp
      ultimately show ?thesis using S left before_not_recording by blast
    qed
    moreover have "count_where (before_call i) ?s' + call_number i ?s' \<le> 1"
      using S count [of "before_call i"] calls applying recording_goes_on [OF a(2), of i] True
      by (auto simp: engaged_def split: if_splits)
    ultimately show ?thesis by (auto simp: single_def a(6))
  next
    case False
    then have nb: "\<not> before_call i pc" "\<not> recording i pc" by (simp_all add: engaged_def)
    then have c: "call_number i ?s' = call_number i s" by (simp add: calls)
    show ?thesis
    proof (cases "engaged i pc'")
      case True
      then have "claims_hold i (sy_db s) d'" "before_call i pc'"
        using segment_engages [OF a(2) _ a(4) False] by auto
      then show ?thesis using S c True False nb count [of "engaged i"] count [of "before_call i"] parts
        by (simp add: single_def a(6) claims_hold_def)
    next
      case no: False
      then have same: "count_where (engaged i) ?s' = count_where (engaged i) s"
        "count_where (before_call i) ?s' = count_where (before_call i) s"
        using False nb count [of "engaged i"] count [of "before_call i"] by (simp_all add: engaged_def)
      have "status_of i d' \<in> {None, Some PhPending} \<Longrightarrow> status_of i (sy_db s) \<in> {None, Some PhPending}"
        using after(1) by (cases "status_of i (sy_db s)") (auto simp: status_move_def)
      then show ?thesis using S same c left nb by (simp add: single_def a(6)) blast
    qed
  qed
qed

lemma board_rows_of: "proposal_by_id i (d\<lparr>pd_agents := ags, pd_audit := as\<rparr>) = proposal_by_id i d"
  by (simp add: proposal_by_id_def)

lemma reachable_single:
  assumes "proposal_reachable env s"
  shows "single i s"
proof -
  have "system_ok s \<and> single i s"
    using assms
  proof (rule proposal_invariant)
    show "system_ok (empty_system ags) \<and> single i (empty_system ags)" for ags
      using reachable_ok [OF proposal_reachable.start]
      by (simp add: single_def) (simp add: count_where_def call_number_def calls_of_def empty_system_def)
    show "system_ok (s\<lparr>sy_processes := sy_processes s @ [\<lparr>pr_request = rq, pr_pc = AtStart\<rparr>]\<rparr>) \<and>
        single i (s\<lparr>sy_processes := sy_processes s @ [\<lparr>pr_request = rq, pr_pc = AtStart\<rparr>]\<rparr>)"
      if "system_ok s \<and> single i s" for s rq
      using that by (simp add: system_ok_def single_def count_where_def call_number_def engaged_def)
    show "system_ok (advance env k s) \<and> single i (advance env k s)"
      if "system_ok s \<and> single i s" "k < length (sy_processes s)" for s k
      using that advance_ok single_advance by blast
    show "system_ok (s\<lparr>sy_db := (sy_db s)\<lparr>pd_agents := ags, pd_audit := pd_audit (sy_db s) @ rows\<rparr>\<rparr>) \<and>
        single i (s\<lparr>sy_db := (sy_db s)\<lparr>pd_agents := ags, pd_audit := pd_audit (sy_db s) @ rows\<rparr>\<rparr>)"
      if "system_ok s \<and> single i s" for s ags and rows :: "audit_row list"
      using that table_ok_same_rows [OF board_rows] pc_ok_same_rows [OF board_rows]
      by (simp add: system_ok_def single_def count_where_def call_number_def status_of_def board_rows_of)
  qed
  then show ?thesis ..
qed

text \<open>
  C5. The external write of a proposal is made at most once. Whatever submissions, resubmissions,
  decisions and withdrawals race, whichever commits fail or are interrupted, no hold is ever passed
  twice to \<open>judge.apply\<close>, and none that is still pending has been passed to it at all.
\<close>

theorem proposals_apply_at_most_once:
  assumes "proposal_reachable env s"
  shows "length (filter (\<lambda>c. ac_hold c = i) (sy_applies s)) \<le> 1 \<and>
    (\<forall>h \<in> set (pd_holds (sy_db s)). ph_status h = PhPending \<longrightarrow>
       ph_id h \<notin> set (map ac_hold (sy_applies s)))"
proof -
  have "ph_id h \<notin> set (map ac_hold (sy_applies s))"
    if "h \<in> set (pd_holds (sy_db s))" "ph_status h = PhPending" for h
  proof -
    have "status_of (ph_id h) (sy_db s) = Some PhPending"
      using that proposal_by_id_iff [of "sy_db s" "ph_id h" h] reachable_ok [OF assms]
      by (simp add: status_of_def system_ok_def)
    then have "call_number (ph_id h) s = 0"
      using reachable_single [OF assms, of "ph_id h"] by (simp add: single_def)
    then show ?thesis by (auto simp: call_number_def calls_of_def filter_empty_conv)
  qed
  moreover have "call_number i s \<le> 1" using reachable_single [OF assms, of i] by (simp add: single_def)
  ultimately show ?thesis by (simp add: call_number_def calls_of_def)
qed

end
