(* ===== verification/ProposalTruth.thy ===== *)
theory ProposalTruth
  imports ProposalSafety
begin

text \<open>
  The recorded outcome is the judge's: what a process between the call and its commits carries, and
  how the status of the row follows from it.
\<close>

section \<open>What a process carries\<close>

definition success :: "resolution \<Rightarrow> bool" where
  "success rs = (\<not> rs_stale rs \<and> rs_error rs = None \<and> \<not> rs_indeterminate rs)"

text \<open>Carrying a success of hold \<open>i\<close>; and carrying nothing of hold \<open>i\<close> but a success.\<close>

fun carries_success :: "nat \<Rightarrow> proposal_pc \<Rightarrow> bool" where
  "carries_success i (AtFinalize job rs) = (aj_hold job = i \<and> success rs)"
| "carries_success i (AtRecovery job rs r) = (aj_hold job = i \<and> ph_status r = PhApplied)"
| "carries_success i (AtLastDitch job rs r) = (aj_hold job = i \<and> ph_status r = PhApplied)"
| "carries_success i pc = False"

fun may_write :: "nat \<Rightarrow> proposal_pc \<Rightarrow> bool" where
  "may_write i (AtIndeterminate job rs) = False"
| "may_write i pc = engaged i pc"

definition only_success :: "nat \<Rightarrow> proposal_pc \<Rightarrow> bool" where
  "only_success i pc = (may_write i pc \<longrightarrow> carries_success i pc)"

definition call_succeeded :: "nat \<Rightarrow> proposal_system \<Rightarrow> bool" where
  "call_succeeded i s = (\<exists>c \<in> set (sy_applies s). ac_hold c = i \<and>
     (\<exists>oc. ac_outcome c = Some oc \<and> ao_applied oc))"

lemma outcome_error: "\<not> ao_applied (normalize_outcome a i ce r l) \<Longrightarrow> ao_caller_error (normalize_outcome a i ce r l) \<noteq> None"
  using normalize_outcome_failed by blast

lemma outcome_determinate: "ao_applied (normalize_outcome a i ce r l) \<Longrightarrow> \<not> ao_indeterminate (normalize_outcome a i ce r l)"
  using normalize_outcome_exclusive by blast

definition normalized :: "apply_outcome \<Rightarrow> bool" where
  "normalized oc = (\<exists>a i ce re l. oc = normalize_outcome a i ce re l)"

lemma normalize_normalized [simp]: "normalized (normalize_outcome a i ce re l)"
  unfolding normalized_def by (intro exI) (rule HOL.refl)

lemma safe_apply_shape: "safe_apply r = Some oc \<Longrightarrow> normalized oc"
  unfolding safe_apply_def read_apply_def Let_def
  by (auto split: outcome.splits raw_apply.splits option.splits if_splits applied_attr.splits
    bool.splits result_attr.splits)

text \<open>The resolution of a call is a success exactly when the judge says so.\<close>

lemma applied_resolution_success:
  "success (applied_resolution tid (apply_result_of env t ctx)) \<longleftrightarrow>
   (\<exists>oc. apply_result_of env t ctx = Some oc \<and> ao_applied oc)"
proof (cases "apply_result_of env t ctx")
  case None
  then show ?thesis by (simp add: applied_resolution_def success_def)
next
  case (Some oc)
  then obtain a i ce re l where "oc = normalize_outcome a i ce re l"
    using safe_apply_shape [of "pe_apply env t ctx" oc] by (auto simp: apply_result_of_def normalized_def)
  then show ?thesis using Some outcome_error [of a i ce re l]
    by (auto simp: applied_resolution_def success_def)
qed

lemma finalized_status:
  "\<not> rs_indeterminate rs \<Longrightarrow> ph_status (finalized at at' job rs h) = PhApplied \<longleftrightarrow> success rs"
  by (auto simp: finalized_def decision_stamped_def Let_def success_def split: option.splits)

text \<open>A segment other than the call neither makes nor loses a success.\<close>

lemma recording_segment:
  assumes "segment env t d rq pc = (d', pc')" and "recording i pc"
  shows "carries_success i pc' \<Longrightarrow> carries_success i pc" and "carries_success i pc \<Longrightarrow> only_success i pc'"
proof -
  have "(carries_success i pc' \<longrightarrow> carries_success i pc) \<and> (carries_success i pc \<longrightarrow> only_success i pc')"
    using assms
    by (cases pc rule: distance_to_end.cases)
      (auto simp: finalize_segment_def indeterminate_segment_def recovery_segment_def
        last_ditch_segment_def cancelled_or_def database_error_def job_result_def with_hold_def Let_def
        only_success_def engaged_def finalized_status success_def
        split: if_splits option.splits commit_result.splits dest!: commit_to_goes_on)
  then show "carries_success i pc' \<Longrightarrow> carries_success i pc" "carries_success i pc \<Longrightarrow> only_success i pc'"
    by auto
qed

lemma checking_segment:
  "segment env t d rq (AtCheck job) = (d', pc') \<Longrightarrow> \<not> carries_success i pc'"
  by (auto simp: check_segment_def with_hold_def Let_def success_def failed_resolution_def
    split: if_splits option.splits sum.splits prod.splits fingerprint.splits)

lemma carries_engaged: "carries_success i pc \<Longrightarrow> recording i pc"
  by (cases pc) simp_all

lemma may_write_engaged: "may_write i pc \<Longrightarrow> engaged i pc"
  by (cases pc) (simp_all add: engaged_def)

lemma success_comes_from:
  assumes "segment env t d rq pc = (d', pc')" and "table_ok d" and "carries_success i pc'"
    and "\<not> carries_success i pc"
  shows "\<exists>c \<in> set (applies_of env t pc). ac_hold c = i \<and> (\<exists>oc. ac_outcome c = Some oc \<and> ao_applied oc)"
proof -
  have e: "engaged i pc'" using carries_engaged [OF assms(3)] by (simp add: engaged_def)
  have "engaged i pc"
    using segment_engages [OF assms(1) e assms(2)] carries_engaged [OF assms(3)] before_not_recording by blast
  moreover have "\<not> recording i pc" using recording_segment(1) [OF assms(1) _ assms(3)] assms(4) by blast
  ultimately have "before_call i pc" by (simp add: engaged_def)
  then show ?thesis
  proof (cases pc)
    case (AtCheck job)
    then show ?thesis using checking_segment assms(1, 3) by blast
  next
    case (AtApply job ctx h)
    then show ?thesis using assms(1, 3)
      by (auto simp: apply_segment_def applied_resolution_success applies_of_def)
  qed simp_all
qed

text \<open>Only a carried success makes a row applied, and a carried success makes it nothing else.\<close>

lemma applied_reached:
  assumes "effect env t rq pc d d'" and "table_ok d" and "pc_ok d rq pc"
    and a: "status_of i d \<noteq> Some PhApplied" and b: "status_of i d' = Some PhApplied"
  shows "carries_success i pc"
proof -
  have "status_of i d = Some PhApplying"
    using status_after [OF assms(1-3), of i] status_new [OF assms(1-3), of i] a b
    by (cases "status_of i d") (auto simp: status_move_def)
  then obtain h where h: "proposal_by_id i d = Some h" "ph_status h = PhApplying"
    by (auto simp: status_of_def)
  note hd = proposal_by_idD [OF h(1)]
  from assms(1-3) h(1) show ?thesis
  proof (cases rule: effect_row)
    case same
    then show ?thesis using h b by (simp add: status_of_def)
  next
    case (written f n)
    then have f: "ph_status (f h) = PhApplied" using b by (simp add: status_of_def)
    from written(1) show ?thesis
    proof cases
      case (terminal job rs at at')
      then show ?thesis using hd f
        by (auto simp: finalized_def decision_stamped_def Let_def success_def split: option.splits if_splits)
    next
      case (recovery job rs r)
      then show ?thesis using hd f by (simp add: recovered_def)
    next
      case (last_ditch job rs r)
      then show ?thesis using hd f by (auto simp: last_ditch_def recovered_def split: if_splits)
    qed (use h f in \<open>auto simp: resubmission_update_def\<close>)
  qed
qed

lemma success_recorded:
  assumes "effect env t rq pc d d'" and "table_ok d" and "pc_ok d rq pc"
    and a: "status_of i d = Some PhApplying" and pc: "only_success i pc"
  shows "status_of i d' \<in> {Some PhApplying, Some PhApplied}"
proof -
  obtain h where h: "proposal_by_id i d = Some h" "ph_status h = PhApplying"
    using a by (auto simp: status_of_def)
  note hd = proposal_by_idD [OF h(1)]
  from assms(1-3) h(1) show ?thesis
  proof (cases rule: effect_row)
    case same
    then show ?thesis using h by (simp add: status_of_def)
  next
    case (written f n)
    have "ph_status (f h) \<in> {PhApplying, PhApplied}"
      using written(1)
    proof cases
      case (terminal job rs at at')
      then show ?thesis using hd pc
        by (auto simp: only_success_def engaged_def finalized_def decision_stamped_def Let_def success_def)
    next
      case (recovery job rs r)
      then show ?thesis using hd pc by (simp add: only_success_def engaged_def recovered_def)
    next
      case (last_ditch job rs r)
      then show ?thesis using hd pc by (simp add: only_success_def engaged_def last_ditch_def recovered_def)
    qed (use h in \<open>auto simp: resubmission_update_def\<close>)
    then show ?thesis using written(2) by (simp add: status_of_def)
  qed
qed

section \<open>The system\<close>

lemma only_one:
  assumes "length (filter P xs) \<le> 1" and "x \<in> set xs" "P x" and "y \<in> set xs" "P y"
  shows "x = y"
proof -
  have "x \<in> set (filter P xs)" "y \<in> set (filter P xs)" using assms by simp_all
  then show ?thesis using assms(1) by (cases "filter P xs") auto
qed

definition truthful :: "nat \<Rightarrow> proposal_system \<Rightarrow> bool" where
  "truthful i s =
     ((status_of i (sy_db s) = Some PhApplied \<or> (\<exists>p \<in> set (sy_processes s). carries_success i (pr_pc p)) \<longrightarrow>
         call_succeeded i s) \<and>
      (call_succeeded i s \<longrightarrow> status_of i (sy_db s) \<in> {Some PhApplying, Some PhApplied} \<and>
         (\<forall>p \<in> set (sy_processes s). only_success i (pr_pc p))))"

lemma success_stays:
  assumes seg: "segment env t d rq pc = (d', pc')" and d: "table_ok d" and pc: "pc_ok d rq pc"
    and a: "status_of i d \<in> {Some PhApplying, Some PhApplied}" and only: "only_success i pc"
  shows "status_of i d' \<in> {Some PhApplying, Some PhApplied} \<and> only_success i pc'"
proof
  note e = segment_effect [OF seg pc]
  show "status_of i d' \<in> {Some PhApplying, Some PhApplied}"
    using a success_recorded [OF e d pc _ only] status_after [OF e d pc, of i PhApplied]
    by (auto simp: status_move_def)
  show "only_success i pc'"
  proof (cases "engaged i pc'")
    case False
    then show ?thesis using may_write_engaged by (auto simp: only_success_def)
  next
    case True
    have "engaged i pc"
    proof (rule ccontr)
      assume "\<not> engaged i pc"
      then show False using segment_engages [OF seg True d] a by (auto simp: claims_hold_def)
    qed
    then show ?thesis
    proof (cases "may_write i pc")
      case True
      then have "carries_success i pc" using only by (simp add: only_success_def)
      then show ?thesis using recording_segment(2) [OF seg] carries_engaged by blast
    next
      case False
      then obtain job rs where "pc = AtIndeterminate job rs"
        using \<open>engaged i pc\<close> by (cases pc) (auto simp: engaged_def)
      then show ?thesis using seg
        by (auto simp: indeterminate_segment_def cancelled_or_def Let_def only_success_def engaged_def
          split: commit_result.splits if_splits)
    qed
  qed
qed

lemma truthful_advance:
  assumes ok: "system_ok s" and k: "k < length (sy_processes s)" and one: "single i s" and s: "truthful i s"
  shows "truthful i (advance env k s)"
proof -
  let ?s' = "advance env k s"
  obtain rq pc d' pc' where a: "pr_pc (sy_processes s ! k) = pc"
    "segment env (sy_ticks s) (sy_db s) rq pc = (d', pc')" "pc_ok (sy_db s) rq pc" "table_ok (sy_db s)"
    "effect env (sy_ticks s) rq pc (sy_db s) d'" "sy_db ?s' = d'"
    "sy_processes ?s' = (sy_processes s)[k := \<lparr>pr_request = rq, pr_pc = pc'\<rparr>]"
    "sy_applies ?s' = sy_applies s @ applies_of env (sy_ticks s) pc"
    by (rule advanceE [OF ok k]) (rule that; assumption)
  have mono: "call_succeeded i s \<Longrightarrow> call_succeeded i ?s'" by (auto simp: call_succeeded_def a(8))
  have procs: "p = \<lparr>pr_request = rq, pr_pc = pc'\<rparr> \<or> p \<in> set (sy_processes s)" if "p \<in> set (sy_processes ?s')" for p
    using set_mp [OF set_update_subset_insert] that unfolding a(7) by fastforce
  have here: "carries_success i pc \<Longrightarrow> call_succeeded i s"
    using s nth_mem [OF k] a(1) by (auto simp: truthful_def)
  have "call_succeeded i ?s'" if "status_of i d' = Some PhApplied"
    using that applied_reached [OF a(5, 4, 3), of i] here s mono by (auto simp: truthful_def)
  moreover have "call_succeeded i ?s'" if p: "p \<in> set (sy_processes ?s')" "carries_success i (pr_pc p)" for p
  proof (cases "p \<in> set (sy_processes s)")
    case True
    then show ?thesis using p s mono by (auto simp: truthful_def)
  next
    case False
    then have "carries_success i pc'" using procs p by fastforce
    then show ?thesis using success_comes_from [OF a(2, 4), of i] here mono
      by (cases "carries_success i pc") (auto simp: call_succeeded_def a(8))
  qed
  moreover have "status_of i d' \<in> {Some PhApplying, Some PhApplied} \<and>
      (\<forall>p \<in> set (sy_processes ?s'). only_success i (pr_pc p))" if new: "call_succeeded i ?s'"
  proof (cases "call_succeeded i s")
    case True
    then have B: "status_of i (sy_db s) \<in> {Some PhApplying, Some PhApplied}"
      "\<forall>p \<in> set (sy_processes s). only_success i (pr_pc p)" using s by (auto simp: truthful_def)
    then have "only_success i pc" using nth_mem [OF k] a(1) by auto
    then show ?thesis using success_stays [OF a(2, 4, 3) B(1)] B(2) procs by fastforce
  next
    case False
    then obtain c where c: "c \<in> set (applies_of env (sy_ticks s) pc)" "ac_hold c = i"
      "\<exists>oc. ac_outcome c = Some oc \<and> ao_applied oc"
      using new by (auto simp: call_succeeded_def a(8))
    then have "applies_of env (sy_ticks s) pc \<noteq> []" by auto
    from calling_goes_on [OF a(2) this] c
    obtain job ctx h where pc: "pc = AtApply job ctx h" "aj_hold job = i" "d' = sy_db s"
      "pc' = AtFinalize job (applied_resolution (pc_target_id ctx) (apply_result_of env (sy_ticks s) ctx))"
      and oc: "\<exists>oc. apply_result_of env (sy_ticks s) ctx = Some oc \<and> ao_applied oc"
      by (auto simp: applies_of_def)
    have carried: "carries_success i pc'" using oc pc by (simp add: applied_resolution_success)
    have "0 < count_where (before_call i) s" using count_where_positive [OF k] a(1) pc by simp
    then have status: "status_of i d' = Some PhApplying" using one pc by (simp add: single_def)
    have "p = \<lparr>pr_request = rq, pr_pc = pc'\<rparr>" if "p \<in> set (sy_processes ?s')" "engaged i (pr_pc p)" for p
    proof (rule only_one [where P = "\<lambda>p. engaged i (pr_pc p)" and xs = "sy_processes ?s'"])
      show "length (filter (\<lambda>p. engaged i (pr_pc p)) (sy_processes ?s')) \<le> 1"
        using single_advance [OF ok k one] by (simp add: single_def count_where_def)
      show "\<lparr>pr_request = rq, pr_pc = pc'\<rparr> \<in> set (sy_processes ?s')"
        unfolding a(7) using k by (rule set_update_memI)
      show "engaged i (pr_pc \<lparr>pr_request = rq, pr_pc = pc'\<rparr>)"
        using carried carries_engaged by (simp add: engaged_def)
    qed (use that in simp_all)
    then have "only_success i (pr_pc p)" if "p \<in> set (sy_processes ?s')" for p
      using that carried may_write_engaged by (fastforce simp: only_success_def)
    then show ?thesis using status by simp
  qed
  ultimately show ?thesis unfolding truthful_def a(6) by blast
qed

lemma reachable_truthful:
  assumes "proposal_reachable env s"
  shows "truthful i s"
proof -
  have "system_ok s \<and> single i s \<and> truthful i s"
    using assms
  proof (rule proposal_invariant)
    show "system_ok (empty_system ags) \<and> single i (empty_system ags) \<and> truthful i (empty_system ags)" for ags
      using reachable_ok [OF proposal_reachable.start] reachable_single [OF proposal_reachable.start]
      by (simp add: truthful_def call_succeeded_def status_of_def)
        (simp add: empty_system_def proposal_by_id_def)
    show "system_ok (s\<lparr>sy_processes := sy_processes s @ [\<lparr>pr_request = rq, pr_pc = AtStart\<rparr>]\<rparr>) \<and>
        single i (s\<lparr>sy_processes := sy_processes s @ [\<lparr>pr_request = rq, pr_pc = AtStart\<rparr>]\<rparr>) \<and>
        truthful i (s\<lparr>sy_processes := sy_processes s @ [\<lparr>pr_request = rq, pr_pc = AtStart\<rparr>]\<rparr>)"
      if "system_ok s \<and> single i s \<and> truthful i s" for s rq
      using that by (simp add: system_ok_def single_def count_where_def call_number_def engaged_def
        truthful_def call_succeeded_def only_success_def)
    show "system_ok (advance env k s) \<and> single i (advance env k s) \<and> truthful i (advance env k s)"
      if "system_ok s \<and> single i s \<and> truthful i s" "k < length (sy_processes s)" for s k
      using that advance_ok single_advance truthful_advance by blast
    show "system_ok (s\<lparr>sy_db := (sy_db s)\<lparr>pd_agents := ags, pd_audit := pd_audit (sy_db s) @ rows\<rparr>\<rparr>) \<and>
        single i (s\<lparr>sy_db := (sy_db s)\<lparr>pd_agents := ags, pd_audit := pd_audit (sy_db s) @ rows\<rparr>\<rparr>) \<and>
        truthful i (s\<lparr>sy_db := (sy_db s)\<lparr>pd_agents := ags, pd_audit := pd_audit (sy_db s) @ rows\<rparr>\<rparr>)"
      if "system_ok s \<and> single i s \<and> truthful i s" for s ags and rows :: "audit_row list"
      using that table_ok_same_rows [OF board_rows] pc_ok_same_rows [OF board_rows]
      by (simp add: system_ok_def single_def count_where_def call_number_def status_of_def board_rows_of
        truthful_def call_succeeded_def)
  qed
  then show ?thesis by blast
qed

text \<open>
  What \<open>judge.apply\<close> itself reported, before the board looked at it: \<open>applied=True\<close>, not flagged as
  indeterminate, with no result or with one the board can store, a dictionary that serialises.
\<close>

definition reported_applied :: "raw_apply outcome \<Rightarrow> bool" where
  "reported_applied r = (case r of
      Returned (RawOutcome (AppliedBool True) result caller_error log_detail indeterminate) \<Rightarrow>
        \<not> truthy indeterminate \<and> (case result of ResultNone \<Rightarrow> True | ResultDict d \<Rightarrow> True | _ \<Rightarrow> False)
    | _ \<Rightarrow> False)"

lemma reported_applied_outcome:
  "reported_applied r \<Longrightarrow> \<exists>oc. safe_apply r = Some oc \<and> ao_applied oc"
  by (auto simp: reported_applied_def safe_apply_def read_apply_def normalize_outcome_def Let_def
    split: outcome.splits raw_apply.splits applied_attr.splits bool.splits result_attr.splits)

lemma reachable_outcomes:
  assumes "proposal_reachable env s"
  shows "\<forall>c \<in> set (sy_applies s). ac_outcome c = safe_apply (ac_reported c)"
  using assms
proof (rule proposal_invariant)
  fix s :: proposal_system and k
  assume s: "\<forall>c \<in> set (sy_applies s). ac_outcome c = safe_apply (ac_reported c)"
  have "c \<in> set (applies_of env (sy_ticks s) pc) \<Longrightarrow> ac_outcome c = safe_apply (ac_reported c)" for c pc
    by (auto simp: applies_of_def apply_result_of_def split: proposal_pc.splits)
  then show "\<forall>c \<in> set (sy_applies (advance env k s)). ac_outcome c = safe_apply (ac_reported c)"
    using s by (auto simp: advance_def Let_def split: prod.splits)
qed (simp_all add: empty_system_def)

text \<open>
  C6. A write that \<open>judge.apply\<close> reported as made is never recorded as anything else: once \<open>apply\<close> has
  returned \<open>applied=True\<close> for a hold, not flagged as indeterminate and with no result or with a
  dictionary that serialises, the row of the hold is \<open>applied\<close>, or still \<open>applying\<close> while the outcome has
  not been committed, in every later state, however often commits fail on the way; it is never
  \<open>apply_failed\<close>, \<open>stale\<close>, \<open>rejected\<close> or back in the queue. The conditions on the report are the ones under
  which the board believes it: \<open>applied=True\<close> together with a result of another type, or with one that does
  not serialise, is taken for a breach of the plugin contract and recorded as \<open>apply_failed\<close>
  (\<open>write_with_a_bad_result_is_recorded_as_failed\<close>).
\<close>

theorem applied_is_never_recorded_as_failed:
  assumes "proposal_reachable env s" and "c \<in> set (sy_applies s)" and "reported_applied (ac_reported c)"
  shows "\<exists>h. proposal_by_id (ac_hold c) (sy_db s) = Some h \<and> ph_status h \<in> {PhApplying, PhApplied}"
proof -
  have "call_succeeded (ac_hold c) s"
    using reported_applied_outcome [OF assms(3)] reachable_outcomes [OF assms(1)] assms(2)
    by (auto simp: call_succeeded_def)
  then have "status_of (ac_hold c) (sy_db s) \<in> {Some PhApplying, Some PhApplied}"
    using reachable_truthful [OF assms(1)] by (simp add: truthful_def)
  then show ?thesis by (auto simp: status_of_def)
qed


end
