(* ===== verification/ProposalLifecycle.thy ===== *)
theory ProposalLifecycle
  imports ProposalTruth
begin

text \<open>
  The life of a proposal as an abstract machine, which the system refines: each step of the detailed
  system does nothing to it or makes one move of one proposal.
\<close>

section \<open>The abstract machine\<close>

text \<open>A proposal's status, and how often the external write has been made for it.\<close>

record life =
  lf_status :: proposal_status
  lf_calls :: nat

inductive life_move :: "life option \<Rightarrow> life option \<Rightarrow> bool" where
  submitted: "life_move None (Some \<lparr>lf_status = PhPending, lf_calls = 0\<rparr>)"
| closed: "b \<in> {PhRejected, PhWithdrawn} \<Longrightarrow>
    life_move (Some \<lparr>lf_status = PhPending, lf_calls = 0\<rparr>) (Some \<lparr>lf_status = b, lf_calls = 0\<rparr>)"
| claimed: "life_move (Some \<lparr>lf_status = PhPending, lf_calls = 0\<rparr>) (Some \<lparr>lf_status = PhApplying, lf_calls = 0\<rparr>)"
| called: "life_move (Some \<lparr>lf_status = PhApplying, lf_calls = 0\<rparr>) (Some \<lparr>lf_status = PhApplying, lf_calls = 1\<rparr>)"
| settled: "b \<in> {PhApplied, PhApplyFailed, PhStale} \<Longrightarrow> b = PhApplied \<longrightarrow> n = 1 \<Longrightarrow> n \<le> 1 \<Longrightarrow>
    life_move (Some \<lparr>lf_status = PhApplying, lf_calls = n\<rparr>) (Some \<lparr>lf_status = b, lf_calls = n\<rparr>)"

definition life_of :: "proposal_system \<Rightarrow> nat \<Rightarrow> life option" where
  "life_of s i = map_option (\<lambda>h. \<lparr>lf_status = ph_status h, lf_calls = length (calls_of i (sy_applies s))\<rparr>)
     (proposal_by_id i (sy_db s))"

text \<open>One step of the abstract system: nothing, or a move of one proposal.\<close>

inductive lives_step :: "(nat \<Rightarrow> life option) \<Rightarrow> (nat \<Rightarrow> life option) \<Rightarrow> bool" where
  nothing: "lives_step m m"
| moves: "life_move (m i) l \<Longrightarrow> lives_step m (m(i := l))"

section \<open>The refinement\<close>

text \<open>A segment changes the status of one row at most.\<close>

lemma effect_one_row:
  assumes "effect env t rq pc d d'" and "table_ok d" and "pc_ok d rq pc"
  obtains i where "\<And>j. j \<noteq> i \<Longrightarrow> proposal_by_id j d' = proposal_by_id j d"
  using assms(1)
proof cases
  case keeps
  then show ?thesis using that proposal_by_id_same by blast
next
  case (inserts sm ck h)
  then show ?thesis using that [of "ph_id h"] proposal_by_id_same [OF inserts(5)] proposal_by_id_insert [where h = h and d = d]
    by (auto split: option.splits)
next
  case (writes i h f)
  have "ph_id (f h) = i"
    using row_write_identity [OF writes(2) assms(3)] writes(1) proposal_by_idD [OF writes(1)]
    by (simp add: same_identity_def)
  then show ?thesis using that [of i] proposal_by_id_same [OF writes(3)]
      proposal_by_id_write [where f = f, OF assms(2) writes(1)] by simp
qed

text \<open>The call changes no row.\<close>

lemma call_number_advance:
  assumes "sy_applies s' = sy_applies s @ applies_of env t pc"
  shows "call_number i s' = call_number i s + (if applies_of env t pc \<noteq> [] \<and> before_call i pc then 1 else 0)"
  by (cases pc) (auto simp: call_number_def calls_of_def assms applies_of_def)

lemma life_of_def':
  "life_of s i = map_option (\<lambda>a. \<lparr>lf_status = a, lf_calls = call_number i s\<rparr>) (status_of i (sy_db s))"
  by (simp add: life_of_def status_of_def call_number_def option.map_comp comp_def)

lemma life_of_advance:
  assumes r: "proposal_reachable env s" and k: "k < length (sy_processes s)"
  shows "lives_step (life_of s) (life_of (advance env k s))"
proof -
  let ?s' = "advance env k s"
  note ok = reachable_ok [OF r]
  have r': "proposal_reachable env ?s'"
    by (rule proposal_reachable.further [OF r proposal_step.advances [OF k]])
  note single = reachable_single [OF r] and single' = reachable_single [OF r']
  obtain rq pc d' pc' where a: "pr_pc (sy_processes s ! k) = pc"
    "segment env (sy_ticks s) (sy_db s) rq pc = (d', pc')" "pc_ok (sy_db s) rq pc" "table_ok (sy_db s)"
    "effect env (sy_ticks s) rq pc (sy_db s) d'" "sy_db ?s' = d'"
    "sy_processes ?s' = (sy_processes s)[k := \<lparr>pr_request = rq, pr_pc = pc'\<rparr>]"
    "sy_applies ?s' = sy_applies s @ applies_of env (sy_ticks s) pc"
    by (rule advanceE [OF ok k]) (rule that; assumption)
  note calls = call_number_advance [OF a(8)]
  show ?thesis
  proof (cases "applies_of env (sy_ticks s) pc = []")
    case False
    then obtain job ctx h where pc: "pc = AtApply job ctx h" "d' = sy_db s"
      using calling_goes_on [OF a(2)] by blast
    let ?i = "aj_hold job"
    have "0 < count_where (before_call ?i) s" using count_where_positive [OF k] a(1) pc by simp
    then have "life_of s ?i = Some \<lparr>lf_status = PhApplying, lf_calls = 0\<rparr>"
      using single [of ?i] by (simp add: single_def life_of_def')
    moreover have "life_of ?s' = (life_of s)(?i := Some \<lparr>lf_status = PhApplying, lf_calls = 1\<rparr>)"
      using calls False pc calculation by (auto simp: life_of_def' a(6))
    ultimately show ?thesis using lives_step.moves [of "life_of s" ?i] life_move.called by simp
  next
    case True
    then have same: "call_number i ?s' = call_number i s" for i using calls by simp
    obtain i where i: "\<And>j. j \<noteq> i \<Longrightarrow> proposal_by_id j d' = proposal_by_id j (sy_db s)"
      using effect_one_row [OF a(5, 4, 3)] by metis
    then have upd: "life_of ?s' = (life_of s)(i := life_of ?s' i)"
      by (auto simp: life_of_def' same a(6) status_of_def)
    have "life_of ?s' i = life_of s i \<or> life_move (life_of s i) (life_of ?s' i)"
    proof (cases "status_of i (sy_db s)")
      case None
      then show ?thesis using status_new [OF a(5, 4, 3) None] single [of i] life_move.submitted
        by (auto simp: life_of_def' same a(6) single_def)
    next
      case (Some b)
      then obtain b' where b': "status_of i d' = Some b'" "status_move b b'"
        using status_after [OF a(5, 4, 3)] by blast
      have pending: "b = PhPending \<Longrightarrow> call_number i s = 0" and one: "call_number i s \<le> 1"
        using single [of i] Some by (simp_all add: single_def)
      have "b' = PhApplied \<Longrightarrow> call_number i s = 1"
        using reachable_truthful [OF r', of i] b'(1) one same [of i]
        by (auto simp: truthful_def a(6) call_succeeded_def call_number_def calls_of_def filter_empty_conv
          le_Suc_eq)
      then show ?thesis using b' Some pending one life_move.closed [of b'] life_move.claimed
          life_move.settled [of b' "call_number i s"]
        by (auto simp: life_of_def' same a(6) status_move_def)
    qed
    then show ?thesis
    proof
      assume "life_of ?s' i = life_of s i"
      then have "life_of ?s' = life_of s" using upd by simp
      then show ?thesis using lives_step.nothing by simp
    next
      assume "life_move (life_of s i) (life_of ?s' i)"
      from lives_step.moves [where m = "life_of s" and i = i, OF this] show ?thesis by (simp add: upd [symmetric])
    qed
  qed
qed

text \<open>
  C13. Every step of the proposal pipeline refines the life of a proposal: seen as a status and a number
  of external writes per proposal, a step of any request does nothing, or makes one move of one
  proposal: submitted, rejected or withdrawn while pending, claimed, called once while applying, and
  settled, as applied only after the call. So a decided proposal is never decided again, a terminal
  status is final, and the external write happens between the claim and the terminal status.
\<close>

theorem proposals_refine_their_life:
  assumes "proposal_reachable env s" and "proposal_step env s s'"
  shows "lives_step (life_of s) (life_of s')"
  using assms(2)
proof cases
  case (arrives rq)
  then show ?thesis using lives_step.nothing by (simp add: life_of_def [abs_def])
next
  case (advances k)
  then show ?thesis using life_of_advance [OF assms(1)] by simp
next
  case (board rows ags)
  then have "life_of s' = life_of s" by (auto simp: life_of_def board_rows_of)
  then show ?thesis using lives_step.nothing by simp
qed

end
