(* ===== verification/ProposalDemo.thy ===== *)
theory ProposalDemo
  imports ProposalLifecycle
begin

text \<open>
  Concrete runs of the proposal pipeline, for the witnesses: a judge, submissions and decisions, and the
  states the system reaches with them.
\<close>

section \<open>Driving the system\<close>

text \<open>A schedule: a request arrives, or the process with this number runs its next segment.\<close>

datatype event = Arrive proposal_request | Run nat

fun drive :: "proposal_env \<Rightarrow> proposal_system \<Rightarrow> event list \<Rightarrow> proposal_system" where
  "drive env s [] = s"
| "drive env s (Arrive rq # es) =
     drive env (s\<lparr>sy_processes := sy_processes s @ [\<lparr>pr_request = rq, pr_pc = AtStart\<rparr>]\<rparr>) es"
| "drive env s (Run k # es) = (if k < length (sy_processes s) then drive env (advance env k s) es else s)"

lemma drive_reachable: "proposal_reachable env s \<Longrightarrow> proposal_reachable env (drive env s es)"
proof (induction es arbitrary: s)
  case (Cons e es)
  show ?case
  proof (cases e)
    case (Arrive rq)
    then show ?thesis using Cons.IH [OF proposal_reachable.further [OF Cons.prems proposal_step.arrives]] by simp
  next
    case (Run k)
    then show ?thesis
      using Cons.prems Cons.IH [OF proposal_reachable.further [OF Cons.prems proposal_step.advances]] by simp
  qed
qed simp

section \<open>A judge and a submission\<close>

text \<open>The judge approves what its note says, the target is as submitted, and the apply succeeds.\<close>

definition demo_env :: "bool \<Rightarrow> proposal_env" where
  "demo_env approve = \<lparr>pe_classify = (\<lambda>k a. Classified (Some (JStr ''low''))),
     pe_supported_kinds = NoSupportedKinds,
     pe_fingerprint = (\<lambda>t c. Returned \<lparr>rf_status = Some (JStr ''digest''), rf_digest = Some (JStr ''f''),
       rf_error = None\<rparr>),
     pe_judge = (\<lambda>t c. Returned \<lparr>rv_type_name = ''Verdict'', rv_approved = ApprovedBool approve,
       rv_note = NoteStr ''ok'', rv_rule = JStr ''r''\<rparr>),
     pe_apply = (\<lambda>t c. Returned (RawOutcome (AppliedBool True) ResultNone None None None)),
     pe_clock = (\<lambda>t n. int t), pe_commit = (\<lambda>t. Committed), pe_cap_query_fails = (\<lambda>t. False),
     pe_rate_limits = None, pe_kill_switch = None, pe_daily_caps = None,
     pe_cross_brain = (\<lambda>t. None), pe_auto_rules = (\<lambda>t. None),
     pe_max_pending_submitter = (\<lambda>t. None), pe_max_pending_target = (\<lambda>t. None),
     pe_uuid = (\<lambda>s. None)\<rparr>"

definition demo_submission :: "string \<Rightarrow> submission" where
  "demo_submission text = \<lparr>sm_kind = ''doc'', sm_bot_id = ''b'', sm_owner_sub = ''o'',
     sm_action = [(''target_id'', JStr ''d1''), (''action_type'', JStr ''edit''), (''text'', JStr text)],
     sm_rationale = ''r'', sm_confidence = ''high'', sm_importance = ''low'', sm_impact = ''low'',
     sm_sender_agent_id = None, sm_labels = JNull\<rparr>"

definition auto_run :: proposal_system where
  "auto_run = drive (demo_env True) (empty_system []) (Arrive (Submit (demo_submission ''x'')) # replicate 10 (Run 0))"

lemma auto_run_reachable: "proposal_reachable (demo_env True) auto_run"
  unfolding auto_run_def by (intro drive_reachable proposal_reachable.start)

lemma auto_run_state:
  "map (\<lambda>p. is_done (pr_pc p)) (sy_processes auto_run) = [True]"
  "map (\<lambda>h. (ph_id h, ph_status h, ph_log_seq h)) (pd_holds (sy_db auto_run)) = [(0, PhApplied, 3)]"
  "map (\<lambda>c. (ac_hold c, ac_source c, map_option ao_applied (ac_outcome c))) (sy_applies auto_run) = [(0, ByAuto, Some True)]"
  by code_simp+

lemma auto_run_report: "map (\<lambda>c. (ac_hold c, reported_applied (ac_reported c))) (sy_applies auto_run) = [(0, True)]"
  by code_simp

text \<open>
  The same run with a judge whose \<open>apply\<close> reports the write as made but returns a list as its result:
  \<open>_safe_apply\<close> takes the report for a failure, and the hold ends as \<open>apply_failed\<close>.
\<close>

definition bad_result_run :: proposal_system where
  "bad_result_run = drive ((demo_env True)\<lparr>pe_apply := \<lambda>t c.
       Returned (RawOutcome (AppliedBool True) (ResultOther ''[1]'') None None None)\<rparr>)
     (empty_system []) (Arrive (Submit (demo_submission ''x'')) # replicate 10 (Run 0))"

theorem write_with_a_bad_result_is_recorded_as_failed:
  "map (\<lambda>c. (ac_hold c, ac_reported c)) (sy_applies bad_result_run) =
     [(0, Returned (RawOutcome (AppliedBool True) (ResultOther ''[1]'') None None None))]"
  "map (\<lambda>h. (ph_id h, ph_status h)) (pd_holds (sy_db bad_result_run)) = [(0, PhApplyFailed)]"
  by code_simp+

text \<open>A second scenario: the judge leaves the proposal to its owner, who approves it.\<close>

definition human_run :: proposal_system where
  "human_run = drive (demo_env False) (empty_system [])
     (Arrive (Submit (demo_submission ''x'')) # replicate 6 (Run 0) @
      Arrive (Decide ''o'' 0 ''approve'' None None) # replicate 4 (Run 1))"

lemma human_run_reachable: "proposal_reachable (demo_env False) human_run"
  unfolding human_run_def by (intro drive_reachable proposal_reachable.start)

lemma human_run_state:
  "map (\<lambda>p. is_done (pr_pc p)) (sy_processes human_run) = [True, True]"
  "map (\<lambda>h. (ph_id h, ph_status h, ph_decided_by h)) (pd_holds (sy_db human_run)) = [(0, PhApplied, Some ''o'')]"
  "map (\<lambda>c. (ac_hold c, ac_actor c, ac_source c)) (sy_applies human_run) = [(0, ''o'', ByHuman)]"
  by code_simp+

section \<open>A resubmission that meets a claim\<close>

text \<open>
  \<open>_dedup_or_insert_proposal\<close> reads the pending row without a lock. Here the owner approves the first
  text between that read and the write of the resubmission, so that the apply, which reads the row
  again after the claim, sends the second text.
\<close>

definition race_before :: "event list" where
  "race_before = Arrive (Submit (demo_submission ''x'')) # replicate 6 (Run 0) @
     Arrive (Submit (demo_submission ''y'')) # replicate 3 (Run 1)"

definition race_approved :: proposal_system where
  "race_approved = drive (demo_env False) (empty_system []) (race_before @ [Arrive (Decide ''o'' 0 ''approve'' None None), Run 2])"

definition race_run :: proposal_system where
  "race_run = drive (demo_env False) race_approved (Run 1 # replicate 3 (Run 2))"

lemma race_reachable: "proposal_reachable (demo_env False) race_approved"
  "proposal_reachable (demo_env False) race_run"
  unfolding race_approved_def race_run_def by (intro drive_reachable proposal_reachable.start)+

lemma race_approved_row:
  "map (\<lambda>h. (ph_id h, ph_status h, map_of (ph_action h) ''text'')) (pd_holds (sy_db race_approved)) =
     [(0, PhApplying, Some (JStr ''x''))]"
  "sy_applies race_approved = []"
  by code_simp+

lemma race_applied_call:
  "map (\<lambda>c. (ac_hold c, ac_source c, map_of (pc_action (ac_context c)) ''text'')) (sy_applies race_run) =
     [(0, ByHuman, Some (JStr ''y''))]"
  "map (\<lambda>h. (ph_id h, ph_status h)) (pd_holds (sy_db race_run)) = [(0, PhApplied)]"
  by code_simp+

section \<open>The properties of the pipeline on these runs\<close>

lemma one_hold:
  "map (\<lambda>h. (ph_id h, ph_status h, ph_log_seq h)) (pd_holds (sy_db s)) = [(i, b, n)] \<Longrightarrow>
   \<exists>h. pd_holds (sy_db s) = [h] \<and> ph_id h = i \<and> ph_status h = b"
  by auto

theorem reachable_proposals_are_valid_witness:
  "proposals_ok (sy_db race_run) \<and> map ph_id (pd_holds (sy_db race_run)) = [0]"
proof -
  have "map ph_id (pd_holds (sy_db race_run)) = map fst (map (\<lambda>h. (ph_id h, ph_status h)) (pd_holds (sy_db race_run)))"
    by simp
  then show ?thesis
    using reachable_proposals_are_valid [OF race_reachable(2)] unfolding race_applied_call(2) by simp
qed

theorem proposals_apply_at_most_once_witness:
  "length (filter (\<lambda>c. ac_hold c = 0) (sy_applies race_run)) \<le> 1 \<and> sy_applies race_run \<noteq> []"
  using proposals_apply_at_most_once [OF race_reachable(2), of 0] race_applied_call(1) by auto

theorem applied_is_never_recorded_as_failed_witness:
  "\<exists>h. proposal_by_id 0 (sy_db auto_run) = Some h \<and> ph_status h \<in> {PhApplying, PhApplied}"
proof -
  obtain c where "sy_applies auto_run = [c]" "ac_hold c = 0" "reported_applied (ac_reported c)"
    using auto_run_report by auto
  then show ?thesis using applied_is_never_recorded_as_failed [OF auto_run_reachable, of c] by simp
qed


theorem proposals_refine_their_life_witness:
  "lives_step (life_of race_approved) (life_of (advance (demo_env False) 1 race_approved))"
proof (rule proposals_refine_their_life [OF race_reachable(1)], rule proposal_step.advances)
  show "1 < length (sy_processes race_approved)" by code_simp
qed

end
