(* ===== verification/ProposalLimits.thy ===== *)
theory ProposalLimits
  imports ProposalDemo
begin

text \<open>
  The daily cap on automatic approvals: the audit log, which the cap is counted on, grows by one
  \<open>proposal.auto_approved\<close> row per automatic claim and by no other step.
\<close>

section \<open>Automatic approvals in the audit log\<close>

definition autos :: "pdb \<Rightarrow> audit_row list" where
  "autos d = filter (\<lambda>a. al_action a = ''proposal.auto_approved'') (pd_audit d)"

definition quiet :: "pdb \<Rightarrow> pdb \<Rightarrow> bool" where
  "quiet d d' = (autos d' = autos d)"

lemma quiet_same [simp]: "quiet d d"
  by (simp add: quiet_def)

lemma quiet_audit [simp]:
  "b \<noteq> ''proposal.auto_approved'' \<Longrightarrow> quiet d (add_proposal_audit at a b j d') = quiet d d'"
  by (simp add: quiet_def autos_def add_proposal_audit_def)

lemma quiet_write [simp]: "quiet d (write_proposal i f d') = quiet d d'"
  by (simp add: quiet_def autos_def write_proposal_def bump_counter_def Let_def split: option.splits)

lemma quiet_insert [simp]: "quiet d ((insert_proposal h d')\<lparr>pd_next_id := n\<rparr>) = quiet d d'"
  by (simp add: quiet_def autos_def insert_proposal_def bump_counter_def Let_def)

lemma quiet_commit: "commit_to env t d d1 pc1 = (d', pc') \<Longrightarrow> quiet d d1 \<Longrightarrow> quiet d d'"
  by (auto simp: commit_to_def split: commit_result.splits if_splits)

lemma quiet_show: "commit_and_show env t d d1 i = (d', pc') \<Longrightarrow> quiet d d1 \<Longrightarrow> quiet d d'"
  unfolding commit_and_show_def by (rule quiet_commit)

lemma quiet_review [simp]: "quiet d (hold_for_review at h note detail d') = quiet d d'"
  by (simp add: hold_for_review_def)

lemma quiet_outcome [simp]: "quiet d (outcome_audit at job rs d') = quiet d d'"
  by (simp add: outcome_audit_def)

lemma quiet_terminal [simp]: "quiet d (terminal_audit at job rs r d') = quiet d d'"
  by (simp add: terminal_audit_def)

lemma quiet_last_ditch [simp]: "quiet d (last_ditch_audit at job rs r d') = quiet d d'"
  by (simp add: last_ditch_audit_def)

lemma quiet_approval [simp]: "quiet d (approval_audit at a code h d') = quiet d d'"
  by (simp add: approval_audit_def)

lemma quiet_decide: "decide_segment env t d approver i decision note code = (d', pc') \<Longrightarrow> quiet d d'"
  by (auto simp: decide_segment_def approve_segment_def Let_def deny_proposal_def
    split: option.splits if_splits elim!: quiet_commit)

lemma quiet_start: "start_segment env t d rq = (d', pc') \<Longrightarrow> quiet d d'"
  by (auto simp: start_segment_def withdraw_segment_def get_for_bot_segment_def apply_record_segment_def
      load_own_proposal_def bot_result_def quiet_decide deny_proposal_def
    split: proposal_request.splits sum.splits option.splits if_splits elim!: quiet_commit quiet_show)

text \<open>The rows an automatic claim adds.\<close>

definition auto_row :: "int \<Rightarrow> claim_args \<Rightarrow> audit_row \<Rightarrow> bool" where
  "auto_row at args a = (al_at a = at \<and> json_get (al_detail a) ''action_type'' = Some (JStr (cl_action_type args)))"

definition claims_once :: "pdb \<Rightarrow> pdb \<Rightarrow> int \<Rightarrow> claim_args \<Rightarrow> bool" where
  "claims_once d d' at args = (quiet d d' \<or> (\<exists>a. autos d' = autos d @ [a] \<and> auto_row at args a))"

lemma autos_claim:
  assumes "claim_segment env t d at args = (d', pc')"
  shows "claims_once d d' at args"
proof (cases "proposal_by_id (ph_id (cl_judged args)) d")
  case None
  then show ?thesis using assms by (simp add: claim_segment_def with_hold_def claims_once_def)
next
  case (Some h)
  let ?w = "write_proposal (ph_id h) (auto_claimed at args) d"
  let ?row = "\<lparr>al_at = at, al_actor_sub = judge_decided_by, al_action = ''proposal.auto_approved'',
      al_agent_id = None, al_conversation_id = None, al_message_id = None,
      al_detail = JObj [(''action_type'', JStr (cl_action_type args)), (''rule'', cl_rule args),
        (''hold_id'', JId (ph_id h))]\<rparr>"
  have "autos ?w = autos d" using quiet_write [of d] by (simp add: quiet_def)
  then have "autos (claim_audits at args h ?w) = autos d @ [?row]"
    by (auto simp: claim_audits_def Let_def autos_def add_proposal_audit_def split: option.splits)
  moreover have "auto_row at args ?row" by (simp add: auto_row_def json_get_def)
  ultimately have "claims_once d (claim_audits at args h ?w) at args" unfolding claims_once_def by blast
  then show ?thesis using assms Some
    by (auto simp: claim_segment_def with_hold_def commit_to_def claims_once_def
      split: if_splits commit_result.splits)
qed

lemma quiet_segment:
  assumes "segment env t d rq pc = (d', pc')" and "\<nexists>args. pc = AtClaim args" and "\<nexists>cap args. pc = AtCap cap args"
  shows "quiet d d'"
  using assms
  by (cases pc rule: distance_to_end.cases)
    (auto simp: with_submission_def rate_limit_segment_def dedup_write_def judge_segment_def
      judge_note_segment_def verdict_segment_def kill_segment_def cap_failed_segment_def
      check_segment_def finalize_segment_def indeterminate_segment_def recovery_segment_def
      last_ditch_segment_def lost_segment_def with_hold_def Let_def quiet_start
      split: proposal_request.splits option.splits sum.splits prod.splits if_splits commit_result.splits
        fingerprint.splits
      elim!: quiet_commit quiet_show)

lemma autos_cap:
  assumes "cap_segment env t d cap args = (d', pc')"
  shows "quiet d d' \<or> (claims_once d d' (pe_clock env t 1) args \<and>
    auto_approvals_since d (cl_action_type args) (utc_day_start (pe_clock env t 1)) < cap)"
  using assms
  by (auto simp: cap_segment_def with_hold_def Let_def autos_claim
    split: option.splits if_splits commit_result.splits elim!: quiet_commit quiet_show)

section \<open>The cap\<close>

definition cap_of :: "proposal_env \<Rightarrow> string \<Rightarrow> nat option" where
  "cap_of env ty = proposal_auto_approve_daily_cap_for
     (parse_proposal_auto_approve_daily_caps (pe_daily_caps env)) ty"

fun cap_known :: "proposal_env \<Rightarrow> proposal_pc \<Rightarrow> bool" where
  "cap_known env (AtCap cap args) = (cap_of env (cl_action_type args) = Some cap)"
| "cap_known env (AtClaim args) = (cap_of env (cl_action_type args) = None)"
| "cap_known env pc = True"

lemma claim_cap_known: "claim_segment env t d at args = (d', pc') \<Longrightarrow> cap_known env pc'"
  by (auto simp: claim_segment_def with_hold_def bot_result_def
    split: option.splits if_splits dest!: commit_to_goes_on)

lemma decide_cap_known: "decide_segment env t d a i x n c = (d', pc') \<Longrightarrow> cap_known env pc'"
  by (auto simp: decide_segment_def approve_segment_def deny_proposal_def Let_def
    split: option.splits if_splits dest!: commit_to_goes_on)

lemma segment_cap_known:
  assumes "segment env t d rq pc = (d', pc')"
  shows "cap_known env pc'"
  using assms
  by (cases pc rule: distance_to_end.cases)
    (auto simp: start_segment_def withdraw_segment_def get_for_bot_segment_def apply_record_segment_def
      load_own_proposal_def deny_proposal_def with_submission_def rate_limit_segment_def dedup_write_def
      judge_segment_def judge_note_segment_def verdict_segment_def kill_segment_def cap_segment_def
      cap_failed_segment_def check_segment_def apply_segment_def finalize_segment_def
      indeterminate_segment_def recovery_segment_def last_ditch_segment_def lost_segment_def
      cancelled_or_def database_error_def job_result_def with_hold_def bot_result_def Let_def cap_of_def
      claim_cap_known decide_cap_known
      split: if_splits option.splits sum.splits prod.splits commit_result.splits fingerprint.splits
        proposal_request.splits
      dest!: commit_to_goes_on show_done)

definition approvals_on :: "pdb \<Rightarrow> string \<Rightarrow> int \<Rightarrow> nat" where
  "approvals_on d ty day = length (filter (\<lambda>a. json_get (al_detail a) ''action_type'' = Some (JStr ty) \<and>
     utc_day_start (al_at a) = day) (autos d))"

lemma approvals_on_quiet: "quiet d d' \<Longrightarrow> approvals_on d' ty day = approvals_on d ty day"
  by (simp add: approvals_on_def quiet_def)

lemma approvals_on_row:
  "autos d' = autos d @ [a] \<Longrightarrow> auto_row at args a \<Longrightarrow> approvals_on d' ty day = approvals_on d ty day +
     (if cl_action_type args = ty \<and> utc_day_start at = day then 1 else 0)"
  by (auto simp: approvals_on_def auto_row_def)

lemma utc_day_start_le: "utc_day_start x \<le> x"
  by (simp add: utc_day_start_def time_defs)

lemma length_filter_mono: "(\<And>x. P x \<Longrightarrow> Q x) \<Longrightarrow> length (filter P xs) \<le> length (filter Q xs)"
  by (induction xs) (auto intro: le_SucI)

lemma approvals_on_since: "approvals_on d ty (utc_day_start x) \<le> auto_approvals_since d ty (utc_day_start x)"
  unfolding approvals_on_def auto_approvals_since_def autos_def filter_filter
proof (rule length_filter_mono)
  fix a
  show "al_action a = ''proposal.auto_approved'' \<and> json_get (al_detail a) ''action_type'' = Some (JStr ty) \<and>
      utc_day_start (al_at a) = utc_day_start x \<Longrightarrow>
    al_action a = ''proposal.auto_approved'' \<and> json_get (al_detail a) ''action_type'' = Some (JStr ty) \<and>
      utc_day_start x \<le> al_at a"
    using utc_day_start_le [of "al_at a"] by simp
qed

definition capped :: "proposal_env \<Rightarrow> proposal_system \<Rightarrow> bool" where
  "capped env s = ((\<forall>ty cap day. cap_of env ty = Some cap \<longrightarrow> approvals_on (sy_db s) ty day \<le> cap) \<and>
     (\<forall>p \<in> set (sy_processes s). cap_known env (pr_pc p)))"

lemma capped_db:
  assumes seg: "segment env t d rq pc = (d', pc')" and known: "cap_known env pc"
    and ok: "approvals_on d ty day \<le> cap" and cap: "cap_of env ty = Some cap"
  shows "approvals_on d' ty day \<le> cap"
proof (cases pc)
  case (AtClaim args)
  then have "claims_once d d' (pe_clock env t 1) args" "cl_action_type args \<noteq> ty"
    using seg known cap by (auto intro: autos_claim)
  then show ?thesis using ok approvals_on_quiet approvals_on_row by (fastforce simp: claims_once_def)
next
  case (AtCap cap' args)
  let ?at = "pe_clock env t 1"
  have "cap_of env (cl_action_type args) = Some cap'" using known AtCap by simp
  moreover have "quiet d d' \<or> (claims_once d d' ?at args \<and>
      auto_approvals_since d (cl_action_type args) (utc_day_start ?at) < cap')"
    using seg AtCap by (intro autos_cap) simp
  ultimately show ?thesis
    using ok cap approvals_on_since [of d "cl_action_type args" ?at] approvals_on_quiet
      approvals_on_row [of d' d _ ?at args ty day]
    by (fastforce simp: claims_once_def split: if_splits)
qed (use ok approvals_on_quiet quiet_segment [OF seg] in simp_all)

lemma capped_advance:
  assumes "capped env s" and "k < length (sy_processes s)"
  shows "capped env (advance env k s)"
proof -
  let ?p = "sy_processes s ! k"
  obtain d' pc' where seg: "segment env (sy_ticks s) (sy_db s) (pr_request ?p) (pr_pc ?p) = (d', pc')"
    by fastforce
  have "cap_known env (pr_pc ?p)" using assms by (simp add: capped_def)
  then have "approvals_on d' ty day \<le> cap" if "cap_of env ty = Some cap" for ty cap day
    using capped_db [OF seg] assms(1) that by (simp add: capped_def)
  moreover have "cap_known env (pr_pc q)" if "q \<in> set ((sy_processes s)[k := ?p\<lparr>pr_pc := pc'\<rparr>])" for q
    using set_update_subset_insert [of "sy_processes s" k] that assms(1) segment_cap_known [OF seg]
    by (fastforce simp: capped_def)
  ultimately show ?thesis by (simp add: capped_def advance_def Let_def seg)
qed

lemma reachable_capped:
  assumes "proposal_reachable env s"
  shows "capped env s"
  using assms
proof (rule proposal_invariant)
  show "capped env (empty_system ags)" for ags
    by (simp add: capped_def approvals_on_def autos_def empty_system_def)
  show "capped env (s\<lparr>sy_processes := sy_processes s @ [\<lparr>pr_request = rq, pr_pc = AtStart\<rparr>]\<rparr>)"
    if "capped env s" for s rq
    using that by (simp add: capped_def)
  show "capped env (advance env k s)" if "capped env s" "k < length (sy_processes s)" for s k
    using that by (rule capped_advance)
  show "capped env (s\<lparr>sy_db := (sy_db s)\<lparr>pd_agents := ags, pd_audit := pd_audit (sy_db s) @ rows\<rparr>\<rparr>)"
    if "capped env s" "\<forall>a \<in> set rows. al_action a \<noteq> ''proposal.auto_approved''" for s ags rows
  proof -
    have "filter (\<lambda>a. al_action a = ''proposal.auto_approved'') rows = []"
      using that(2) by (simp add: filter_empty_conv)
    then show ?thesis using that(1) by (simp add: capped_def approvals_on_def autos_def)
  qed
qed

text \<open>
  C12. The daily cap holds against any interleaving and any clock: when a cap is configured for an action
  type, the audit log never has more automatic approvals of that type in one UTC day than the cap allows.
  The count and the claim are one transaction under the type's advisory lock.
\<close>

theorem daily_cap_bounds_auto_approvals:
  assumes "proposal_reachable env s"
    and "proposal_auto_approve_daily_cap_for (parse_proposal_auto_approve_daily_caps (pe_daily_caps env)) ty = Some cap"
  shows "length (filter (\<lambda>a. al_action a = ''proposal.auto_approved'' \<and>
      json_get (al_detail a) ''action_type'' = Some (JStr ty) \<and> utc_day_start (al_at a) = day)
    (pd_audit (sy_db s))) \<le> cap"
proof -
  have "approvals_on (sy_db s) ty day \<le> cap"
    using reachable_capped [OF assms(1)] assms(2) by (simp add: capped_def cap_of_def)
  moreover have "(\<lambda>a. (json_get (al_detail a) ''action_type'' = Some (JStr ty) \<and> utc_day_start (al_at a) = day) \<and>
      al_action a = ''proposal.auto_approved'') =
    (\<lambda>a. al_action a = ''proposal.auto_approved'' \<and>
      json_get (al_detail a) ''action_type'' = Some (JStr ty) \<and> utc_day_start (al_at a) = day)" by auto
  ultimately show ?thesis by (simp add: approvals_on_def autos_def conj_commute)
qed

text \<open>Two submissions that the judge approves, under a cap of one: the second waits for its owner.\<close>

definition capped_env :: proposal_env where
  "capped_env = (demo_env True)\<lparr>pe_daily_caps := Some ''{\"edit\": 1}''\<rparr>"

definition capped_run :: proposal_system where
  "capped_run = drive capped_env (empty_system [])
     (Arrive (Submit (demo_submission ''x'')) # replicate 10 (Run 0) @
      Arrive (Submit (demo_submission ''y'')) # replicate 10 (Run 1))"

lemma capped_run_reachable: "proposal_reachable capped_env capped_run"
  unfolding capped_run_def by (intro drive_reachable proposal_reachable.start)

theorem daily_cap_bounds_auto_approvals_witness:
  "length (filter (\<lambda>a. al_action a = ''proposal.auto_approved'' \<and>
      json_get (al_detail a) ''action_type'' = Some (JStr ''edit'') \<and> utc_day_start (al_at a) = 0)
    (pd_audit (sy_db capped_run))) \<le> 1 \<and>
   map ph_status (pd_holds (sy_db capped_run)) = [PhApplied, PhPending]"
proof
  have "proposal_auto_approve_daily_cap_for
      (parse_proposal_auto_approve_daily_caps (pe_daily_caps capped_env)) ''edit'' = Some 1"
    by code_simp
  from daily_cap_bounds_auto_approvals [OF capped_run_reachable this]
  show "length (filter (\<lambda>a. al_action a = ''proposal.auto_approved'' \<and>
      json_get (al_detail a) ''action_type'' = Some (JStr ''edit'') \<and> utc_day_start (al_at a) = 0)
    (pd_audit (sy_db capped_run))) \<le> 1" .
  show "map ph_status (pd_holds (sy_db capped_run)) = [PhApplied, PhPending]" by code_simp
qed

end
