(* ===== verification/ProposalAuthority.thy ===== *)
theory ProposalAuthority
  imports ProposalDemo
begin

text \<open>
  Who let the external write happen: behind every call of \<open>judge.apply\<close> stands an approval that was
  given by someone who could give it, when it could be given: by a required owner of the pending hold,
  or by the judge with the kill switch off and, for another agent's brain, under a rule an operator has
  allowed.
\<close>

section \<open>Approvals\<close>

definition approves :: "proposal_request \<Rightarrow> string \<Rightarrow> nat \<Rightarrow> bool" where
  "approves rq actor i = (\<exists>decision note code. rq = Decide actor i decision note code \<and> decision \<noteq> ''reject'')"

text \<open>
  The requests of a state that could approve a hold for an actor: an approving decision of that actor
  on the hold that has not been looked at yet, while the row is pending and lists the actor among its
  required owners.
\<close>

definition may_approve :: "proposal_request \<Rightarrow> proposal_pc \<Rightarrow> pdb \<Rightarrow> string \<Rightarrow> nat \<Rightarrow> bool" where
  "may_approve rq pc d actor i = (approves rq actor i \<and> pc = AtStart \<and>
     (\<exists>h. proposal_by_id i d = Some h \<and> ph_status h = PhPending \<and> actor \<in> set (required_owners h)))"

definition proposal_leads :: "proposal_env \<Rightarrow> proposal_system \<Rightarrow> proposal_system \<Rightarrow> bool" where
  "proposal_leads env = (proposal_step env)\<^sup>*\<^sup>*"

text \<open>
  The hold was approved by the actor on the way to this state: some earlier state ran the decision of
  the actor on the hold, and in that state the hold was pending and the actor one of its required
  owners.
\<close>

definition rightly_approved :: "proposal_env \<Rightarrow> proposal_system \<Rightarrow> string \<Rightarrow> nat \<Rightarrow> bool" where
  "rightly_approved env s actor i = (\<exists>s0 k. proposal_reachable env s0 \<and> k < length (sy_processes s0) \<and>
     may_approve (pr_request (sy_processes s0 ! k)) (pr_pc (sy_processes s0 ! k)) (sy_db s0) actor i \<and>
     proposal_leads env (advance env k s0) s)"

lemma rightly_approved_step:
  "rightly_approved env s actor i \<Longrightarrow> proposal_step env s s' \<Longrightarrow> rightly_approved env s' actor i"
  unfolding rightly_approved_def proposal_leads_def by (blast intro: rtranclp.rtrancl_into_rtrancl)

lemma rightly_approved_here:
  "proposal_reachable env s \<Longrightarrow> k < length (sy_processes s) \<Longrightarrow>
   may_approve (pr_request (sy_processes s ! k)) (pr_pc (sy_processes s ! k)) (sy_db s) actor i \<Longrightarrow>
   rightly_approved env (advance env k s) actor i"
  unfolding rightly_approved_def proposal_leads_def by (blast intro: rtranclp.rtrancl_refl)

text \<open>The judge's own approval of a hold, with the kill switch off.\<close>

definition judge_approved :: "proposal_env \<Rightarrow> nat \<Rightarrow> bool" where
  "judge_approved env i = (\<not> parse_proposal_auto_approve_kill_switch (pe_kill_switch env) \<and>
     (\<exists>t ctx jd. pc_hold_id ctx = Some i \<and> judge_verdict (pe_judge env t ctx) = Some jd \<and> jd_approved jd))"

definition judged_by :: "proposal_env \<Rightarrow> nat \<Rightarrow> judged \<Rightarrow> bool" where
  "judged_by env i jd = (\<exists>t ctx. pc_hold_id ctx = Some i \<and> judge_verdict (pe_judge env t ctx) = Some jd)"

lemma judged_byI: "judge_verdict (pe_judge env t ctx) = Some jd \<Longrightarrow> pc_hold_id ctx = Some i \<Longrightarrow> judged_by env i jd"
  unfolding judged_by_def by blast

lemma judge_approvedI:
  "judged_by env i jd \<Longrightarrow> jd_approved jd \<Longrightarrow>
   \<not> parse_proposal_auto_approve_kill_switch (pe_kill_switch env) \<Longrightarrow> judge_approved env i"
  unfolding judge_approved_def judged_by_def by blast

definition decided_for :: "proposal_env \<Rightarrow> (string \<Rightarrow> nat \<Rightarrow> bool) \<Rightarrow> decision_source \<Rightarrow> string \<Rightarrow> nat \<Rightarrow> bool" where
  "decided_for env A source actor i =
     (source = ByHuman \<and> A actor i \<or> source = ByAuto \<and> judge_approved env i)"

text \<open>What the row itself demands when it is about another agent's brain.\<close>

definition cross_approved :: "proposal_env \<Rightarrow> (string \<Rightarrow> nat \<Rightarrow> bool) \<Rightarrow> decision_source \<Rightarrow> nat \<Rightarrow> proposal_hold \<Rightarrow> bool" where
  "cross_approved env A source i h = (case ph_cross_brain h of None \<Rightarrow> True
     | Some c \<Rightarrow> source = ByHuman \<and> (\<forall>r \<in> set (required_owners h). A r i) \<or>
         source = ByAuto \<and> (\<exists>t r. cb_auto_rule c = Some r \<and> r \<in> set (cross_brain_auto_rules (pe_auto_rules env t))))"

fun pc_authorised :: "proposal_env \<Rightarrow> (string \<Rightarrow> nat \<Rightarrow> bool) \<Rightarrow> proposal_pc \<Rightarrow> bool" where
  "pc_authorised env A (AtJudgeNote ck h jd) = judged_by env (ph_id h) jd"
| "pc_authorised env A (AtVerdict ck h jd) = judged_by env (ph_id h) jd"
| "pc_authorised env A (AtCap cap args) = judge_approved env (ph_id (cl_judged args))"
| "pc_authorised env A (AtClaim args) = judge_approved env (ph_id (cl_judged args))"
| "pc_authorised env A (AtCheck job) = decided_for env A (aj_source job) (aj_actor job) (aj_hold job)"
| "pc_authorised env A (AtApply job ctx h) = (decided_for env A (aj_source job) (aj_actor job) (aj_hold job) \<and>
     cross_approved env A (aj_source job) (aj_hold job) h)"
| "pc_authorised env A pc = True"

section \<open>The approvals on the rows\<close>

definition genuine :: "(string \<Rightarrow> nat \<Rightarrow> bool) \<Rightarrow> pdb \<Rightarrow> bool" where
  "genuine A d = (\<forall>i h a. proposal_by_id i d = Some h \<longrightarrow> a \<in> set (approvals_of h) \<longrightarrow> A (oa_sub a) i)"

lemma row_write_genuine:
  assumes "row_write env t rq h pc f" and "proposal_by_id (ph_id h) d = Some h"
    and "\<And>a i. may_approve rq pc d a i \<Longrightarrow> A a i"
    and "\<And>a. a \<in> set (approvals_of h) \<Longrightarrow> A (oa_sub a) (ph_id h)" and "a \<in> set (approvals_of (f h))"
  shows "A (oa_sub a) (ph_id h)"
  using assms(1)
proof cases
  case (resubmission sm l ck)
  then have "approvals_of (f h) = [] \<or> approvals_of (f h) = approvals_of h"
    by (auto simp: approvals_of_def resubmission_update_def resubmitted_def upd_def)
  then show ?thesis using assms(4, 5) by auto
next
  case (approval approver decision n code at)
  then have "A approver (ph_id h)" using assms(2, 3) by (auto simp: may_approve_def approves_def)
  then show ?thesis using assms(4, 5) approval
    by (auto simp: approval_recorded_def with_approval_def approvals_of_def split: if_splits)
next
  case (human_claim approver decision n code at' at)
  then have "A approver (ph_id h)" using assms(2, 3) by (auto simp: may_approve_def approves_def)
  then show ?thesis using assms(4, 5) human_claim
    by (auto simp: claimed_by_def approval_recorded_def with_approval_def approvals_of_def split: if_splits)
qed (use assms(4, 5) in \<open>auto simp: approvals_of_def auto_claimed_def claimed_by_def rejected_by_def
      withdrawn_by_def finalized_def decision_stamped_def recovered_def last_ditch_def Let_def
      split: if_splits option.splits\<close>)

lemma genuine_effect:
  assumes e: "effect env t rq pc d d'" "table_ok d" "pc_ok d rq pc"
    and rq: "\<And>a i. may_approve rq pc d a i \<Longrightarrow> A a i" and g: "genuine A d"
  shows "genuine A d'"
  unfolding genuine_def
proof (intro allI impI)
  fix i h' a
  assume h': "proposal_by_id i d' = Some h'" and a: "a \<in> set (approvals_of h')"
  show "A (oa_sub a) i"
  proof (cases "proposal_by_id i d")
    case None
    from effect_new_row [OF e None h'] have "approvals_of h' = []"
      by (auto simp: new_proposal_def approvals_of_def)
    then show ?thesis using a by simp
  next
    case (Some h)
    have old: "b \<in> set (approvals_of h) \<Longrightarrow> A (oa_sub b) i" for b
      using g Some by (auto simp: genuine_def)
    note id = proposal_by_idD [OF Some]
    from e Some show ?thesis
    proof (cases rule: effect_row)
      case same
      then show ?thesis using h' a old by simp
    next
      case (written f n)
      then have "a \<in> set (approvals_of (f h))" using h' a by (simp add: approvals_of_def)
      moreover have "proposal_by_id (ph_id h) d = Some h" using Some id by simp
      ultimately show ?thesis using row_write_genuine [where A = A, OF written(1) _ rq] old id by simp
    qed
  qed
qed

section \<open>The places\<close>

lemma claim_authorised:
  assumes "claim_segment env t d at args = (d', pc')" and "judge_approved env (ph_id (cl_judged args))"
  shows "pc_authorised env A pc'"
proof (cases "proposal_by_id (ph_id (cl_judged args)) d")
  case None
  then show ?thesis using assms by (auto simp: claim_segment_def with_hold_def)
next
  case (Some h)
  then show ?thesis using assms proposal_by_idD [OF Some]
    by (auto simp: claim_segment_def with_hold_def bot_result_def auto_job_def decided_for_def
      split: if_splits dest!: commit_to_goes_on)
qed

lemma decide_authorised:
  assumes "decide_segment env t d actor i decision note code = (d', pc')"
    and "\<And>h. proposal_by_id i d = Some h \<Longrightarrow> ph_status h = PhPending \<Longrightarrow>
      actor \<in> set (required_owners h) \<Longrightarrow> decision \<noteq> ''reject'' \<Longrightarrow> A actor i"
  shows "pc_authorised env A pc'"
proof (cases "proposal_by_id i d")
  case None
  then show ?thesis using assms(1)
    by (auto simp: decide_segment_def deny_proposal_def dest!: commit_to_goes_on)
next
  case (Some h)
  then show ?thesis using assms proposal_by_idD [OF Some]
    by (auto simp: decide_segment_def deny_proposal_def approve_segment_def Let_def human_job_def
      decided_for_def split: if_splits option.splits dest!: commit_to_goes_on)
qed

lemma check_authorised:
  assumes "check_segment env t d job = (d', pc')" and g: "genuine A d"
    and "decided_for env A (aj_source job) (aj_actor job) (aj_hold job)"
  shows "pc_authorised env A pc'"
proof (cases "proposal_by_id (aj_hold job) d")
  case None
  then show ?thesis using assms(1) by (auto simp: check_segment_def with_hold_def)
next
  case (Some h)
  have "cross_approved env A (aj_source job) (aj_hold job) h" if "\<not> cross_brain_unapproved env t (aj_source job) h"
    using that g Some
    by (fastforce simp: cross_brain_unapproved_def cross_approved_def genuine_def all_approved_def
      list_all_iff split: option.splits)
  then show ?thesis using assms(1, 3) Some
    by (auto simp: check_segment_def with_hold_def Let_def
      split: sum.splits prod.splits if_splits option.splits fingerprint.splits)
qed

lemma verdict_authorised:
  assumes "verdict_segment env t d ck h jd = (d', pc')" and "judged_by env (ph_id h) jd"
  shows "pc_authorised env A pc'"
  using assms
  by (auto simp: verdict_segment_def with_hold_def Let_def bot_result_def
    split: option.splits if_splits intro: judge_approvedI)

lemma judge_authorised:
  assumes "judge_segment env t d sm ck h = (d', pc')"
  shows "pc_authorised env A pc'"
proof -
  have "pc_hold_id (judge_context sm ck h) = Some (ph_id h)"
    by (simp add: judge_context_def hold_context_def)
  then show ?thesis using assms
    by (auto simp: judge_segment_def split: option.splits if_splits intro: judged_byI)
qed

lemma segment_authorised:
  assumes "segment env t d rq pc = (d', pc')" and "pc_authorised env A pc" and "genuine A d"
    and rq: "\<And>a i. may_approve rq pc d a i \<Longrightarrow> A a i"
  shows "pc_authorised env A pc'"
proof (cases pc)
  case AtStart
  have decision: "A a i" if "rq = Decide a i decision nt code" "decision \<noteq> ''reject''"
      "proposal_by_id i d = Some h" "ph_status h = PhPending" "a \<in> set (required_owners h)"
    for a i decision nt code h
    using that rq AtStart by (auto simp: may_approve_def approves_def)
  show ?thesis
  proof (cases rq)
    case (Decide a i decision nt code)
    then show ?thesis using assms(1) AtStart decision [OF Decide]
      by (auto simp: start_segment_def intro!: decide_authorised [where A = A])
  qed (use assms(1) AtStart in \<open>auto simp: start_segment_def withdraw_segment_def get_for_bot_segment_def
      apply_record_segment_def load_own_proposal_def deny_proposal_def bot_result_def
      split: sum.splits option.splits if_splits dest!: commit_to_goes_on show_done\<close>)
next
  case (AtCap cap args)
  then show ?thesis using assms(1, 2)
    by (auto simp: cap_segment_def with_hold_def bot_result_def Let_def claim_authorised
      split: if_splits option.splits commit_result.splits dest!: commit_to_goes_on show_done)
next
  case (AtCheck job)
  then show ?thesis using assms(1-3) by (auto intro: check_authorised)
next
  case (AtVerdict ck h jd)
  then show ?thesis using assms(1, 2) by (auto intro: verdict_authorised)
next
  case (AtClaim args)
  then show ?thesis using assms(1, 2) by (auto intro: claim_authorised)
qed (use assms(1, 2) in \<open>auto simp: with_submission_def rate_limit_segment_def dedup_write_def
      judge_authorised judge_note_segment_def kill_segment_def cap_failed_segment_def apply_segment_def
      finalize_segment_def indeterminate_segment_def recovery_segment_def last_ditch_segment_def
      lost_segment_def cancelled_or_def database_error_def job_result_def with_hold_def bot_result_def Let_def
      split: if_splits option.splits commit_result.splits proposal_request.splits
      dest!: commit_to_goes_on show_done\<close>)

section \<open>The system\<close>

definition call_authorised :: "proposal_env \<Rightarrow> (string \<Rightarrow> nat \<Rightarrow> bool) \<Rightarrow> apply_call \<Rightarrow> bool" where
  "call_authorised env A c = (decided_for env A (ac_source c) (ac_actor c) (ac_hold c) \<and>
     cross_approved env A (ac_source c) (ac_hold c) (ac_row c))"

definition all_authorised ::
  "proposal_env \<Rightarrow> (string \<Rightarrow> nat \<Rightarrow> bool) \<Rightarrow> proposal_system \<Rightarrow> bool" where
  "all_authorised env A s = (genuine A (sy_db s) \<and>
     (\<forall>p \<in> set (sy_processes s). pc_authorised env A (pr_pc p)) \<and>
     (\<forall>c \<in> set (sy_applies s). call_authorised env A c))"

lemma cross_approved_mono:
  "cross_approved env A source i h \<Longrightarrow> (\<And>a. A a i \<Longrightarrow> B a i) \<Longrightarrow> cross_approved env B source i h"
  by (auto simp: cross_approved_def split: option.splits)

lemma decided_for_mono:
  "decided_for env A source actor i \<Longrightarrow> (\<And>a. A a i \<Longrightarrow> B a i) \<Longrightarrow> decided_for env B source actor i"
  by (auto simp: decided_for_def)

lemma pc_authorised_mono:
  "pc_authorised env A pc \<Longrightarrow> (\<And>a i. A a i \<Longrightarrow> B a i) \<Longrightarrow> pc_authorised env B pc"
  by (cases pc) (auto elim: cross_approved_mono decided_for_mono)

lemma call_authorised_mono:
  "call_authorised env A c \<Longrightarrow> (\<And>a i. A a i \<Longrightarrow> B a i) \<Longrightarrow> call_authorised env B c"
  unfolding call_authorised_def by (blast intro: cross_approved_mono decided_for_mono)

lemma all_authorised_mono:
  "all_authorised env A s \<Longrightarrow> (\<And>a i. A a i \<Longrightarrow> B a i) \<Longrightarrow> all_authorised env B s"
  unfolding all_authorised_def genuine_def by (blast intro: pc_authorised_mono call_authorised_mono)

text \<open>A step keeps the authority of what is there, if what it may approve counts as approved.\<close>

lemma all_authorised_advance:
  assumes ok: "system_ok s" and k: "k < length (sy_processes s)" and s: "all_authorised env A s"
    and rq: "\<And>a i. may_approve (pr_request (sy_processes s ! k)) (pr_pc (sy_processes s ! k)) (sy_db s) a i \<Longrightarrow> A a i"
  shows "all_authorised env A (advance env k s)"
proof -
  obtain rq pc d' pc' where a: "pr_request (sy_processes s ! k) = rq" "pr_pc (sy_processes s ! k) = pc"
    "segment env (sy_ticks s) (sy_db s) rq pc = (d', pc')" "pc_ok (sy_db s) rq pc" "table_ok (sy_db s)"
    "effect env (sy_ticks s) rq pc (sy_db s) d'" "sy_db (advance env k s) = d'"
    "sy_processes (advance env k s) = (sy_processes s)[k := \<lparr>pr_request = rq, pr_pc = pc'\<rparr>]"
    "sy_applies (advance env k s) = sy_applies s @ applies_of env (sy_ticks s) pc"
    by (rule advanceE [OF ok k]) (rule that; assumption)
  note may = rq [unfolded a(1, 2)]
  have g: "genuine A (sy_db s)" and pc: "pc_authorised env A pc"
    using s nth_mem [OF k] a(2) by (auto simp: all_authorised_def)
  have "genuine A d'" by (rule genuine_effect [OF a(6, 5, 4) may g])
  moreover have "pc_authorised env A (pr_pc p)"
    if p: "p \<in> set ((sy_processes s)[k := \<lparr>pr_request = rq, pr_pc = pc'\<rparr>])" for p
  proof -
    have "p = \<lparr>pr_request = rq, pr_pc = pc'\<rparr> \<or> p \<in> set (sy_processes s)"
      using set_mp [OF set_update_subset_insert p] by auto
    then show ?thesis using segment_authorised [OF a(3) pc g may] s by (auto simp: all_authorised_def)
  qed
  moreover have "call_authorised env A c" if "c \<in> set (applies_of env (sy_ticks s) pc)" for c
    using that pc by (cases pc) (auto simp: applies_of_def call_authorised_def)
  ultimately show ?thesis using s by (auto simp: all_authorised_def a(7-9))
qed

definition authority :: "proposal_env \<Rightarrow> proposal_system \<Rightarrow> bool" where
  "authority env s = (proposal_reachable env s \<and> system_ok s \<and> all_authorised env (rightly_approved env s) s)"

lemma authority_later:
  "authority env s \<Longrightarrow> proposal_step env s s' \<Longrightarrow> all_authorised env (rightly_approved env s') s"
  unfolding authority_def by (blast intro: all_authorised_mono rightly_approved_step)

lemma authority_quiet:
  assumes "authority env s" and "proposal_step env s s'" and "system_ok s'"
    and "\<And>i. proposal_by_id i (sy_db s') = proposal_by_id i (sy_db s)" and "sy_applies s' = sy_applies s"
    and "\<And>p. p \<in> set (sy_processes s') \<Longrightarrow> p \<in> set (sy_processes s) \<or> pr_pc p = AtStart"
  shows "authority env s'"
proof -
  have "proposal_reachable env s'"
    using assms(1, 2) unfolding authority_def by (blast intro: proposal_reachable.further)
  moreover have "all_authorised env (rightly_approved env s') s'"
    using authority_later [OF assms(1, 2)] assms(4-6) unfolding all_authorised_def genuine_def by fastforce
  ultimately show ?thesis using assms(3) by (simp add: authority_def)
qed

lemma authority_advance:
  assumes "authority env s" and "k < length (sy_processes s)"
  shows "authority env (advance env k s)"
proof -
  have s: "proposal_reachable env s" "system_ok s" using assms(1) by (simp_all add: authority_def)
  note step = proposal_step.advances [OF assms(2), of env]
  have "all_authorised env (rightly_approved env (advance env k s)) (advance env k s)"
    using all_authorised_advance [OF s(2) assms(2) authority_later [OF assms(1) step]]
      rightly_approved_here [OF s(1) assms(2)] by blast
  then show ?thesis
    using proposal_reachable.further [OF s(1) step] advance_ok [OF s(2) assms(2)]
    by (simp add: authority_def)
qed

lemma reachable_authority:
  assumes "proposal_reachable env s"
  shows "authority env s"
  using assms
proof (rule proposal_invariant)
  show "authority env (empty_system ags)" for ags
    using reachable_ok [OF proposal_reachable.start] proposal_reachable.start
    by (simp add: authority_def all_authorised_def genuine_def)
      (simp add: empty_system_def proposal_by_id_def)
  show "authority env (s\<lparr>sy_processes := sy_processes s @ [\<lparr>pr_request = rq, pr_pc = AtStart\<rparr>]\<rparr>)"
    if "authority env s" for s rq
    using that by (rule authority_quiet [OF _ proposal_step.arrives])
      (use that in \<open>auto simp: authority_def system_ok_def\<close>)
  show "authority env (advance env k s)" if "authority env s" "k < length (sy_processes s)" for s k
    using that by (rule authority_advance)
  show "authority env (s\<lparr>sy_db := (sy_db s)\<lparr>pd_agents := ags, pd_audit := pd_audit (sy_db s) @ rows\<rparr>\<rparr>)"
    if "authority env s" "\<forall>a \<in> set rows. al_action a \<noteq> ''proposal.auto_approved''"
    for s ags and rows :: "audit_row list"
    using that(1) proposal_step.board [OF that(2)]
  proof (rule authority_quiet)
    show "system_ok (s\<lparr>sy_db := (sy_db s)\<lparr>pd_agents := ags, pd_audit := pd_audit (sy_db s) @ rows\<rparr>\<rparr>)"
      using that(1) table_ok_same_rows [OF board_rows] pc_ok_same_rows [OF board_rows]
      by (simp add: authority_def system_ok_def board_rows_of)
  qed (simp_all add: board_rows_of)
qed

text \<open>
  C11. Every external write was authorised by someone who could authorise it. Behind every call of
  \<open>judge.apply\<close>, under any interleaving, stands either an approving decision of the actor the call is
  recorded for, run on that hold while it was pending and while that actor was one of its required
  owners; or an approving verdict of the judge on that hold with the kill switch off. If the row the
  call was made from is about another agent's brain, then every owner that row requires has made such
  a decision on that hold, or the row names a rule that the operators had put on the list of stand-in
  rules.
\<close>

theorem external_writes_are_authorised:
  assumes "proposal_reachable env s" and "c \<in> set (sy_applies s)"
  shows "(ac_source c = ByHuman \<and> rightly_approved env s (ac_actor c) (ac_hold c) \<or>
      ac_source c = ByAuto \<and> judge_approved env (ac_hold c)) \<and>
    (\<forall>x. ph_cross_brain (ac_row c) = Some x \<longrightarrow>
      ac_source c = ByHuman \<and> (\<forall>r \<in> set (required_owners (ac_row c)). rightly_approved env s r (ac_hold c)) \<or>
      ac_source c = ByAuto \<and>
        (\<exists>t r. cb_auto_rule x = Some r \<and> r \<in> set (cross_brain_auto_rules (pe_auto_rules env t))))"
proof -
  have "call_authorised env (rightly_approved env s) c"
    using reachable_authority [OF assms(1)] assms(2) by (simp add: authority_def all_authorised_def)
  then show ?thesis unfolding call_authorised_def decided_for_def cross_approved_def
    by (cases "ph_cross_brain (ac_row c)") simp_all
qed

theorem external_writes_are_authorised_witness:
  "rightly_approved (demo_env False) human_run ''o'' 0"
proof -
  obtain c where "sy_applies human_run = [c]" "ac_hold c = 0" "ac_actor c = ''o''" "ac_source c = ByHuman"
    using human_run_state(3) by auto
  then show ?thesis using external_writes_are_authorised [OF human_run_reachable, of c] by simp
qed

end
