(* ===== verification/Outcomes.thy ===== *)
theory Outcomes
  imports Board
begin

text \<open>
  What the success of a handler says: which guards held in the database it found, and which rows it
  wrote. Every lemma reads the handler from its first guard to its commit.
\<close>

section \<open>From a run to the handler\<close>

lemma open_session_simps [simp]:
  "working (open_session clk d) = d" "committed (open_session clk d) = d"
  "clock (open_session clk d) = clk"
  by (simp_all add: open_session_def)

lemma run_InrE:
  assumes "run m clk d = (Inr r, d')"
  obtains s' where "m (open_session clk d) = (Inr r, s')" "d' = committed s'"
  using assms by (auto simp: run_def split: prod.splits)

section \<open>Posting\<close>

definition post_admitted ::
  "plugins \<Rightarrow> nat \<Rightarrow> nat \<Rightarrow> string \<Rightarrow> json \<Rightarrow> int \<Rightarrow> (nat \<Rightarrow> int) \<Rightarrow> db \<Rightarrow> bool" where
  "post_admitted pl i cid mt j v clk d \<longleftrightarrow>
     (\<exists>g. agent_by_id i d = Some g \<and> ag_status g = AgActive) \<and>
     (\<exists>p. participant_of cid i d = Some p \<and> pt_status p = PtActive \<and>
        (\<forall>q. MESSAGE_TYPE_SENDER_ROLES mt = Some q \<longrightarrow> pt_role p = q)) \<and>
     (\<exists>c n. conversation_by_id cid d = Some c \<and> cv_state c = CvActive \<and> cv_archived_at c = None \<and>
        clk n < cv_expires_at c) \<and>
     mt \<notin> set SYSTEM_MESSAGE_TYPES \<and> (mt, v) \<in> set MESSAGE_SCHEMAS \<and>
     (\<exists>w. parse_payload pl mt j = Inr w \<and> json_size pl j \<le> MAX_PAYLOAD_BYTES \<and>
        json_size pl w \<le> MAX_PAYLOAD_BYTES) \<and>
     (\<exists>n. recent_messages (\<lambda>m. ms_conversation_id m = cid \<and> ms_sender_id m = i)
        (clk n - hours 1) d < MAX_MESSAGES_PER_CONVERSATION_PER_HOUR) \<and>
     (\<exists>n. recent_messages (\<lambda>m. ms_sender_id m = i) (clk n - hours 1) d
        < MAX_MESSAGES_PER_SENDER_PER_HOUR) \<and>
     (\<forall>(p, g)\<in>set (other_participants i cid d). pt_status p = PtActive \<longrightarrow>
        ag_accepted_types g = [] \<or> mt \<in> set (ag_accepted_types g))"

lemma post_guards_ok:
  assumes "post_guards pl a g c p mt v j s = (Inr w, s')"
  shows "cv_archived_at c = None \<and> mt \<notin> set SYSTEM_MESSAGE_TYPES \<and> cv_state c = CvActive \<and>
    (\<forall>q. MESSAGE_TYPE_SENDER_ROLES mt = Some q \<longrightarrow> pt_role p = q) \<and>
    validate_payload (json_size pl) (parse_payload pl) mt v j = Inr w \<and>
    (\<exists>n. recent_messages (\<lambda>m. ms_conversation_id m = cv_id c \<and> ms_sender_id m = ag_id g)
       (clock s n - hours 1) (working s) < MAX_MESSAGES_PER_CONVERSATION_PER_HOUR) \<and>
    (\<exists>n. recent_messages (\<lambda>m. ms_sender_id m = ag_id g) (clock s n - hours 1) (working s)
       < MAX_MESSAGES_PER_SENDER_PER_HOUR) \<and> same_data s s'"
proof -
  have "conv_state_name st = ''active'' \<longleftrightarrow> st = CvActive" for st by (cases st) auto
  with assms show ?thesis
    by (auto simp: post_guards_def validated_payload_def inr is_message_legal_def
        split: if_splits sum.splits)
qed

lemma post_docs_checks_ok: "post_docs_checks pl a g c mt w s = (Inr y, s') \<Longrightarrow> s' = s"
  by (auto simp: post_docs_checks_def fetch_boundary_participants_def inr split: if_splits)

lemma boundary_crossing_ok:
  assumes "check_boundary_crossing pl a i c mt v s = (Inr (rr, infos), s')"
  shows "(\<forall>(p, g)\<in>set (other_participants i (cv_id c) (working s)). pt_status p = PtActive \<longrightarrow>
      ag_accepted_types g = [] \<or> mt \<in> set (ag_accepted_types g)) \<and>
    (\<exists>verdict. risk_scorer pl (ownership_client pl (working s))
       \<lparr>rc_conversation_type = cv_type c, rc_conversation_id = Some (cv_id c), rc_sender_agent_id = i,
        rc_other_agent_ids = map (pt_agent_id \<circ> fst) (other_participants i (cv_id c) (working s)),
        rc_message_type = mt, rc_schema_version = v\<rparr> = Returned verdict \<and>
      rr = (if rv_high_risk verdict \<and> json_get (rv_detail verdict) ''bypass'' \<noteq> Some (JStr ''shared_sender'')
            then rv_reason verdict else None)) \<and>
    infos = map participant_info_of (other_participants i (cv_id c) (working s))"
  using assms
  by (auto simp: check_boundary_crossing_def fetch_boundary_participants_def inr dest!: score_ok
      split: if_splits)

text \<open>A conversation that is active after its lazy expiry was not touched by it.\<close>

lemma load_active_same:
  assumes "load_participant_for_transition a i cid st s = (Inr (c, p), s')" "cv_state c = CvActive"
  shows "same_data s s' \<and> conversation_by_id cid (working s) = Some c \<and> cv_id c = cid \<and>
    participant_of cid i (working s) = Some p \<and> pt_status p = st \<and> (\<exists>n. clock s n < cv_expires_at c)"
  using assms
  by (auto simp: load_participant_for_transition_def maybe_expire_def find_conversation_def
      find_participant_def inr expired_conversation_def not_le
      split: option.splits if_splits dest: conversation_by_idD)

text \<open>A post that succeeds came through its guards; it ends in \<open>post_held\<close> or in \<open>post_direct\<close>.\<close>

definition post_disposal ::
  "plugins \<Rightarrow> string \<Rightarrow> agent \<Rightarrow> conversation \<Rightarrow> string option \<Rightarrow> string option \<Rightarrow> string \<Rightarrow> int \<Rightarrow>
     json \<Rightarrow> string option \<Rightarrow> participant_info list \<Rightarrow> (message + approval_hold) M" where
  "post_disposal pl a g c oc rv mt v w rr infos =
     (case (if review_requested rv then Some AGENT_REQUESTED_RISK_REASON else rr) of
        Some risk_reason \<Rightarrow>
          post_held pl a g c oc mt v w risk_reason infos (review_detail rv rr)
      | None \<Rightarrow> bnd (post_direct a g c mt v w) (\<lambda>m. ret (Inl m)))"

lemma post_message_ok:
  assumes "post_message pl a i cid mt j v oc rv s = (Inr r, s')"
  obtains g c p w rr infos s0 s2 s3 where
    "agent_by_id i (working s) = Some g" "ag_status g = AgActive"
    "participant_of cid i (working s) = Some p" "pt_status p = PtActive"
    "conversation_by_id cid (working s) = Some c" "cv_id c = cid"
    "\<exists>n. clock s n < cv_expires_at c" "same_data s s0"
    "post_guards pl a g c p mt v j s0 = (Inr w, s2)" "same_data s s2"
    "check_boundary_crossing pl a i c mt v s2 = (Inr (rr, infos), s3)"
    "same_tables (working s) (working s3)" "committed s3 = committed s" "clock s3 = clock s"
    "post_disposal pl a g c oc rv mt v w rr infos s3 = (Inr r, s')"
proof -
  from assms obtain g c p w rr infos s0 s2 s3 where
    1: "agent_by_id i (working s) = Some g" "ag_status g = AgActive"
      "load_participant_for_transition a i cid PtActive s = (Inr (c, p), s0)"
      "post_guards pl a g c p mt v j s0 = (Inr w, s2)"
      "check_boundary_crossing pl a i c mt v s2 = (Inr (rr, infos), s3)"
      "post_disposal pl a g c oc rv mt v w rr infos s3 = (Inr r, s')"
    by (auto simp: post_message_def inr post_disposal_def dest!: post_docs_checks_ok)
  note guards = post_guards_ok [OF 1(4)]
  then have l: "same_data s s0 \<and> conversation_by_id cid (working s) = Some c \<and> cv_id c = cid \<and>
      participant_of cid i (working s) = Some p \<and> pt_status p = PtActive \<and>
      (\<exists>n. clock s n < cv_expires_at c)"
    using load_active_same [OF 1(3)] by blast
  then have s2: "same_data s s2" using guards same_data_trans by blast
  with passesD [OF passes_boundary_crossing 1(5)]
  have "same_tables (working s) (working s3)" "committed s3 = committed s" "clock s3 = clock s"
    by (simp_all add: same_data_def)
  with 1 l s2 show ?thesis by (intro that) simp_all
qed

lemma post_admitted_ok:
  assumes "post_message pl a i cid mt j v oc rv s = (Inr r, s')"
  shows "post_admitted pl i cid mt j v (clock s) (working s)"
proof -
  from assms obtain g c p w rr infos s0 s2 s3 where
    1: "agent_by_id i (working s) = Some g" "ag_status g = AgActive"
    "participant_of cid i (working s) = Some p" "pt_status p = PtActive"
    "conversation_by_id cid (working s) = Some c" "cv_id c = cid"
    "\<exists>n. clock s n < cv_expires_at c" "same_data s s0"
    "post_guards pl a g c p mt v j s0 = (Inr w, s2)" "same_data s s2"
    "check_boundary_crossing pl a i c mt v s2 = (Inr (rr, infos), s3)"
    by (rule post_message_ok)
  note guards = post_guards_ok [OF 1(9)] boundary_crossing_ok [OF 1(11)]
  moreover from guards have "(mt, v) \<in> set MESSAGE_SCHEMAS \<and> json_size pl j \<le> MAX_PAYLOAD_BYTES \<and>
      json_size pl w \<le> MAX_PAYLOAD_BYTES \<and> parse_payload pl mt j = Inr w"
    using validate_payload_Inr by blast
  ultimately show ?thesis
    using 1 agent_by_idD [OF 1(1)] unfolding post_admitted_def same_data_def by auto
qed

section \<open>What a post writes\<close>


definition leaves :: "(db \<Rightarrow> 'r) \<Rightarrow> 'a M \<Rightarrow> bool" where
  "leaves f m \<longleftrightarrow> (\<forall>s. f (working (snd (m s))) = f (working s))"

lemma leavesD: "leaves f m \<Longrightarrow> m s = (r, s') \<Longrightarrow> f (working s') = f (working s)"
  unfolding leaves_def by (metis snd_conv)

lemma leaves_bnd: "leaves f m \<Longrightarrow> (\<And>x. leaves f (g x)) \<Longrightarrow> leaves f (bnd m g)"
  unfolding leaves_def bnd_def by (auto split: prod.splits sum.splits) (metis snd_conv)+

lemma leaves_seqm: "leaves f m \<Longrightarrow> leaves f n \<Longrightarrow> leaves f (seqm m n)"
  by (simp add: seqm_def leaves_bnd)

lemma leaves_prims:
  "leaves f (ret x)" "leaves f (throw e)" "leaves f (query g)" "leaves f commit" "leaves f flush"
  "leaves f txn_now" "leaves f now" "leaves f (raise_result r)" "leaves f (call c)"
  by (auto simp: leaves_def ret_def throw_def query_def commit_def flush_def txn_now_def now_def
      raise_result_def split: option.split sum.split) (cases c; simp add: ret_def throw_def)

lemma leaves_change: "(\<And>d. f (g d) = f d) \<Longrightarrow> leaves f (change g)"
  by (simp add: leaves_def change_def)

lemma leaves_new_id: "(\<And>d n. f (d\<lparr>next_id := n\<rparr>) = f d) \<Longrightarrow> leaves f new_id"
  by (simp add: leaves_def new_id_def)

lemma leaves_if: "(b \<Longrightarrow> leaves f m) \<Longrightarrow> (\<not> b \<Longrightarrow> leaves f n) \<Longrightarrow> leaves f (if b then m else n)"
  by simp

lemma leaves_whenm: "leaves f m \<Longrightarrow> leaves f (whenm b m)"
  by (simp add: whenm_def leaves_prims)

lemma leaves_case_option:
  "leaves f m \<Longrightarrow> (\<And>x. leaves f (g x)) \<Longrightarrow> leaves f (case v of None \<Rightarrow> m | Some x \<Rightarrow> g x)"
  by (simp split: option.split)

lemma leaves_case_sum:
  "(\<And>e. leaves f (h e)) \<Longrightarrow> (\<And>x. leaves f (g x)) \<Longrightarrow>
    leaves f (case v of Inl e \<Rightarrow> h e | Inr x \<Rightarrow> g x)"
  by (simp split: sum.split)

lemma leaves_case_outcome:
  "(\<And>x. leaves f (g x)) \<Longrightarrow> (\<And>a b. leaves f (h a b)) \<Longrightarrow> leaves f k \<Longrightarrow>
    leaves f (case v of Returned x \<Rightarrow> g x | Raised a b \<Rightarrow> h a b | Cancelled \<Rightarrow> k)"
  by (simp split: outcome.split)

lemma leaves_case_prod: "(\<And>a b. leaves f (g a b)) \<Longrightarrow> leaves f (case v of (a, b) \<Rightarrow> g a b)"
  by (simp split: prod.split)

lemmas leaves_rules = leaves_bnd leaves_seqm leaves_whenm leaves_if leaves_case_option leaves_case_sum
  leaves_case_outcome leaves_case_prod leaves_prims

lemma leaves_audit: "(\<And>r d. f (add_audit r d) = f d) \<Longrightarrow> leaves f (audit a b c d m j)"
  unfolding audit_def audit_at_def by (intro leaves_rules leaves_change) simp

lemma leaves_close:
  "leaves messages (close_conversation a i c st via)" "leaves holds (close_conversation a i c st via)"
  "leaves agents (close_conversation a i c st via)"
  "leaves participants (close_conversation a i c st via)"
  unfolding close_conversation_def
  by (intro leaves_rules leaves_change leaves_audit; simp)+

lemma leaves_post_effects:
  "leaves messages (post_effects a i c mt j)" "leaves holds (post_effects a i c mt j)"
  "leaves agents (post_effects a i c mt j)"
  unfolding post_effects_def
  by (intro leaves_rules leaves_change leaves_audit leaves_close; simp)+

text \<open>What a directly posted message does to memberships and to the conversation, as a function.\<close>

definition declines :: "nat \<Rightarrow> nat \<Rightarrow> string \<Rightarrow> participant list \<Rightarrow> participant list" where
  "declines cid i mt ps = (if mt = ''decline''
     then update_where (\<lambda>p. pt_conversation_id p = cid \<and> pt_agent_id p = i) (set_part_status PtDeclined) ps
     else ps)"

definition closes :: "nat \<Rightarrow> string option \<Rightarrow> conversation list \<Rightarrow> conversation list" where
  "closes cid st cs = (case st of None \<Rightarrow> cs
     | Some x \<Rightarrow> update_where (\<lambda>c. cv_id c = cid) (set_state x) cs)"

lemma close_conversation_ok:
  "close_conversation a i c st via s = (Inr b, s') \<Longrightarrow>
    conversations (working s') = closes (cv_id c) st (conversations (working s)) \<and>
    participants (working s') = participants (working s)"
  by (auto simp: close_conversation_def closes_def inr set_conversation_def split: option.splits)

lemma post_effects_ok:
  assumes "post_effects a i c mt j s = (Inr (), s')"
  shows "participants (working s') = declines (cv_id c) i mt (participants (working s)) \<and>
    conversations (working s') =
      closes (cv_id c) (resulting_conversation_state mt (all_non_owners_declined (cv_id c) (working s')))
        (conversations (working s))"
proof (cases "mt = ''decline''")
  case True
  with assms show ?thesis
    by (auto simp: post_effects_def inr declines_def set_participant_def all_non_owners_declined_def
        lookup_defs dest!: close_conversation_ok)
next
  case False
  then have "resulting_conversation_state mt b = resulting_conversation_state mt False" for b
    by (simp add: resulting_conversation_state_def)
  with False assms show ?thesis
    by (auto simp: post_effects_def inr declines_def closes_def [of _ None] resulting_conversation_state_def
        dest!: close_conversation_ok split: if_splits)
qed

lemma post_direct_ok:
  assumes "post_direct a g c mt v w s = (Inr m, s')"
  shows "messages (committed s') = messages (working s) @ [m] \<and>
    holds (committed s') = holds (working s) \<and> agents (committed s') = agents (working s) \<and>
    participants (committed s') = declines (cv_id c) (ag_id g) mt (participants (working s)) \<and>
    conversations (committed s') =
      closes (cv_id c) (resulting_conversation_state mt (all_non_owners_declined (cv_id c) (committed s')))
        (conversations (working s)) \<and>
    ms_conversation_id m = cv_id c \<and> ms_seq m = last_seq (cv_id c) (working s) + 1 \<and>
    ms_sender_id m = ag_id g \<and> ms_type m = mt \<and> ms_schema_version m = v \<and> ms_payload m = w"
proof -
  from assms obtain s1 s2 s3 row where
    1: "check_about_seq a (ag_id g) (cv_id c) mt w (last_seq (cv_id c) (working s) + 1) s = (Inr (), s1)"
      "insert_message (cv_id c) (last_seq (cv_id c) (working s) + 1) (ag_id g) mt v w s1 = (Inr m, s2)"
      "post_effects a (ag_id g) c mt w (s2\<lparr>working := add_audit row (working s2)\<rparr>) = (Inr (), s3)"
      "committed s' = working s3"
    unfolding post_direct_def
    by (fastforce simp: bnd_Inr seqm_Inr query_Inr audit_Inr commit_Inr ret_Inr)
  from passesD [OF passes_about_seq 1(1)] have "same_tables (working s) (working s1)" by blast
  then have "messages (working s1) = messages (working s)" "holds (working s1) = holds (working s)"
    "agents (working s1) = agents (working s)" "participants (working s1) = participants (working s)"
    "conversations (working s1) = conversations (working s)" by (simp_all add: same_tables_def)
  with 1(2,4) leaves_post_effects [THEN leavesD, OF 1(3)] post_effects_ok [OF 1(3)] show ?thesis by (auto simp: insert_message_Inr)
qed

lemma same_tables_boundary:
  assumes "same_tables d d'"
  shows "other_participants i c d' = other_participants i c d" "agent_table_owners d' = agent_table_owners d"
proof -
  have "agent_by_id k d' = agent_by_id k d" for k using assms by (rule same_tables_lookups)
  then show "other_participants i c d' = other_participants i c d"
    by (simp add: other_participants_def join_agents_def same_tables_lookups [OF assms])
  show "agent_table_owners d' = agent_table_owners d"
    using assms by (intro ext at.frame) (simp add: same_tables_def)
qed

section \<open>What a diversion writes\<close>

text \<open>
  Every diversion ends in a hold awaiting its owner and leaves messages and membership alone, or it
  was cleared by the auto-approver.
\<close>

lemma insert_hold_frame:
  assumes "insert_hold c i t k os mt v p rr rs e s = (Inr h, s')"
  shows "messages (working s') = messages (working s) \<and> agents (working s') = agents (working s) \<and>
    participants (working s') = participants (working s) \<and> holds (working s') = holds (working s) @ [h] \<and>
    conversations (working s') = conversations (working s)"
  using assms by (auto simp: insert_hold_def Let_def inr)

text \<open>A hold that is inserted, not cleared and escalated: the step both diversions share.\<close>

lemma insert_then_escalate:
  assumes ins: "insert_hold cid i t kd os mt v w rr sc e u = (Inr h, s1)" "working u = working s"
    and esc: "escalate_hold pl a c h s2 = (Inr k, s')"
      "working s2 = set_hold (hd_id h) (\<lambda>k. k\<lparr>hd_auto_approver := Some (auto_approver_name pl)\<rparr>)
         (add_audit row (working s1))"
  shows "messages (working s') = messages (working s) \<and> participants (working s') = participants (working s) \<and>
    agents (working s') = agents (working s) \<and> conversations (working s') = conversations (working s) \<and>
    hold_by_id (hd_id k) (working s') = Some k \<and> hold_by_id (hd_id k) (working s) = None \<and>
    hd_status k = PendingHuman \<and> hd_kind k = kd \<and> hd_conversation_id k = cid \<and>
    hd_sender_agent_id k = i \<and> hd_target_agent_id k = t \<and> hd_message_type k = mt \<and>
    hd_schema_version k = v \<and> hd_payload k = w \<and> hd_risk_reason k = rr \<and> hd_message_id k = None \<and>
    hd_owner_sub k = os"
proof -
  have h: "hd_id h = fresh_id (working s)" "hd_message_id h = None"
    using ins by (auto simp: insert_hold_def Let_def inr)
  note ok = insert_hold_ok [OF ins(1)] and fr = insert_hold_frame [OF ins(1)]
  from esc(1) obtain x where
    k: "k = auto_decided PendingHuman Escalated x (h\<lparr>hd_auto_approver := Some (auto_approver_name pl)\<rparr>)"
    and s': "\<exists>r. working s' = add_audit r (set_hold (hd_id h) (auto_decided PendingHuman Escalated x) (working s2))"
    by (auto simp: escalate_hold_def inr)
  then have "hold_by_id (hd_id k) (working s') = Some k"
    using ok esc(2) by (auto simp: hold_by_id_set auto_decided_def)
  moreover have "hold_by_id (hd_id k) (working s) = None"
    using h(1) fresh_hold [of "working s"] by (simp add: k auto_decided_def)
  moreover have "messages (working s') = messages (working s)" "participants (working s') = participants (working s)"
    "agents (working s') = agents (working s)" "conversations (working s') = conversations (working s)"
    using s' ins(2) esc(2) fr by auto
  ultimately show ?thesis using ok h k by (simp add: auto_decided_def)
qed

lemma divert_message_held:
  assumes "divert_high_risk_message pl a c g oc mt v w rr infos extra s = (Inr (Inr k), s')"
  shows "messages (working s') = messages (working s) \<and> participants (working s') = participants (working s) \<and>
    agents (working s') = agents (working s) \<and> conversations (working s') = conversations (working s) \<and>
    hold_by_id (hd_id k) (working s') = Some k \<and> hold_by_id (hd_id k) (working s) = None \<and>
    hd_status k = PendingHuman \<and> hd_kind k = KindMessage \<and> hd_conversation_id k = cv_id c \<and>
    hd_sender_agent_id k = ag_id g \<and> hd_message_type k = mt \<and> hd_schema_version k = v \<and>
    hd_payload k = w \<and> hd_risk_reason k = rr \<and> hd_message_id k = None \<and>
    hd_owner_sub k = (case oc of Some x \<Rightarrow> x | None \<Rightarrow> ag_owner_sub g)"
proof -
  from assms obtain t h s1 s2 row u where
    1: "insert_hold (cv_id c) (ag_id g) None KindMessage (case oc of Some x \<Rightarrow> x | None \<Rightarrow> ag_owner_sub g)
        mt v w rr (if rr = AGENT_REQUESTED_RISK_REASON then AGENT_REQUESTED_RISK_SCORER_LABEL
          else risk_scorer_name pl) (t + APPROVAL_HOLD_TTL) u = (Inr h, s1)"
      "working u = working s"
      "escalate_hold pl a c h s2 = (Inr k, s')"
      "working s2 = set_hold (hd_id h) (\<lambda>k. k\<lparr>hd_auto_approver := Some (auto_approver_name pl)\<rparr>)
         (add_audit row (working s1))"
    unfolding divert_high_risk_message_def Let_def
    by (clarsimp simp: bnd_Inr seqm_Inr audit_Inr ret_Inr now_Inr change_Inr call_Inr split: if_splits)
  from insert_then_escalate [OF 1] show ?thesis by simp
qed

lemma divert_invite_held:
  assumes "divert_invite_for_approval pl a c g t oc s = (Inr (Inr k), s')"
  shows "messages (working s') = messages (working s) \<and> participants (working s') = participants (working s) \<and>
    agents (working s') = agents (working s) \<and> conversations (working s') = conversations (working s) \<and>
    hold_by_id (hd_id k) (working s') = Some k \<and> hold_by_id (hd_id k) (working s) = None \<and>
    hd_status k = PendingHuman \<and> hd_kind k = KindInvite \<and> hd_conversation_id k = cv_id c \<and>
    hd_sender_agent_id k = ag_id g \<and> hd_target_agent_id k = Some (ag_id t) \<and>
    hd_owner_sub k = (case oc of Some x \<Rightarrow> x | None \<Rightarrow> ag_owner_sub g)"
proof -
  from assms obtain x w h s1 s2 row u where
    1: "insert_hold (cv_id c) (ag_id g) (Some (ag_id t)) KindInvite
        (case oc of Some x \<Rightarrow> x | None \<Rightarrow> ag_owner_sub g)
        INVITE_HOLD_MESSAGE_TYPE INVITE_HOLD_SCHEMA_VERSION w INVITE_HOLD_RISK_REASON
        INVITE_HOLD_RISK_SCORER_LABEL (x + APPROVAL_HOLD_TTL) u = (Inr h, s1)"
      "working u = working s"
      "escalate_hold pl a c h s2 = (Inr k, s')"
      "working s2 = set_hold (hd_id h) (\<lambda>k. k\<lparr>hd_auto_approver := Some (auto_approver_name pl)\<rparr>)
         (add_audit row (working s1))"
    unfolding divert_invite_for_approval_def Let_def
    by (clarsimp simp: bnd_Inr seqm_Inr audit_Inr ret_Inr now_Inr change_Inr call_Inr query_Inr
        split: if_splits)
  from insert_then_escalate [OF 1] show ?thesis by simp
qed

lemma notifier_frame:
  assumes "fire_approval_notifier pl h c g s = (Inr (), s')" "committed s = working s"
  shows "same_tables (committed s) (committed s')"
  using assms by (auto simp: fire_approval_notifier_def inr same_tables_def split: outcome.splits)

lemma commit_then_notify:
  assumes "seqm commit (seqm (fire_approval_notifier pl h c g) (ret x)) s = (Inr r, s')"
  shows "r = x \<and> same_tables (working s) (committed s') \<and> db_ok (working s)"
proof -
  let ?s = "s\<lparr>committed := working s, txn_at := clock s (ticks s), ticks := Suc (ticks s)\<rparr>"
  from assms have "fire_approval_notifier pl h c g ?s = (Inr (), s')" "r = x" "db_ok (working s)"
    by (auto simp: inr)
  with notifier_frame [OF this(1)] show ?thesis by simp
qed

lemma post_held_pending:
  assumes "post_held pl a g c oc mt v w rr infos extra s = (Inr (Inr k), s')"
  shows "messages (committed s') = messages (working s) \<and>
    participants (committed s') = participants (working s) \<and>
    agents (committed s') = agents (working s) \<and> conversations (committed s') = conversations (working s) \<and>
    hold_by_id (hd_id k) (committed s') = Some k \<and> hold_by_id (hd_id k) (working s) = None \<and>
    hd_status k = PendingHuman \<and> hd_kind k = KindMessage \<and> hd_conversation_id k = cv_id c \<and>
    hd_sender_agent_id k = ag_id g \<and> hd_message_type k = mt \<and> hd_schema_version k = v \<and>
    hd_payload k = w \<and> hd_risk_reason k = rr \<and> hd_message_id k = None \<and>
    hd_owner_sub k = (case oc of Some x \<Rightarrow> x | None \<Rightarrow> ag_owner_sub g)"
proof -
  from assms obtain s1 s2 result where
    1: "deny_rate_limited_holds a (ag_id g) s = (Inr (), s1)"
      "divert_high_risk_message pl a c g oc mt v w rr infos extra s1 = (Inr result, s2)"
      "seqm commit (seqm (case result of Inl _ \<Rightarrow> ret () | Inr h \<Rightarrow> fire_approval_notifier pl h c g)
         (ret result)) s2 = (Inr (Inr k), s')"
    unfolding post_held_def by (clarsimp simp: bnd_Inr seqm_Inr [of "deny_rate_limited_holds a i" for i])
  have "result = Inr k" using 1(3) by (auto simp: inr)
  with 1(2,3) have d: "divert_high_risk_message pl a c g oc mt v w rr infos extra s1 = (Inr (Inr k), s2)"
    and "seqm commit (seqm (fire_approval_notifier pl k c g) (ret (Inr k :: message + approval_hold))) s2 =
      (Inr (Inr k), s')" by simp_all
  from commit_then_notify [OF this(2)] have "same_tables (working s2) (committed s')" by blast
  moreover have "working s1 = working s" using 1(1) by (auto simp: inr)
  ultimately show ?thesis
    using divert_message_held [OF d] by (simp add: same_tables_lookups) (simp add: same_tables_def)
qed

lemma post_held_cleared:
  assumes "post_held pl a g c oc mt v w rr infos extra s = (Inr (Inl m), s')"
  shows "rr \<noteq> AGENT_REQUESTED_RISK_REASON \<and> (\<exists>ctx. auto_approver pl ctx = Returned True)"
  using assms
  by (auto simp: post_held_def divert_high_risk_message_def Let_def inr split: if_splits)

text \<open>What the auto-approver is asked about a diverted message.\<close>

definition message_hold_ctx ::
  "agent \<Rightarrow> conversation \<Rightarrow> string option \<Rightarrow> string \<Rightarrow> int \<Rightarrow> json \<Rightarrow> string \<Rightarrow>
     participant_info list \<Rightarrow> nat \<Rightarrow> hold_ctx" where
  "message_hold_ctx g c oc mt v w rr infos i =
     \<lparr>hc_hold_id = i, hc_conversation_id = cv_id c, hc_conversation_type = cv_type c,
      hc_sender_agent_id = ag_id g, hc_owner_sub = (case oc of Some x \<Rightarrow> x | None \<Rightarrow> ag_owner_sub g),
      hc_message_type = mt, hc_schema_version = v, hc_payload = w, hc_risk_reason = rr,
      hc_participants = infos, hc_sender_sub = ag_sub g\<rparr>"

text \<open>
  A diverted message that ends as a message was cleared: the auto-approver said yes to this very
  message, and the hold it was asked about is closed and points at it.
\<close>

lemma cleared_message_names_hold:
  assumes "divert_high_risk_message pl a c g oc mt v w rr infos extra s = (Inr (Inl m), s')"
  shows "\<exists>h. auto_approver pl (message_hold_ctx g c oc mt v w rr infos (hd_id h)) = Returned True \<and>
    hold_by_id (hd_id h) (working s') = Some h \<and> hd_status h = AutoApproved \<and>
    hd_message_id h = Some (ms_id m) \<and> ms_type m = mt \<and> ms_schema_version m = v \<and> ms_payload m = w \<and>
    ms_sender_id m = ag_id g \<and> ms_conversation_id m = cv_id c"
proof -
  from assms obtain t h s1 s2 row u where
    1: "insert_hold (cv_id c) (ag_id g) None KindMessage (case oc of Some x \<Rightarrow> x | None \<Rightarrow> ag_owner_sub g)
        mt v w rr (if rr = AGENT_REQUESTED_RISK_REASON then AGENT_REQUESTED_RISK_SCORER_LABEL
          else risk_scorer_name pl) (t + APPROVAL_HOLD_TTL) u = (Inr h, s1)"
      "clear_message_hold pl c h s2 = (Inr m, s')"
      "working s2 = set_hold (hd_id h) (\<lambda>k. k\<lparr>hd_auto_approver := Some (auto_approver_name pl)\<rparr>)
         (add_audit row (working s1))"
      "auto_approver pl (message_hold_ctx g c oc mt v w rr infos (hd_id h)) = Returned True"
    unfolding divert_high_risk_message_def Let_def message_hold_ctx_def
    by (clarsimp simp: bnd_Inr seqm_Inr audit_Inr ret_Inr now_Inr change_Inr call_Inr split: if_splits)
  note ok = insert_hold_ok [OF 1(1)]
  have h2: "hold_by_id (hd_id h) (working s2) = Some (h\<lparr>hd_auto_approver := Some (auto_approver_name pl)\<rparr>)"
    using ok 1(3) by (simp add: hold_by_id_set)
  from 1(2) obtain n s3 x where 2: "insert_message_for_hold c h s2 = (Inr (m, n), s3)"
    and x: "hold_by_id (hd_id h) (working s') =
      hold_by_id (hd_id h) (set_hold (hd_id h) (auto_decided AutoApproved Cleared x) (working s3))"
    unfolding clear_message_hold_def
    by (clarsimp simp: bnd_Inr seqm_Inr audit_Inr ret_Inr now_Inr change_Inr)
  note m = message_for_hold_ok [OF 2 h2]
  let ?k = "auto_decided AutoApproved Cleared x
    (h\<lparr>hd_auto_approver := Some (auto_approver_name pl), hd_message_id := Some (ms_id m)\<rparr>)"
  have "hold_by_id (hd_id h) (working s') = Some ?k" using x m by (simp add: hold_by_id_set auto_decided_def)
  moreover have "hd_id ?k = hd_id h" by (simp add: auto_decided_def)
  ultimately show ?thesis using 1(4) m ok
    by (intro exI [of _ ?k]) (simp add: auto_decided_def)
qed

lemma post_cleared:
  assumes "post_held pl a g c oc mt v w rr infos extra s = (Inr (Inl m), s')"
  shows "\<exists>h. auto_approver pl (message_hold_ctx g c oc mt v w rr infos (hd_id h)) = Returned True \<and>
    hold_by_id (hd_id h) (committed s') = Some h \<and> hd_status h = AutoApproved \<and>
    hd_message_id h = Some (ms_id m) \<and> ms_type m = mt \<and> ms_schema_version m = v \<and> ms_payload m = w \<and>
    ms_sender_id m = ag_id g \<and> ms_conversation_id m = cv_id c"
proof -
  from assms obtain s1 s2 where
    "divert_high_risk_message pl a c g oc mt v w rr infos extra s1 = (Inr (Inl m), s2)"
    "committed s' = working s2"
    by (auto simp: post_held_def inr split: sum.splits)
  from cleared_message_names_hold [OF this(1)] this(2) show ?thesis by simp
qed

section \<open>What a risk verdict says\<close>

text \<open>On the \<open>agents\<close> table, a verdict is high-risk exactly when the message crosses a boundary.\<close>

lemma table_score_crosses:
  assumes v: "boundary_score (agent_table_owners d) ctx = Returned v"
    and i: "agent_by_id (rc_sender_agent_id ctx) d \<noteq> None"
    and others: "\<forall>i\<in>set (rc_other_agent_ids ctx). agent_by_id i d \<noteq> None"
  shows "(rv_high_risk v \<longleftrightarrow> crosses_boundary d ctx) \<and>
    (rv_high_risk v \<longrightarrow> rv_reason v = Some ''boundary_crossing'' \<and>
       json_get (rv_detail v) ''bypass'' \<noteq> Some (JStr ''shared_sender''))"
proof -
  from i obtain g where g: "agent_by_id (rc_sender_agent_id ctx) d = Some g" by auto
  have sh: "(\<exists>info\<in>(\<lambda>i. table_info (the (agent_by_id i d))) ` set (rc_other_agent_ids ctx).
        oi_is_shared info = Some (JBool True)) \<longleftrightarrow>
      (\<exists>i\<in>set (rc_other_agent_ids ctx). shared_agent d i)"
  proof -
    have "shared_agent d i = ag_is_shared (the (agent_by_id i d))"
      if "i \<in> set (rc_other_agent_ids ctx)" for i
      using others that by (auto simp: shared_agent_def)
    then show ?thesis by (auto simp: table_info_def)
  qed
  have ow: "owners_of (table_info b) = {ag_owner_sub b}" for b
    by (simp add: table_info_def owners_of_def)
  have "(\<Union>i\<in>set (rc_other_agent_ids ctx). owners_of (table_info (the (agent_by_id i d))))
      \<subseteq> {ag_owner_sub g} \<longleftrightarrow>
      (\<forall>i\<in>set (rc_other_agent_ids ctx). owner_of d i = owner_of d (rc_sender_agent_id ctx))"
  proof -
    have "owner_of d i = Some (ag_owner_sub (the (agent_by_id i d)))"
      if "i \<in> set (rc_other_agent_ids ctx)" for i
      using others that by (auto simp: owner_of_def)
    moreover have "owner_of d (rc_sender_agent_id ctx) = Some (ag_owner_sub g)"
      using g by (simp add: owner_of_def)
    ultimately show ?thesis by (auto simp: ow)
  qed
  moreover have "oi_is_shared (table_info b) = Some (JBool (ag_is_shared b))" for b
    by (simp add: table_info_def)
  moreover have "shared_agent d (rc_sender_agent_id ctx) = ag_is_shared g"
    using g by (simp add: shared_agent_def)
  ultimately show ?thesis
    using v g sh
    by (auto simp: boundary_score_def asymmetric_score_def lookup_all_table [OF others] agent_table_owners_Some
        crosses_boundary_def low_risk_def crossing_def risk_infra_def CONVERSATION_TYPES_def ow json_get_def
        split: if_splits)
qed

lemma other_participants_exist:
  "(p, g) \<in> set (other_participants i c d) \<Longrightarrow> agent_by_id (pt_agent_id p) d = Some g"
  by (auto simp: other_participants_def join_agents_def map_filter_def split: option.splits)

end
