(* ===== verification/Refusals.thy ===== *)
theory Refusals
  imports Board
begin

text \<open>
  What a refused request leaves behind: when a request ends in an exception, the committed database
  differs from the one it found by audit rows and lazy expiry alone. A registration that fails on the
  constraint it raced for has its insert rolled back before the denial is audited. The owner's decision
  is the exception, since a refused release rejects its hold; \<open>late_errors\<close> are the exceptions that can
  only follow the handler's own commit.
\<close>

section \<open>Exceptions after a rollback\<close>

text \<open>\<open>undone X R m\<close>: an exception of \<open>m\<close> outside \<open>X\<close> forgets whatever was not committed before.\<close>

definition undone :: "err set \<Rightarrow> (db \<Rightarrow> db \<Rightarrow> bool) \<Rightarrow> 'a M \<Rightarrow> bool" where
  "undone X R m \<longleftrightarrow>
     (\<forall>s e s'. m s = (Inl e, s') \<longrightarrow> e \<notin> X \<longrightarrow> R (committed s) (committed s'))"

lemma undone_silent_bnd: "silent m \<Longrightarrow> (\<And>s. R s s) \<Longrightarrow> (\<And>x. undone X R (f x)) \<Longrightarrow> undone X R (bnd m f)"
  unfolding undone_def silent_def bnd_def
  by (auto split: prod.splits sum.splits) (metis snd_conv)+

lemma errs_undone: "undone X R m \<Longrightarrow> errs X R m"
  by (auto simp: undone_def errs_def evolved_def)

lemma undone_rollback: "keeps R n \<Longrightarrow> undone X R (seqm rollback n)"
  unfolding undone_def
proof (intro allI impI)
  fix s e s'
  assume k: "keeps R n" and r: "seqm rollback n s = (Inl e, s')"
  let ?t = "s\<lparr>working := committed s, txn_at := clock s (ticks s), ticks := Suc (ticks s)\<rparr>"
  from r have "n ?t = (Inl e, s')" by (simp add: seqm_def bnd_def rollback_def)
  moreover have "keeps_at R n ?t" using k by (simp add: keeps_def)
  ultimately show "R (committed s) (committed s')" by (simp add: keeps_at_def evolved_def)
qed

lemma undone_flush_conflict:
  assumes R: "\<And>d. R d d" and h: "\<And>e. undone X R (h e)" "\<And>e s y s'. h e s \<noteq> (Inr y, s')" and n: "rolls_back X n"
  shows "undone X R (seqm (try_except flush h) n)"
  unfolding undone_def
proof (intro allI impI)
  fix s e s'
  assume r: "seqm (try_except flush h) n s = (Inl e, s')" and e: "e \<notin> X"
  show "R (committed s) (committed s')"
  proof (cases "violation (working s)")
    case None
    with r n e R show ?thesis
      by (auto simp: seqm_def bnd_def try_except_def flush_def rolls_back_def)
  next
    case (Some v)
    with r h(2) have "h (IntegrityError v) s = (Inl e, s')"
      by (auto simp: seqm_def bnd_def try_except_def flush_def split: prod.splits sum.splits)
    with h(1) e show ?thesis by (auto simp: undone_def)
  qed
qed


lemma errs_then_undone:
  assumes "keeps lazy a" "silent b" "\<And>x. undone X lazy (f x)"
  shows "errs X lazy (bnd (seqm a b) f)"
proof -
  have "bnd (seqm a b) f = seqm a (bnd b f)"
    by (rule ext) (auto simp: seqm_def bnd_def split: prod.splits sum.splits)
  moreover have "undone X lazy (bnd b f)" by (intro undone_silent_bnd assms lz.R_refl)
  ultimately show ?thesis by (simp add: lz.errs_seqm assms errs_undone)
qed

lemma undone_throw: "(\<And>d. R d d) \<Longrightarrow> undone X R (throw e)"
  by (simp add: undone_def throw_def)

lemma undone_case_integrity:
  "(\<And>n. undone X R (f n)) \<Longrightarrow> undone X R m \<Longrightarrow>
    undone X R (case e of IntegrityError n \<Rightarrow> f n | _ \<Rightarrow> m)"
  by (simp split: err.split)

section \<open>The directory's handlers\<close>

lemma undone_conflicts:
  "undone X lazy (admin_register_conflict a x n e)" "undone X lazy (register_conflict x n e)"
  unfolding admin_register_conflict_def register_conflict_def
  by (intro undone_case_integrity undone_rollback undone_throw lz.keeps_rules lz.R_refl keeps_guards
      keeps_lookups)+

lemma conflicts_raise:
  "admin_register_conflict a x n e s \<noteq> (Inr y, s')" "register_conflict x n e s \<noteq> (Inr y, s')"
  by (cases e; auto simp: admin_register_conflict_def register_conflict_def inr split: option.splits if_splits)+

lemma silent_insert_agent: "silent (insert_agent x os oe n ts sh t lo hi)"
  unfolding insert_agent_def Let_def by (intro silent_rules)

lemma registered_tail:
  "rolls_back X n \<Longrightarrow> undone X lazy (seqm (try_except flush (admin_register_conflict a x m)) n)"
  "rolls_back X n \<Longrightarrow> undone X lazy (seqm (try_except flush (register_conflict x m)) n)"
  by (intro undone_flush_conflict undone_conflicts conflicts_raise lz.R_refl; assumption)+

lemma errs_admin_register_agent: "errs X lazy (admin_register_agent a p x os oe n ts sh lo hi cf)"
  unfolding admin_register_agent_def
  by (intro lz.errs_rules keeps_admission lz.keeps_prims errs_undone [OF undone_silent_bnd] silent_insert_agent
     lz.R_refl registered_tail rolls_back_seqm silent_audit rolls_back_commit raises_prims lz.errs_keeps)

lemma errs_registered:
  assumes "\<And>g. undone X lazy (f g)"
  shows "errs X lazy (bnd (case existing of None \<Rightarrow> insert_agent x os oe n ts sh t lo hi
     | Some a \<Rightarrow> reregister_agent x oe n us t lo hi sh sa a) f)"
proof (cases existing)
  case None
  then show ?thesis by (simp add: errs_undone undone_silent_bnd silent_insert_agent lz.R_refl assms)
next
  case (Some g)
  have "keeps lazy (whenm (sh \<noteq> ag_is_shared g) (seqm (audit x act i c k j) commit))" for act i c k j
    by (intro lz.keeps_rules keeps_guards)
  then show ?thesis
    unfolding Some option.case reregister_agent_def
    by (intro errs_then_undone silent_rules assms)
qed

lemma errs_register_agent: "errs X lazy (register_agent x b os oe n ts lo hi sh sa cf)"
  unfolding register_agent_def Let_def
  by (intro lz.errs_rules keeps_admission keeps_lookups lz.keeps_prims errs_registered
     registered_tail rolls_back_seqm silent_audit rolls_back_commit raises_prims lz.errs_keeps)

lemma errs_agent_updates:
  "errs X lazy (write_through_ownership g os oe)" "errs X lazy (set_agent_shared a i sh p)"
  "errs X lazy (deregister_agent a i p)"
  unfolding write_through_ownership_def set_agent_shared_def deregister_agent_def Let_def
    find_agent_by_id_def
  by (intro errs_handler keeps_guards lz.keeps_prims lz.keeps_whenm; intro rolls_back_handler)+

lemma rolls_back_raises:
  "rolls_back X m \<Longrightarrow> raises X n \<Longrightarrow> rolls_back X (seqm m n)"
  unfolding rolls_back_def raises_def seqm_def bnd_def
  by (auto split: prod.splits sum.splits) blast

lemma rolls_back_whenm: "rolls_back X m \<Longrightarrow> rolls_back X (whenm b m)"
  by (simp add: whenm_def rolls_back_silent silent_prims)

lemma errs_reassignment:
  "errs X lazy (request_owner_reassignment collate a i m p)"
  "errs X lazy (apply_owner_reassignment a x m ns ex ap)"
proof -
  have "keeps lazy (request_owner_reassignment collate a i m p)"
    unfolding request_owner_reassignment_def authorize_owner_reassignment_def reassignment_email_def
    by (intro lz.keeps_rules keeps_guards keeps_lookups)
  then show "errs X lazy (request_owner_reassignment collate a i m p)" by (rule lz.errs_keeps)
  have "rolls_back X (reassign_agent a g m ns ex ap)" for g m ns
    unfolding reassign_agent_def Let_def
    by (intro rolls_back_raises rolls_back_whenm rolls_back_seqm rolls_back_commit_only silent_rules
        silent_audit raises_prims)
  then show "errs X lazy (apply_owner_reassignment a x m ns ex ap)"
    unfolding apply_owner_reassignment_def reassignment_email_def Let_def
    by (intro lz.errs_rules lz.keeps_rules keeps_guards keeps_lookups errs_leaves lz.errs_rolls_back)
qed

lemma silent_reconcile_one: "silent (reconcile_one oc t g)"
  unfolding reconcile_one_def
  by (intro silent_rules)
     (auto split: outcome.split list.split intro!: silent_rules silent_audit)

lemma silent_reconcile: "silent (reconcile_all oc t as)"
  by (induction "as") (auto intro!: silent_rules silent_case_rules silent_reconcile_one)

lemma errs_reconcile: "errs X lazy (reconcile_agent_ownership oc limit)"
  unfolding reconcile_agent_ownership_def Let_def
  by (intro lz.errs_rolls_back rolls_back_rules silent_rules silent_reconcile raises_prims)

section \<open>Every request\<close>

lemma errs_discard: "errs X R m \<Longrightarrow> errs X R (discard m)"
  by (auto simp: discard_def errs_def bnd_def ret_def split: prod.splits sum.splits)

lemma errs_write_through: "errs X lazy (write_through_for i os oe)"
  unfolding write_through_for_def by (intro lz.errs_rules keeps_finds errs_agent_updates errs_leaves)

lemma errs_perform:
  assumes "\<And>a h dn r. rq \<noteq> DecideHold a h dn r" "\<And>a n. rq \<noteq> ListPendingHolds a n"
  shows "errs late_errors lazy (perform pl rq)"
  using assms
  by (cases rq)
     (simp_all add: errs_discard errs_admin_register_agent errs_register_agent errs_agent_updates
       errs_reassignment errs_reconcile errs_start_conversation errs_post_message errs_membership
       errs_invite errs_write_through errs_get_conversation keeps_hold_status [THEN lz.errs_keeps]
       keeps_hold_participants [THEN lz.errs_keeps] keeps_audit_only [THEN lz.errs_keeps], blast+)

lemma refused_request:
  assumes "db_ok d" "run (perform pl rq) clk d = (Inl e, d')" "e \<notin> late_errors"
    "\<And>a h dn r. rq \<noteq> DecideHold a h dn r"
  shows "lazy d d'"
proof (cases "\<exists>a n. rq = ListPendingHolds a n")
  case True
  then obtain a n where rq: "rq = ListPendingHolds a n" by blast
  have "keeps_at lazy (perform pl rq) (open_session clk d)"
    unfolding rq perform.simps discard_def
    by (intro lz.keeps_at_last keeps_at_list_pending lz.keeps_prims)
       (simp add: open_session_def assms(1))
  from lz.keeps_at_run [OF this assms(2)] show ?thesis .
next
  case False
  then have "errs late_errors lazy (perform pl rq)" by (intro errs_perform assms(4)) blast
  from lz.errs_run [OF this assms(2,3)] show ?thesis .
qed

end
