(* ===== verification/Posting.thy ===== *)
theory Posting
  imports Outcomes Refusals Demo
begin

text \<open>
  What posting a message guarantees: who gets a message in, when it is diverted into an approval hold
  instead, and exactly which rows either outcome writes.
\<close>

section \<open>Refused requests\<close>

text \<open>
  C30. A refused request has no effect. Whatever the request (a hold decision apart, which may
  itself reject the hold), when it raises any exception other than those that can follow its own
  commit (a cancellation or an integrity error while the approver is notified), the database has the
  agents, messages and memberships it had; the audit log was only appended to; and every conversation
  and every hold is what it was, or was active (pending) and is now lazily expired.
\<close>

theorem refused_request_leaves_nothing:
  assumes "db_ok d" "run (perform pl rq) clk d = (Inl e, d')" "e \<notin> late_errors"
    "\<And>a h dn r. rq \<noteq> DecideHold a h dn r"
  shows "agents d' = agents d \<and> messages d' = messages d \<and> participants d' = participants d \<and>
    prefix (audit_log d) (audit_log d') \<and>
    (\<forall>i. conversation_by_id i d' = conversation_by_id i d \<or>
       (\<exists>c. conversation_by_id i d = Some c \<and> cv_state c = CvActive \<and>
          conversation_by_id i d' = Some (c\<lparr>cv_state := CvExpired\<rparr>))) \<and>
    (\<forall>i. hold_by_id i d' = hold_by_id i d \<or>
       (\<exists>h. hold_by_id i d = Some h \<and> hd_status h \<in> {PendingAuto, PendingHuman} \<and>
          hold_by_id i d' = Some (h\<lparr>hd_status := HoldExpired\<rparr>)))"
  using refused_request [OF assms] grows_prefix [of d d']
  unfolding lazy_def may_turn_def active_conversation_def pending_hold_def expired_conversation_def
    expired_hold_def
  by blast

text \<open>An agent that is not a member is refused; the refusal is one audit row.\<close>

theorem refused_request_leaves_nothing_witness:
  "let (r, d') = run (perform demo_plugins
       (PostMessage ''cid'' 2 10 ''availability_request'' (JObj []) 1 None None)) demo_clock demo_db in
   r = Inl (AccessDeniedError ''denied.not_member'') \<and> map al_action (audit_log d') = [''denied.not_member''] \<and>
   agents d' = agents demo_db \<and> messages d' = messages demo_db \<and> participants d' = participants demo_db"
proof -
  let ?rq = "PostMessage ''cid'' 2 10 ''availability_request'' (JObj []) 1 None None"
  obtain r d' where run: "run (perform demo_plugins ?rq) demo_clock demo_db = (r, d')"
    by (cases "run (perform demo_plugins ?rq) demo_clock demo_db")
  then have r: "r = Inl (AccessDeniedError ''denied.not_member'') \<and>
      map al_action (audit_log d') = [''denied.not_member'']"
    by (auto simp add: exec cong: exec_cong)
  with refused_request_leaves_nothing [OF demo_db_ok, of demo_plugins ?rq demo_clock
      "AccessDeniedError ''denied.not_member''" d'] run
  show ?thesis by (simp add: late_errors_def image_iff)
qed

section \<open>Who may post\<close>

text \<open>
  C28. A post succeeds, directly or as a hold, only if all of this held in the database it found:
  the sender is an active agent and an active participant, in the role the message type demands; the
  conversation is active, unexpired and not archived; the type is not a system type, the schema
  version is registered, the payload parses and fits the size cap; both hourly rate limits had room;
  and every other active participant accepts the type.
\<close>

theorem post_requires_admission:
  assumes "run (post_message pl a i cid mt j v oc rv) clk d = (Inr r, d')"
  shows "post_admitted pl i cid mt j v clk d"
proof -
  from assms obtain s' where
    "post_message pl a i cid mt j v oc rv (open_session clk d) = (Inr r, s')" by (rule run_InrE)
  from post_admitted_ok [OF this] show ?thesis by simp
qed

theorem post_requires_admission_witness:
  "\<exists>m d'. run (post_message demo_plugins ''ann'' 0 10 ''note'' (JObj []) 1 None None) demo_clock demo_db =
      (Inr (Inl m), d') \<and> post_admitted demo_plugins 0 10 ''note'' (JObj []) 1 demo_clock demo_db"
proof -
  have "\<exists>m d'. run (post_message demo_plugins ''ann'' 0 10 ''note'' (JObj []) 1 None None)
      demo_clock demo_db = (Inr (Inl m), d')"
    by (simp add: exec cong: exec_cong)
  then show ?thesis using post_requires_admission by blast
qed


section \<open>Direct or held\<close>

text \<open>What the risk scorer is asked about a post, on the database the post found.\<close>

definition post_risk_ctx :: "db \<Rightarrow> nat \<Rightarrow> conversation \<Rightarrow> string \<Rightarrow> int \<Rightarrow> risk_ctx" where
  "post_risk_ctx d i c mt v =
     \<lparr>rc_conversation_type = cv_type c, rc_conversation_id = Some (cv_id c), rc_sender_agent_id = i,
      rc_other_agent_ids = map (pt_agent_id \<circ> fst) (other_participants i (cv_id c) d),
      rc_message_type = mt, rc_schema_version = v\<rparr>"

text \<open>A deployment that scores with the default scorer on the \<open>agents\<close> table.\<close>

definition table_scored :: "plugins \<Rightarrow> bool" where
  "table_scored pl \<longleftrightarrow> ownership_client pl = agent_table_owners \<and> risk_scorer pl = boundary_score"

lemma post_risk_reason:
  assumes "post_message pl a i cid mt j v oc rv (open_session clk d) = (Inr r, s')" "table_scored pl"
  obtains g c w rr infos s3 where
    "agent_by_id i d = Some g" "conversation_by_id cid d = Some c" "cv_id c = cid"
    "same_tables d (working s3)" "committed s3 = d"
    "post_disposal pl a g c oc rv mt v w rr infos s3 = (Inr r, s')"
    "rr = (if crosses_boundary d (post_risk_ctx d i c mt v) then Some ''boundary_crossing'' else None)"
    "parse_payload pl mt j = Inr w" "infos = map participant_info_of (other_participants i cid d)"
proof -
  from assms(1) obtain g c p w rr infos s0 s2 s3 where
    1: "agent_by_id i d = Some g" "conversation_by_id cid d = Some c" "cv_id c = cid"
    "same_data (open_session clk d) s0" "same_data (open_session clk d) s2"
    "post_guards pl a g c p mt v j s0 = (Inr w, s2)"
    "check_boundary_crossing pl a i c mt v s2 = (Inr (rr, infos), s3)"
    "same_tables d (working s3)" "committed s3 = d"
    "post_disposal pl a g c oc rv mt v w rr infos s3 = (Inr r, s')"
    by (rule post_message_ok) simp_all
  from 1(5) have t: "same_tables d (working s2)" by (simp add: same_data_def)
  note o = same_tables_boundary(1) [OF t, of i cid] and ow = same_tables_boundary(2) [OF t]
  let ?ctx = "post_risk_ctx d i c mt v"
  from boundary_crossing_ok [OF 1(7)] assms(2) obtain v' where
    v: "boundary_score (agent_table_owners d) ?ctx = Returned v'"
    "rr = (if rv_high_risk v' \<and> json_get (rv_detail v') ''bypass'' \<noteq> Some (JStr ''shared_sender'')
           then rv_reason v' else None)"
    by (auto simp: table_scored_def o ow 1(3) post_risk_ctx_def)
  have "\<forall>k\<in>set (rc_other_agent_ids ?ctx). agent_by_id k d \<noteq> None"
    using other_participants_exist by (fastforce simp: post_risk_ctx_def)
  with table_score_crosses [OF v(1)] 1(1) have
    "rv_high_risk v' \<longleftrightarrow> crosses_boundary d ?ctx"
    "rv_high_risk v' \<longrightarrow> rv_reason v' = Some ''boundary_crossing'' \<and>
       json_get (rv_detail v') ''bypass'' \<noteq> Some (JStr ''shared_sender'')"
    by (simp_all add: post_risk_ctx_def)
  with v(2) have "rr = (if crosses_boundary d ?ctx then Some ''boundary_crossing'' else None)" by auto
  moreover have "parse_payload pl mt j = Inr w"
    using post_guards_ok [OF 1(6)] validate_payload_Inr by blast
  moreover have "infos = map participant_info_of (other_participants i cid d)"
    using boundary_crossing_ok [OF 1(7)] by (simp add: o 1(3))
  ultimately show ?thesis using 1 by (intro that)
qed

lemma post_disposal_review:
  assumes "post_disposal pl a g c oc rv mt v w rr infos s = (Inr r, s')" "review_requested rv"
  shows "\<exists>h. r = Inr h"
  using assms post_held_cleared
  by (cases r) (fastforce simp: post_disposal_def)+

lemma post_disposal_held:
  assumes "post_disposal pl a g c oc rv mt v w rr infos s = (Inr (Inr h), s')"
  obtains rs extra where "(if review_requested rv then Some AGENT_REQUESTED_RISK_REASON else rr) = Some rs"
    "post_held pl a g c oc mt v w rs infos extra s = (Inr (Inr h), s')"
  using assms by (auto simp: post_disposal_def inr split: option.splits)

lemma post_disposal_direct:
  assumes "post_disposal pl a g c oc rv mt v w rr infos s = (Inr (Inl m), s')"
    "\<And>ctx. auto_approver pl ctx \<noteq> Returned True"
  shows "post_direct a g c mt v w s = (Inr m, s')"
  using assms post_held_cleared by (fastforce simp: post_disposal_def inr split: option.splits if_splits)

text \<open>A post that ends in the queue of its owner, and one that the auto-approver let through.\<close>

definition awaits_review :: "string \<Rightarrow> db \<Rightarrow> db \<Rightarrow> message + approval_hold \<Rightarrow> bool" where
  "awaits_review reason d d' r = (\<exists>h. r = Inr h \<and> hd_risk_reason h = reason \<and> hd_status h = PendingHuman \<and>
     hold_by_id (hd_id h) d' = Some h \<and> messages d' = messages d)"

definition cleared_for ::
  "plugins \<Rightarrow> agent \<Rightarrow> conversation \<Rightarrow> string option \<Rightarrow> string \<Rightarrow> int \<Rightarrow> json \<Rightarrow> db \<Rightarrow> db \<Rightarrow> message \<Rightarrow> bool" where
  "cleared_for pl g c oc mt v w d d' m = (\<exists>h.
     auto_approver pl (message_hold_ctx g c oc mt v w ''boundary_crossing''
       (map participant_info_of (other_participants (ag_id g) (cv_id c) d)) (hd_id h)) = Returned True \<and>
     hold_by_id (hd_id h) d' = Some h \<and> hd_status h = AutoApproved \<and> hd_message_id h = Some (ms_id m) \<and>
     ms_type m = mt \<and> ms_schema_version m = v \<and> ms_payload m = w \<and> ms_sender_id m = ag_id g \<and>
     ms_conversation_id m = cv_id c)"

lemma post_disposal_awaits:
  assumes "post_disposal pl a g c oc rv mt v w rr infos s = (Inr (Inr h), s')" and "same_tables d (working s)"
  shows "awaits_review (if review_requested rv then AGENT_REQUESTED_RISK_REASON else the rr) d (committed s') (Inr h) \<and>
    (review_requested rv \<or> rr \<noteq> None)"
proof -
  from assms(1) obtain rs extra where
    rs: "(if review_requested rv then Some AGENT_REQUESTED_RISK_REASON else rr) = Some rs"
    and "post_held pl a g c oc mt v w rs infos extra s = (Inr (Inr h), s')"
    by (blast elim: post_disposal_held)
  from post_held_pending [OF this(2)] rs assms(2) show ?thesis
    by (auto simp: awaits_review_def same_tables_def split: if_splits)
qed

text \<open>
  C25. A message that crosses an ownership boundary never reaches its readers unreviewed. On a
  deployment with the default scorer over the \<open>agents\<close> table, a successful post is a hold awaiting the
  human, with no message on the board, when the agent asked for a review (whatever the auto-approver
  says). Without such a request, a post that crosses a boundary is a hold awaiting the human, with no
  message on the board; or the auto-approver was asked about this very message (its conversation, sender,
  owner, type, version, payload and other participants) and cleared it, and the hold it was asked about is
  closed as \<open>auto_approved\<close> and points at the posted message. Any other post is posted directly.
\<close>

theorem crossing_posts_are_held:
  assumes "run (post_message pl a i cid mt j v oc rv) clk d = (Inr r, d')" "table_scored pl"
    "conversation_by_id cid d = Some c"
  shows "(review_requested rv \<longrightarrow> awaits_review AGENT_REQUESTED_RISK_REASON d d' r) \<and>
    (\<not> review_requested rv \<and> crosses_boundary d (post_risk_ctx d i c mt v) \<longrightarrow>
       awaits_review ''boundary_crossing'' d d' r \<or>
       (\<exists>m g w. r = Inl m \<and> agent_by_id i d = Some g \<and> parse_payload pl mt j = Inr w \<and>
          cleared_for pl g c oc mt v w d d' m)) \<and>
    (\<not> review_requested rv \<and> \<not> crosses_boundary d (post_risk_ctx d i c mt v) \<longrightarrow> (\<exists>m. r = Inl m))"
proof -
  from assms(1) obtain s' where d': "d' = committed s'" and
    "post_message pl a i cid mt j v oc rv (open_session clk d) = (Inr r, s')" by (blast elim: run_InrE)
  from this(2) assms(2) obtain g w rr infos s3 where
    g: "agent_by_id i d = Some g" "cv_id c = cid" and t: "same_tables d (working s3)"
    and dis: "post_disposal pl a g c oc rv mt v w rr infos s3 = (Inr r, s')"
    and rr: "rr = (if crosses_boundary d (post_risk_ctx d i c mt v) then Some ''boundary_crossing'' else None)"
    and w: "parse_payload pl mt j = Inr w" and infos: "infos = map participant_info_of (other_participants i cid d)"
    by (rule post_risk_reason) (use assms(3) in auto)
  have "ag_id g = i" using agent_by_idD [OF g(1)] by blast
  show ?thesis
  proof (cases r)
    case (Inl m)
    have "cleared_for pl g c oc mt v w d d' m" if "\<not> review_requested rv" "rr = Some ''boundary_crossing''"
    proof -
      from that dis Inl have "post_held pl a g c oc mt v w ''boundary_crossing'' infos (review_detail rv rr) s3 =
          (Inr (Inl m), s')" by (simp add: post_disposal_def)
      from post_cleared [OF this] show ?thesis
        unfolding cleared_for_def d' using infos \<open>ag_id g = i\<close> g(2) by simp
    qed
    with post_disposal_review [OF dis] Inl g(1) w rr show ?thesis by auto
  next
    case (Inr h)
    with post_disposal_awaits [OF dis [unfolded Inr] t] rr show ?thesis by (auto simp: d' split: if_splits)
  qed
qed

text \<open>A note to an agent of another owner is held; a direct post means no boundary was crossed.\<close>

lemma demo_note_held:
  "\<exists>h d'. run (post_message demo_plugins ''ann'' 0 11 ''note'' (JObj []) 1 None None) demo_clock demo_db =
     (Inr (Inr h), d')"
  by (simp add: exec cong: exec_cong)

lemma demo_note_posted:
  "\<exists>m d'. run (post_message demo_plugins ''ann'' 0 10 ''note'' (JObj []) 1 None None) demo_clock demo_db =
     (Inr (Inl m), d')"
  by (simp add: exec cong: exec_cong)

lemma demo_deployment: "table_scored demo_plugins" "auto_approver demo_plugins ctx = Returned False"
  by (simp_all add: table_scored_def demo_plugins_def default_plugins_def escalate_all_def)

theorem crossing_posts_are_held_witness:
  "\<exists>h d'. run (post_message demo_plugins ''ann'' 0 11 ''note'' (JObj []) 1 None None) demo_clock demo_db =
      (Inr (Inr h), d') \<and>
     crosses_boundary demo_db (post_risk_ctx demo_db 0 (demo_conversation 11 ''asymmetric'' (Some [''o1'', ''o2'']) None)
       ''note'' 1) \<and> awaits_review ''boundary_crossing'' demo_db d' (Inr h)"
proof -
  let ?c = "demo_conversation 11 ''asymmetric'' (Some [''o1'', ''o2'']) None"
  have c: "conversation_by_id 11 demo_db = Some ?c"
    by (simp add: lookup_defs demo_tables demo_conversation_def)
  from demo_note_held obtain h d' where
    h: "run (post_message demo_plugins ''ann'' 0 11 ''note'' (JObj []) 1 None None) demo_clock demo_db =
      (Inr (Inr h), d')" by blast
  with crossing_posts_are_held [OF h demo_deployment(1) c] show ?thesis
    by (auto simp: review_requested_def)
qed

text \<open>
  A held post changes nothing but the queue: the messages, memberships, agents and
  conversations are those before it, and there is one new hold, awaiting the human owner, that carries
  exactly the sender, conversation, type, version and validated payload of the post; its owner is the
  claim presented with the post, or else the owner of the sending agent.
\<close>

theorem held_post_only_queues:
  assumes "run (post_message pl a i cid mt j v oc rv) clk d = (Inr (Inr h), d')"
  shows "messages d' = messages d \<and> participants d' = participants d \<and> agents d' = agents d \<and>
    conversations d' = conversations d \<and> hold_by_id (hd_id h) d = None \<and>
    hold_by_id (hd_id h) d' = Some h \<and> hd_status h = PendingHuman \<and> hd_kind h = KindMessage \<and>
    hd_conversation_id h = cid \<and> hd_sender_agent_id h = i \<and> hd_message_type h = mt \<and>
    hd_schema_version h = v \<and> parse_payload pl mt j = Inr (hd_payload h) \<and>
    (\<exists>g. agent_by_id i d = Some g \<and>
       hd_owner_sub h = (case oc of Some x \<Rightarrow> x | None \<Rightarrow> ag_owner_sub g))"
proof -
  from assms obtain s' where
    s': "post_message pl a i cid mt j v oc rv (open_session clk d) = (Inr (Inr h), s')" "d' = committed s'"
    by (rule run_InrE)
  from s'(1) obtain g c p w rr infos s0 s2 s3 where
    1: "agent_by_id i d = Some g" "cv_id c = cid" "post_guards pl a g c p mt v j s0 = (Inr w, s2)"
    "same_tables d (working s3)"
    "post_disposal pl a g c oc rv mt v w rr infos s3 = (Inr (Inr h), s')"
    by (rule post_message_ok) simp_all
  from 1(5) obtain rs extra where
    "post_held pl a g c oc mt v w rs infos extra s3 = (Inr (Inr h), s')" by (rule post_disposal_held)
  note held = post_held_pending [OF this]
  have "parse_payload pl mt j = Inr w" using post_guards_ok [OF 1(3)] validate_payload_Inr by blast
  with held 1(1,2) agent_by_idD [OF 1(1)] same_tables_lookups(4) [OF 1(4)] show ?thesis
    using 1(4) by (auto simp: same_tables_def s'(2))
qed

theorem held_post_only_queues_witness:
  "\<exists>h d'. run (post_message demo_plugins ''ann'' 0 11 ''note'' (JObj []) 1 None None) demo_clock demo_db =
      (Inr (Inr h), d') \<and> messages d' = messages demo_db \<and> hold_by_id (hd_id h) d' = Some h \<and>
     hd_status h = PendingHuman \<and> hd_owner_sub h = ''o1''"
proof -
  from demo_note_held obtain h d' where
    h: "run (post_message demo_plugins ''ann'' 0 11 ''note'' (JObj []) 1 None None) demo_clock demo_db =
      (Inr (Inr h), d')" by blast
  have "agent_by_id 0 demo_db = Some (demo_agent 0 ''ann'' ''o1'' AgActive)"
    by (simp add: lookup_defs demo_tables demo_agent_def)
  with held_post_only_queues [OF h] h show ?thesis by (auto simp: demo_agent_def)
qed

text \<open>
  C29. A direct post appends exactly one message, numbered one past the last of its conversation,
  with the sender, type, version and validated payload posted; it touches no hold and no agent; it flips
  the sender's own membership if and only if it is a \<open>decline\<close>, and it moves its conversation, and no
  other, to the state its type leads to.
\<close>

theorem direct_post_effect:
  assumes "run (post_message pl a i cid mt j v oc rv) clk d = (Inr (Inl m), d')"
    "\<And>ctx. auto_approver pl ctx \<noteq> Returned True"
  shows "messages d' = messages d @ [m] \<and> ms_conversation_id m = cid \<and>
    ms_seq m = last_seq cid d + 1 \<and> ms_sender_id m = i \<and> ms_type m = mt \<and> ms_schema_version m = v \<and>
    parse_payload pl mt j = Inr (ms_payload m) \<and> holds d' = holds d \<and> agents d' = agents d \<and>
    participants d' = declines cid i mt (participants d) \<and>
    conversations d' = closes cid (resulting_conversation_state mt (all_non_owners_declined cid d'))
      (conversations d)"
proof -
  from assms obtain s' where
    s': "post_message pl a i cid mt j v oc rv (open_session clk d) = (Inr (Inl m), s')" "d' = committed s'"
    by (blast elim: run_InrE)
  from s'(1) obtain g c p w rr infos s0 s2 s3 where
    1: "agent_by_id i d = Some g" "cv_id c = cid" "post_guards pl a g c p mt v j s0 = (Inr w, s2)"
    "same_tables d (working s3)"
    "post_disposal pl a g c oc rv mt v w rr infos s3 = (Inr (Inl m), s')"
    by (rule post_message_ok) simp_all
  have "parse_payload pl mt j = Inr w" using post_guards_ok [OF 1(3)] validate_payload_Inr by blast
  with post_direct_ok [OF post_disposal_direct [OF 1(5) assms(2)]] 1(1,2,4) agent_by_idD [OF 1(1)]
  show ?thesis by (simp add: same_tables_def s'(2) last_seq_def conv_messages_def)
qed

theorem direct_post_effect_witness:
  "\<exists>m d'. run (post_message demo_plugins ''ann'' 0 10 ''note'' (JObj []) 1 None None) demo_clock demo_db =
      (Inr (Inl m), d') \<and> messages d' = messages demo_db @ [m] \<and> ms_seq m = 2 \<and> holds d' = [demo_hold]"
proof -
  from demo_note_posted obtain m d' where
    m: "run (post_message demo_plugins ''ann'' 0 10 ''note'' (JObj []) 1 None None) demo_clock demo_db =
      (Inr (Inl m), d')" by blast
  have "last_seq 10 demo_db = 1"
    by (simp add: last_seq_def lookup_defs demo_tables demo_message_def)
  with direct_post_effect [OF m] demo_deployment(2) m demo_tables(5) show ?thesis by auto
qed

end
