(* ===== verification/Opening.thy ===== *)
theory Opening
  imports Posting
begin

text \<open>
  What opening a conversation guarantees: who may open one with whom, and the conversation, the
  memberships and the first message it leaves behind.
\<close>

text \<open>A guard written as a conditional, by cases on its condition only.\<close>

lemma if_Inr:
  "(if b then m else n) s = (Inr x, s') \<longleftrightarrow> (b \<and> m s = (Inr x, s')) \<or> (\<not> b \<and> n s = (Inr x, s'))"
  by simp

lemma bnd_query: "bnd (query g) f s = f (g (working s)) s"
  by (simp add: bnd_def query_def)

section \<open>The targets\<close>

lemma load_targets_ok:
  "load_targets a g is s = (Inr ts, s') \<Longrightarrow>
    s' = s \<and> map ag_id ts = is \<and>
    (\<forall>t\<in>set ts. agent_by_id (ag_id t) (working s) = Some t \<and> ag_status t = AgActive)"
proof (induction "is" arbitrary: s ts s')
  case Nil
  then show ?case by (simp add: inr)
next
  case (Cons i "is")
  from Cons.prems obtain t rest where
    t: "agent_by_id i (working s) = Some t" "ag_status t = AgActive" "ts = t # rest"
    "load_targets a g is s = (Inr rest, s')"
    by (auto simp: inr find_agent_by_id_def Let_def split: option.splits if_splits)
  with Cons.IH [OF t(4)] agent_by_idD [OF t(1)] show ?case by auto
qed

lemma not_retired_ok:
  "require_not_retired pl a g ts s = (Inr (), s') \<Longrightarrow>
    s' = s \<and> (\<forall>t\<in>set ts. active_checker pl (ag_sub t) \<noteq> Returned False)"
proof (induction ts arbitrary: s s')
  case Nil
  then show ?case by (simp add: inr)
next
  case (Cons t ts)
  from Cons.prems show ?case by (auto simp: inr split: if_splits dest!: Cons.IH)
qed

text \<open>\<open>_owner_sets_for\<close> on the \<open>agents\<close> table, for agents that are in it.\<close>

lemma owner_sets_for_table:
  assumes "\<forall>a\<in>set as. agent_by_id (ag_id a) d = Some a"
    "owner_sets_for (agent_table_owners d) as = Returned (owners, shared)" "a \<in> set as"
  shows "owners (ag_id a) = {ag_owner_sub a} \<and> shared (ag_id a) = ag_is_shared a"
proof -
  have "\<forall>i\<in>set (map ag_id as). agent_by_id i d \<noteq> None" using assms(1) by auto
  note all = lookup_all_table [OF this]
  let ?t = "map_of (zip (map ag_id as) (map (\<lambda>i. table_info (the (agent_by_id i d))) (map ag_id as)))"
  have "?t = (\<lambda>i. if i \<in> set (map ag_id as) then Some (table_info (the (agent_by_id i d))) else None)"
    by (rule map_of_zip_map)
  with assms(1,3) have "?t (ag_id a) = Some (table_info a)" by simp
  with assms(2) all show ?thesis
    by (auto simp: owner_sets_for_def Let_def table_info_def owners_of_def)
qed

text \<open>The ownership rule of admission, on the rows of the \<open>agents\<close> table.\<close>

definition open_admitted :: "string \<Rightarrow> agent list \<Rightarrow> bool" where
  "open_admitted ct as \<longleftrightarrow>
     (ct = ''internal'' \<longrightarrow> (\<forall>a\<in>set as. \<not> ag_is_shared a) \<and>
        (\<forall>a\<in>set as. \<forall>b\<in>set as. ag_owner_sub a = ag_owner_sub b)) \<and>
     (ct = ''asymmetric'' \<longrightarrow> (\<forall>a\<in>set as. \<forall>b\<in>set as. a \<noteq> b \<longrightarrow>
        ag_is_shared a \<or> ag_is_shared b \<or> ag_owner_sub a = ag_owner_sub b))"

lemma pairwise_admittedD:
  assumes "pairwise_admitted ct (map ag_id as) owners shared" "distinct (map ag_id as)"
    "a \<in> set as" "b \<in> set as" "a \<noteq> b"
  shows "pair_admitted ct owners shared (ag_id a, ag_id b) \<or>
    pair_admitted ct owners shared (ag_id b, ag_id a)"
proof -
  have "ag_id a \<noteq> ag_id b" using assms(2-5) by (auto simp: distinct_map dest: inj_onD)
  then have "(ag_id a, ag_id b) \<in> set (pairs_of (map ag_id as)) \<or>
      (ag_id b, ag_id a) \<in> set (pairs_of (map ag_id as))"
    using assms by (intro set_pairs_of_distinct) auto
  with assms(1) show ?thesis by (auto simp: pairwise_admitted_def list_all_iff)
qed

lemma pair_admitted_table:
  assumes "owners (ag_id a) = {ag_owner_sub a} \<and> shared (ag_id a) = ag_is_shared a"
    "owners (ag_id b) = {ag_owner_sub b} \<and> shared (ag_id b) = ag_is_shared b"
  shows "pair_admitted ct owners shared (ag_id a, ag_id b) \<longleftrightarrow>
    (if ct = ''internal'' then ag_owner_sub a = ag_owner_sub b
     else ag_is_shared a \<or> ag_is_shared b \<or> ag_owner_sub a = ag_owner_sub b)"
  using assms by (auto simp: pair_admitted_def may_assign_def)

lemma authorize_open_raw:
  assumes "authorize_conversation_open pl a g ts ct s = (Inr snap, s')"
    "ownership_client pl = agent_table_owners" "ct \<noteq> ''open''"
    and o: "owner_sets_for (agent_table_owners (working s)) (g # ts) = Returned (owners, shared)"
  shows "(ct = ''internal'' \<longrightarrow> (\<forall>p\<in>set (g # ts). \<not> shared (ag_id p))) \<and>
    pairwise_admitted ct (map ag_id (g # ts)) owners shared \<and>
    snap = Some (sorted_list_of_set (\<Union>p\<in>set (g # ts). owners (ag_id p)))"
  using assms(1)
  unfolding authorize_conversation_open_def Let_def bnd_query assms(2) if_not_P [OF assms(3)] o
    outcome.case prod.case if_Inr deny_Inr seqm_Inr ret_Inr
  by blast

lemma authorize_open_ok:
  assumes "authorize_conversation_open pl a g ts ct s = (Inr snap, s')"
    "ownership_client pl = agent_table_owners" "ct \<in> set CONVERSATION_TYPES"
    "\<forall>a\<in>set (g # ts). agent_by_id (ag_id a) (working s) = Some a" "distinct (map ag_id (g # ts))"
  shows "open_admitted ct (g # ts) \<and>
    snap = (if ct = ''open'' then None
            else Some (sorted_list_of_set (ag_owner_sub ` set (g # ts))))"
proof (cases "ct = ''open''")
  case True
  with assms(1) show ?thesis by (simp add: authorize_conversation_open_def inr open_admitted_def)
next
  case False
  let ?as = "g # ts"
  let ?sets = "owner_sets_for (agent_table_owners (working s)) ?as"
  from False assms(1,2) obtain owners shared where o: "?sets = Returned (owners, shared)"
    by (cases ?sets) (auto simp: authorize_conversation_open_def Let_def bnd_Inr query_Inr deny_Inr throw_Inr)
  note authorize_open_raw [OF assms(1,2) False o]
  then have internal: "ct = ''internal'' \<longrightarrow> (\<forall>p\<in>set ?as. \<not> shared (ag_id p))"
    and pairs: "pairwise_admitted ct (map ag_id ?as) owners shared"
    and snap: "snap = Some (sorted_list_of_set (\<Union>p\<in>set ?as. owners (ag_id p)))"
    by blast+
  note tab = owner_sets_for_table [OF assms(4) o]
  have "(\<Union>p\<in>set ?as. owners (ag_id p)) = ag_owner_sub ` set ?as" using tab by fastforce
  moreover have "open_admitted ct ?as"
    unfolding open_admitted_def
  proof (intro conjI impI ballI)
    fix a assume "ct = ''internal''" "a \<in> set ?as"
    with internal tab show "\<not> ag_is_shared a" by blast
  next
    fix a b assume ab: "ct = ''internal''" "a \<in> set ?as" "b \<in> set ?as"
    show "ag_owner_sub a = ag_owner_sub b"
    proof (cases "a = b")
      case False
      from pairwise_admittedD [OF pairs assms(5) ab(2,3) this] ab(1) show ?thesis
        unfolding pair_admitted_table [OF tab [OF ab(2)] tab [OF ab(3)]]
          pair_admitted_table [OF tab [OF ab(3)] tab [OF ab(2)]] by argo
    qed simp
  next
    fix a b assume ab: "ct = ''asymmetric''" "a \<in> set ?as" "b \<in> set ?as" "a \<noteq> b"
    from ab(1) have "ct \<noteq> ''internal''" by simp
    with pairwise_admittedD [OF pairs assms(5) ab(2-4)]
    show "ag_is_shared a \<or> ag_is_shared b \<or> ag_owner_sub a = ag_owner_sub b"
      unfolding pair_admitted_table [OF tab [OF ab(2)] tab [OF ab(3)]]
        pair_admitted_table [OF tab [OF ab(3)] tab [OF ab(2)]] by argo
  qed
  ultimately show ?thesis using False snap by simp
qed


section \<open>The guards\<close>

text \<open>
  What a conversation opening that came through the guards says about the database \<open>d\<close> it was made
  in: \<open>i\<close> opens a conversation of type \<open>ct\<close> with \<open>ids\<close>, the first message being of type \<open>mt\<close>.
\<close>

definition sound_opening ::
  "plugins \<Rightarrow> nat \<Rightarrow> string \<Rightarrow> nat list \<Rightarrow> json \<Rightarrow> string \<Rightarrow> db \<Rightarrow> conversation_opening \<Rightarrow> bool" where
  "sound_opening pl i ct ids j mt d op \<longleftrightarrow>
     agent_by_id i d = Some (op_initiator op) \<and> ag_status (op_initiator op) = AgActive \<and>
     op_type op = ct \<and> ct \<in> set CONVERSATION_TYPES \<and> op_message_type op = mt \<and>
     mt \<notin> set SYSTEM_MESSAGE_TYPES \<and>
     map ag_id (op_targets op) = sorted_set (filter (\<lambda>t. t \<noteq> i) ids) \<and> op_targets op \<noteq> [] \<and>
     (\<forall>t\<in>set (op_targets op). agent_by_id (ag_id t) d = Some t \<and> ag_status t = AgActive \<and>
        active_checker pl (ag_sub t) \<noteq> Returned False \<and>
        (ag_accepted_types t = [] \<or> mt \<in> set (ag_accepted_types t))) \<and>
     op_schema_version op = negotiated_version (op_initiator op) (op_targets op) \<and>
     required_floor (op_initiator op) (op_targets op) \<le> op_schema_version op \<and>
     (mt, op_schema_version op) \<in> set MESSAGE_SCHEMAS \<and>
     parse_payload pl mt j = Inr (op_payload op) \<and>
     (\<forall>q. MESSAGE_TYPE_SENDER_ROLES mt = Some q \<longrightarrow> q = RoleOwner)"

lemma start_arguments_ok:
  assumes "start_arguments a g ct ids mt e n s = (Inr (nm, ts, ex), s')"
  shows "ct \<in> set CONVERSATION_TYPES \<and> mt \<notin> set SYSTEM_MESSAGE_TYPES \<and> ts \<noteq> [] \<and>
    ts = sorted_set (filter (\<lambda>t. t \<noteq> ag_id g) ids) \<and> validate_conversation_name n = Inr nm \<and>
    (case e of None \<Rightarrow> ex = None | Some (Naive t) \<Rightarrow> False
     | Some (Aware t) \<Rightarrow> ex = Some t \<and> (\<exists>k. t - clock s k \<le> MAX_CONVERSATION_TTL))"
  using assms
  unfolding start_arguments_def Let_def bnd_Inr seqm_Inr if_Inr
  by (cases e; (cases "the e")?) (auto simp: inr not_less split: option.splits if_splits)

lemma passes_start_guards:
  "passes (start_arguments a g ct ids mt e n)" "passes (load_targets a g is)"
  "passes (require_not_retired pl a g as)" "passes (authorize_conversation_open pl a g ts ct)"
proof -
  show "passes (start_arguments a g ct ids mt e n)"
    unfolding start_arguments_def Let_def
    by (intro passes_rules passes_guards)
       (auto split: py_datetime.split intro!: passes_rules)
  show "passes (load_targets a g is)"
    by (auto simp: passes_def dest!: load_targets_ok)
  show "passes (require_not_retired pl a g as)"
    by (auto simp: passes_def dest!: not_retired_ok)
  show "passes (authorize_conversation_open pl a g ts ct)"
    unfolding authorize_conversation_open_def Let_def
    by (intro passes_rules passes_denials passes_audit)
qed

lemma passes_start_message_checks: "passes (start_message_checks pl a g ct ts mt v j)"
  unfolding start_message_checks_def
  by (intro passes_rules passes_guards passes_post_guards)

lemma start_message_checks_ok:
  assumes "start_message_checks pl a g ct ts mt v j s = (Inr (w, rr), s')"
  shows "(mt, v) \<in> set MESSAGE_SCHEMAS \<and> parse_payload pl mt j = Inr w \<and>
    (\<forall>q. MESSAGE_TYPE_SENDER_ROLES mt = Some q \<longrightarrow> q = RoleOwner) \<and>
    (\<forall>t\<in>set ts. ag_accepted_types t = [] \<or> mt \<in> set (ag_accepted_types t)) \<and>
    (\<exists>v'. risk_scorer pl (ownership_client pl (working s))
       \<lparr>rc_conversation_type = ct, rc_conversation_id = None, rc_sender_agent_id = ag_id g,
        rc_other_agent_ids = map ag_id ts, rc_message_type = mt, rc_schema_version = v\<rparr> = Returned v' \<and>
      rr = (if rv_high_risk v' \<and> json_get (rv_detail v') ''bypass'' \<noteq> Some (JStr ''shared_sender'')
            then rv_reason v' else None))"
proof -
  let ?ctx = "\<lparr>rc_conversation_type = ct, rc_conversation_id = None, rc_sender_agent_id = ag_id g,
        rc_other_agent_ids = map ag_id ts, rc_message_type = mt, rc_schema_version = v\<rparr>"
  from assms obtain s1 where
    "validate_payload (json_size pl) (parse_payload pl) mt v j = Inr w"
    "\<forall>q. MESSAGE_TYPE_SENDER_ROLES mt = Some q \<longrightarrow> RoleOwner = q"
    "\<forall>(j, accepted)\<in>set (map (\<lambda>t. (ag_id t, ag_accepted_types t)) ts). accepted = [] \<or> mt \<in> set accepted"
    "score_message_risk pl a ?ctx s = (Inr rr, s1)"
    unfolding start_message_checks_def validated_payload_def
    by (auto simp: inr split: sum.splits)
  moreover have "\<exists>v'. risk_scorer pl (ownership_client pl (working s)) ?ctx = Returned v' \<and>
      rr = (if rv_high_risk v' \<and> json_get (rv_detail v') ''bypass'' \<noteq> Some (JStr ''shared_sender'')
            then rv_reason v' else None)"
    using score_ok [OF calculation(4)] by (auto split: if_splits)
  ultimately show ?thesis using validate_payload_Inr by (auto simp: split_beta)
qed


definition start_risk_ctx :: "conversation_opening \<Rightarrow> risk_ctx" where
  "start_risk_ctx op =
     \<lparr>rc_conversation_type = op_type op, rc_conversation_id = None,
      rc_sender_agent_id = ag_id (op_initiator op), rc_other_agent_ids = map ag_id (op_targets op),
      rc_message_type = op_message_type op, rc_schema_version = op_schema_version op\<rparr>"

lemma start_guards_ok:
  assumes "start_guards pl a i ct ids j mt e n s = (Inr op, s')"
  shows "sound_opening pl i ct ids j mt (working s) op \<and>
    same_tables (working s) (working s') \<and> committed s' = committed s \<and> clock s' = clock s \<and>
    (ownership_client pl = agent_table_owners \<longrightarrow>
       open_admitted ct (op_initiator op # op_targets op) \<and>
       op_owner_snapshot op = (if ct = ''open'' then None else Some (sorted_list_of_set
         (ag_owner_sub ` set (op_initiator op # op_targets op))))) \<and>
    (table_scored pl \<longrightarrow> op_risk_reason op =
       (if crosses_boundary (working s) (start_risk_ctx op) then Some ''boundary_crossing'' else None))"
proof -
  from assms obtain g nm ts ex as v snap w rr s1 s2 s3 s4 s5 where
    1: "agent_by_id i (working s) = Some g" "ag_status g = AgActive"
      "start_arguments a g ct ids mt e n s = (Inr (nm, ts, ex), s1)"
      "enforce_start_rate_limit a g s1 = (Inr (), s2)"
      "enforce_sender_global_rate_limit a (ag_id g) s2 = (Inr (), s3)"
      "ts = map ag_id as" "\<forall>t\<in>set as. agent_by_id (ag_id t) (working s3) = Some t \<and> ag_status t = AgActive"
      "\<forall>t\<in>set as. active_checker pl (ag_sub t) \<noteq> Returned False"
      "v = negotiated_version g as" "required_floor g as \<le> v"
      "authorize_conversation_open pl a g as ct s3 = (Inr snap, s4)"
      "start_message_checks pl a g ct as mt v j s4 = (Inr (w, rr), s5)" "s' = s5"
      "op = \<lparr>op_initiator = g, op_targets = as, op_type = ct, op_name = nm, op_expires_at = ex,
          op_owner_snapshot = snap, op_message_type = mt, op_schema_version = v,
          op_payload = w, op_risk_reason = rr\<rparr>"
    unfolding start_guards_def start_admission_def resolve_targets_def
    by (clarsimp simp: bnd_Inr [of "require_active_agent a i"] require_active_agent_Inr bnd_Inr
        seqm_Inr ret_Inr negotiate_Inr dest!: load_targets_ok not_retired_ok)
  note args = start_arguments_ok [OF 1(3)]
  note msg = start_message_checks_ok [OF 1(12)]
  have t3: "same_tables (working s) (working s3) \<and> committed s3 = committed s \<and> clock s3 = clock s"
    using passesD [OF passes_start_guards(1) 1(3)] 1(4,5) by (auto simp: inr)
  moreover have "same_tables (working s3) (working s4) \<and> committed s4 = committed s3 \<and> clock s4 = clock s3"
    by (rule passesD [OF passes_start_guards(4) 1(11)])
  moreover have "same_tables (working s4) (working s5) \<and> committed s5 = committed s4 \<and> clock s5 = clock s4"
    by (rule passesD [OF passes_start_message_checks 1(12)])
  ultimately have t: "same_tables (working s) (working s5) \<and> committed s5 = committed s \<and> clock s5 = clock s"
    and t4: "same_tables (working s5) (working s4)" by (auto simp: same_tables_def)
  have ids: "ag_id g = i" using agent_by_idD [OF 1(1)] by blast
  have "distinct ts" "i \<notin> set ts" using args ids by simp_all
  then have "distinct (map ag_id (g # as))" using ids 1(6) by auto
  moreover have "\<forall>a\<in>set (g # as). agent_by_id (ag_id a) (working s3) = Some a"
    using 1(1,7) t3 ids by (auto simp: same_tables_lookups)
  ultimately have open_ok: "open_admitted ct (g # as) \<and>
      snap = (if ct = ''open'' then None else Some (sorted_list_of_set (ag_owner_sub ` set (g # as))))"
    if "ownership_client pl = agent_table_owners"
    using authorize_open_ok [OF 1(11) that] args by blast
  have risk: "op_risk_reason op =
      (if crosses_boundary (working s) (start_risk_ctx op) then Some ''boundary_crossing'' else None)"
    if "table_scored pl"
  proof -
    let ?ctx = "start_risk_ctx op"
    have "agent_table_owners (working s4) = agent_table_owners (working s)"
      using t t4 by (intro same_tables_boundary(2)) (simp add: same_tables_def)
    with msg that 1(14) obtain v' where
      v: "boundary_score (agent_table_owners (working s)) ?ctx = Returned v'"
      "rr = (if rv_high_risk v' \<and> json_get (rv_detail v') ''bypass'' \<noteq> Some (JStr ''shared_sender'')
             then rv_reason v' else None)"
      by (auto simp: table_scored_def start_risk_ctx_def)
    have "agent_by_id (rc_sender_agent_id ?ctx) (working s) \<noteq> None"
      "\<forall>k\<in>set (rc_other_agent_ids ?ctx). agent_by_id k (working s) \<noteq> None"
      using 1(1,7,14) ids t3 by (auto simp: start_risk_ctx_def same_tables_lookups)
    from table_score_crosses [OF v(1) this] v(2) 1(14) show ?thesis by auto
  qed
  show ?thesis
  proof (intro conjI)
    show "sound_opening pl i ct ids j mt (working s) op"
      using 1(1,2,6,7-10,14) args msg ids t3 unfolding sound_opening_def
      by (auto simp: same_tables_lookups)
  qed (use t 1(13,14) open_ok risk in auto)
qed

section \<open>The rows\<close>

lemma insert_invited_rows:
  assumes "insert_invited c i as s = (Inr (), s')"
  shows "\<exists>ps. working s' = (working s)\<lparr>participants := participants (working s) @ ps\<rparr> \<and>
    map (\<lambda>p. (pt_conversation_id p, pt_agent_id p, pt_role p, pt_status p, pt_invited_by p)) ps =
      map (\<lambda>t. (c, ag_id t, RoleMember, PtInvited, Some i)) as \<and> committed s' = committed s"
  using assms
proof (induction "as" arbitrary: s)
  case Nil
  then show ?case by (auto simp: inr intro: exI [of _ "[]"])
next
  case (Cons t ts)
  from Cons.prems obtain s1 p where
    1: "insert_participant c (ag_id t) RoleMember PtInvited (Some i) None s = (Inr p, s1)"
       "insert_invited c i ts s1 = (Inr (), s')"
    by (auto simp: inr)
  from Cons.IH [OF 1(2)] 1(1) show ?case
    by (fastforce simp: insert_participant_def Let_def inr add_participant_def)
qed

lemma insert_conversation_rows:
  assumes "insert_conversation op t s = (Inr c, s')"
  shows "working s' = (working s)\<lparr>conversations := conversations (working s) @ [c],
      next_id := Suc (fresh_id (working s))\<rparr> \<and> committed s' = committed s \<and>
    cv_id c = fresh_id (working s) \<and> cv_type c = op_type op \<and> cv_state c = CvActive \<and>
    cv_created_by c = ag_id (op_initiator op) \<and> cv_archived_at c = None \<and> cv_name c = op_name op \<and>
    cv_owner_snapshot c = op_owner_snapshot op \<and>
    Some (cv_expires_at c) = (case op_expires_at op of Some x \<Rightarrow> Some x
       | None \<Rightarrow> map_option (\<lambda>ttl. t + ttl) (CONVERSATION_TTL (op_type op)))"
  using assms
  by (auto simp: insert_conversation_def Let_def inr add_conversation_def split: option.splits)

lemma insert_participant_rows:
  assumes "insert_participant c i r st ib j s = (Inr p, s')"
  shows "working s' = (working s)\<lparr>participants := participants (working s) @ [p]\<rparr> \<and> committed s' = committed s \<and>
    pt_conversation_id p = c \<and> pt_agent_id p = i \<and> pt_role p = r \<and> pt_status p = st \<and> pt_invited_by p = ib"
  using assms by (auto simp: insert_participant_def Let_def inr add_participant_def)

lemma open_conversation_rows:
  assumes "open_conversation op s = (Inr c, s')"
  shows "\<exists>ps. conversations (working s') = conversations (working s) @ [c] \<and>
    participants (working s') = participants (working s) @ ps \<and>
    map (\<lambda>p. (pt_conversation_id p, pt_agent_id p, pt_role p, pt_status p, pt_invited_by p)) ps =
      (cv_id c, ag_id (op_initiator op), RoleOwner, PtActive, None) #
      map (\<lambda>t. (cv_id c, ag_id t, RoleMember, PtInvited, Some (ag_id (op_initiator op)))) (op_targets op) \<and>
    agents (working s') = agents (working s) \<and> messages (working s') = messages (working s) \<and>
    holds (working s') = holds (working s) \<and> committed s' = committed s \<and>
    cv_id c = fresh_id (working s) \<and> cv_type c = op_type op \<and> cv_state c = CvActive \<and>
    cv_created_by c = ag_id (op_initiator op) \<and> cv_archived_at c = None \<and> cv_name c = op_name op \<and>
    cv_owner_snapshot c = op_owner_snapshot op \<and>
    (\<exists>t. Some (cv_expires_at c) = (case op_expires_at op of Some x \<Rightarrow> Some x
       | None \<Rightarrow> map_option (\<lambda>ttl. clock s t + ttl) (CONVERSATION_TTL (op_type op))))"
proof -
  from assms obtain s1 s2 ps0 where
    1: "insert_conversation op (clock s (ticks s)) (s\<lparr>ticks := Suc (ticks s)\<rparr>) = (Inr c, s1)"
      "insert_participant (cv_id c) (ag_id (op_initiator op)) RoleOwner PtActive None
         (Some (clock s (ticks s))) s1 = (Inr ps0, s2)"
      "insert_invited (cv_id c) (ag_id (op_initiator op)) (op_targets op) s2 = (Inr (), s')"
    by (auto simp: open_conversation_def inr)
  from insert_invited_rows [OF 1(3)] obtain ps where
    "working s' = (working s2)\<lparr>participants := participants (working s2) @ ps\<rparr>"
    "map (\<lambda>p. (pt_conversation_id p, pt_agent_id p, pt_role p, pt_status p, pt_invited_by p)) ps =
       map (\<lambda>t. (cv_id c, ag_id t, RoleMember, PtInvited, Some (ag_id (op_initiator op)))) (op_targets op)"
    "committed s' = committed s2" by blast
  with insert_conversation_rows [OF 1(1)] insert_participant_rows [OF 1(2)] show ?thesis
    by (intro exI [of _ "ps0 # ps"]) (auto intro: exI [of _ "ticks s"])
qed


lemma divert_message_cleared:
  assumes "divert_high_risk_message pl a c g oc mt v w rr infos extra s = (Inr (Inl m), s')"
  shows "\<exists>ctx. auto_approver pl ctx = Returned True"
  using assms by (auto simp: divert_high_risk_message_def Let_def inr split: if_splits)

lemma insert_message_rows:
  assumes "insert_message c n i mt v p s = (Inr m, s')"
  shows "messages (working s') = messages (working s) @ [m] \<and> participants (working s') = participants (working s) \<and>
    agents (working s') = agents (working s) \<and> conversations (working s') = conversations (working s) \<and>
    holds (working s') = holds (working s) \<and> ms_conversation_id m = c \<and> ms_seq m = n \<and>
    ms_sender_id m = i \<and> ms_type m = mt \<and> ms_schema_version m = v \<and> ms_payload m = p"
  using assms by (auto simp: insert_message_Inr)

lemma fresh_conversation_row: "conversation_by_id (fresh_id d) d = None"
proof -
  have "fresh_id d \<notin> cv_id ` set (conversations d)"
    using fresh_not_used [of d] by (simp add: used_ids_def)
  then show ?thesis by (auto simp: conversation_by_id_def find_None_iff image_iff)
qed

lemma same_tables_trans: "same_tables d e \<Longrightarrow> same_tables e f \<Longrightarrow> same_tables d f"
  by (simp add: same_tables_def)

lemma passes_seqmE:
  assumes "seqm m n s = (Inr x, s')" "passes m"
  obtains s1 where "same_tables (working s) (working s1)" "n s1 = (Inr x, s')"
    "committed s1 = committed s" "clock s1 = clock s"
  using assms by (auto simp: seqm_Inr dest: passesD)

lemma passes_audit_start: "passes (audit_start a op c)"
  unfolding audit_start_def by (rule passes_audit)

lemma start_posted_ok:
  assumes "start_posted a op c s = (Inr sr, s')"
  shows "\<exists>m. messages (committed s') = messages (working s) @ [m] \<and>
    ms_conversation_id m = cv_id c \<and> ms_seq m = 1 \<and> ms_sender_id m = ag_id (op_initiator op) \<and>
    ms_type m = op_message_type op \<and> ms_schema_version m = op_schema_version op \<and>
    ms_payload m = op_payload op \<and> participants (committed s') = participants (working s) \<and>
    agents (committed s') = agents (working s) \<and> holds (committed s') = holds (working s) \<and>
    conversations (committed s') = closes (cv_id c)
      (resulting_conversation_state (op_message_type op) False) (conversations (working s)) \<and>
    sr_pending_hold sr = None"
proof -
  from assms obtain m s1 where
    1: "insert_message (cv_id c) 1 (ag_id (op_initiator op)) (op_message_type op)
          (op_schema_version op) (op_payload op) s = (Inr m, s1)"
    and "seqm (audit_start a op c) (seqm (audit a ''message.post'' (Some (ag_id (op_initiator op)))
       (Some (cv_id c)) (Some (ms_id m))
       (JObj [(''seq'', JInt 1), (''message_type'', JStr (op_message_type op))]))
      (bnd (close_conversation a (ag_id (op_initiator op)) c
         (resulting_conversation_state (op_message_type op) False) (op_message_type op)) (\<lambda>c.
       seqm commit (ret \<lparr>sr_conversation = c, sr_schema_version = op_schema_version op,
          sr_pending_hold = None\<rparr>)))) s1 = (Inr sr, s')"
    unfolding start_posted_def by (auto simp only: bnd_Inr)
  from this(2) obtain s2 b s3 where
    2: "same_tables (working s1) (working s2)"
      "close_conversation a (ag_id (op_initiator op)) c
         (resulting_conversation_state (op_message_type op) False) (op_message_type op) s2 = (Inr b, s3)"
      "committed s' = working s3" "sr_pending_hold sr = None"
    by (elim passes_seqmE [OF _ passes_audit_start] passes_seqmE [OF _ passes_audit])
       (auto simp: inr dest: same_tables_trans)
  note frame = insert_message_rows [OF 1] close_conversation_ok [OF 2(2)] leaves_close [THEN leavesD, OF 2(2)]
  from 2 frame show ?thesis by (intro exI [of _ m]) (simp add: same_tables_def)
qed

lemma start_held_ok:
  assumes "start_held pl a oc op c rr s = (Inr sr, s')"
    "\<And>ctx. auto_approver pl ctx \<noteq> Returned True"
  shows "\<exists>m h. messages (committed s') = messages (working s) @ [m] \<and>
    ms_conversation_id m = cv_id c \<and> ms_seq m = 1 \<and> ms_sender_id m = ag_id (op_initiator op) \<and>
    ms_type m = ''conversation_opened'' \<and>
    participants (committed s') = participants (working s) \<and>
    agents (committed s') = agents (working s) \<and> conversations (committed s') = conversations (working s) \<and>
    sr_pending_hold sr = Some h \<and> hold_by_id (hd_id h) (committed s') = Some h \<and>
    hold_by_id (hd_id h) (working s) = None \<and> hd_status h = PendingHuman \<and> hd_kind h = KindMessage \<and>
    hd_conversation_id h = cv_id c \<and> hd_sender_agent_id h = ag_id (op_initiator op) \<and>
    hd_message_type h = op_message_type op \<and> hd_schema_version h = op_schema_version op \<and>
    hd_payload h = op_payload op \<and> hd_risk_reason h = rr \<and>
    hd_owner_sub h = (case oc of Some x \<Rightarrow> x | None \<Rightarrow> ag_owner_sub (op_initiator op))"
proof -
  let ?i = "ag_id (op_initiator op)"
  let ?rest = "\<lambda>m. bnd (divert_high_risk_message pl a c (op_initiator op) oc
       (op_message_type op) (op_schema_version op) (op_payload op) rr (invited_infos (op_targets op)) JNull)
     (\<lambda>result.
      seqm (audit a ''message.post'' (Some ?i) (Some (cv_id c)) (Some (ms_id m))
        (JObj [(''seq'', JInt 1), (''message_type'', JStr ''conversation_opened''),
               (''system_synthesized'', JBool True),
               (''hold_id'', case result of Inl _ \<Rightarrow> JNull | Inr h \<Rightarrow> JId (hd_id h))]))
     (bnd (case result of
             Inl _ \<Rightarrow> close_conversation a ?i c
               (resulting_conversation_state (op_message_type op) False) (op_message_type op)
           | Inr _ \<Rightarrow> ret c) (\<lambda>c.
      seqm commit
     (seqm (case result of Inl _ \<Rightarrow> ret () | Inr h \<Rightarrow> fire_approval_notifier pl h c (op_initiator op))
     (ret \<lparr>sr_conversation = c, sr_schema_version = op_schema_version op,
           sr_pending_hold = (case result of Inl _ \<Rightarrow> None | Inr h \<Rightarrow> Some h)\<rparr>)))))"
  from assms(1) obtain w m s1 where
    1: "insert_message (cv_id c) 1 ?i ''conversation_opened'' (op_schema_version op) w s = (Inr m, s1)"
      "seqm (audit_start a op c) (?rest m) s1 = (Inr sr, s')"
    unfolding start_held_def
    by (cases "validate_payload (json_size pl) (parse_payload pl) ''conversation_opened''
          (op_schema_version op) (JObj [])") (auto simp only: bnd_Inr sum.case throw_Inr)
  from 1(2) obtain s2 where 2: "same_tables (working s1) (working s2)" "?rest m s2 = (Inr sr, s')"
    by (rule passes_seqmE [OF _ passes_audit_start])
  then obtain result s3 where
    3: "divert_high_risk_message pl a c (op_initiator op) oc (op_message_type op) (op_schema_version op)
         (op_payload op) rr (invited_infos (op_targets op)) JNull s2 = (Inr result, s3)"
    and rest: "seqm (audit a ''message.post'' (Some ?i) (Some (cv_id c)) (Some (ms_id m))
        (JObj [(''seq'', JInt 1), (''message_type'', JStr ''conversation_opened''),
               (''system_synthesized'', JBool True),
               (''hold_id'', case result of Inl _ \<Rightarrow> JNull | Inr h \<Rightarrow> JId (hd_id h))]))
     (bnd (case result of
             Inl _ \<Rightarrow> close_conversation a ?i c
               (resulting_conversation_state (op_message_type op) False) (op_message_type op)
           | Inr _ \<Rightarrow> ret c) (\<lambda>c.
      seqm commit
     (seqm (case result of Inl _ \<Rightarrow> ret () | Inr h \<Rightarrow> fire_approval_notifier pl h c (op_initiator op))
     (ret \<lparr>sr_conversation = c, sr_schema_version = op_schema_version op,
           sr_pending_hold = (case result of Inl _ \<Rightarrow> None | Inr h \<Rightarrow> Some h)\<rparr>)))) s3 = (Inr sr, s')"
    by (auto simp only: bnd_Inr)
  from 3 assms(2) divert_message_cleared obtain h where h: "result = Inr h" by (cases result) blast+
  from rest [unfolded h] obtain s4 where
    4: "same_tables (working s3) (working s4)"
      "seqm commit (seqm (fire_approval_notifier pl h c (op_initiator op))
         (ret \<lparr>sr_conversation = c, sr_schema_version = op_schema_version op,
               sr_pending_hold = Some h\<rparr>)) s4 = (Inr sr, s')"
    by (elim passes_seqmE [OF _ passes_audit]) (simp add: bnd_Inr ret_Inr)
  note held = divert_message_held [OF 3 [unfolded h]] and ins = insert_message_rows [OF 1(1)]
    and fin = commit_then_notify [OF 4(2)]
  have t: "same_tables (working s3) (committed s')"
    using fin 4(1) by (auto intro: same_tables_trans)
  have "hold_by_id k (working s2) = hold_by_id k (working s)" for k
    using ins 2(1) by (simp add: same_tables_def hold_by_id_def)
  with held ins fin t 2(1) show ?thesis
    by (intro exI [of _ m] exI [of _ h]) (simp add: same_tables_lookups [OF t] same_tables_def)
qed


section \<open>The properties\<close>

lemma start_conversation_stages:
  assumes "run (start_conversation pl a i ct ids j mt e oc n) clk d = (Inr sr, d')"
  obtains op c s1 s2 s3 where "start_guards pl a i ct ids j mt e n (open_session clk d) = (Inr op, s1)"
    "open_conversation op s1 = (Inr c, s2)" "d' = committed s3"
    "(case op_risk_reason op of Some rr \<Rightarrow> start_held pl a oc op c rr | None \<Rightarrow> start_posted a op c) s2 =
       (Inr sr, s3)"
  using assms by (auto simp: start_conversation_def bnd_Inr elim!: run_InrE)

text \<open>
  C31. A conversation is opened only by an active agent, with at least one other agent, all of
  them active and not known to be retired, at the highest schema version all of them support, with an
  accepted first message of a registered version whose sender role is the owner's. On the \<open>agents\<close>
  table the ownership rule holds: an internal conversation has one owner and no shared agent; in an
  asymmetric one every two participants have one owner unless one of them is shared.
\<close>

theorem start_requires_admission:
  assumes "run (start_conversation pl a i ct ids j mt e oc n) clk d = (Inr sr, d')"
    "ownership_client pl = agent_table_owners"
  shows "\<exists>op. sound_opening pl i ct ids j mt d op \<and> open_admitted ct (op_initiator op # op_targets op)"
  using assms(1)
proof (rule start_conversation_stages)
  fix op c s1 s2 s3
  assume "start_guards pl a i ct ids j mt e n (open_session clk d) = (Inr op, s1)"
  from start_guards_ok [OF this] assms(2) show ?thesis by auto
qed

lemma demo_start:
  "\<exists>sr d'. run (start_conversation demo_plugins ''ann'' 0 ''internal'' [1] (JObj []) ''note'' None None None)
     demo_clock demo_db = (Inr sr, d') \<and> sr_pending_hold sr = None"
  by (simp add: exec cong: exec_cong)

theorem start_requires_admission_witness:
  "\<exists>op. sound_opening demo_plugins 0 ''internal'' [1] (JObj []) ''note'' demo_db op \<and>
     open_admitted ''internal'' (op_initiator op # op_targets op)"
  using demo_start start_requires_admission [of demo_plugins "''ann''" 0 "''internal''" "[1]" "JObj []" "''note''"]
    demo_deployment(1) by (fastforce simp: table_scored_def)

text \<open>
  An opened conversation has exactly the shape the opening asked for: one new, active,
  unarchived conversation row; the initiator as its active owner and every target as an invited
  member, in order; one message numbered 1 by the initiator. When the first message crossed an
  ownership boundary that message is only the marker, and the message itself waits for the owner in a
  pending hold; otherwise it is the message given.
\<close>

theorem start_conversation_effect:
  assumes "run (start_conversation pl a i ct ids j mt e oc n) clk d = (Inr sr, d')"
    "\<And>ctx. auto_approver pl ctx \<noteq> Returned True" "table_scored pl"
  shows "\<exists>op c ps m. sound_opening pl i ct ids j mt d op \<and>
    conversation_by_id (cv_id c) d = None \<and> cv_type c = ct \<and> cv_created_by c = i \<and> cv_archived_at c = None \<and>
    conversations d' = closes (cv_id c) (if crosses_boundary d (start_risk_ctx op) then None
      else resulting_conversation_state mt False) (conversations d @ [c]) \<and> cv_state c = CvActive \<and>
    participants d' = participants d @ ps \<and>
    map (\<lambda>p. (pt_conversation_id p, pt_agent_id p, pt_role p, pt_status p, pt_invited_by p)) ps =
      (cv_id c, i, RoleOwner, PtActive, None) #
      map (\<lambda>t. (cv_id c, t, RoleMember, PtInvited, Some i)) (sorted_set (filter (\<lambda>t. t \<noteq> i) ids)) \<and>
    messages d' = messages d @ [m] \<and> ms_conversation_id m = cv_id c \<and> ms_seq m = 1 \<and> ms_sender_id m = i \<and>
    agents d' = agents d \<and>
    (if crosses_boundary d (start_risk_ctx op)
     then ms_type m = ''conversation_opened'' \<and>
       (\<exists>h. sr_pending_hold sr = Some h \<and> hold_by_id (hd_id h) d' = Some h \<and> hd_status h = PendingHuman \<and>
          hd_conversation_id h = cv_id c \<and> hd_sender_agent_id h = i \<and> hd_message_type h = mt \<and>
          hd_payload h = op_payload op \<and> hd_risk_reason h = ''boundary_crossing'')
     else sr_pending_hold sr = None \<and> holds d' = holds d \<and> ms_type m = mt \<and> ms_payload m = op_payload op)"
  using assms(1)
proof (rule start_conversation_stages)
  fix op c s1 s2 s3
  assume 1: "start_guards pl a i ct ids j mt e n (open_session clk d) = (Inr op, s1)"
    "open_conversation op s1 = (Inr c, s2)" "d' = committed s3"
    "(case op_risk_reason op of Some rr \<Rightarrow> start_held pl a oc op c rr | None \<Rightarrow> start_posted a op c) s2 =
       (Inr sr, s3)"
  note g = start_guards_ok [OF 1(1), simplified] and o = open_conversation_rows [OF 1(2)]
  from g have ids: "ag_id (op_initiator op) = i" and ct: "op_type op = ct" "op_message_type op = mt"
    and ts: "map ag_id (op_targets op) = sorted_set (filter (\<lambda>t. t \<noteq> i) ids)"
    by (auto simp: sound_opening_def dest: agent_by_idD)
  have fresh: "conversation_by_id (cv_id c) d = None"
  proof -
    from o have "cv_id c = fresh_id (working s1)" by blast
    with g fresh_conversation_row [of "working s1"] same_tables_lookups(2) [of d "working s1"]
    show ?thesis by simp
  qed
  from ts have map_ts: "map (\<lambda>t. (cv_id c, ag_id t, RoleMember, PtInvited, Some i)) (op_targets op) =
      map (\<lambda>t. (cv_id c, t, RoleMember, PtInvited, Some i)) (sorted_set (filter (\<lambda>t. t \<noteq> i) ids))"
    unfolding ts [symmetric] by simp
  show ?thesis
  proof (cases "crosses_boundary d (start_risk_ctx op)")
    case True
    with g assms(3) have rr: "op_risk_reason op = Some ''boundary_crossing''" by simp
    from 1(4) have "start_held pl a oc op c ''boundary_crossing'' s2 = (Inr sr, s3)" by (simp add: rr)
    from start_held_ok [OF this assms(2)] obtain m h where mh:
      "messages d' = messages (working s2) @ [m]" "ms_conversation_id m = cv_id c" "ms_seq m = 1"
      "ms_sender_id m = i" "ms_type m = ''conversation_opened''"
      "participants d' = participants (working s2)" "agents d' = agents (working s2)"
      "conversations d' = conversations (working s2)" "sr_pending_hold sr = Some h"
      "hold_by_id (hd_id h) d' = Some h" "hd_status h = PendingHuman" "hd_conversation_id h = cv_id c"
      "hd_sender_agent_id h = i" "hd_message_type h = mt" "hd_payload h = op_payload op"
      "hd_risk_reason h = ''boundary_crossing''"
      using 1(3) ids ct by auto
    from o obtain ps where "participants (working s2) = participants (working s1) @ ps"
      "map (\<lambda>p. (pt_conversation_id p, pt_agent_id p, pt_role p, pt_status p, pt_invited_by p)) ps =
        (cv_id c, i, RoleOwner, PtActive, None) #
        map (\<lambda>t. (cv_id c, ag_id t, RoleMember, PtInvited, Some i)) (op_targets op)" using ids by auto
    with True mh g o fresh ids ct map_ts show ?thesis
      by (intro exI [of _ op] exI [of _ c] exI [of _ ps] exI [of _ m])
         (simp add: same_tables_def closes_def)
  next
    case False
    with g assms(3) have rr: "op_risk_reason op = None" by simp
    from 1(4) have "start_posted a op c s2 = (Inr sr, s3)" by (simp add: rr)
    from start_posted_ok [OF this] obtain m where m:
      "messages d' = messages (working s2) @ [m]" "ms_conversation_id m = cv_id c" "ms_seq m = 1"
      "ms_sender_id m = i" "ms_type m = mt" "ms_payload m = op_payload op"
      "participants d' = participants (working s2)" "agents d' = agents (working s2)"
      "holds d' = holds (working s2)" "sr_pending_hold sr = None"
      "conversations d' = closes (cv_id c) (resulting_conversation_state mt False) (conversations (working s2))"
      using 1(3) ids ct by auto
    from o obtain ps where "participants (working s2) = participants (working s1) @ ps"
      "map (\<lambda>p. (pt_conversation_id p, pt_agent_id p, pt_role p, pt_status p, pt_invited_by p)) ps =
        (cv_id c, i, RoleOwner, PtActive, None) #
        map (\<lambda>t. (cv_id c, ag_id t, RoleMember, PtInvited, Some i)) (op_targets op)" using ids by auto
    with False m g o fresh ids ct map_ts show ?thesis
      by (intro exI [of _ op] exI [of _ c] exI [of _ ps] exI [of _ m])
         (simp add: same_tables_def)
  qed
qed

theorem start_conversation_effect_witness:
  "\<exists>sr d' m. run (start_conversation demo_plugins ''ann'' 0 ''internal'' [1] (JObj []) ''note'' None None None)
     demo_clock demo_db = (Inr sr, d') \<and> sr_pending_hold sr = None \<and>
     messages d' = messages demo_db @ [m] \<and> ms_seq m = 1 \<and> agents d' = agents demo_db"
proof -
  from demo_start obtain sr d' where
    r: "run (start_conversation demo_plugins ''ann'' 0 ''internal'' [1] (JObj []) ''note'' None None None)
      demo_clock demo_db = (Inr sr, d')" "sr_pending_hold sr = None" by blast
  with start_conversation_effect [OF r(1)] demo_deployment show ?thesis by fastforce
qed

end
