(* ===== verification/Walkthrough.thy ===== *)
theory Walkthrough
  imports Demo
begin

text \<open>
  Four requests from the empty database on, each run by rewriting: two agents of one owner register,
  one opens an \<open>open\<close> conversation with a note, which is held, and the owner approves the hold. The
  boards they lead to are the reachable databases on which the invariants are exhibited.
\<close>

definition walk_agent :: "nat \<Rightarrow> string \<Rightarrow> string \<Rightarrow> agent" where
  "walk_agent i sub name = \<lparr>ag_id = i, ag_sub = sub, ag_owner_sub = ''o1'', ag_owner_email = ''a@x'',
     ag_display_name = name, ag_accepted_types = [], ag_status = AgActive, ag_min_schema_version = 1,
     ag_max_schema_version = 1, ag_is_shared = False, ag_bound_at = Some 1000001,
     ag_owner_reconciled_at = None, ag_created_at = 1000000\<rparr>"

definition walk_row :: "string \<Rightarrow> string \<Rightarrow> nat \<Rightarrow> nat option \<Rightarrow> nat option \<Rightarrow> json \<Rightarrow> audit_row" where
  "walk_row sub action i c m detail = \<lparr>al_at = 1000000, al_actor_sub = sub, al_action = action,
     al_agent_id = Some i, al_conversation_id = c, al_message_id = m, al_detail = detail\<rparr>"

definition walk_registered :: "string \<Rightarrow> nat \<Rightarrow> audit_row" where
  "walk_registered sub i = walk_row sub ''agent.register'' i None None
     (JObj [(''created'', JBool True), (''is_shared'', JBool False), (''is_shared_requested'', JBool False)])"

definition walk_message :: "nat \<Rightarrow> nat \<Rightarrow> string \<Rightarrow> message" where
  "walk_message i n ty = \<lparr>ms_id = i, ms_conversation_id = 2, ms_seq = n, ms_sender_id = 0,
     ms_type = ty, ms_schema_version = 1, ms_payload = JObj [], ms_created_at = 1000000\<rparr>"

definition walk_hold :: approval_hold where
  "walk_hold = \<lparr>hd_id = 4, hd_conversation_id = 2, hd_sender_agent_id = 0, hd_target_agent_id = None,
     hd_kind = KindMessage, hd_owner_sub = ''o1'', hd_message_type = ''note'', hd_schema_version = 1,
     hd_payload = JObj [], hd_risk_reason = ''boundary_crossing'', hd_risk_scorer = ''boundary_v1'',
     hd_status = PendingHuman, hd_auto_approver = Some ''escalate_all'',
     hd_auto_decision = Some Escalated, hd_auto_decided_at = Some 1000006, hd_decided_by_sub = None,
     hd_decided_at = None, hd_decision_reason = None, hd_message_id = None,
     hd_expires_at = 604801000005, hd_created_at = 1000000\<rparr>"

definition walk_log :: "audit_row list" where
  "walk_log = [walk_registered ''ann'' 0, walk_registered ''bea'' 1,
     walk_row ''ann'' ''conversation.start'' 0 (Some 2) None (JObj [(''type'', JStr ''open''),
       (''target_agent_ids'', JList [JId 1]), (''owner_snapshot'', JNull), (''name'', JNull)]),
     walk_row ''ann'' ''approval.hold'' 0 (Some 2) None (JObj [(''hold_id'', JId 4),
       (''risk_reason'', JStr ''boundary_crossing''), (''risk_scorer'', JStr ''boundary_v1''),
       (''message_type'', JStr ''note'')]),
     walk_row ''ann'' ''approval.escalate'' 0 (Some 2) None (JObj [(''hold_id'', JId 4),
       (''auto_approver'', JStr ''escalate_all'')]),
     walk_row ''ann'' ''message.post'' 0 (Some 2) (Some 3) (JObj [(''seq'', JInt 1),
       (''message_type'', JStr ''conversation_opened''), (''system_synthesized'', JBool True),
       (''hold_id'', JId 4)])]"

lemmas walk_defs = walk_agent_def walk_row_def walk_registered_def walk_message_def walk_hold_def walk_log_def

lemma empty_tables:
  "agents empty_db = []" "conversations empty_db = []" "participants empty_db = []"
  "messages empty_db = []" "holds empty_db = []" "audit_log empty_db = []" "next_id empty_db = 0"
  by (simp_all add: empty_db_def)

definition board_one :: db where
  "board_one = snd (run (perform demo_plugins
     (Register ''ann'' ''ann'' ''o1'' ''a@x'' ''Ann'' None 1 1 False False True)) demo_clock empty_db)"

lemma board_one_tables:
  "agents board_one = [walk_agent 0 ''ann'' ''Ann'']" "conversations board_one = []"
  "participants board_one = []" "messages board_one = []" "holds board_one = []"
  "audit_log board_one = [walk_registered ''ann'' 0]" "next_id board_one = 1"
  by (simp_all add: board_one_def exec walk_defs empty_tables cong: exec_cong)

definition board_two :: db where
  "board_two = snd (run (perform demo_plugins
     (Register ''bea'' ''bea'' ''o1'' ''a@x'' ''Bea'' None 1 1 False False True)) demo_clock board_one)"

lemma board_two_tables:
  "agents board_two = [walk_agent 0 ''ann'' ''Ann'', walk_agent 1 ''bea'' ''Bea'']"
  "conversations board_two = []" "participants board_two = []" "messages board_two = []"
  "holds board_two = []" "audit_log board_two = [walk_registered ''ann'' 0, walk_registered ''bea'' 1]"
  "next_id board_two = 2"
  by (simp_all add: board_two_def exec walk_defs board_one_tables cong: exec_cong)

definition board_three :: db where
  "board_three = snd (run (perform demo_plugins
     (StartConversation ''ann'' 0 ''open'' [1] (JObj []) ''note'' None None None)) demo_clock board_two)"

lemma board_three_run:
  "\<exists>d. run (perform demo_plugins
       (StartConversation ''ann'' 0 ''open'' [1] (JObj []) ''note'' None None None)) demo_clock board_two =
     (Inr (), d) \<and>
     agents d = [walk_agent 0 ''ann'' ''Ann'', walk_agent 1 ''bea'' ''Bea''] \<and>
     conversations d = [\<lparr>cv_id = 2, cv_name = None, cv_type = ''open'', cv_state = CvActive,
       cv_created_by = 0, cv_expires_at = 604801000004, cv_owner_snapshot = None,
       cv_archived_at = None, cv_created_at = 1000000\<rparr>] \<and>
     participants d = [
       \<lparr>pt_conversation_id = 2, pt_agent_id = 0, pt_role = RoleOwner, pt_status = PtActive,
        pt_invited_by = None, pt_invited_at = 1000000, pt_joined_at = Some 1000004,
        pt_last_read_seq = 0\<rparr>,
       \<lparr>pt_conversation_id = 2, pt_agent_id = 1, pt_role = RoleMember, pt_status = PtInvited,
        pt_invited_by = Some 0, pt_invited_at = 1000000, pt_joined_at = None,
        pt_last_read_seq = 0\<rparr>] \<and>
     messages d = [walk_message 3 1 ''conversation_opened''] \<and>
     holds d = [walk_hold] \<and>
     audit_log d = walk_log \<and>
     next_id d = 5"
  by (simp add: exec walk_defs board_two_tables auto_decided_def cong: exec_cong)

lemma board_three_tables:
  "agents board_three = [walk_agent 0 ''ann'' ''Ann'', walk_agent 1 ''bea'' ''Bea'']"
  "conversations board_three = [\<lparr>cv_id = 2, cv_name = None, cv_type = ''open'', cv_state = CvActive,
     cv_created_by = 0, cv_expires_at = 604801000004, cv_owner_snapshot = None,
     cv_archived_at = None, cv_created_at = 1000000\<rparr>]"
  "participants board_three = [
     \<lparr>pt_conversation_id = 2, pt_agent_id = 0, pt_role = RoleOwner, pt_status = PtActive,
      pt_invited_by = None, pt_invited_at = 1000000, pt_joined_at = Some 1000004,
      pt_last_read_seq = 0\<rparr>,
     \<lparr>pt_conversation_id = 2, pt_agent_id = 1, pt_role = RoleMember, pt_status = PtInvited,
      pt_invited_by = Some 0, pt_invited_at = 1000000, pt_joined_at = None,
      pt_last_read_seq = 0\<rparr>]"
  "messages board_three = [walk_message 3 1 ''conversation_opened'']"
  "holds board_three = [walk_hold]"
  "audit_log board_three = walk_log" "next_id board_three = 5"
  using board_three_run by (auto simp: board_three_def)

definition board_four :: db where
  "board_four = snd (run (perform demo_plugins (DecideHold ''o1'' 4 ''approve'' None)) demo_clock
     board_three)"

text \<open>The note is released as message 2, and the hold says so.\<close>

lemma board_four_run:
  "\<exists>d. run (perform demo_plugins (DecideHold ''o1'' 4 ''approve'' None)) demo_clock board_three = (Inr (), d) \<and>
     messages d = [walk_message 3 1 ''conversation_opened'', walk_message 5 2 ''note''] \<and>
     holds d = [walk_hold\<lparr>hd_status := Approved, hd_decided_by_sub := Some ''o1'',
       hd_decided_at := Some 1000003, hd_message_id := Some 5\<rparr>] \<and>
     participants d = participants board_three"
  by (simp add: exec walk_defs board_three_tables cong: exec_cong)

lemma board_four_tables:
  "messages board_four = [walk_message 3 1 ''conversation_opened'', walk_message 5 2 ''note'']"
  "holds board_four = [walk_hold\<lparr>hd_status := Approved, hd_decided_by_sub := Some ''o1'',
     hd_decided_at := Some 1000003, hd_message_id := Some 5\<rparr>]"
  using board_four_run by (auto simp: board_four_def)

text \<open>All four are reachable, and each is a step from the one before.\<close>

lemma walk_steps:
  "board_step demo_plugins empty_db board_one" "board_step demo_plugins board_one board_two"
  "board_step demo_plugins board_two board_three" "board_step demo_plugins board_three board_four"
  unfolding board_one_def board_two_def board_three_def board_four_def
  by (rule run_step, rule prod.collapse [symmetric])+

lemma walk_reachable:
  "reachable demo_plugins board_one" "reachable demo_plugins board_two"
  "reachable demo_plugins board_three" "reachable demo_plugins board_four"
proof -
  note one = reachable.step [OF reachable.empty walk_steps(1)]
  note two = reachable.step [OF one walk_steps(2)]
  note three = reachable.step [OF two walk_steps(3)]
  note four = reachable.step [OF three walk_steps(4)]
  from one show "reachable demo_plugins board_one" .
  from two show "reachable demo_plugins board_two" .
  from three show "reachable demo_plugins board_three" .
  from four show "reachable demo_plugins board_four" .
qed

end
