(* ===== verification/Approval.thy ===== *)
theory Approval
  imports Opening Walkthrough
begin

text \<open>
  What an owner's decision on a hold guarantees: who may decide, once, and in time; what an approval
  releases, what a rejection leaves, and that a decision that fails delivers nothing.
\<close>

section \<open>A failed decision delivers nothing\<close>

text \<open>Messages, memberships and agents are as before.\<close>

definition undelivered :: "db \<Rightarrow> db \<Rightarrow> bool" where
  "undelivered d d' \<longleftrightarrow> messages d' = messages d \<and> participants d' = participants d \<and> agents d' = agents d"

interpretation ud: db_history undelivered
  by unfold_locales (auto simp: undelivered_def)

lemma keeps_lazy_undelivered: "keeps lazy m \<Longrightarrow> keeps undelivered m"
  by (erule keeps_mono) (simp add: lazy_def undelivered_def)

lemmas guards_undelivered = keeps_guards [THEN keeps_lazy_undelivered]
  keeps_finds [THEN keeps_lazy_undelivered] keeps_decidable [THEN keeps_lazy_undelivered]
  keeps_at_release_conversation [THEN keeps_lazy_undelivered] keeps_revalidate [THEN keeps_lazy_undelivered]

lemma undelivered_set_hold [simp]: "undelivered d (set_hold i f d)"
  by (simp add: undelivered_def)

lemma undelivered_rejections:
  "keeps undelivered (reject_hold a h r j)" "keeps undelivered (revalidation_failed a i c e)"
proof -
  show "keeps undelivered (reject_hold a h r j)"
    unfolding reject_hold_def by (intro ud.keeps_rules guards_undelivered ud.keeps_change) simp
  have "keeps undelivered (reject_ineligible a i c e)" for e
    unfolding reject_ineligible_def by (intro ud.keeps_rules guards_undelivered ud.keeps_change) simp
  then show "keeps undelivered (revalidation_failed a i c e)"
    by (simp add: revalidation_failed_def ud.keeps_prims split: err.split)
qed

lemma errs_release:
  "errs {} undelivered (release_message a h c r)" "errs {} undelivered (release_invite pl a h c r)"
proof -
  have raises: "raises {} (bnd (get_active_participant_agent_ids i) (\<lambda>x. ret (g x)))" for i g
    unfolding get_active_participant_agent_ids_def by (intro raises_rules)
  show "errs {} undelivered (release_message a h c r)"
    unfolding release_message_def
    by (intro ud.errs_bnd ud.errs_seqm guards_undelivered ud.keeps_prims ud.errs_rolls_back rolls_back_rules
        silent_rules silent_inserts silent_audit silent_close raises)
  show "errs {} undelivered (release_invite pl a h c r)"
    unfolding release_invite_def
    by (intro ud.errs_case_option ud.errs_bnd [OF keeps_finds(4) [THEN keeps_lazy_undelivered]] ud.errs_seqm
        ud.keeps_try undelivered_rejections guards_undelivered ud.errs_rolls_back rolls_back_rules silent_rules
        silent_inserts silent_audit raises_rules ud.errs_keeps [OF ud.keeps_prims(2)]
        ud.errs_bnd [OF undelivered_rejections(1)] raises)
qed

lemma errs_decide_hold: "errs {} undelivered (decide_hold pl a i dn r)"
  unfolding decide_hold_def
  by (intro ud.errs_bnd ud.errs_if errs_release guards_undelivered undelivered_rejections
      ud.errs_keeps [OF ud.keeps_prims(1)])

text \<open>
  A decision that raises delivers nothing: whatever the exception (not the owner, already
  decided, expired, the conversation closed or archived, the recipients no longer accept the type, the
  target no longer eligible, a violated constraint), no message is posted, nobody is admitted, and no
  agent changes.
\<close>

theorem failed_decision_delivers_nothing:
  assumes "run (decide_hold pl a i dn r) clk d = (Inl e, d')"
  shows "messages d' = messages d \<and> participants d' = participants d \<and> agents d' = agents d"
  using ud.errs_run [OF errs_decide_hold assms] by (simp add: undelivered_def)

theorem failed_decision_delivers_nothing_witness:
  "\<exists>d'. run (decide_hold demo_plugins ''o2'' 30 ''approve'' None) demo_clock demo_db =
      (Inl (AccessDeniedError ''denied.hold_not_owner''), d') \<and> messages d' = messages demo_db"
proof -
  have "\<exists>d'. run (decide_hold demo_plugins ''o2'' 30 ''approve'' None) demo_clock demo_db =
      (Inl (AccessDeniedError ''denied.hold_not_owner''), d')"
    by (simp add: exec cong: exec_cong)
  then show ?thesis using failed_decision_delivers_nothing by blast
qed

section \<open>Who may decide\<close>

text \<open>
  C27. Only the owner of a hold decides it, and only while it awaits a human decision and has
  not expired.
\<close>

theorem decision_requires_owner:
  assumes "run (decide_hold pl a i dn r) clk d = (Inr res, d')"
  shows "\<exists>h. hold_by_id i d = Some h \<and> hd_owner_sub h = a \<and> hd_status h = PendingHuman \<and>
    (\<exists>n. clk n < hd_expires_at h)"
  using assms
proof (rule run_InrE)
  fix s' assume "decide_hold pl a i dn r (open_session clk d) = (Inr res, s')"
  then show ?thesis by (auto simp: decide_hold_def bnd_Inr dest!: decidable_ok)
qed

theorem decision_requires_owner_witness:
  "\<exists>h. hold_by_id 30 demo_db = Some h \<and> hd_owner_sub h = ''o1'' \<and> hd_status h = PendingHuman \<and>
     (\<exists>res d'. run (decide_hold demo_plugins ''o1'' 30 ''approve'' None) demo_clock demo_db = (Inr res, d'))"
proof -
  have "\<exists>res d'. run (decide_hold demo_plugins ''o1'' 30 ''approve'' None) demo_clock demo_db = (Inr res, d')"
    by (simp add: exec cong: exec_cong)
  then show ?thesis using decision_requires_owner by blast
qed

text \<open>A denial that names existing rows is audited and raised, whatever else happens.\<close>

lemma db_ok_add_audit:
  assumes "db_ok d" "opt_all (has_agent d) (al_agent_id r)" "opt_all (has_conversation d) (al_conversation_id r)"
    "opt_all (has_message d) (al_message_id r)"
  shows "db_ok (add_audit r d)"
proof -
  have h: "has_agent (add_audit r d) = has_agent d" "has_conversation (add_audit r d) = has_conversation d"
    "has_message (add_audit r d) = has_message d"
    by (simp_all add: fun_eq_iff has_agent_def has_conversation_def has_message_def)
  show ?thesis
    using assms unfolding db_ok_conjuncts constraint_defs by (simp add: h)
qed

lemma refuse_exact:
  assumes "db_ok (working s)" "opt_all (has_agent (working s)) i" "opt_all (has_conversation (working s)) c"
  shows "fst (refuse e a b i c j s) = Inl e"
proof -
  let ?r = "\<lparr>al_at = txn_at s, al_actor_sub = a, al_action = b, al_agent_id = i, al_conversation_id = c,
      al_message_id = None, al_detail = j\<rparr>"
  have "db_ok (add_audit ?r (working s))" by (rule db_ok_add_audit) (use assms in simp_all)
  then show ?thesis
    by (simp add: refuse_def audit_def audit_at_def txn_now_def change_def seqm_def bnd_def commit_def
        throw_def db_ok_def)
qed

lemma hold_references:
  assumes "db_ok d" "hold_by_id i d = Some h"
  shows "has_conversation d (hd_conversation_id h) \<and> has_agent d (hd_sender_agent_id h)"
proof -
  have "h \<in> set (holds d)" using hold_by_idD [OF assms(2)] by blast
  with assms(1) show ?thesis
    unfolding db_ok_conjuncts holds_constraints_def by (auto simp: list_all_iff)
qed

text \<open>
  A hold is decided at most once: when it is no longer pending, its owner gets
  \<open>HoldAlreadyDecidedError\<close> with its status (\<open>HoldExpiredError\<close> when it expired) and nothing at all is
  written; anyone but the owner is denied whatever the status.
\<close>

theorem second_decision_refused:
  assumes "db_ok d" "hold_by_id i d = Some h"
  shows "(hd_status h \<notin> {PendingAuto, PendingHuman} \<longrightarrow>
      run (decide_hold pl (hd_owner_sub h) i dn r) clk d =
        (Inl (if hd_status h = HoldExpired then HoldExpiredError else HoldAlreadyDecidedError (hd_status h)), d)) \<and>
    (a \<noteq> hd_owner_sub h \<longrightarrow>
       fst (run (decide_hold pl a i dn r) clk d) = Inl (AccessDeniedError ''denied.hold_not_owner''))"
proof (intro conjI impI)
  assume "hd_status h \<notin> {PendingAuto, PendingHuman}"
  with assms show "run (decide_hold pl (hd_owner_sub h) i dn r) clk d =
      (Inl (if hd_status h = HoldExpired then HoldExpiredError else HoldAlreadyDecidedError (hd_status h)), d)"
    by (cases "hd_status h")
       (simp_all add: run_def decide_hold_def load_decidable_hold_def find_hold_def maybe_expire_hold_def
         bnd_def query_def ret_def seqm_def commit_def throw_def open_session_def db_ok_def)
next
  assume "a \<noteq> hd_owner_sub h"
  let ?deny = "deny a ''denied.hold_not_owner'' None (Some (hd_conversation_id h))
    (JObj [(''attempted_hold_id'', JId i)]) :: approval_hold M"
  have "fst (?deny (open_session clk d)) = Inl (AccessDeniedError ''denied.hold_not_owner'')"
    unfolding deny_def by (rule refuse_exact) (use assms hold_references [OF assms] in simp_all)
  with assms \<open>a \<noteq> hd_owner_sub h\<close>
  show "fst (run (decide_hold pl a i dn r) clk d) = Inl (AccessDeniedError ''denied.hold_not_owner'')"
    by (auto simp: run_def decide_hold_def load_decidable_hold_def find_hold_def bnd_def query_def
        split: prod.splits sum.splits)
qed


theorem second_decision_refused_witness:
  "run (decide_hold demo_plugins ''o1'' 4 ''reject'' None) demo_clock board_four =
     (Inl (HoldAlreadyDecidedError Approved), board_four)"
proof -
  let ?h = "walk_hold\<lparr>hd_status := Approved, hd_decided_by_sub := Some ''o1'',
     hd_decided_at := Some 1000003, hd_message_id := Some 5\<rparr>"
  have h: "hold_by_id 4 board_four = Some ?h" by (simp add: hold_by_id_def board_four_tables walk_hold_def)
  have "db_ok board_four" using reachable_invariant [OF walk_reachable(4)] by blast
  from second_decision_refused [OF this h] show ?thesis by (simp add: walk_hold_def)
qed

section \<open>What a decision does\<close>

lemma passes_decidable: "passes (load_decidable_hold a i)"
  by (auto simp: passes_def load_decidable_hold_def find_hold_def maybe_expire_hold_def expired_hold_def inr
      split: option.splits if_splits)

lemma reject_hold_ok:
  assumes "reject_hold a h r j s = (Inr k, s')"
  shows "\<exists>t. k = human_decided Rejected a t r h \<and> undelivered (working s) (committed s') \<and>
    conversations (committed s') = conversations (working s) \<and>
    holds (committed s') = update_where (\<lambda>x. hd_id x = hd_id h) (human_decided Rejected a t r) (holds (working s))"
  using assms by (auto simp: reject_hold_def inr undelivered_def set_hold_def)

text \<open>
  A rejection posts nothing, admits nobody and leaves every conversation alone: it sets the
  status, the decider, the time and the reason of the one hold, and changes nothing else on it.
\<close>

theorem rejection_only_marks_the_hold:
  assumes "run (decide_hold pl a i ''reject'' r) clk d = (Inr res, d')"
  shows "messages d' = messages d \<and> participants d' = participants d \<and> agents d' = agents d \<and>
    conversations d' = conversations d \<and>
    (\<exists>h t. hold_by_id i d = Some h \<and> hd_owner_sub h = a \<and>
       dn_hold res = h\<lparr>hd_status := Rejected, hd_decided_by_sub := Some a, hd_decided_at := Some t,
         hd_decision_reason := r\<rparr> \<and>
       holds d' = map (\<lambda>x. if hd_id x = i then x\<lparr>hd_status := Rejected, hd_decided_by_sub := Some a,
         hd_decided_at := Some t, hd_decision_reason := r\<rparr> else x) (holds d))"
  using assms
proof (rule run_InrE)
  fix s' assume d': "d' = committed s'"
    and "decide_hold pl a i ''reject'' r (open_session clk d) = (Inr res, s')"
  then obtain h j s1 k where
    1: "load_decidable_hold a i (open_session clk d) = (Inr h, s1)" "reject_hold a h r j s1 = (Inr k, s')"
      "res = \<lparr>dn_hold = k, dn_participant_status = None, dn_notify_active = [], dn_notify_inbox = []\<rparr>"
    by (auto simp: decide_hold_def bnd_Inr ret_Inr)
  from passesD [OF passes_decidable 1(1)] have t: "same_tables d (working s1)" by simp
  from decidable_ok [OF 1(1)] have h: "hold_by_id i d = Some h" "hd_id h = i" "hd_owner_sub h = a" by auto
  from reject_hold_ok [OF 1(2)] t h 1(3) show ?thesis
    by (auto simp: d' same_tables_def undelivered_def human_decided_def update_where_def)
qed


theorem rejection_only_marks_the_hold_witness:
  "\<exists>res d'. run (decide_hold demo_plugins ''o1'' 30 ''reject'' (Some ''no'')) demo_clock demo_db = (Inr res, d') \<and>
     hd_status (dn_hold res) = Rejected \<and> hd_decision_reason (dn_hold res) = Some ''no'' \<and>
     messages d' = messages demo_db"
proof -
  have "\<exists>res d'. run (decide_hold demo_plugins ''o1'' 30 ''reject'' (Some ''no'')) demo_clock demo_db = (Inr res, d')"
    by (simp add: exec cong: exec_cong)
  then show ?thesis using rejection_only_marks_the_hold by fastforce
qed

lemma insert_message_for_hold_rows:
  assumes "insert_message_for_hold c h s = (Inr (m, n), s')"
  shows "messages (working s') = messages (working s) @ [m] \<and> participants (working s') = participants (working s) \<and>
    agents (working s') = agents (working s) \<and> conversations (working s') = conversations (working s) \<and>
    holds (working s') = update_where (\<lambda>k. hd_id k = hd_id h) (\<lambda>k. k\<lparr>hd_message_id := Some (ms_id m)\<rparr>)
      (holds (working s)) \<and> ms_seq m = last_seq (cv_id c) (working s) + 1"
  using assms by (auto simp: insert_message_for_hold_def inr set_hold_def)

lemma release_message_ok:
  assumes "release_message a h c r s = (Inr res, s')" "hold_by_id (hd_id h) (working s) = Some h"
    "cv_id c = hd_conversation_id h"
  shows "\<exists>m t. messages (committed s') = messages (working s) @ [m] \<and> releases (dn_hold res) m \<and>
    ms_seq m = last_seq (cv_id c) (working s) + 1 \<and>
    dn_hold res = (human_decided Approved a t r h)\<lparr>hd_message_id := Some (ms_id m)\<rparr> \<and>
    hold_by_id (hd_id h) (committed s') = Some (dn_hold res) \<and>
    participants (committed s') = participants (working s) \<and> agents (committed s') = agents (working s) \<and>
    conversations (committed s') = closes (cv_id c) (resulting_conversation_state (hd_message_type h) False)
      (conversations (working s)) \<and>
    (\<forall>(j, ts)\<in>set (active_capabilities h (cv_id c) (working s)). ts = [] \<or> hd_message_type h \<in> set ts)"
proof -
  from assms(1) obtain m n s1 where
    1: "\<forall>(j, ts)\<in>set (active_capabilities h (cv_id c) (working s)). ts = [] \<or> hd_message_type h \<in> set ts"
      "insert_message_for_hold c h s = (Inr (m, n), s1)"
    and rest: "bnd now (\<lambda>t.
       seqm (change (set_hold (hd_id h) (human_decided Approved a t r)))
      (seqm (audit a ''approval.approve'' (Some (hd_sender_agent_id h)) (Some (cv_id c)) (Some (ms_id m))
               (JObj [(''hold_id'', JId (hd_id h)), (''has_reason'', JBool (r \<noteq> None))]))
      (seqm (audit a ''message.post'' (Some (hd_sender_agent_id h)) (Some (cv_id c)) (Some (ms_id m))
               (JObj [(''seq'', JInt (int n)), (''message_type'', JStr (hd_message_type h)),
                      (''hold_id'', JId (hd_id h))]))
      (bnd (close_conversation a (hd_sender_agent_id h) c
              (resulting_conversation_state (hd_message_type h) False) (hd_message_type h)) (\<lambda>_.
       seqm commit
      (bnd (get_active_participant_agent_ids (cv_id c)) (\<lambda>active.
       ret \<lparr>dn_hold = (human_decided Approved a t r h)\<lparr>hd_message_id := Some (ms_id m)\<rparr>,
            dn_participant_status = None, dn_notify_active = active, dn_notify_inbox = active\<rparr>)))))))
      s1 = (Inr res, s')"
    unfolding release_message_def bnd_query seqm_Inr type_accepted_Inr by (auto simp only: bnd_Inr prod.case)
  let ?t = "clock s1 (ticks s1)"
  let ?w = "set_hold (hd_id h) (human_decided Approved a ?t r) (working s1)"
  from rest obtain s2 b s3 where
    2: "same_tables ?w (working s2)"
      "close_conversation a (hd_sender_agent_id h) c (resulting_conversation_state (hd_message_type h) False)
         (hd_message_type h) s2 = (Inr b, s3)"
      "committed s' = working s3"
      "dn_hold res = (human_decided Approved a ?t r h)\<lparr>hd_message_id := Some (ms_id m)\<rparr>"
    unfolding bnd_Inr [of now] now_Inr seqm_Inr [of "change f" for f] change_Inr
    by (elim exE conjE; elim passes_seqmE [OF _ passes_audit] passes_seqmE [OF _ passes_audit])
       (auto simp: inr get_active_participant_agent_ids_def dest: same_tables_trans)
  note ins = insert_message_for_hold_rows [OF 1(2)] message_for_hold_ok [OF 1(2) assms(2)]
    and close = close_conversation_ok [OF 2(2)] leaves_close [THEN leavesD, OF 2(2)]
  have "hold_by_id (hd_id h) ?w = Some (dn_hold res)"
    using ins by (simp add: hold_by_id_set human_decided_def 2(4))
  moreover have "hold_by_id (hd_id h) (committed s') = hold_by_id (hd_id h) ?w"
    using 2(1,3) close by (simp add: hold_by_id_def same_tables_def)
  ultimately show ?thesis
    using 1(1) 2 ins close assms(3)
    by (intro exI [of _ m] exI [of _ ?t]) (simp add: same_tables_def releases_def human_decided_def)
qed


text \<open>A conversation a hold is released into was active, unexpired and unarchived, and was not touched.\<close>

lemma load_release_ok:
  assumes "load_release_conversation a h s = (Inr c, s')"
  shows "same_tables (working s) (working s') \<and> committed s' = committed s \<and> clock s' = clock s \<and>
    cv_id c = hd_conversation_id h \<and> conversation_by_id (hd_conversation_id h) (working s) = Some c \<and>
    cv_state c = CvActive \<and> cv_archived_at c = None \<and> (\<exists>n. clock s n < cv_expires_at c)"
proof -
  from assms obtain c0 where c0: "conversation_by_id (hd_conversation_id h) (working s) = Some c0"
      "maybe_expire a c0 s = (Inr c, s')" "cv_archived_at c = None" "cv_state c = CvActive"
    by (auto simp: load_release_conversation_def find_conversation_def inr
        split: option.splits if_splits)
  then show ?thesis
    using conversation_by_idD [OF c0(1)]
    by (auto simp: maybe_expire_def inr expired_conversation_def not_le split: if_splits)
qed

text \<open>Everything an approval does to the tables.\<close>

definition approval_effects ::
  "(nat \<Rightarrow> int) \<Rightarrow> db \<Rightarrow> db \<Rightarrow> nat \<Rightarrow> approval_hold \<Rightarrow> decision_result \<Rightarrow> message \<Rightarrow> conversation \<Rightarrow> bool" where
  "approval_effects clk d d' i h res m c =
   (messages d' = messages d @ [m] \<and> ms_conversation_id m = hd_conversation_id h \<and>
    ms_sender_id m = hd_sender_agent_id h \<and> ms_type m = hd_message_type h \<and>
    ms_schema_version m = hd_schema_version h \<and> ms_payload m = hd_payload h \<and>
    ms_seq m = last_seq (hd_conversation_id h) d + 1 \<and>
    hold_by_id i d' = Some (dn_hold res) \<and> hd_status (dn_hold res) = Approved \<and>
    hd_decided_by_sub (dn_hold res) = Some (hd_owner_sub h) \<and> hd_message_id (dn_hold res) = Some (ms_id m) \<and>
    conversation_by_id (hd_conversation_id h) d = Some c \<and> cv_state c = CvActive \<and>
    cv_archived_at c = None \<and> (\<exists>n. clk n < cv_expires_at c) \<and>
    conversations d' = closes (hd_conversation_id h) (resulting_conversation_state (hd_message_type h) False)
      (conversations d) \<and>
    (\<forall>(j, ts)\<in>set (active_capabilities h (hd_conversation_id h) d). ts = [] \<or> hd_message_type h \<in> set ts) \<and>
    participants d' = participants d \<and> agents d' = agents d)"

lemma approval_effect:
  assumes "run (decide_hold pl a i dn r) clk d = (Inr res, d')" "dn \<noteq> ''reject''"
    "hold_by_id i d = Some h" "hd_kind h = KindMessage"
  shows "\<exists>m c. approval_effects clk d d' i h res m c"
  using assms(1)
proof (rule run_InrE)
  fix s' assume d': "d' = committed s'"
    and "decide_hold pl a i dn r (open_session clk d) = (Inr res, s')"
  then obtain k c s1 s2 where
    1: "load_decidable_hold a i (open_session clk d) = (Inr k, s1)"
      "load_release_conversation a k s1 = (Inr c, s2)"
      "(if hd_kind k = KindInvite then release_invite pl a k c r else release_message a k c r) s2 = (Inr res, s')"
    using assms(2) by (auto simp: decide_hold_def bnd_Inr)
  from decidable_ok [OF 1(1)] assms(3) have k: "k = h" "hd_id h = i" "hd_owner_sub h = a" by auto
  with 1(3) assms(4) have rel: "release_message a h c r s2 = (Inr res, s')" by simp
  have t: "same_tables d (working s2)" "clock s1 = clk"
    using passesD [OF passes_decidable 1(1)] load_release_ok [OF 1(2)] same_tables_trans by auto
  have "hold_by_id (hd_id h) (working s2) = Some h" using assms(3) k by (simp add: same_tables_lookups [OF t(1)])
  note ok = load_release_ok [OF 1(2) [unfolded k]]
  from ok have c: "cv_id c = hd_conversation_id h" by blast
  from release_message_ok [OF rel \<open>hold_by_id (hd_id h) (working s2) = Some h\<close> c] obtain m u where
    m: "messages (committed s') = messages (working s2) @ [m]" "releases (dn_hold res) m"
      "ms_seq m = last_seq (cv_id c) (working s2) + 1"
      "dn_hold res = (human_decided Approved a u r h)\<lparr>hd_message_id := Some (ms_id m)\<rparr>"
      "hold_by_id (hd_id h) (committed s') = Some (dn_hold res)"
      "participants (committed s') = participants (working s2)" "agents (committed s') = agents (working s2)"
      "conversations (committed s') = closes (cv_id c) (resulting_conversation_state (hd_message_type h) False)
        (conversations (working s2))"
      "\<forall>(j, ts)\<in>set (active_capabilities h (cv_id c) (working s2)). ts = [] \<or> hd_message_type h \<in> set ts"
    by auto
  have "active_capabilities h (cv_id c) (working s2) = active_capabilities h (cv_id c) d"
    using t(1) by (simp add: active_capabilities_def join_agents_def same_tables_lookups)
  moreover have "conversation_by_id (hd_conversation_id h) d = Some c"
    using ok passesD [OF passes_decidable 1(1)] by (auto simp: same_tables_lookups)
  ultimately show ?thesis
    using m ok k c t
    by (intro exI [of _ m] exI [of _ c])
       (simp add: approval_effects_def d' same_tables_def releases_def human_decided_def last_seq_def conv_messages_def)
qed

text \<open>
  C26. Approving a message hold puts exactly the held message on the board, unchanged and as the next
  of its conversation: one message with the sender, type, version and payload that were held; the hold
  approved by its owner and pointing at it; the conversation was active, not expired and not archived; every
  other active participant accepted the type at that moment; no agent changed. Where the held message is
  not a \<open>decline\<close>, the conversation moved to the state the type leads to and no membership changed. What an
  approved \<open>decline\<close> should do to the memberships and does not is \<open>approved_decline_keeps_membership\<close>.
\<close>

theorem approval_releases_the_message:
  assumes "run (decide_hold pl a i dn r) clk d = (Inr res, d')" "dn \<noteq> ''reject''"
    "hold_by_id i d = Some h" "hd_kind h = KindMessage"
  shows "\<exists>m c. messages d' = messages d @ [m] \<and> ms_conversation_id m = hd_conversation_id h \<and>
    ms_sender_id m = hd_sender_agent_id h \<and> ms_type m = hd_message_type h \<and>
    ms_schema_version m = hd_schema_version h \<and> ms_payload m = hd_payload h \<and>
    ms_seq m = last_seq (hd_conversation_id h) d + 1 \<and>
    hold_by_id i d' = Some (dn_hold res) \<and> hd_status (dn_hold res) = Approved \<and>
    hd_decided_by_sub (dn_hold res) = Some (hd_owner_sub h) \<and> hd_message_id (dn_hold res) = Some (ms_id m) \<and>
    conversation_by_id (hd_conversation_id h) d = Some c \<and> cv_state c = CvActive \<and>
    cv_archived_at c = None \<and> (\<exists>n. clk n < cv_expires_at c) \<and>
    (\<forall>(j, ts)\<in>set (active_capabilities h (hd_conversation_id h) d). ts = [] \<or> hd_message_type h \<in> set ts) \<and>
    agents d' = agents d \<and>
    (hd_message_type h \<noteq> ''decline'' \<longrightarrow> participants d' = participants d \<and>
       conversations d' = closes (hd_conversation_id h) (resulting_conversation_state (hd_message_type h) False)
         (conversations d))"
proof -
  from approval_effect [OF assms] obtain m c where
    "approval_effects clk d d' i h res m c" by blast
  then show ?thesis unfolding approval_effects_def by blast
qed

text \<open>
  The docstring of \<open>DeclineV1\<close> lets a \<open>decline\<close> set its sender's membership to \<open>declined\<close>, and cancel the
  conversation once every member has declined. Released from a hold it does neither: \<open>decide_hold\<close> takes
  the state from \<open>resulting_conversation_state\<close> with \<open>all_non_owners_declined=False\<close> and never writes the
  participants.
\<close>

theorem approved_decline_keeps_membership:
  assumes "run (decide_hold pl a i dn r) clk d = (Inr res, d')" "dn \<noteq> ''reject''"
    "hold_by_id i d = Some h" "hd_kind h = KindMessage" "hd_message_type h = ''decline''"
  shows "participants d' = participants d \<and> conversations d' = conversations d \<and>
    (\<exists>m. messages d' = messages d @ [m] \<and> ms_type m = ''decline'')"
proof -
  from approval_effect [OF assms(1-4)] obtain m c where
    e: "approval_effects clk d d' i h res m c" by blast
  have "closes x None cs = cs" for x cs by (simp add: closes_def)
  then show ?thesis using e assms(5) by (simp add: approval_effects_def resulting_conversation_state_def)
qed

theorem approval_releases_the_message_witness:
  "\<exists>res d' m. run (decide_hold demo_plugins ''o1'' 30 ''approve'' None) demo_clock demo_db = (Inr res, d') \<and>
     messages d' = messages demo_db @ [m] \<and> ms_type m = ''note'' \<and> ms_seq m = 2 \<and>
     participants d' = participants demo_db"
proof -
  have "\<exists>res d'. run (decide_hold demo_plugins ''o1'' 30 ''approve'' None) demo_clock demo_db = (Inr res, d')"
    by (simp add: exec cong: exec_cong)
  then obtain res d' where
    r: "run (decide_hold demo_plugins ''o1'' 30 ''approve'' None) demo_clock demo_db = (Inr res, d')" by blast
  have h: "hold_by_id 30 demo_db = Some demo_hold"
    by (simp add: lookup_defs demo_tables demo_hold_def)
  have "last_seq 11 demo_db = 1" by (simp add: last_seq_def lookup_defs demo_tables demo_message_def)
  with approval_releases_the_message [OF r _ h] r show ?thesis
    by (fastforce simp: demo_hold_def)
qed

section \<open>What the auto-approver clears\<close>

lemma divert_message_cleared_rows:
  assumes "divert_high_risk_message pl a c g oc mt v w rr infos extra s = (Inr (Inl m), s')"
  shows "messages (working s') = messages (working s) @ [m] \<and> participants (working s') = participants (working s) \<and>
    agents (working s') = agents (working s) \<and> conversations (working s') = conversations (working s) \<and>
    ms_conversation_id m = cv_id c \<and> ms_sender_id m = ag_id g \<and> ms_type m = mt \<and> ms_payload m = w"
proof -
  from assms obtain x h s1 s2 row u where
    1: "insert_hold (cv_id c) (ag_id g) None KindMessage (case oc of Some x \<Rightarrow> x | None \<Rightarrow> ag_owner_sub g)
        mt v w rr (if rr = AGENT_REQUESTED_RISK_REASON then AGENT_REQUESTED_RISK_SCORER_LABEL
          else risk_scorer_name pl) (x + APPROVAL_HOLD_TTL) u = (Inr h, s1)"
      "working u = working s"
      "clear_message_hold pl c h s2 = (Inr m, s')"
      "working s2 = set_hold (hd_id h) (\<lambda>k. k\<lparr>hd_auto_approver := Some (auto_approver_name pl)\<rparr>)
         (add_audit row (working s1))"
    unfolding divert_high_risk_message_def Let_def
    by (clarsimp simp: bnd_Inr seqm_Inr audit_Inr ret_Inr now_Inr change_Inr call_Inr split: if_splits)
  note ok = insert_hold_ok [OF 1(1)] and fr = insert_hold_frame [OF 1(1)]
  from 1(3) obtain n s3 where 2: "insert_message_for_hold c h s2 = (Inr (m, n), s3)"
    "same_tables (working s3) ((working s')\<lparr>holds := holds (working s3)\<rparr>)"
    by (auto simp: clear_message_hold_def inr same_tables_def)
  have "hold_by_id (hd_id h) (working s2) = Some (h\<lparr>hd_auto_approver := Some (auto_approver_name pl)\<rparr>)"
    using ok 1(4) by (simp add: hold_by_id_set)
  from message_for_hold_ok [OF 2(1) this] insert_message_for_hold_rows [OF 2(1)] 2(2) 1(2,4) ok fr
  show ?thesis by (simp add: same_tables_def)
qed

text \<open>
  The docstring of \<open>post_message\<close> lets every posted message move the conversation to the state its type
  leads to. A post that crossed a boundary and was cleared by the auto-approver does not: it puts its
  message on the board and changes nothing else, unlike a direct post, and unlike the same message
  released by its owner.
\<close>

theorem cleared_post_closes_nothing:
  assumes "run (post_message pl a i cid mt j v oc rv) clk d = (Inr (Inl m), d')" "table_scored pl"
    "conversation_by_id cid d = Some c" "crosses_boundary d (post_risk_ctx d i c mt v)"
  shows "messages d' = messages d @ [m] \<and> ms_type m = mt \<and> ms_sender_id m = i \<and> ms_conversation_id m = cid \<and>
    conversations d' = conversations d \<and> participants d' = participants d \<and> agents d' = agents d"
proof -
  from assms(1) obtain s' where s': "d' = committed s'" and
    "post_message pl a i cid mt j v oc rv (open_session clk d) = (Inr (Inl m), s')" by (blast elim: run_InrE)
  from this(2) assms(2) obtain g w rr infos s3 where
    1: "agent_by_id i d = Some g" "cv_id c = cid" "same_tables d (working s3)"
    and dis: "post_disposal pl a g c oc rv mt v w rr infos s3 = (Inr (Inl m), s')"
    and rr: "rr = (if crosses_boundary d (post_risk_ctx d i c mt v) then Some ''boundary_crossing'' else None)"
    by (rule post_risk_reason) (use assms(3) in auto)
  have "ag_id g = i" using agent_by_idD [OF 1(1)] by blast
  from dis rr assms(4) obtain s4 s5 rs extra where
    d: "divert_high_risk_message pl a c g oc mt v w rs infos extra s4 = (Inr (Inl m), s5)"
    and t: "working s4 = working s3" "committed s' = working s5"
    by (auto simp: post_disposal_def post_held_def inr split: if_splits)
  from divert_message_cleared_rows [OF d] t 1 \<open>ag_id g = i\<close> show ?thesis by (simp add: s' same_tables_def)
qed


text \<open>The asymmetric conversation of \<open>demo_db\<close>, its other participant being a shared agent.\<close>

definition shared_db :: db where
  "shared_db = \<lparr>agents = [demo_agent 0 ''ann'' ''o1'' AgActive,
       (demo_agent 2 ''cid'' ''o2'' AgActive)\<lparr>ag_is_shared := True\<rparr>],
     conversations = [demo_conversation 11 ''asymmetric'' (Some [''o1'', ''o2'']) None],
     participants = [demo_participant 11 0 RoleOwner PtActive, demo_participant 11 2 RoleMember PtActive],
     messages = [demo_message 21 11 1 ''availability_request''], holds = [], audit_log = [], next_id = 40\<rparr>"

lemma shared_db_tables:
  "agents shared_db = [demo_agent 0 ''ann'' ''o1'' AgActive,
     (demo_agent 2 ''cid'' ''o2'' AgActive)\<lparr>ag_is_shared := True\<rparr>]"
  "conversations shared_db = [demo_conversation 11 ''asymmetric'' (Some [''o1'', ''o2'']) None]"
  "participants shared_db = [demo_participant 11 0 RoleOwner PtActive, demo_participant 11 2 RoleMember PtActive]"
  "messages shared_db = [demo_message 21 11 1 ''availability_request'']"
  "holds shared_db = []" "audit_log shared_db = []" "next_id shared_db = 40"
  by (simp_all add: shared_db_def)

theorem cleared_confirm_closes_nothing:
  "\<exists>m d'. run (post_message clearing_plugins ''ann'' 0 11 ''confirm'' (JObj []) 1 None None) demo_clock shared_db =
      (Inr (Inl m), d') \<and> ms_type m = ''confirm'' \<and> conversations d' = conversations shared_db \<and>
     resulting_conversation_state ''confirm'' False = Some ''completed''"
proof -
  have "\<exists>m d'. run (post_message clearing_plugins ''ann'' 0 11 ''confirm'' (JObj []) 1 None None)
      demo_clock shared_db = (Inr (Inl m), d')"
    by (simp add: exec shared_db_tables cong: exec_cong)
  then obtain m d' where
    r: "run (post_message clearing_plugins ''ann'' 0 11 ''confirm'' (JObj []) 1 None None) demo_clock shared_db =
      (Inr (Inl m), d')" by blast
  let ?c = "demo_conversation 11 ''asymmetric'' (Some [''o1'', ''o2'']) None"
  have c: "conversation_by_id 11 shared_db = Some ?c"
    by (simp add: conversation_by_id_def shared_db_tables demo_conversation_def)
  have x: "crosses_boundary shared_db (post_risk_ctx shared_db 0 ?c ''confirm'' 1)"
    by (simp add: crosses_boundary_def post_risk_ctx_def shared_agent_def other_participants_def join_agents_def
        sorted_by_def map_filter_def lookup_defs shared_db_tables demo_agent_def demo_participant_def
        demo_conversation_def)
  have "table_scored clearing_plugins"
    by (simp add: table_scored_def clearing_plugins_def demo_plugins_def default_plugins_def)
  from cleared_post_closes_nothing [OF r this c x] r show ?thesis
    by (simp add: resulting_conversation_state_def)
qed

end
