(* ===== verification/Joining.thy ===== *)
theory Joining
  imports Approval
begin

text \<open>
  What the membership operations guarantee: who is admitted and under which ownership rule, what an
  invitation and its acceptance write, how far a conversation can be extended or reopened, and that an
  archived conversation is frozen.
\<close>

section \<open>The ownership rule of admission\<close>

text \<open>
  On the \<open>agents\<close> table: into an internal conversation only an unshared agent of exactly the owners
  recorded when it was opened, into an asymmetric one only an agent of one of those owners.
\<close>

definition admits_invitee :: "conversation \<Rightarrow> agent \<Rightarrow> bool" where
  "admits_invitee c g \<longleftrightarrow> cv_type c = ''open'' \<or>
     (if cv_type c = ''internal'' then \<not> ag_is_shared g \<and> snapshot_owners c = {ag_owner_sub g}
      else ag_owner_sub g \<in> snapshot_owners c)"

lemma owner_freeze_ok:
  assumes "authorize_invite_owner_freeze pl a i c g s = (Inr (), s')"
    "ownership_client pl = agent_table_owners" "agent_by_id (ag_id g) (working s) = Some g"
  shows "s' = s \<and> admits_invitee c g"
proof (cases "cv_type c = ''open''")
  case True
  with assms(1) show ?thesis by (simp add: authorize_invite_owner_freeze_def inr admits_invitee_def)
next
  case False
  have info: "agent_table_owners (working s) (ag_id g) = Returned (table_info g)"
    by (rule agent_table_owners_Some [OF assms(3)])
  have owners: "owners_of (table_info g) = {ag_owner_sub g}"
    "truthy (oi_is_shared (table_info g)) = ag_is_shared g"
    by (simp_all add: table_info_def owners_of_def)
  from assms(1) show ?thesis
    unfolding authorize_invite_owner_freeze_def Let_def bnd_query assms(2) info outcome.case owners if_Inr
      deny_Inr ret_Inr if_not_P [OF False]
    using False by (auto simp: admits_invitee_def)
qed

lemma invite_target_ok:
  assumes "invite_target pl a i c t s = (Inr g, s')"
  shows "s' = s \<and> agent_by_id t (working s) = Some g \<and> ag_id g = t \<and> ag_status g = AgActive \<and>
    active_checker pl (ag_sub g) \<noteq> Returned False"
  using assms
  by (auto simp: invite_target_def find_agent_by_id_def inr split: option.splits if_splits dest: agent_by_idD)

lemma passes_owner_freeze: "passes (authorize_invite_owner_freeze pl a i c g)"
  unfolding authorize_invite_owner_freeze_def Let_def by (intro passes_rules passes_denials)

lemma passes_invite_admission: "passes (invite_admission pl a i c t)"
  unfolding invite_admission_def invite_target_def conversation_pinned_schema_version_def
  by (intro passes_rules passes_guards passes_denials passes_owner_freeze)

lemma invite_admission_ok:
  assumes "invite_admission pl a i c t s = (Inr g, s')"
  shows "agent_by_id t (working s) = Some g \<and> ag_id g = t \<and> ag_status g = AgActive \<and>
    active_checker pl (ag_sub g) \<noteq> Returned False \<and> participant_of (cv_id c) t (working s) = None \<and>
    (\<exists>m. m \<in> set (conv_messages (cv_id c) (working s)) \<and> ms_seq m = 1 \<and>
       ag_min_schema_version g \<le> ms_schema_version m \<and> ms_schema_version m \<le> ag_max_schema_version g) \<and>
    (ownership_client pl = agent_table_owners \<longrightarrow> admits_invitee c g)"
proof -
  from assms obtain v s1 where
    1: "invite_target pl a i c t s = (Inr g, s)" "conversation_pinned_schema_version (cv_id c) s = (Inr v, s)"
      "ag_min_schema_version g \<le> v" "v \<le> ag_max_schema_version g"
      "authorize_invite_owner_freeze pl a i c g s = (Inr (), s1)"
      "participant_of (cv_id c) (ag_id g) (working s1) = None"
    by (auto simp: invite_admission_def find_participant_def conversation_pinned_schema_version_def inr
        split: option.splits if_splits dest!: invite_target_ok)
  note t = invite_target_ok [OF 1(1)]
  have "same_tables (working s) (working s1)"
    using passesD [OF passes_owner_freeze 1(5)] by blast
  with 1 t owner_freeze_ok [OF 1(5)] show ?thesis
    by (auto simp: conversation_pinned_schema_version_def inr same_tables_lookups split: option.splits
        dest!: find_SomeD)
qed

text \<open>What an invitation that was not refused says about the database it found.\<close>

definition invite_admitted :: "plugins \<Rightarrow> nat \<Rightarrow> nat \<Rightarrow> nat \<Rightarrow> (nat \<Rightarrow> int) \<Rightarrow> db \<Rightarrow> bool" where
  "invite_admitted pl i cid t clk d \<longleftrightarrow>
     (\<exists>p. participant_of cid i d = Some p \<and> pt_status p = PtActive) \<and> participant_of cid t d = None \<and>
     (\<exists>c g m n. conversation_by_id cid d = Some c \<and> cv_state c = CvActive \<and> cv_archived_at c = None \<and>
        clk n < cv_expires_at c \<and> agent_by_id t d = Some g \<and> ag_status g = AgActive \<and>
        active_checker pl (ag_sub g) \<noteq> Returned False \<and>
        m \<in> set (conv_messages cid d) \<and> ms_seq m = 1 \<and>
        ag_min_schema_version g \<le> ms_schema_version m \<and> ms_schema_version m \<le> ag_max_schema_version g \<and>
        (ownership_client pl = agent_table_owners \<longrightarrow> admits_invitee c g))"

text \<open>An invitation comes through its admission; then the note history decides how it goes on.\<close>

definition invite_disposal ::
  "plugins \<Rightarrow> string \<Rightarrow> nat \<Rightarrow> conversation \<Rightarrow> agent \<Rightarrow> string option \<Rightarrow> bool \<Rightarrow> (participant + approval_hold) M" where
  "invite_disposal pl a i c g oc has_history =
     (if has_history then invite_by_approval pl a i c g oc
      else bnd (insert_participant (cv_id c) (ag_id g) RoleMember PtInvited (Some i) None) (\<lambda>q.
           seqm flush
          (seqm (audit a ''participant.invite'' (Some (ag_id g)) (Some (cv_id c)) None
                   (JObj [(''invited_by_agent_id'', JId i)]))
          (seqm commit
          (ret (Inl q))))))"

lemma invite_ok:
  assumes "invite pl a i cid t oc s = (Inr r, s')"
  obtains c g s2 where "invite_admitted pl i cid t (clock s) (working s)"
    "conversation_by_id cid (working s) = Some c" "cv_id c = cid" "agent_by_id t (working s) = Some g" "ag_id g = t"
    "same_tables (working s) (working s2)" "committed s2 = committed s" "clock s2 = clock s"
    "invite_disposal pl a i c g oc (conversation_has_note_history cid (working s)) s2 = (Inr r, s')"
proof -
  from assms obtain c p s1 g s2 where
    1: "load_participant_for_transition a i cid PtActive s = (Inr (c, p), s1)"
      "cv_archived_at c = None" "cv_state c = CvActive"
      "invite_admission pl a i c t s1 = (Inr g, s2)"
      "invite_disposal pl a i c g oc (conversation_has_note_history (cv_id c) (working s2)) s2 = (Inr r, s')"
    unfolding invite_def invite_disposal_def if_Inr bnd_query deny_Inr denials_Inr
    by (auto simp only: bnd_Inr [of "load_participant_for_transition a i cid PtActive"] prod.case
        if_Inr deny_Inr denials_Inr bnd_Inr [of "invite_admission pl a i c t" for c] bnd_query
) auto
  note l = load_active_same [OF 1(1,3)] and adm = invite_admission_ok [OF 1(4)]
  have s2: "same_tables (working s1) (working s2)" "committed s2 = committed s1" "clock s2 = clock s1"
    using passesD [OF passes_invite_admission 1(4)] by blast+
  have "conversation_has_note_history cid (working s2) = conversation_has_note_history cid (working s)"
    using s2 l by (simp add: conversation_has_note_history_def same_data_def same_tables_lookups)
  moreover have "invite_admitted pl i cid t (clock s) (working s)"
    using l adm 1(2,3) by (auto simp: invite_admitted_def same_data_def)
  ultimately show ?thesis
    using that [of c g s2] l adm 1(5) s2 by (auto simp: same_data_def)
qed


lemma invite_admitted_ok:
  "invite pl a i cid t oc s = (Inr r, s') \<Longrightarrow> invite_admitted pl i cid t (clock s) (working s)"
  by (rule invite_ok)

section \<open>Inviting\<close>

text \<open>
  C32. An invitation succeeds, directly or as a hold, only if the inviter is an active participant
  of an active, unexpired, unarchived conversation; the target is an active agent, not known to be
  retired, not a participant in any status, able to read the conversation's schema version; and, on the
  \<open>agents\<close> table, the target's owner is within the owners frozen when the conversation was opened.
\<close>

theorem invite_requires_admission:
  assumes "run (invite pl a i cid t oc) clk d = (Inr r, d')"
  shows "invite_admitted pl i cid t clk d"
  using assms
proof (rule run_InrE)
  fix s' assume "invite pl a i cid t oc (open_session clk d) = (Inr r, s')"
  from invite_admitted_ok [OF this] show ?thesis by simp
qed

text \<open>\<open>board_two\<close> with a third agent of the same owner, invited into a conversation of the other two.\<close>

definition invite_db :: db where
  "invite_db = demo_db\<lparr>participants := [demo_participant 10 0 RoleOwner PtActive]\<rparr>"

lemma invite_db_tables:
  "agents invite_db = agents demo_db" "conversations invite_db = conversations demo_db"
  "participants invite_db = [demo_participant 10 0 RoleOwner PtActive]" "messages invite_db = messages demo_db"
  "holds invite_db = holds demo_db" "audit_log invite_db = []" "next_id invite_db = 40"
  by (simp_all add: invite_db_def demo_tables)

lemma demo_invite:
  "\<exists>p d'. run (invite demo_plugins ''ann'' 0 10 1 None) demo_clock invite_db = (Inr (Inl p), d')"
  by (simp add: exec invite_db_tables conversation_has_note_history_def cong: exec_cong del: set_filter)

theorem invite_requires_admission_witness:
  "invite_admitted demo_plugins 0 10 1 demo_clock invite_db"
  using demo_invite invite_requires_admission by blast

lemma invite_by_approval_held:
  assumes "invite_by_approval pl a i c t oc s = (Inr (Inr k), s')" "agent_by_id i (working s) = Some g"
  shows "same_tables (working s) ((committed s')\<lparr>holds := holds (working s)\<rparr>) \<and>
    hold_by_id (hd_id k) (committed s') = Some k \<and> hold_by_id (hd_id k) (working s) = None \<and>
    hd_status k = PendingHuman \<and> hd_kind k = KindInvite \<and> hd_conversation_id k = cv_id c \<and>
    hd_sender_agent_id k = i \<and> hd_target_agent_id k = Some (ag_id t) \<and>
    hd_owner_sub k = (case oc of Some x \<Rightarrow> x | None \<Rightarrow> ag_owner_sub g)"
proof -
  let ?s1 = "s\<lparr>ticks := Suc (ticks s)\<rparr>"
  from assms obtain s2 result where
    1: "working ?s1 = working s"
      "divert_invite_for_approval pl a c g t oc ?s1 = (Inr result, s2)"
      "seqm commit (seqm (case result of Inl _ \<Rightarrow> ret () | Inr h \<Rightarrow> fire_approval_notifier pl h c g)
         (ret result)) s2 = (Inr (Inr k), s')"
    unfolding invite_by_approval_def
    by (clarsimp simp: bnd_Inr seqm_Inr [of "deny_rate_limited_holds a i" for i] rate_limited_holds_Inr
        require_active_agent_Inr)
  have "result = Inr k" using 1(3) by (auto simp: inr)
  with 1(2,3) have d: "divert_invite_for_approval pl a c g t oc ?s1 = (Inr (Inr k), s2)"
    and "seqm commit (seqm (fire_approval_notifier pl k c g) (ret (Inr k :: participant + approval_hold))) s2 =
      (Inr (Inr k), s')" by simp_all
  from commit_then_notify [OF this(2)] have t: "same_tables (working s2) (committed s')" by blast
  have "ag_id g = i" using agent_by_idD [OF assms(2)] by blast
  with divert_invite_held [OF d] t 1(1) show ?thesis
    by (simp add: same_tables_lookups [OF t]) (simp add: same_tables_def)
qed

lemma invite_by_approval_cleared:
  assumes "invite_by_approval pl a i c t oc s = (Inr (Inl q), s')"
  shows "\<exists>ctx. auto_approver pl ctx = Returned True"
  using assms by (auto simp: invite_by_approval_def divert_invite_for_approval_def Let_def inr split: if_splits)

text \<open>
  What an invitation writes: when no note, instruction share or docs message was ever posted
  to the conversation, exactly one participant row, an invited member admitted by the inviter; otherwise
  nobody is admitted and the invitation waits for the inviter's owner in a new pending hold. Messages,
  agents and conversations are untouched either way.
\<close>

theorem invite_effect:
  assumes "run (invite pl a i cid t oc) clk d = (Inr r, d')"
    "\<And>ctx. auto_approver pl ctx \<noteq> Returned True"
  shows "messages d' = messages d \<and> agents d' = agents d \<and> conversations d' = conversations d \<and>
    (if conversation_has_note_history cid d
     then participants d' = participants d \<and>
       (\<exists>h. r = Inr h \<and> hold_by_id (hd_id h) d' = Some h \<and> hold_by_id (hd_id h) d = None \<and>
          hd_status h = PendingHuman \<and> hd_kind h = KindInvite \<and> hd_conversation_id h = cid \<and>
          hd_sender_agent_id h = i \<and> hd_target_agent_id h = Some t)
     else holds d' = holds d \<and>
       (\<exists>p. r = Inl p \<and> participants d' = participants d @ [p] \<and> pt_conversation_id p = cid \<and>
          pt_agent_id p = t \<and> pt_role p = RoleMember \<and> pt_status p = PtInvited \<and> pt_invited_by p = Some i))"
  using assms(1)
proof (rule run_InrE)
  fix s' assume d': "d' = committed s'" and "invite pl a i cid t oc (open_session clk d) = (Inr r, s')"
  then obtain c g s2 where
    c: "cv_id c = cid" "ag_id g = t" "same_tables d (working s2)"
      "invite_disposal pl a i c g oc (conversation_has_note_history cid d) s2 = (Inr r, s')"
    by (elim invite_ok) simp
  show ?thesis
  proof (cases "conversation_has_note_history cid d")
    case True
    with c(4) have by_approval: "invite_by_approval pl a i c g oc s2 = (Inr r, s')"
      by (simp add: invite_disposal_def)
    with assms(2) invite_by_approval_cleared obtain h where h: "r = Inr h" by (cases r) blast+
    from by_approval obtain f where "agent_by_id i (working s2) = Some f"
      by (auto simp: invite_by_approval_def inr)
    from invite_by_approval_held [OF by_approval [unfolded h] this] c True h show ?thesis
      by (simp add: d' same_tables_lookups [OF c(3)]) (simp add: same_tables_def)
  next
    case False
    with c(4) obtain p s3 where p: "insert_participant (cv_id c) (ag_id g) RoleMember PtInvited (Some i) None s2 =
        (Inr p, s3)" "r = Inl p" "same_tables (working s3) (committed s')"
      by (auto simp: invite_disposal_def inr same_tables_def)
    from insert_participant_rows [OF p(1)] p c False show ?thesis
      by (simp add: d' same_tables_def)
  qed
qed

theorem invite_effect_witness:
  "\<exists>p d'. run (invite demo_plugins ''ann'' 0 10 1 None) demo_clock invite_db = (Inr (Inl p), d') \<and>
     participants d' = [demo_participant 10 0 RoleOwner PtActive, p] \<and> pt_agent_id p = 1 \<and>
     pt_status p = PtInvited \<and> messages d' = messages demo_db"
proof -
  from demo_invite obtain p d' where
    p: "run (invite demo_plugins ''ann'' 0 10 1 None) demo_clock invite_db = (Inr (Inl p), d')" by blast
  from invite_effect [OF p] demo_deployment(2) p invite_db_tables(3,4) show ?thesis
    by (auto split: if_splits)
qed

lemma release_invite_ok:
  assumes "release_invite pl a h c r s = (Inr res, s')"
  shows "\<exists>p t g u. hd_target_agent_id h = Some t \<and> participants (committed s') = participants (working s) @ [p] \<and>
    pt_conversation_id p = cv_id c \<and> pt_agent_id p = t \<and> pt_role p = RoleMember \<and>
    pt_status p = PtInvited \<and> pt_invited_by p = Some (hd_sender_agent_id h) \<and>
    participant_of (cv_id c) t (working s) = None \<and>
    agent_by_id t (working s) = Some g \<and> ag_status g = AgActive \<and>
    (ownership_client pl = agent_table_owners \<longrightarrow> admits_invitee c g) \<and>
    dn_hold res = human_decided Approved a u r h \<and>
    messages (committed s') = messages (working s) \<and> agents (committed s') = agents (working s) \<and>
    conversations (committed s') = conversations (working s)"
proof -
  from assms obtain t where t: "hd_target_agent_id h = Some t"
    "participant_of (cv_id c) t (working s) = None"
    by (auto simp: release_invite_def find_participant_def inr reject_hold_def split: option.splits)
  with assms obtain s1 p s2 u where
    1: "revalidate_target pl a h c t s = (Inr (), s1)"
      "insert_participant (cv_id c) t RoleMember PtInvited (Some (hd_sender_agent_id h)) None s1 = (Inr p, s2)"
      "participants (committed s') = participants (working s2)" "messages (committed s') = messages (working s2)"
      "agents (committed s') = agents (working s2)" "conversations (committed s') = conversations (working s2)"
      "dn_hold res = human_decided Approved a u r h"
    by (auto simp: release_invite_def find_participant_def get_active_participant_agent_ids_def inr dest!: try_revalidate_ok)
  from 1(1) obtain g where g: "invite_target pl a (hd_sender_agent_id h) c t s = (Inr g, s)"
    "authorize_invite_owner_freeze pl a (hd_sender_agent_id h) c g s = (Inr (), s1)"
    by (auto simp: revalidate_target_def bnd_Inr dest: invite_target_ok)
  note tg = invite_target_ok [OF g(1)]
  with owner_freeze_ok [OF g(2)] have "ownership_client pl = agent_table_owners \<longrightarrow> admits_invitee c g" by auto
  moreover have "same_tables (working s) (working s1)" using passesD [OF passes_owner_freeze g(2)] by blast
  ultimately show ?thesis
    using t tg 1(3-7) insert_participant_rows [OF 1(2)]
    by (intro exI [of _ p] exI [of _ t] exI [of _ g] exI [of _ u]) (simp add: same_tables_def)
qed

text \<open>
  Approving an invite hold admits exactly the target it names, as an invited member, and only
  if it would be admitted now: the target is still an active agent that is not a participant, and on the
  \<open>agents\<close> table its owner is still within the owners frozen at the start. No message is posted.
\<close>

theorem approval_admits_the_target:
  assumes "run (decide_hold pl a i dn r) clk d = (Inr res, d')" "dn \<noteq> ''reject''"
    "hold_by_id i d = Some h" "hd_kind h = KindInvite"
  shows "\<exists>p t c g. hd_target_agent_id h = Some t \<and> participants d' = participants d @ [p] \<and>
    pt_conversation_id p = hd_conversation_id h \<and> pt_agent_id p = t \<and> pt_role p = RoleMember \<and>
    pt_status p = PtInvited \<and> pt_invited_by p = Some (hd_sender_agent_id h) \<and>
    participant_of (hd_conversation_id h) t d = None \<and>
    conversation_by_id (hd_conversation_id h) d = Some c \<and> cv_state c = CvActive \<and> cv_archived_at c = None \<and>
    agent_by_id t d = Some g \<and> ag_status g = AgActive \<and>
    (ownership_client pl = agent_table_owners \<longrightarrow> admits_invitee c g) \<and>
    hd_status (dn_hold res) = Approved \<and> hd_decided_by_sub (dn_hold res) = Some (hd_owner_sub h) \<and>
    messages d' = messages d \<and> agents d' = agents d \<and> conversations d' = conversations d"
  using assms(1)
proof (rule run_InrE)
  fix s' assume d': "d' = committed s'"
    and "decide_hold pl a i dn r (open_session clk d) = (Inr res, s')"
  then obtain k c s1 s2 where
    1: "load_decidable_hold a i (open_session clk d) = (Inr k, s1)"
      "load_release_conversation a k s1 = (Inr c, s2)"
      "(if hd_kind k = KindInvite then release_invite pl a k c r else release_message a k c r) s2 = (Inr res, s')"
    using assms(2) by (auto simp: decide_hold_def bnd_Inr)
  from decidable_ok [OF 1(1)] assms(3) have k: "k = h" "hd_owner_sub h = a" by auto
  with 1(3) assms(4) have rel: "release_invite pl a h c r s2 = (Inr res, s')" by simp
  note ok = load_release_ok [OF 1(2) [unfolded k]]
  have t: "same_tables d (working s1)" using passesD [OF passes_decidable 1(1)] by simp
  with ok have t2: "same_tables d (working s2)" using same_tables_trans by blast
  from release_invite_ok [OF rel] ok k t2 show ?thesis
    by (auto simp: d' human_decided_def same_tables_lookups [OF t] same_tables_lookups [OF t2])
       (auto simp: same_tables_def)
qed


definition invite_hold_db :: db where
  "invite_hold_db = invite_db\<lparr>holds := [demo_hold\<lparr>hd_conversation_id := 10, hd_kind := KindInvite,
     hd_target_agent_id := Some 1, hd_message_type := ''invite''\<rparr>]\<rparr>"

lemma invite_hold_db_tables:
  "agents invite_hold_db = agents demo_db" "conversations invite_hold_db = conversations demo_db"
  "participants invite_hold_db = [demo_participant 10 0 RoleOwner PtActive]"
  "messages invite_hold_db = messages demo_db" "audit_log invite_hold_db = []" "next_id invite_hold_db = 40"
  "holds invite_hold_db = [demo_hold\<lparr>hd_conversation_id := 10, hd_kind := KindInvite,
     hd_target_agent_id := Some 1, hd_message_type := ''invite''\<rparr>]"
  by (simp_all add: invite_hold_db_def invite_db_tables)

theorem approval_admits_the_target_witness:
  "\<exists>res d' p. run (decide_hold demo_plugins ''o1'' 30 ''approve'' None) demo_clock invite_hold_db = (Inr res, d') \<and>
     participants d' = [demo_participant 10 0 RoleOwner PtActive, p] \<and> pt_agent_id p = 1 \<and> pt_status p = PtInvited"
proof -
  have "\<exists>res d'. run (decide_hold demo_plugins ''o1'' 30 ''approve'' None) demo_clock invite_hold_db = (Inr res, d')"
    by (simp add: exec invite_hold_db_tables cong: exec_cong)
  then obtain res d' where
    r: "run (decide_hold demo_plugins ''o1'' 30 ''approve'' None) demo_clock invite_hold_db = (Inr res, d')" by blast
  have "hold_by_id 30 invite_hold_db = Some (demo_hold\<lparr>hd_conversation_id := 10, hd_kind := KindInvite,
      hd_target_agent_id := Some 1, hd_message_type := ''invite''\<rparr>)"
    by (simp add: hold_by_id_def invite_hold_db_tables demo_hold_def)
  from approval_admits_the_target [OF r _ this] r invite_hold_db_tables(3) show ?thesis by auto
qed

section \<open>Accepting, extending, reopening\<close>

text \<open>What loading the caller and the conversation says about the database it found.\<close>

lemma transition_loaded:
  assumes "load_participant_for_transition a i cid st s = (Inr (c, p), s1)"
  shows "participant_of cid i (working s) = Some p \<and> pt_status p = st \<and> cv_id c = cid \<and>
    conversation_by_id cid (working s1) = Some c \<and> clock s1 = clock s \<and>
    (\<exists>c0. conversation_by_id cid (working s) = Some c0 \<and> cv_archived_at c0 = cv_archived_at c \<and>
       cv_expires_at c0 = cv_expires_at c \<and>
       (cv_state c0 = cv_state c \<or> cv_state c0 = CvActive \<and> cv_state c = CvExpired)) \<and>
    participants (working s1) = participants (working s) \<and> messages (working s1) = messages (working s) \<and>
    agents (working s1) = agents (working s) \<and> holds (working s1) = holds (working s)"
proof -
  note l = load_transition_ok [OF assms]
  then have "participants (working s1) = participants (working s)" "participant_of cid i (working s1) = Some p"
    by (auto simp: expiry_only_def)
  then have "participant_of cid i (working s) = Some p" by (simp add: participant_of_def)
  with l show ?thesis by (auto simp: expiry_only_def expired_conversation_def)
qed

lemma accept_invite_ok:
  assumes "accept_invite a i cid s = (Inr p, s')"
  shows "\<exists>q c t. participant_of cid i (working s) = Some q \<and> pt_status q = PtInvited \<and>
    conversation_by_id cid (working s) = Some c \<and> cv_archived_at c = None \<and> cv_state c \<notin> {CvCompleted, CvCanceled} \<and>
    p = q\<lparr>pt_status := PtActive, pt_joined_at := Some t\<rparr> \<and>
    participants (committed s') = map (\<lambda>x. if pt_conversation_id x = cid \<and> pt_agent_id x = i
      then x\<lparr>pt_status := PtActive, pt_joined_at := Some t\<rparr> else x) (participants (working s)) \<and>
    messages (committed s') = messages (working s) \<and> agents (committed s') = agents (working s) \<and> holds (committed s') = holds (working s)"
proof -
  from assms obtain c q s1 where
    1: "load_participant_for_transition a i cid PtInvited s = (Inr (c, q), s1)"
      "cv_archived_at c = None" "cv_state c \<notin> {CvCompleted, CvCanceled}"
      "p = accepted (clock s1 (ticks s1)) q"
      "participants (committed s') = update_where (\<lambda>x. pt_conversation_id x = cv_id c \<and> pt_agent_id x = i)
         (accepted (clock s1 (ticks s1))) (participants (working s1))"
      "messages (committed s') = messages (working s1)" "agents (committed s') = agents (working s1)" "holds (committed s') = holds (working s1)"
    by (auto simp: accept_invite_def set_participant_def inr split: if_splits)
  from transition_loaded [OF 1(1)] 1 show ?thesis by (auto simp: accepted_def update_where_def)
qed

text \<open>
  Accepting an invitation makes exactly the caller's own row active: it was invited, the
  conversation was neither archived nor completed nor canceled, and no other membership, no message, no
  agent and no hold changes.
\<close>

theorem accept_effect:
  assumes "run (accept_invite a i cid) clk d = (Inr p, d')"
  shows "\<exists>q c t. participant_of cid i d = Some q \<and> pt_status q = PtInvited \<and>
    conversation_by_id cid d = Some c \<and> cv_archived_at c = None \<and> cv_state c \<notin> {CvCompleted, CvCanceled} \<and>
    p = q\<lparr>pt_status := PtActive, pt_joined_at := Some t\<rparr> \<and>
    participants d' = map (\<lambda>x. if pt_conversation_id x = cid \<and> pt_agent_id x = i
      then x\<lparr>pt_status := PtActive, pt_joined_at := Some t\<rparr> else x) (participants d) \<and>
    messages d' = messages d \<and> agents d' = agents d \<and> holds d' = holds d"
  using assms
proof (rule run_InrE)
  fix s' assume "d' = committed s'" and "accept_invite a i cid (open_session clk d) = (Inr p, s')"
  with accept_invite_ok [OF this(2)] show ?thesis by (simp only: open_session_simps)
qed

theorem accept_effect_witness:
  "\<exists>p d'. run (accept_invite ''bea'' 1 10) demo_clock demo_db = (Inr p, d') \<and> pt_status p = PtActive \<and>
     pt_agent_id p = 1 \<and> messages d' = messages demo_db"
proof -
  have "\<exists>p d'. run (accept_invite ''bea'' 1 10) demo_clock demo_db = (Inr p, d')"
    by (simp add: exec cong: exec_cong)
  then obtain p d' where r: "run (accept_invite ''bea'' 1 10) demo_clock demo_db = (Inr p, d')" by blast
  have "participant_of 10 1 demo_db = Some (demo_participant 10 1 RoleMember PtInvited)"
    by (simp add: participant_of_def demo_tables demo_participant_def)
  with accept_effect [OF r] r show ?thesis by (auto simp: demo_participant_def)
qed

lemma case_throw_Inr:
  "(case r of Inl e \<Rightarrow> throw e | Inr x \<Rightarrow> f x) s = (Inr y, s') \<longleftrightarrow> (\<exists>x. r = Inr x \<and> f x s = (Inr y, s'))"
  by (auto simp: throw_Inr split: sum.split)

lemma resolve_extended_ok:
  "resolve_extended_expires_at c e n t = Inr u \<Longrightarrow>
    t < u \<and> cv_expires_at c < u \<and> u \<le> t + days 90 \<and>
    (case n of Some k \<Rightarrow> u = max (cv_expires_at c) t + days k | None \<Rightarrow> e = Some u)"
  by (auto simp: resolve_extended_expires_at_def MAX_CONVERSATION_TTL_def split: option.splits if_splits)

lemma extend_conversation_ok:
  assumes "extend_conversation a i cid e n s = (Inr er, s')"
  shows "\<exists>p c t. participant_of cid i (working s) = Some p \<and> pt_status p = PtActive \<and>
    conversation_by_id cid (working s) = Some c \<and> cv_archived_at c = None \<and> cv_state c \<in> {CvActive, CvExpired} \<and>
    cv_expires_at c < cv_expires_at (er_conversation er) \<and> clock s t < cv_expires_at (er_conversation er) \<and>
    cv_expires_at (er_conversation er) \<le> clock s t + days 90 \<and> er_previous_expires_at er = cv_expires_at c \<and>
    cv_state (er_conversation er) = CvActive \<and> conversation_by_id cid (committed s') = Some (er_conversation er) \<and>
    messages (committed s') = messages (working s) \<and> participants (committed s') = participants (working s)"
proof -
  from assms obtain e' n' c p s1 u where
    1: "load_participant_for_transition a i cid PtActive s = (Inr (c, p), s1)"
      "cv_archived_at c = None" "cv_state c \<notin> {CvCompleted, CvCanceled}"
      "resolve_extended_expires_at c e' n' (clock s1 (ticks s1)) = Inr u"
      "er = \<lparr>er_conversation = extended u c, er_previous_expires_at = cv_expires_at c,
             er_resurrected = (cv_state c = CvExpired)\<rparr>"
      "conversation_by_id cid (committed s') = conversation_by_id cid (set_conversation (cv_id c) (extended u) (working s1))"
      "messages (committed s') = messages (working s1)" "participants (committed s') = participants (working s1)"
    by (auto simp: extend_conversation_def inr case_throw_Inr split: if_splits)
  note l = transition_loaded [OF 1(1)]
  have "conversation_by_id cid (committed s') = Some (extended u c)"
    using l 1(6) by (simp add: conversation_by_id_set extended_def)
  moreover have "cv_state c \<in> {CvActive, CvExpired}" using 1(3) by (cases "cv_state c") auto
  ultimately show ?thesis
    using l 1(2,5,7,8) resolve_extended_ok [OF 1(4)] by (auto simp: extended_def)
qed

text \<open>
  An extension only ever lengthens a conversation, and never beyond 90 days from now: the new
  expiry is later than the old one, in the future, and at most 90 days ahead. It revives an expired
  conversation, never a completed, canceled or archived one, and is made by an active participant.
\<close>

theorem extension_bounds:
  assumes "run (extend_conversation a i cid e n) clk d = (Inr er, d')"
  shows "\<exists>p c t. participant_of cid i d = Some p \<and> pt_status p = PtActive \<and>
    conversation_by_id cid d = Some c \<and> cv_archived_at c = None \<and> cv_state c \<in> {CvActive, CvExpired} \<and>
    cv_expires_at c < cv_expires_at (er_conversation er) \<and> clk t < cv_expires_at (er_conversation er) \<and>
    cv_expires_at (er_conversation er) \<le> clk t + days 90 \<and> er_previous_expires_at er = cv_expires_at c \<and>
    cv_state (er_conversation er) = CvActive \<and> conversation_by_id cid d' = Some (er_conversation er) \<and>
    messages d' = messages d \<and> participants d' = participants d"
  using assms
proof (rule run_InrE)
  fix s' assume "d' = committed s'" and "extend_conversation a i cid e n (open_session clk d) = (Inr er, s')"
  with extend_conversation_ok [OF this(2)] show ?thesis by (simp only: open_session_simps)
qed

theorem extension_bounds_witness:
  "\<exists>er d'. run (extend_conversation ''ann'' 0 10 None (Some (PyInt 5))) demo_clock demo_db = (Inr er, d') \<and>
     days 30 < cv_expires_at (er_conversation er) \<and> cv_state (er_conversation er) = CvActive"
proof -
  have "\<exists>er d'. run (extend_conversation ''ann'' 0 10 None (Some (PyInt 5))) demo_clock demo_db = (Inr er, d')"
    by (simp add: exec cong: exec_cong)
  then obtain er d' where
    r: "run (extend_conversation ''ann'' 0 10 None (Some (PyInt 5))) demo_clock demo_db = (Inr er, d')" by blast
  have "conversation_by_id 10 demo_db = Some (demo_conversation 10 ''internal'' (Some [''o1'']) None)"
    by (simp add: lookup_defs demo_tables demo_conversation_def)
  with extension_bounds [OF r] r show ?thesis by (auto simp: demo_conversation_def)
qed

lemma reopen_conversation_ok:
  assumes "reopen_conversation a i cid e n s = (Inr rr, s')"
  shows "\<exists>p c t. participant_of cid i (working s) = Some p \<and> pt_role p = RoleOwner \<and> pt_status p = PtActive \<and>
    conversation_by_id cid (working s) = Some c \<and> cv_archived_at c = None \<and>
    rr_previous_state rr \<in> {CvCompleted, CvCanceled, CvExpired} \<and>
    (rr_previous_state rr = cv_state c \<or> rr_previous_state rr = CvExpired \<and> cv_state c = CvActive) \<and>
    clock s t < cv_expires_at (rr_conversation rr) \<and>
    (if e = None \<and> n = None then cv_expires_at (rr_conversation rr) = cv_expires_at c
     else cv_expires_at c < cv_expires_at (rr_conversation rr) \<and>
       cv_expires_at (rr_conversation rr) \<le> clock s t + days 90) \<and>
    cv_state (rr_conversation rr) = CvActive \<and> conversation_by_id cid (committed s') = Some (rr_conversation rr) \<and>
    messages (committed s') = messages (working s) \<and> participants (committed s') = participants (working s)"
proof -
  from assms obtain e' n' c p s1 u where
    1: "check_extend_arguments e n = Inr (e', n')"
      "load_participant_for_transition a i cid PtActive s = (Inr (c, p), s1)"
      "may_reopen (pt_role p) (pt_status p)"
      "cv_archived_at c = None" "cv_state c \<in> {CvCompleted, CvCanceled, CvExpired}"
      "reopened_expires_at c e' n' (clock s1 (ticks s1)) = Inr u"
      "rr_conversation rr = reopened u c" "rr_previous_state rr = cv_state c"
      "conversation_by_id cid (committed s') = conversation_by_id cid (set_conversation (cv_id c) (reopened u) (working s1))"
      "messages (committed s') = messages (working s1)" "participants (committed s') = participants (working s1)"
    by (auto simp: reopen_conversation_def inr case_throw_Inr get_active_participant_agent_ids_def split: if_splits)
  note l = transition_loaded [OF 1(2)]
  have cd: "conversation_by_id cid (committed s') = Some (reopened u c)"
    using l 1(9) by (simp add: conversation_by_id_set reopened_def)
  have "e' = None \<longleftrightarrow> e = None" "n' = None \<longleftrightarrow> n = None"
    using 1(1) by (auto simp: check_extend_arguments_def check_extend_by_days_def check_aware_def
        split: sum.splits option.splits py_number.splits py_datetime.splits if_splits)
  then have "clock s1 (ticks s1) < u \<and> (if e = None \<and> n = None then u = cv_expires_at c
      else cv_expires_at c < u \<and> u \<le> clock s1 (ticks s1) + days 90)"
    using 1(6) resolve_extended_ok [of c e' n' "clock s1 (ticks s1)" u]
    by (auto simp: reopened_expires_at_def split: if_splits)
  moreover from l obtain c0 where "conversation_by_id cid (working s) = Some c0" "cv_archived_at c0 = cv_archived_at c"
    "cv_expires_at c0 = cv_expires_at c"
    "cv_state c0 = cv_state c \<or> cv_state c0 = CvActive \<and> cv_state c = CvExpired" by auto
  ultimately show ?thesis
    using l 1(3-5,7,8,10,11) cd
    by (intro exI [of _ p] exI [of _ c0] exI [of _ "ticks s1"]) (auto simp: reopened_def may_reopen_def)
qed

text \<open>
  Only an owner reopens, and only a closed conversation that is not archived: it was
  completed, canceled or expired; it becomes active again with an expiry in the future, which is the old
  one unless a new one was given, and a new one is later than the old and at most 90 days ahead.
\<close>

theorem reopening_bounds:
  assumes "run (reopen_conversation a i cid e n) clk d = (Inr rr, d')"
  shows "\<exists>p c t. participant_of cid i d = Some p \<and> pt_role p = RoleOwner \<and> pt_status p = PtActive \<and>
    conversation_by_id cid d = Some c \<and> cv_archived_at c = None \<and>
    rr_previous_state rr \<in> {CvCompleted, CvCanceled, CvExpired} \<and>
    (rr_previous_state rr = cv_state c \<or> rr_previous_state rr = CvExpired \<and> cv_state c = CvActive) \<and>
    clk t < cv_expires_at (rr_conversation rr) \<and>
    (if e = None \<and> n = None then cv_expires_at (rr_conversation rr) = cv_expires_at c
     else cv_expires_at c < cv_expires_at (rr_conversation rr) \<and>
       cv_expires_at (rr_conversation rr) \<le> clk t + days 90) \<and>
    cv_state (rr_conversation rr) = CvActive \<and> conversation_by_id cid d' = Some (rr_conversation rr) \<and>
    messages d' = messages d \<and> participants d' = participants d"
  using assms
proof (rule run_InrE)
  fix s' assume "d' = committed s'" and "reopen_conversation a i cid e n (open_session clk d) = (Inr rr, s')"
  with reopen_conversation_ok [OF this(2)] show ?thesis by (simp only: open_session_simps)
qed

text \<open>The internal conversation of \<open>demo_db\<close>, canceled.\<close>

definition canceled_db :: db where
  "canceled_db = demo_db\<lparr>conversations := [(demo_conversation 10 ''internal'' (Some [''o1'']) None)
     \<lparr>cv_state := CvCanceled\<rparr>, demo_conversation 11 ''asymmetric'' (Some [''o1'', ''o2'']) None,
     demo_conversation 12 ''open'' None (Some 5)]\<rparr>"

lemma canceled_db_tables:
  "agents canceled_db = agents demo_db" "participants canceled_db = participants demo_db"
  "messages canceled_db = messages demo_db" "audit_log canceled_db = []" "next_id canceled_db = 40"
  "holds canceled_db = holds demo_db"
  "conversations canceled_db = [(demo_conversation 10 ''internal'' (Some [''o1'']) None)
     \<lparr>cv_state := CvCanceled\<rparr>, demo_conversation 11 ''asymmetric'' (Some [''o1'', ''o2'']) None,
     demo_conversation 12 ''open'' None (Some 5)]"
  by (simp_all add: canceled_db_def demo_tables)

theorem reopening_bounds_witness:
  "\<exists>rr d'. run (reopen_conversation ''ann'' 0 10 None None) demo_clock canceled_db = (Inr rr, d') \<and>
     cv_expires_at (rr_conversation rr) = days 30 \<and> cv_state (rr_conversation rr) = CvActive"
proof -
  have "\<exists>rr d'. run (reopen_conversation ''ann'' 0 10 None None) demo_clock canceled_db = (Inr rr, d')"
    by (simp add: exec canceled_db_tables cong: exec_cong)
  then obtain rr d' where
    r: "run (reopen_conversation ''ann'' 0 10 None None) demo_clock canceled_db = (Inr rr, d')" by blast
  have "conversation_by_id 10 canceled_db =
      Some ((demo_conversation 10 ''internal'' (Some [''o1'']) None)\<lparr>cv_state := CvCanceled\<rparr>)"
    by (simp add: lookup_defs canceled_db_tables demo_conversation_def)
  with reopening_bounds [OF r] r show ?thesis by (auto simp: demo_conversation_def)
qed

section \<open>Archived conversations\<close>

text \<open>
  An archived conversation is frozen: posting to it, inviting into it, accepting an
  invitation to it, extending it and reopening it all raise, whoever asks.
\<close>

theorem archived_conversation_is_frozen:
  assumes "conversation_by_id cid d = Some c" "cv_archived_at c \<noteq> None"
    "rq \<in> {PostMessage a i cid mt j v oc rv, Invite a i cid t oc, AcceptInvite a i cid,
       ExtendConversation a i cid e n, ReopenConversation a i cid e n}"
  shows "\<exists>x. fst (run (perform pl rq) clk d) = Inl x"
proof -
  have fails: "\<exists>x. fst (run (discard m) clk d) = Inl x" if "\<And>r s'. m (open_session clk d) \<noteq> (Inr r, s')"
    for m :: "'a M"
    using that unfolding run_def discard_def bnd_def ret_def by (auto split: prod.splits sum.splits)
  show ?thesis
    using assms post_admitted_ok [of pl a i cid mt j v oc rv "open_session clk d"]
      invite_admitted_ok [of pl a i cid t oc "open_session clk d"]
      accept_invite_ok [of a i cid "open_session clk d"]
      extend_conversation_ok [of a i cid e n "open_session clk d"]
      reopen_conversation_ok [of a i cid e n "open_session clk d"]
    by (auto intro!: fails simp: post_admitted_def invite_admitted_def)
qed


theorem archived_conversation_is_frozen_witness:
  "\<exists>x. fst (run (perform demo_plugins (PostMessage ''ann'' 0 12 ''note'' (JObj []) 1 None None))
     demo_clock demo_db) = Inl x"
proof -
  have "conversation_by_id 12 demo_db = Some (demo_conversation 12 ''open'' None (Some 5))"
    by (simp add: lookup_defs demo_tables demo_conversation_def)
  then show ?thesis
    by (rule archived_conversation_is_frozen [where i = 0]) (simp_all add: demo_conversation_def)
qed

end
