(* ===== verification/Directory.thy ===== *)
theory Directory
  imports Joining
begin

text \<open>
  What the agent directory guarantees: what a registration and a re-registration may change, which
  operations need an elevated scope, what a reassignment writes, and how reconciliation walks through
  the agents.
\<close>

section \<open>Registration\<close>

lemma flush_or_conflict:
  assumes "try_except flush h s = (Inr (), s')" "\<And>e s y s'. h e s \<noteq> (Inr y, s')"
  shows "s' = s \<and> db_ok (working s)"
  using assms by (auto simp: try_except_def flush_def db_ok_def split: option.splits)

lemma validate_display_nameD:
  "validate_display_name_and_accepted_types n ts = Inr (nm, us) \<Longrightarrow> nm = str_strip n \<and> nm \<noteq> []"
  by (auto simp: validate_display_name_and_accepted_types_def Let_def split: option.splits if_splits)

lemma schema_range_Inr: "validate_schema_version_range lo hi = Inr y \<longleftrightarrow> 1 \<le> lo \<and> lo \<le> hi"
  by (auto simp: validate_schema_version_range_def)

lemma register_stages:
  assumes "register_agent x b os oe n ts lo hi sh sa cf s = (Inr g, s')"
  obtains us s1 s2 where
    "1 \<le> lo" "lo \<le> hi" "str_strip n \<noteq> []" "str_strip x \<noteq> []"
    "register_admission (str_strip x) b (str_strip n) sh sa cf (agent_by_sub (str_strip x) (working s))
       (s\<lparr>ticks := Suc (ticks s)\<rparr>) = (Inr (), s1)"
    "(case agent_by_sub (str_strip x) (working s) of
        None \<Rightarrow> insert_agent (str_strip x) os oe (str_strip n) (case us of None \<Rightarrow> [] | Some ts \<Rightarrow> ts) sh
          (clock s (ticks s)) lo hi
      | Some a \<Rightarrow> reregister_agent (str_strip x) oe (str_strip n) us (clock s (ticks s)) lo hi sh sa a) s1 =
       (Inr g, s2)"
    "db_ok (working s2)" "same_tables (working s2) (committed s')"
proof -
  let ?x = "str_strip x"
  from assms obtain us s1 g' s2 where
    1: "1 \<le> lo" "lo \<le> hi" "str_strip n \<noteq> []" "?x \<noteq> []"
    "register_admission ?x b (str_strip n) sh sa cf (agent_by_sub ?x (working s))
       (s\<lparr>ticks := Suc (ticks s)\<rparr>) = (Inr (), s1)"
    "(case agent_by_sub ?x (working s) of
        None \<Rightarrow> insert_agent ?x os oe (str_strip n) (case us of None \<Rightarrow> [] | Some ts \<Rightarrow> ts) sh
          (clock s (ticks s)) lo hi
      | Some a \<Rightarrow> reregister_agent ?x oe (str_strip n) us (clock s (ticks s)) lo hi sh sa a) s1 = (Inr g', s2)"
    and rest: "seqm (try_except flush (register_conflict ?x (str_strip n)))
      (seqm (audit ?x ''agent.register'' (Some (ag_id g')) None None
         (JObj [(''created'', JBool (agent_by_sub ?x (working s) = None)), (''is_shared'', JBool (ag_is_shared g')),
                (''is_shared_requested'', JBool sh)])) (seqm commit (ret g'))) s2 = (Inr g, s')"
    unfolding register_agent_def Let_def case_throw_Inr if_Inr get_agent_by_sub_def bnd_query throw_Inr
    by (clarsimp simp: bnd_Inr seqm_Inr [of "register_admission x b n sh sa cf e" for x b n sh sa cf e] now_Inr
        schema_range_Inr split: prod.splits dest!: validate_display_nameD)
  have "g' = g" "db_ok (working s2)" "same_tables (working s2) (committed s')"
    using rest by (auto simp: inr same_tables_def dest!: flush_or_conflict [OF _ conflicts_raise(2)])
  with 1 show ?thesis by (intro that) simp_all
qed

lemma register_admission_fresh:
  "register_admission x b n sh sa cf None s = (Inr (), s') \<longleftrightarrow> s' = s \<and>
     (cf \<or> sibling_subs x b (working s) = []) \<and> colliding_subs n (working s) = [] \<and> (sh \<longrightarrow> sa)"
  by (auto simp: register_admission_def deny_siblings_def deny_colliding_display_name_def inr split: if_splits)

lemma register_admission_existing:
  "register_admission x b n sh sa cf (Some a) s = (Inr (), s') \<longleftrightarrow> s' = s \<and> ag_status a \<noteq> AgSuspended"
  by (auto simp: register_admission_def inr split: if_splits)

lemma insert_agent_rows:
  assumes "insert_agent x os oe n ts sh t lo hi s = (Inr g, s')"
  shows "working s' = (working s)\<lparr>agents := agents (working s) @ [g], next_id := Suc (fresh_id (working s))\<rparr> \<and>
    ag_id g = fresh_id (working s) \<and> ag_sub g = x \<and> ag_owner_sub g = os \<and> ag_owner_email g = oe \<and>
    ag_display_name g = n \<and> ag_accepted_types g = ts \<and> ag_status g = AgActive \<and> ag_is_shared g = sh \<and>
    ag_min_schema_version g = lo \<and> ag_max_schema_version g = hi"
  using assms by (auto simp: insert_agent_def Let_def inr add_agent_def)

lemma reregister_rows:
  assumes "reregister_agent x oe n us t lo hi sh sa a s = (Inr g, s')"
  shows "g = reregistered oe n us t lo hi a \<and>
    agents (working s') = update_where (\<lambda>b. ag_id b = ag_id a) (reregistered oe n us t lo hi) (agents (working s)) \<and>
    conversations (working s') = conversations (working s) \<and> participants (working s') = participants (working s) \<and>
    messages (working s') = messages (working s) \<and> holds (working s') = holds (working s)"
  using assms by (auto simp: reregister_agent_def inr set_agent_def split: if_splits)

text \<open>
  A first registration adds exactly one active agent, under the caller's own identity, with the
  owner it presents; it is refused unless no other identity of the same base exists (or a new one is
  confirmed), no active agent has the display name up to case, and a shared agent is authorised.
\<close>

theorem first_registration_effect:
  assumes "run (register_agent x b os oe n ts lo hi sh sa cf) clk d = (Inr g, d')"
    "agent_by_sub (str_strip x) d = None"
  shows "agents d' = agents d @ [g] \<and> ag_sub g = str_strip x \<and> ag_owner_sub g = os \<and> ag_owner_email g = oe \<and>
    ag_status g = AgActive \<and> ag_is_shared g = sh \<and> ag_min_schema_version g = lo \<and>
    ag_max_schema_version g = hi \<and> 1 \<le> lo \<and> lo \<le> hi \<and> (sh \<longrightarrow> sa) \<and>
    (cf \<or> sibling_subs (str_strip x) b d = []) \<and>
    (\<forall>a\<in>set (agents d). ag_status a = AgActive \<longrightarrow>
       str_lower (ag_display_name a) \<noteq> str_lower (ag_display_name g)) \<and>
    conversations d' = conversations d \<and> participants d' = participants d \<and> messages d' = messages d \<and>
    holds d' = holds d"
  using assms(1)
proof (rule run_InrE)
  fix s' assume d': "d' = committed s'"
    and r: "register_agent x b os oe n ts lo hi sh sa cf (open_session clk d) = (Inr g, s')"
  from r show ?thesis
  proof (rule register_stages)
    fix us s1 s2
    assume 1: "1 \<le> lo" "lo \<le> hi" "same_tables (working s2) (committed s')"
      "register_admission (str_strip x) b (str_strip n) sh sa cf
         (agent_by_sub (str_strip x) (working (open_session clk d)))
         ((open_session clk d)\<lparr>ticks := Suc (ticks (open_session clk d))\<rparr>) = (Inr (), s1)"
      "(case agent_by_sub (str_strip x) (working (open_session clk d)) of
          None \<Rightarrow> insert_agent (str_strip x) os oe (str_strip n) (case us of None \<Rightarrow> [] | Some ts \<Rightarrow> ts) sh
            (clock (open_session clk d) (ticks (open_session clk d))) lo hi
        | Some a \<Rightarrow> reregister_agent (str_strip x) oe (str_strip n) us
            (clock (open_session clk d) (ticks (open_session clk d))) lo hi sh sa a) s1 = (Inr g, s2)"
    note adm = 1(4) [unfolded open_session_simps assms(2) register_admission_fresh]
    from 1(5) assms(2) have "insert_agent (str_strip x) os oe (str_strip n)
        (case us of None \<Rightarrow> [] | Some ts \<Rightarrow> ts) sh (clk (ticks (open_session clk d))) lo hi s1 = (Inr g, s2)"
      by simp
    from insert_agent_rows [OF this] adm 1(1-3) show ?thesis
      by (auto simp: d' same_tables_def colliding_subs_def filter_empty_conv)
  qed
qed

theorem first_registration_effect_witness:
  "\<exists>g d'. run (register_agent ''eve'' ''eve'' ''o3'' ''e@x'' ''Eve'' None 1 1 False False False)
     demo_clock demo_db = (Inr g, d') \<and> agents d' = agents demo_db @ [g] \<and> ag_owner_sub g = ''o3''"
proof -
  have "\<exists>g d'. run (register_agent ''eve'' ''eve'' ''o3'' ''e@x'' ''Eve'' None 1 1 False False False)
      demo_clock demo_db = (Inr g, d')"
    by (simp add: exec cong: exec_cong)
  then obtain g d' where
    r: "run (register_agent ''eve'' ''eve'' ''o3'' ''e@x'' ''Eve'' None 1 1 False False False)
      demo_clock demo_db = (Inr g, d')" by blast
  have "agent_by_sub (str_strip ''eve'') demo_db = None"
    by (simp add: exec)
  with first_registration_effect [OF r] r show ?thesis by blast
qed

text \<open>
  Registering again cannot move an agent to another owner or make it shared: on an existing
  sub, whatever owner and flag the caller presents, exactly that agent's row is updated, its identity,
  owner and shared flag stay what they were, and a suspended agent is refused.
\<close>

theorem reregistration_freezes_ownership:
  assumes "run (register_agent x b os oe n ts lo hi sh sa cf) clk d = (Inr g, d')"
    "db_ok d" "agent_by_sub (str_strip x) d = Some a"
  shows "ag_status a \<noteq> AgSuspended \<and> ag_id g = ag_id a \<and> ag_sub g = ag_sub a \<and>
    ag_owner_sub g = ag_owner_sub a \<and> ag_is_shared g = ag_is_shared a \<and> ag_status g = AgActive \<and>
    ag_owner_email g = oe \<and> agents d' = map (\<lambda>y. if ag_id y = ag_id a then g else y) (agents d) \<and>
    conversations d' = conversations d \<and> participants d' = participants d \<and> messages d' = messages d \<and>
    holds d' = holds d"
  using assms(1)
proof (rule run_InrE)
  fix s' assume d': "d' = committed s'"
    and r: "register_agent x b os oe n ts lo hi sh sa cf (open_session clk d) = (Inr g, s')"
  from r show ?thesis
  proof (rule register_stages)
    fix us s1 s2
    let ?t = "clock (open_session clk d) (ticks (open_session clk d))"
    assume 1: "same_tables (working s2) (committed s')"
      "register_admission (str_strip x) b (str_strip n) sh sa cf
         (agent_by_sub (str_strip x) (working (open_session clk d)))
         ((open_session clk d)\<lparr>ticks := Suc (ticks (open_session clk d))\<rparr>) = (Inr (), s1)"
      "(case agent_by_sub (str_strip x) (working (open_session clk d)) of
          None \<Rightarrow> insert_agent (str_strip x) os oe (str_strip n) (case us of None \<Rightarrow> [] | Some ts \<Rightarrow> ts) sh ?t lo hi
        | Some a \<Rightarrow> reregister_agent (str_strip x) oe (str_strip n) us ?t lo hi sh sa a) s1 = (Inr g, s2)"
    note adm = 1(2) [unfolded open_session_simps assms(3) register_admission_existing]
    from 1(3) assms(3) have "reregister_agent (str_strip x) oe (str_strip n) us ?t lo hi sh sa a s1 = (Inr g, s2)"
      by simp
    note rows = reregister_rows [OF this]
    have "update_where (\<lambda>y. ag_id y = ag_id a) (reregistered oe (str_strip n) us ?t lo hi) (agents d) =
        map (\<lambda>y. if ag_id y = ag_id a then g else y) (agents d)"
    proof -
      have "y = a" if "y \<in> set (agents d)" "ag_id y = ag_id a" for y
        using agent_of_row [OF assms(2) that(1)] agent_by_subD [OF assms(3)] agent_of_row [OF assms(2)] that(2)
        by force
      then show ?thesis using rows by (auto simp: update_where_def)
    qed
    with rows adm 1(1) show ?thesis
      by (simp add: d' same_tables_def reregistered_def)
  qed
qed

theorem reregistration_freezes_ownership_witness:
  "\<exists>g d'. run (register_agent ''ann'' ''ann'' ''o2'' ''new@x'' ''Ann'' None 1 1 True True False)
     demo_clock demo_db = (Inr g, d') \<and> ag_owner_sub g = ''o1'' \<and> \<not> ag_is_shared g \<and> ag_owner_email g = ''new@x''"
proof -
  have "\<exists>g d'. run (register_agent ''ann'' ''ann'' ''o2'' ''new@x'' ''Ann'' None 1 1 True True False)
      demo_clock demo_db = (Inr g, d')"
    by (simp add: exec cong: exec_cong)
  then obtain g d' where
    r: "run (register_agent ''ann'' ''ann'' ''o2'' ''new@x'' ''Ann'' None 1 1 True True False)
      demo_clock demo_db = (Inr g, d')" by blast
  have "agent_by_sub (str_strip ''ann'') demo_db = Some (demo_agent 0 ''ann'' ''o1'' AgActive)"
    by (simp add: exec)
  with reregistration_freezes_ownership [OF r demo_db_ok] r show ?thesis by (auto simp: demo_agent_def)
qed

section \<open>Elevated scopes\<close>

text \<open>\<open>m\<close> raises from \<open>s\<close> on and leaves the agents alone.\<close>

definition raises_from :: "'a M \<Rightarrow> session \<Rightarrow> bool" where
  "raises_from m s \<longleftrightarrow> (\<exists>e t. m s = (Inl e, t) \<and>
     agents (committed t) \<in> {agents (committed s), agents (working s)})"

lemma raises_from_deny: "raises_from (deny a b i c j :: 'a M) s"
proof -
  obtain r t where d: "(deny a b i c j :: 'a M) s = (r, t)" by fastforce
  then have "\<exists>e. r = Inl e" by (cases r) (auto simp: deny_Inr)
  moreover have "keeps_at lazy (deny a b i c j :: 'a M) s" by (rule lz.keepsD [OF keeps_deny])
  ultimately show ?thesis
    using d by (auto simp: raises_from_def keeps_at_def evolved_def lazy_def)
qed

lemma raises_from_rules:
  "raises_from (throw e) s" "raises_from u s \<Longrightarrow> raises_from (seqm u n) s"
  "raises_from m s \<Longrightarrow> raises_from (bnd m f) s" "raises_from u s \<Longrightarrow> raises_from (whenm True u) s"
  "raises_from q s \<Longrightarrow> raises_from (discard q) s"
  by (auto simp: raises_from_def throw_def seqm_def bnd_def whenm_def discard_def)

lemma raises_from_run:
  "raises_from m (open_session clk d) \<Longrightarrow>
    \<exists>e. fst (run m clk d) = Inl e \<and> agents (snd (run m clk d)) = agents d"
  by (auto simp: raises_from_def run_def)

text \<open>
  Registering another agent, changing the shared flag, deregistering and requesting an owner
  reassignment all need their elevated scope: without it they raise whatever the arguments, and no agent
  changes.
\<close>

theorem elevated_operations_need_scope:
  assumes "rq \<in> {AdminRegister a False x os oe n ts sh lo hi cf, SetAgentShared a i sh False,
    DeregisterAgent a i False, RequestOwnerReassignment a i m False}"
  shows "\<exists>e. fst (run (perform pl rq) clk d) = Inl e \<and> agents (snd (run (perform pl rq) clk d)) = agents d"
proof (rule raises_from_run)
  note unauthorised = raises_from_rules(2,5) raises_from_rules(4) [OF raises_from_deny]
  from assms show "raises_from (perform pl rq) (open_session clk d)"
    by (auto simp: admin_register_agent_def admin_register_admission_def set_agent_shared_def deregister_agent_def
        request_owner_reassignment_def authorize_owner_reassignment_def
        intro!: unauthorised raises_from_rules(1) split: sum.split)
qed

theorem elevated_operations_need_scope_witness:
  "\<exists>e. fst (run (perform demo_plugins (DeregisterAgent ''ann'' 1 False)) demo_clock demo_db) = Inl e \<and>
     agents (snd (run (perform demo_plugins (DeregisterAgent ''ann'' 1 False)) demo_clock demo_db)) = agents demo_db"
  by (rule elevated_operations_need_scope [where a = "''ann''" and i = 1]) simp

section \<open>Owner reassignment\<close>

lemma agent_unique: "db_ok d \<Longrightarrow> y \<in> set (agents d) \<Longrightarrow> a \<in> set (agents d) \<Longrightarrow> ag_id y = ag_id a \<Longrightarrow> y = a"
  by (metis agent_of_row option.inject)

lemma update_one_row:
  assumes "\<And>y. y \<in> set xs \<Longrightarrow> k y = k a \<Longrightarrow> y = a"
  shows "update_where (\<lambda>y. k y = k a) f xs = map (\<lambda>y. if k y = k a then f a else y) xs"
    "map (\<lambda>y. if k y = k a then a else y) xs = xs"
  using assms by (force simp: update_where_def intro: map_idI)+

lemma reassign_agent_rows:
  assumes "reassign_agent ac a email ns ex ap (open_session clk d) = (Inr ra, s')"
    "\<And>y. y \<in> set (agents d) \<Longrightarrow> ag_id y = ag_id a \<Longrightarrow> y = a"
  shows "\<exists>b. agents (committed s') = map (\<lambda>y. if ag_id y = ag_id a then b else y) (agents d) \<and>
    b = a\<lparr>ag_owner_email := email, ag_owner_sub := ag_owner_sub b\<rparr> \<and>
    ag_owner_sub b = (case reassigned_owner_sub a ns email of None \<Rightarrow> ag_owner_sub a | Some y \<Rightarrow> y) \<and>
    conversations (committed s') = conversations d \<and> participants (committed s') = participants d \<and>
    messages (committed s') = messages d \<and> holds (committed s') = holds d"
proof -
  let ?target = "reassigned_owner_sub a ns email"
  let ?sub_change = "(case ?target of None \<Rightarrow> [] | Some x \<Rightarrow>
      if x \<noteq> ag_owner_sub a then field_change ''owner_sub'' (ag_owner_sub a) x else [])"
  let ?f = "\<lambda>b. b\<lparr>ag_owner_email := email,
      ag_owner_sub := (if ?sub_change = [] then ag_owner_sub b else the ?target)\<rparr>"
  have sub: "ag_owner_sub (?f a) = (case ?target of None \<Rightarrow> ag_owner_sub a | Some y \<Rightarrow> y)"
    by (simp add: field_change_def split: option.split)
  have same: "?f a = a" if "ag_owner_email a = email" "?sub_change = []"
    using that by simp
  have "agents (committed s') = map (\<lambda>y. if ag_id y = ag_id a then ?f a else y) (agents d) \<and>
      conversations (committed s') = conversations d \<and> participants (committed s') = participants d \<and>
      messages (committed s') = messages d \<and> holds (committed s') = holds d"
  proof (cases "ag_owner_email a = email \<and> ?sub_change = []")
    case True
    with assms(1) have "committed s' = d" by (simp add: reassign_agent_def inr)
    have fa: "?f a = a" using same True by blast
    have "map (\<lambda>y. if ag_id y = ag_id a then a else y) (agents d) = agents d"
      by (rule update_one_row(2)) (rule assms(2))
    with \<open>committed s' = d\<close> show ?thesis unfolding fa by simp
  next
    case False
    with assms(1) have "agents (committed s') = update_where (\<lambda>b. ag_id b = ag_id a) ?f (agents d) \<and>
      conversations (committed s') = conversations d \<and> participants (committed s') = participants d \<and>
      messages (committed s') = messages d \<and> holds (committed s') = holds d"
      unfolding reassign_agent_def Let_def seqm_Inr whenm_Inr
      by (auto simp: inr set_agent_def field_change_def)
    moreover have "update_where (\<lambda>b. ag_id b = ag_id a) ?f (agents d) =
        map (\<lambda>y. if ag_id y = ag_id a then ?f a else y) (agents d)"
      by (rule update_one_row(1)) (rule assms(2))
    ultimately show ?thesis by simp
  qed
  with sub show ?thesis by (intro exI [of _ "?f a"]) simp
qed

text \<open>
  An approved reassignment rewrites the ownership of one agent and nothing else: the agent is
  active and not a keyed or human identity, the new email is the canonical form of the one approved, the
  owner sub becomes the given one (or the email when the old owner sub was the email, or stays), and no
  other agent, and no other column of that agent, changes.
\<close>

theorem reassignment_effect:
  assumes "run (apply_owner_reassignment ac x m ns ex ap) clk d = (Inr ra, d')" "db_ok d"
  shows "\<exists>a email. agent_by_sub x d = Some a \<and> ag_status a = AgActive \<and> CHR ''@'' \<notin> set x \<and>
    before_double_colon x = x \<and> normalize_corp_email m = Inr email \<and>
    (\<exists>b. agents d' = map (\<lambda>y. if ag_id y = ag_id a then b else y) (agents d) \<and>
       b = a\<lparr>ag_owner_email := email, ag_owner_sub := ag_owner_sub b\<rparr> \<and>
       ag_owner_sub b = (case ns of Some raw \<Rightarrow> str_strip raw
         | None \<Rightarrow> if str_lower (str_strip (ag_owner_sub a)) = str_lower (str_strip (ag_owner_email a))
                   then email else ag_owner_sub a)) \<and>
    conversations d' = conversations d \<and> participants d' = participants d \<and> messages d' = messages d \<and>
    holds d' = holds d"
proof -
  let ?rest = "\<lambda>a email ns. reassign_agent ac a email ns ex ap"
  from assms(1) obtain s' where d': "d' = committed s'"
    and run: "apply_owner_reassignment ac x m ns ex ap (open_session clk d) = (Inr ra, s')"
    by (rule run_InrE)
  from run obtain a email ns' where
    1: "CHR ''@'' \<notin> set x" "before_double_colon x = x" "normalize_corp_email m = Inr email"
      "ns' = map_option str_strip ns" "agent_by_sub x d = Some a" "ag_status a = AgActive"
      "reassign_agent ac a email ns' ex ap (open_session clk d) = (Inr ra, s')"
    unfolding apply_owner_reassignment_def reassignment_email_def get_agent_by_sub_def
    by (cases ns; cases "normalize_corp_email m")
       (auto simp: inr require_reassignable_sub_def Let_def split: if_splits option.splits)
  from reassign_agent_rows [OF 1(7)] agent_by_subD [OF 1(5)] agent_of_row [OF assms(2)] agent_unique [OF assms(2)]
  obtain b where "agents d' = map (\<lambda>y. if ag_id y = ag_id a then b else y) (agents d)"
    "b = a\<lparr>ag_owner_email := email, ag_owner_sub := ag_owner_sub b\<rparr>"
    "ag_owner_sub b = (case reassigned_owner_sub a ns' email of None \<Rightarrow> ag_owner_sub a | Some y \<Rightarrow> y)"
    "conversations d' = conversations d" "participants d' = participants d" "messages d' = messages d"
    "holds d' = holds d"
    by (auto simp: d')
  with 1 show ?thesis
    by (intro exI [of _ a] exI [of _ email])
       (auto simp: reassigned_owner_sub_def split: option.splits)
qed


theorem reassignment_effect_witness:
  "\<exists>ra d'. run (apply_owner_reassignment ''admin'' ''ann'' ''new.owner@redesignhealth.com'' None None ''boss'')
     demo_clock demo_db = (Inr ra, d') \<and>
     (\<exists>b. agents d' = map (\<lambda>y. if ag_id y = 0 then b else y) (agents demo_db) \<and>
        ag_owner_email b = ''new.owner@redesignhealth.com'' \<and> ag_owner_sub b = ''o1'')"
proof -
  have "\<exists>ra d'. run (apply_owner_reassignment ''admin'' ''ann'' ''new.owner@redesignhealth.com'' None None ''boss'')
      demo_clock demo_db = (Inr ra, d')"
    by (simp add: exec reassign_agent_def reassigned_owner_sub_def cong: exec_cong)
  then obtain ra d' where
    r: "run (apply_owner_reassignment ''admin'' ''ann'' ''new.owner@redesignhealth.com'' None None ''boss'')
      demo_clock demo_db = (Inr ra, d')" by blast
  have a: "agent_by_sub ''ann'' demo_db = Some (demo_agent 0 ''ann'' ''o1'' AgActive)" by (simp add: exec)
  have m: "normalize_corp_email ''new.owner@redesignhealth.com'' = Inr ''new.owner@redesignhealth.com''"
    by (simp add: exec)
  have "str_lower (str_strip ''o1'') \<noteq> str_lower (str_strip ''e'')" by (simp add: exec)
  with reassignment_effect [OF r demo_db_ok] r a m show ?thesis
    by (fastforce simp: demo_agent_def)
qed

section \<open>Reconciliation\<close>

text \<open>
  What reconciliation makes of a row, given what the authoritative source \<open>f\<close> says about it: exactly
  one owner is taken over, anything else leaves the cached owner; the time stamp moves either way.
\<close>

definition reconciled_row :: "(nat \<Rightarrow> owner_info outcome) \<Rightarrow> int \<Rightarrow> agent \<Rightarrow> agent" where
  "reconciled_row f t a = a\<lparr>ag_owner_reconciled_at := Some t,
     ag_owner_sub := (case f (ag_id a) of
        Returned info \<Rightarrow> (case oi_owners info of Some [x] \<Rightarrow> x | _ \<Rightarrow> ag_owner_sub a)
      | _ \<Rightarrow> ag_owner_sub a)\<rparr>"

lemma reconcile_one_rows:
  assumes "reconcile_one (\<lambda>_. f) t a s = (Inr r, s')" "\<And>y. y \<in> set (agents (working s)) \<Longrightarrow> ag_id y = ag_id a \<Longrightarrow> y = a"
  shows "agents (working s') = map (\<lambda>y. if ag_id y = ag_id a then reconciled_row f t a else y) (agents (working s)) \<and>
    same_tables ((working s)\<lparr>agents := agents (working s')\<rparr>) (working s') \<and> committed s' = committed s"
proof -
  let ?P = "\<lambda>b. ag_id b = ag_id a"
  have upd: "update_where ?P g (agents (working s)) = map (\<lambda>y. if ag_id y = ag_id a then g a else y) (agents (working s))"
    for g by (rule update_one_row(1)) (rule assms(2))
  have twice: "update_where ?P h (map (\<lambda>y. if ag_id y = ag_id a then b else y) xs) =
      map (\<lambda>y. if ag_id y = ag_id a then h b else y) xs" if "ag_id b = ag_id a" for h b xs
    using that by (simp add: update_where_def)
  have kept: "same_tables ((working s)\<lparr>agents := agents (working s')\<rparr>) (working s') \<and> committed s' = committed s"
    using assms(1)
    by (auto simp: reconcile_one_def inr same_tables_def set_agent_def split: outcome.splits list.splits if_splits)
  show ?thesis
  proof (cases "\<exists>info x. f (ag_id a) = Returned info \<and> oi_owners info = Some [x] \<and> x \<noteq> ag_owner_sub a")
    case True
    then obtain info x where x: "f (ag_id a) = Returned info" "oi_owners info = Some [x]" "x \<noteq> ag_owner_sub a"
      by blast
    with assms(1) have "agents (working s') = map (\<lambda>y. if ag_id y = ag_id a
        then a\<lparr>ag_owner_reconciled_at := Some t, ag_owner_sub := x\<rparr> else y) (agents (working s))"
      by (auto simp: reconcile_one_def inr set_agent_def upd twice)
    with x kept show ?thesis by (simp add: reconciled_row_def)
  next
    case False
    with assms(1) have "agents (working s') = map (\<lambda>y. if ag_id y = ag_id a
        then a\<lparr>ag_owner_reconciled_at := Some t\<rparr> else y) (agents (working s))"
      by (auto simp: reconcile_one_def inr set_agent_def upd split: outcome.splits list.splits option.splits if_splits)
    moreover from False have "reconciled_row f t a = a\<lparr>ag_owner_reconciled_at := Some t\<rparr>"
      by (auto simp: reconciled_row_def split: outcome.split option.split list.split)
    ultimately show ?thesis using kept by simp
  qed
qed

lemma reconcile_all_rows:
  assumes "reconcile_all (\<lambda>_. f) t as s = (Inr r, s')" "distinct (map ag_id as)" "set as \<subseteq> set (agents (working s))"
    "inj_on ag_id (set (agents (working s)))"
  shows "agents (working s') = map (\<lambda>y. if y \<in> set as then reconciled_row f t y else y) (agents (working s)) \<and>
    same_tables ((working s)\<lparr>agents := agents (working s')\<rparr>) (working s') \<and> committed s' = committed s"
  using assms
proof (induction "as" arbitrary: s r)
  case Nil
  then show ?case by (simp add: inr same_tables_def)
next
  case (Cons a "as")
  from Cons.prems(1) obtain r1 s1 r2 where
    1: "reconcile_one (\<lambda>_. f) t a s = (Inr r1, s1)" "reconcile_all (\<lambda>_. f) t as s1 = (Inr r2, s')"
    by (auto simp: bnd_Inr ret_Inr prod.case_eq_if)
  have uniq: "y = a" if "y \<in> set (agents (working s))" "ag_id y = ag_id a" for y
    using Cons.prems(3,4) that by (auto dest: inj_onD)
  note one = reconcile_one_rows [OF 1(1) uniq]
  then have rows: "agents (working s1) =
      map (\<lambda>y. if ag_id y = ag_id a then reconciled_row f t a else y) (agents (working s))" by blast
  have id: "ag_id (reconciled_row f t y) = ag_id y" for y by (simp add: reconciled_row_def)
  have sub: "set as \<subseteq> set (agents (working s1))"
    using Cons.prems(2,3) by (auto simp: rows image_iff)
  have inj: "inj_on ag_id (set (agents (working s1)))"
    using Cons.prems(4) by (auto simp: rows inj_on_def id split: if_splits)
  from Cons.prems(2) have "distinct (map ag_id as)" by simp
  from Cons.IH [OF 1(2) this sub inj]
  have "agents (working s') = map (\<lambda>y. if y \<in> set as then reconciled_row f t y else y) (agents (working s1)) \<and>
    same_tables ((working s1)\<lparr>agents := agents (working s')\<rparr>) (working s') \<and> committed s' = committed s1" .
  moreover have "map (\<lambda>y. if y \<in> set as then reconciled_row f t y else y) (agents (working s1)) =
      map (\<lambda>y. if y \<in> set (a # as) then reconciled_row f t y else y) (agents (working s))"
  proof -
    have "reconciled_row f t a \<notin> set as" using Cons.prems(2) by (auto simp: id image_iff)
    then show ?thesis using uniq Cons.prems(2) by (force simp: rows)
  qed
  ultimately show ?case using one by (simp add: same_tables_def)
qed


lemma distinct_key_sorted_take:
  assumes "distinct (map k xs)"
  shows "distinct (map k (take n (sorted_by g (filter p xs))))"
proof -
  have "distinct (map k (filter p xs))" using assms by (rule distinct_map_filter)
  then have "distinct (map k (sorted_by g (filter p xs)))" by (simp add: sorted_by_def distinct_map)
  then show ?thesis by (simp add: distinct_take flip: take_map)
qed

lemma sorted_take_first:
  assumes "a \<in> set (take n (sorted_by g xs))" "b \<in> set xs" "b \<notin> set (take n (sorted_by g xs))"
  shows "g a \<le> g b"
proof -
  have "sorted (map g (take n (sorted_by g xs) @ drop n (sorted_by g xs)))" by (simp add: sorted_by_def)
  moreover from assms have "b \<in> set (drop n (sorted_by g xs))"
    by (metis UnE append_take_drop_id set_append set_sort sorted_by_def)
  ultimately show ?thesis using assms(1) by (auto simp: sorted_append simp del: append_take_drop_id)
qed

text \<open>
  One reconciliation round brings exactly its batch in line with the authoritative source: the
  batch is at most the limit (clamped to 1..5000) of the active unshared agents; each of its rows takes the
  source's single owner when there is one and is stamped either way, even when the source failed; no other
  row changes; and no agent left out had waited longer than one taken in.
\<close>

theorem reconciliation_effect:
  assumes "run (reconcile_agent_ownership (\<lambda>_. f) limit) clk d = (Inr rn, d')" "db_ok d"
  shows "\<exists>batch t. batch = reconcile_batch (nat (max 1 (min limit 5000))) d \<and> rn_checked rn = length batch \<and>
    agents d' = map (\<lambda>a. if a \<in> set batch then reconciled_row f t a else a) (agents d) \<and>
    int (length batch) \<le> max 1 (min limit 5000) \<and>
    (\<forall>a\<in>set batch. ag_status a = AgActive \<and> \<not> ag_is_shared a) \<and>
    (\<forall>a\<in>set batch. \<forall>b\<in>set (agents d). ag_status b = AgActive \<and> \<not> ag_is_shared b \<and> b \<notin> set batch \<longrightarrow>
       ag_owner_reconciled_at a \<le> ag_owner_reconciled_at b) \<and>
    conversations d' = conversations d \<and> participants d' = participants d \<and> messages d' = messages d \<and>
    holds d' = holds d"
proof -
  let ?n = "nat (max 1 (min limit 5000))"
  let ?p = "\<lambda>a. ag_status a = AgActive \<and> \<not> ag_is_shared a"
  let ?g = "\<lambda>a. (ag_owner_reconciled_at a, ag_id a)"
  let ?b = "reconcile_batch ?n d"
  have b: "?b = take ?n (sorted_by ?g (filter ?p (agents d)))" by (simp add: reconcile_batch_def)
  have sub: "set ?b \<subseteq> set (filter ?p (agents d))"
    unfolding b by (rule order_trans [OF set_take_subset]) (simp add: sorted_by_def)
  have inj: "inj_on ag_id (set (agents d))"
    by (intro inj_onI) (rule agent_unique [OF assms(2)])
  have "\<forall>(n, c)\<in>set agents_constraints. c d" using assms(2) unfolding db_ok_conjuncts by (rule conjunct1)
  then have "distinct (map ag_id (agents d))" by (simp add: agents_constraints_def)
  then have dist: "distinct (map ag_id ?b)" unfolding b by (rule distinct_key_sorted_take)
  from assms(1) obtain s' where s': "d' = committed s'"
    "reconcile_agent_ownership (\<lambda>_. f) limit (open_session clk d) = (Inr rn, s')"
    by (rule run_InrE)
  then obtain t s0 upd er s1 where 1: "now (open_session clk d) = (Inr t, s0)"
    "reconcile_all (\<lambda>_. f) t ?b s0 = (Inr (upd, er), s1)" "commit s1 = (Inr (), s')" "rn_checked rn = length ?b"
    unfolding reconcile_agent_ownership_def Let_def bnd_query MAX_RECONCILIATION_BATCH_SIZE_def
    by (fastforce simp: bnd_Inr seqm_Inr ret_Inr)
  have s0: "working s0 = d" using 1(1) by (simp add: now_Inr)
  have d': "d' = working s1" using 1(3) s'(1) by (simp add: commit_Inr)
  have "set ?b \<subseteq> set (agents (working s0))" "inj_on ag_id (set (agents (working s0)))"
    using sub inj by (auto simp: s0)
  note all = reconcile_all_rows [OF 1(2) dist this, unfolded s0, folded d']
  have rows: "agents d' = map (\<lambda>y. if y \<in> set ?b then reconciled_row f t y else y) (agents d)"
    "same_tables (d\<lparr>agents := agents d'\<rparr>) d'"
    by (rule conjunct1 [OF all], rule conjunct1 [OF conjunct2 [OF all]])
  have n: "int (length ?b) \<le> max 1 (min limit 5000)" unfolding b by simp
  have fair: "ag_owner_reconciled_at a \<le> ag_owner_reconciled_at x"
    if "a \<in> set ?b" "x \<in> set (agents d)" "?p x" "x \<notin> set ?b" for a x
    using sorted_take_first [of a ?n ?g "filter ?p (agents d)" x] that unfolding b by auto
  show ?thesis
    using rows sub n fair 1(4) by (intro exI [of _ ?b] exI [of _ t]) (auto simp: same_tables_def)
qed


theorem reconciliation_effect_witness:
  "\<exists>rn d'. run (reconcile_agent_ownership (\<lambda>_ _. Returned \<lparr>oi_owners = Some [''o9''], oi_is_shared = None\<rparr>) 1)
     demo_clock demo_db = (Inr rn, d') \<and> rn_checked rn = 1 \<and>
     map ag_owner_sub (agents d') = [''o9'', ''o1'', ''o2'', ''o1''] \<and> messages d' = messages demo_db"
proof -
  let ?f = "\<lambda>_. Returned \<lparr>oi_owners = Some [''o9''], oi_is_shared = None\<rparr>"
  have "\<exists>rn d'. run (reconcile_agent_ownership (\<lambda>_. ?f) 1) demo_clock demo_db = (Inr rn, d')"
    by (simp add: exec reconcile_agent_ownership_def MAX_RECONCILIATION_BATCH_SIZE_def reconcile_batch_def reconcile_one_def cong: exec_cong)
  then obtain rn d' where r: "run (reconcile_agent_ownership (\<lambda>_. ?f) 1) demo_clock demo_db = (Inr rn, d')"
    by blast
  have b: "reconcile_batch 1 demo_db = [demo_agent 0 ''ann'' ''o1'' AgActive]"
    by (simp add: reconcile_batch_def demo_tables sorted_by_def demo_agent_def)
  from reconciliation_effect [OF r demo_db_ok] b
  have "rn_checked rn = 1" "map ag_owner_sub (agents d') = [''o9'', ''o1'', ''o2'', ''o1'']" "messages d' = messages demo_db"
    by (auto simp: demo_tables demo_agent_def reconciled_row_def)
  with r show ?thesis by (intro exI conjI)
qed

end
