(* ===== verification/Paging.thy ===== *)
theory Paging
  imports Reads Directory
begin

text \<open>
  Paginated reads as the client sees them: following the cursor until there is no more page yields every
  row once, in order. The law they share is a locale; the agent directory, the list of conversations and
  the messages of a conversation are its instances.
\<close>

section \<open>Keyset pagination\<close>

text \<open>One page of the rows that are left, and the cursor to continue from.\<close>

definition page_of :: "nat \<Rightarrow> ('a \<Rightarrow> 'k) \<Rightarrow> 'a list \<Rightarrow> 'a list \<times> 'k option" where
  "page_of n key xs =
     (take n xs, if n < length xs \<and> take n xs \<noteq> [] then Some (key (last (take n xs))) else None)"

fun walk_pages :: "('k option \<Rightarrow> 'a list \<times> 'k option) \<Rightarrow> nat \<Rightarrow> 'k option \<Rightarrow> 'a list" where
  "walk_pages fetch 0 c = []"
| "walk_pages fetch (Suc n) c =
     (let (page, next_cursor) = fetch c
      in page @ (case next_cursor of None \<Rightarrow> [] | Some k \<Rightarrow> walk_pages fetch n (Some k)))"

text \<open>
  The law a paginated query promises on every coherent database: the rows after the key of a row are
  the rows that follow it.
\<close>

locale keyset =
  fixes ok :: "'d \<Rightarrow> bool" and rows :: "'d \<Rightarrow> 'a list" and key :: "'a \<Rightarrow> 'k" and after :: "'k \<Rightarrow> 'a \<Rightarrow> bool"
  assumes after_key: "ok d \<Longrightarrow> rows d = xs @ x # ys \<Longrightarrow> filter (after (key x)) (rows d) = ys"
begin

lemma page_next:
  assumes "ok d" "rows d = xs @ ys" "n < length ys" "0 < n"
  shows "filter (after (key (last (take n ys)))) (rows d) = drop n ys"
proof (rule after_key [OF assms(1)])
  have "take n ys \<noteq> []" using assms(3,4) by auto
  then have "ys = (butlast (take n ys) @ [last (take n ys)]) @ drop n ys" by simp
  then show "rows d = (xs @ butlast (take n ys)) @ last (take n ys) # drop n ys" using assms(2) by simp
qed

lemma walk_suffix:
  assumes "ok d" "rows d = xs @ ys" "length ys \<le> n * m" "0 < n" "fetch c = page_of n key ys"
    "\<And>x. x \<in> set (rows d) \<Longrightarrow> fetch (Some (key x)) = page_of n key (filter (after (key x)) (rows d))"
  shows "walk_pages fetch m c = ys"
  using assms(2,3,5)
proof (induction m arbitrary: xs ys c)
  case 0
  then show ?case by simp
next
  case (Suc m)
  show ?case
  proof (cases "n < length ys")
    case True
    let ?x = "last (take n ys)"
    have "take n ys \<noteq> []" using True assms(4) by auto
    then have "?x \<in> set ys" by (rule in_set_takeD [OF last_in_set])
    then have "fetch (Some (key ?x)) = page_of n key (drop n ys)"
      using page_next [OF assms(1) Suc.prems(1) True assms(4)] assms(6) [of ?x] Suc.prems(1) by simp
    moreover have "rows d = (xs @ take n ys) @ drop n ys" using Suc.prems(1) by simp
    moreover have "length (drop n ys) \<le> n * m" using Suc.prems(2) by simp
    ultimately have "walk_pages fetch m (Some (key ?x)) = drop n ys" by (rule Suc.IH [rotated 2])
    with True Suc.prems(3) assms(4) show ?thesis by (auto simp: page_of_def)
  next
    case False
    with Suc.prems(3) show ?thesis by (simp add: page_of_def)
  qed
qed

lemma walk_all:
  assumes "ok d" "length (rows d) \<le> n * m" "0 < n" "fetch None = page_of n key (rows d)"
    "\<And>x. x \<in> set (rows d) \<Longrightarrow> fetch (Some (key x)) = page_of n key (filter (after (key x)) (rows d))"
  shows "walk_pages fetch m None = rows d"
  using assms by (intro walk_suffix [where xs = "[]"]) simp_all

end

lemma filter_after_split:
  assumes "sorted_wrt before (xs @ x # ys)" "\<And>y. before x y \<longleftrightarrow> after k y" "\<And>y. before y x \<Longrightarrow> \<not> before x y" "\<not> before x x"
  shows "filter (after k) (xs @ x # ys) = ys"
proof -
  have "filter (after k) xs = []" using assms by (auto simp: filter_empty_conv sorted_wrt_append)
  moreover have "filter (after k) ys = ys" using assms by (auto simp: filter_id_conv sorted_wrt_append)
  ultimately show ?thesis using assms(2,4) by auto
qed

text \<open>Sorted by a key that no two rows share.\<close>

lemma sorted_by_strict:
  assumes "distinct (map k xs)"
  shows "sorted_wrt (\<lambda>x y. k x < k y) (sorted_by k xs)"
proof -
  have "distinct (map k (sorted_by k xs))" using assms by (simp add: sorted_by_def distinct_map)
  moreover have "sorted (map k (sorted_by k xs))" by (simp add: sorted_by_def)
  ultimately have "sorted_wrt (<) (map k (sorted_by k xs))" by (simp add: strict_sorted_iff)
  then show ?thesis by (simp add: sorted_wrt_map)
qed

section \<open>Writes that keep the constraints\<close>

lemma list_all_map: "map k ys = map k xs \<Longrightarrow> list_all (\<lambda>x. P (k x)) ys = list_all (\<lambda>x. P (k x)) xs"
  using list.pred_map [of P k ys] list.pred_map [of P k xs] by (simp add: comp_def)

lemma db_ok_set_conversation:
  assumes "db_ok d" "\<And>c. cv_id (f c) = cv_id c" "\<And>c. cv_created_by (f c) = cv_created_by c"
  shows "db_ok (set_conversation i f d)"
proof -
  let ?d = "set_conversation i f d"
  have ids: "map cv_id (conversations ?d) = map cv_id (conversations d)"
    and "map cv_created_by (conversations ?d) = map cv_created_by (conversations d)"
    by (simp_all add: set_conversation_def map_update_where assms(2,3))
  note crby = list_all_map [OF this(2)]
  have h: "has_agent ?d = has_agent d" "has_conversation ?d = has_conversation d" "has_message ?d = has_message d"
    using ids by (simp_all add: fun_eq_iff has_agent_def has_conversation_def has_message_def del: set_map)
  show ?thesis
    using assms(1) unfolding db_ok_conjuncts constraint_defs by (simp add: h ids crby)
qed

lemma has_conversation_set:
  "(\<And>c. cv_id (f c) = cv_id c) \<Longrightarrow> has_conversation (set_conversation i f d) x = has_conversation d x"
  by (simp add: has_conversation_def set_conversation_def map_update_where del: set_map)

lemma db_ok_set_participant:
  assumes "db_ok d" "\<And>p. pt_conversation_id (f p) = pt_conversation_id p" "\<And>p. pt_agent_id (f p) = pt_agent_id p"
    "\<And>p. pt_invited_by (f p) = pt_invited_by p"
  shows "db_ok (set_participant c i f d)"
proof -
  let ?d = "set_participant c i f d"
  have ids: "map (\<lambda>p. (pt_conversation_id p, pt_agent_id p)) (participants ?d) =
      map (\<lambda>p. (pt_conversation_id p, pt_agent_id p)) (participants d)"
    and k: "map pt_conversation_id (participants ?d) = map pt_conversation_id (participants d)"
      "map pt_agent_id (participants ?d) = map pt_agent_id (participants d)"
      "map pt_invited_by (participants ?d) = map pt_invited_by (participants d)"
    by (simp_all add: set_participant_def map_update_where assms(2-4))
  note k = k [THEN list_all_map]
  have h: "has_agent ?d = has_agent d" "has_conversation ?d = has_conversation d" "has_message ?d = has_message d"
    by (simp_all add: fun_eq_iff has_agent_def has_conversation_def has_message_def)
  show ?thesis
    using assms(1) unfolding db_ok_conjuncts constraint_defs by (simp add: h ids k)
qed

section \<open>The agent directory\<close>

interpretation directory: keyset db_ok "\<lambda>d. sorted_by ag_sub (listed_agents inc d)" ag_sub "\<lambda>k a. k < ag_sub a" for inc
proof
  fix d xs x ys
  assume d: "db_ok d" and r: "sorted_by ag_sub (listed_agents inc d) = xs @ x # ys"
  have "distinct (map ag_sub (agents d))"
    using d unfolding db_ok_conjuncts by (simp add: agents_constraints_def)
  then have "sorted_wrt (\<lambda>x y. ag_sub x < ag_sub y) (sorted_by ag_sub (listed_agents inc d))"
    unfolding listed_agents_def by (intro sorted_by_strict distinct_map_filter)
  then show "filter (\<lambda>a. ag_sub x < ag_sub a) (sorted_by ag_sub (listed_agents inc d)) = ys"
    unfolding r by (rule filter_after_split) auto
qed

lemma filter_sorted_by: "filter p (sorted_by k xs) = sorted_by k (filter p xs)"
  by (simp add: sorted_by_def filter_sort)

definition seen_active :: "(string \<Rightarrow> bool outcome) \<Rightarrow> agent \<Rightarrow> bool" where
  "seen_active checker a \<longleftrightarrow> checker (ag_sub a) \<noteq> Returned False"

lemma active_flags_total:
  "(\<And>x. checker x \<noteq> Cancelled) \<Longrightarrow> active_flags checker as s = (Inr (map (seen_active checker) as), s)"
proof (induction "as")
  case (Cons a "as")
  then show ?case
    by (cases "checker (ag_sub a)") (simp_all add: is_active_safe_def bnd_def ret_def seen_active_def)
qed (simp add: ret_def)

lemma filter_zip_map: "map fst (filter snd (zip xs (map p xs))) = filter p xs"
  by (induction xs) simp_all

lemma list_agents_page:
  assumes "\<And>x. checker x \<noteq> Cancelled"
  shows "run (list_agents checker l c inc) clk d =
    (let (page, next_cursor) = page_of (clamp_page l) ag_sub (agents_after c inc d) in
     (Inr \<lparr>ap_agents = map agent_public (filter (seen_active checker) page),
           ap_total_count = length (listed_agents inc d), ap_has_more = clamp_page l < length (agents_after c inc d),
           ap_next_cursor = next_cursor\<rparr>, d))"
  by (auto simp: run_def list_agents_def page_of_def Let_def bnd_def query_def active_flags_total [OF assms]
      ret_def open_session_def filter_zip_map simp flip: map_map)

text \<open>A client that follows \<open>next_cursor\<close>, for at most \<open>n\<close> calls.\<close>

fun all_agents :: "(string \<Rightarrow> bool outcome) \<Rightarrow> int \<Rightarrow> bool \<Rightarrow> (nat \<Rightarrow> int) \<Rightarrow> db \<Rightarrow> nat \<Rightarrow> string option \<Rightarrow> json list" where
  "all_agents checker l inc clk d 0 c = []"
| "all_agents checker l inc clk d (Suc n) c =
     (case fst (run (list_agents checker l c inc) clk d) of Inl e \<Rightarrow> []
      | Inr page \<Rightarrow> ap_agents page @ (case ap_next_cursor page of None \<Rightarrow> []
          | Some k \<Rightarrow> all_agents checker l inc clk d n (Some k)))"

lemma all_agents_walk:
  assumes "\<And>x. checker x \<noteq> Cancelled"
  shows "all_agents checker l inc clk d n c = map agent_public (filter (seen_active checker)
    (walk_pages (\<lambda>c. page_of (clamp_page l) ag_sub (agents_after c inc d)) n c))"
  by (induction n arbitrary: c)
     (simp_all add: list_agents_page [OF assms] page_of_def Let_def split: option.split)

text \<open>
  C36. Listing the directory page by page is complete and exact: a client that follows
  \<open>next_cursor\<close> gets, after at most as many calls as there are pages, every listed agent exactly once, in
  the order of their subs, the retired ones left out; whatever page size it asks for, and although pages
  lose retired agents after the limit is applied.
\<close>

theorem directory_listing_complete:
  assumes "db_ok d" "\<And>x. checker x \<noteq> Cancelled" "[] \<notin> ag_sub ` set (agents d)"
    "length (listed_agents inc d) \<le> nat (max 1 (min l 200)) * n"
  shows "all_agents checker l inc clk d n None =
    map agent_public (filter (seen_active checker) (sorted_by ag_sub (listed_agents inc d)))"
proof -
  have "agents_after None inc d = sorted_by ag_sub (listed_agents inc d)" by (simp add: agents_after_def)
  moreover have "agents_after (Some (ag_sub a)) inc d = filter (\<lambda>b. ag_sub a < ag_sub b) (sorted_by ag_sub (listed_agents inc d))"
    if "a \<in> set (sorted_by ag_sub (listed_agents inc d))" for a
  proof -
    have "a \<in> set (agents d)" using that by (simp add: sorted_by_def listed_agents_def)
    then have "ag_sub a \<noteq> []" using assms(3) by (metis imageI)
    then show ?thesis by (simp add: agents_after_def filter_sorted_by)
  qed
  ultimately have "walk_pages (\<lambda>c. page_of (clamp_page l) ag_sub (agents_after c inc d)) n None =
      sorted_by ag_sub (listed_agents inc d)"
    using assms(1,4) by (intro directory.walk_all) (simp_all add: clamp_page_def sorted_by_def)
  then show ?thesis by (simp add: all_agents_walk [OF assms(2)])
qed

theorem directory_listing_complete_witness:
  "all_agents (\<lambda>_. Returned True) 1 False demo_clock demo_db 3 None = map agent_public
     [demo_agent 0 ''ann'' ''o1'' AgActive, demo_agent 1 ''bea'' ''o1'' AgActive, demo_agent 2 ''cid'' ''o2'' AgActive]"
proof -
  let ?as = "[demo_agent 0 ''ann'' ''o1'' AgActive, demo_agent 1 ''bea'' ''o1'' AgActive, demo_agent 2 ''cid'' ''o2'' AgActive]"
  have l: "listed_agents False demo_db = ?as" by (simp add: listed_agents_def demo_tables demo_agent_def)
  have "sorted_by ag_sub ?as = ?as" by (simp add: sorted_by_def demo_agent_def)
  moreover have "filter (seen_active (\<lambda>_. Returned True)) ?as = ?as" by (simp add: seen_active_def)
  moreover have "[] \<notin> ag_sub ` set (agents demo_db)" by (simp add: demo_tables demo_agent_def)
  ultimately show ?thesis
    using directory_listing_complete [OF demo_db_ok, of "\<lambda>_. Returned True" False 1 3 demo_clock] l by simp
qed

section \<open>The list of conversations\<close>

interpretation conversation_list: keyset db_ok
  "\<lambda>d. conversations_after None (keep d) d" conversation_key "\<lambda>k c. conversation_key c < k" for keep
proof
  fix d xs x ys
  assume d: "db_ok d" and r: "conversations_after None (keep d) d = xs @ x # ys"
  have "distinct (map cv_id (conversations d))"
    using d unfolding db_ok_conjuncts by (simp add: conversations_constraints_def)
  then have "distinct (map conversation_key (conversations d))"
    by (auto simp: distinct_map inj_on_def conversation_key_def)
  then have "sorted_wrt (\<lambda>x y. conversation_key x < conversation_key y) (sorted_by conversation_key
      (filter (keep d) (conversations d)))"
    by (intro sorted_by_strict distinct_map_filter)
  then have "sorted_wrt (\<lambda>x y. conversation_key y < conversation_key x) (conversations_after None (keep d) d)"
    by (simp add: conversations_after_def sorted_wrt_rev)
  then show "filter (\<lambda>c. conversation_key c < conversation_key x) (conversations_after None (keep d) d) = ys"
    unfolding r by (rule filter_after_split) auto
qed

section \<open>The messages of a conversation\<close>

definition row_seq :: "message \<times> string \<Rightarrow> int" where
  "row_seq r = int (ms_seq (fst r))"

lemma join_senders_distinct:
  "distinct (map k ms) \<Longrightarrow> distinct (map (k \<circ> fst) (join_senders ms d))"
proof (induction ms)
  case (Cons m ms)
  have "fst ` set (join_senders ms d) \<subseteq> set ms"
    by (auto simp: join_senders_def List.map_filter_def)
  with Cons show ?case
    by (auto simp: join_senders_def List.map_filter_simps split: option.split)
qed (simp add: join_senders_def List.map_filter_simps)

lemma in_window_strict:
  assumes "db_ok d"
  shows "sorted_wrt (\<lambda>x y. row_seq x < row_seq y) (in_window c n t d)"
proof -
  have "distinct (map (\<lambda>m. (ms_conversation_id m, ms_seq m)) (messages d))"
    using assms unfolding db_ok_conjuncts by (simp add: messages_constraints_def)
  then have "distinct (map ms_seq (conv_messages c d))"
    by (auto simp: conv_messages_def distinct_map inj_on_def)
  then have "sorted_wrt (\<lambda>x y. (ms_seq \<circ> fst) x < (ms_seq \<circ> fst) y) (in_window c n t d)"
    unfolding in_window_def by (intro sorted_by_strict join_senders_distinct distinct_map_filter)
  then show ?thesis by (simp add: row_seq_def)
qed

lemma filter_join_senders: "filter (\<lambda>r. P (fst r)) (join_senders ms d) = join_senders (filter P ms) d"
  by (induction ms) (auto simp: join_senders_def List.map_filter_simps split: option.split)

lemma in_window_after:
  assumes "n \<le> k"
  shows "filter (\<lambda>r. k < row_seq r) (in_window c n t d) = in_window c k t d"
proof -
  have "filter (\<lambda>m. k < int (ms_seq m)) (filter (\<lambda>m. n < int (ms_seq m) \<and> q m) ms) =
      filter (\<lambda>m. k < int (ms_seq m) \<and> q m) ms" for q ms
    using assms by (auto intro: filter_cong)
  from this [of "\<lambda>m. case t of None \<Rightarrow> True | Some t \<Rightarrow> t \<le> ms_created_at m" "conv_messages c d"] show ?thesis
    by (simp only: in_window_def filter_sorted_by row_seq_def filter_join_senders [of "\<lambda>m. k < int (ms_seq m)"])
qed

interpretation transcript: keyset db_ok "\<lambda>d. in_window c n t d" row_seq "\<lambda>k r. k < row_seq r" for c n t
proof
  fix d xs x ys
  assume d: "db_ok d" and r: "in_window c n t d = xs @ x # ys"
  show "filter (\<lambda>r. row_seq x < row_seq r) (in_window c n t d) = ys"
    using in_window_strict [OF d, of c n t] unfolding r by (rule filter_after_split) auto
qed

lemma in_window_seq: "r \<in> set (in_window c n t d) \<Longrightarrow> n < row_seq r"
  by (auto simp: in_window_def sorted_by_def join_senders_def List.map_filter_def row_seq_def)

lemma page_max_seq_last:
  assumes "db_ok d" "take m (in_window c n t d) \<noteq> []"
  shows "page_max_seq n (take m (in_window c n t d)) = row_seq (last (take m (in_window c n t d)))"
proof -
  let ?xs = "take m (in_window c n t d)"
  have "sorted_wrt (\<lambda>x y. row_seq x < row_seq y) ?xs" using in_window_strict [OF assms(1)] by (rule sorted_wrt_take)
  then have "\<forall>x\<in>set ?xs. row_seq x \<le> row_seq (last ?xs)"
    by (cases ?xs rule: rev_cases) (auto simp: sorted_wrt_append less_imp_le)
  then have "Max (row_seq ` set ?xs) = row_seq (last ?xs)"
    using assms(2) by (intro Max_eqI) auto
  moreover have "row_seq = int \<circ> ms_seq \<circ> fst" by (simp add: fun_eq_iff row_seq_def)
  ultimately show ?thesis using assms(2) by (simp add: page_max_seq_def)
qed

section \<open>Reading on until there is no more\<close>

lemma load_read_returns:
  assumes "db_ok (working s)" "conversation_by_id cid (working s) = Some c" "participant_of cid i (working s) = Some p"
    "pt_status p = PtActive"
  shows "\<exists>c' s'. load_participant_for_read a i cid b s = (Inr (c', p), s') \<and> db_ok (working s') \<and>
    expiry_only s s' \<and> cv_id c' = cid \<and> conversation_by_id cid (working s') = Some c'"
proof -
  have id: "cv_id c = cid" "has_conversation (working s) cid"
    using assms(2) by (auto simp: has_conversation_def dest: conversation_by_idD)
  have ex: "cv_id (expired_conversation x) = cv_id x" "cv_created_by (expired_conversation x) = cv_created_by x" for x
    by (simp_all add: expired_conversation_def)
  let ?d = "set_conversation (cv_id c) expired_conversation (working s)"
  have "has_conversation ?d cid" using id(2) by (simp add: has_conversation_set ex)
  then have "db_ok (add_audit r ?d)"
    if "al_agent_id r = None" "al_conversation_id r = Some cid" "al_message_id r = None" for r
    using db_ok_set_conversation [OF assms(1) ex] that by (intro db_ok_add_audit) simp_all
  then have "\<exists>c' s'. maybe_expire a c s = (Inr c', s') \<and> db_ok (working s')"
    using assms(1) id
    by (auto simp: maybe_expire_def bnd_def seqm_def ret_def now_def change_def audit_def audit_at_def txn_now_def)
  then obtain c' s' where e: "maybe_expire a c s = (Inr c', s')" "db_ok (working s')" by blast
  have l: "load_participant_for_read a i cid b s = (Inr (c', p), s')"
    using assms e(1) by (simp add: load_participant_for_read_def find_conversation_def find_participant_def bnd_def query_def ret_def)
  with load_read_ok [OF l] e(2) show ?thesis by blast
qed

text \<open>What one page of an active reader with a cursor is, and what it leaves.\<close>

definition page_read :: "nat \<Rightarrow> int \<Rightarrow> db \<Rightarrow> (message \<times> string) list" where
  "page_read cid n d = take MAX_MESSAGES_PER_GET_CONVERSATION (in_window cid n None d)"

lemma read_active_page:
  assumes "db_ok (working s)" "conversation_by_id (cv_id c) (working s) = Some c"
    "participant_of (cv_id c) i (working s) = Some p" "pt_status p = PtActive"
  shows "\<exists>v s'. read_active c p ps (Some n) None h mr s = (Inr v, s') \<and>
    vw_messages v = map (\<lambda>(m, x). message_dict m x) (page_read (cv_id c) n (working s)) \<and>
    vw_has_more v = (MAX_MESSAGES_PER_GET_CONVERSATION < length (in_window (cv_id c) n None (working s))) \<and>
    vw_page_max_seq v = Some (page_max_seq n (page_read (cv_id c) n (working s))) \<and>
    db_ok (committed s') \<and> agents (committed s') = agents (working s) \<and> messages (committed s') = messages (working s) \<and>
    conversation_by_id (cv_id c) (committed s') = Some c \<and>
    (\<exists>q. participant_of (cv_id c) i (committed s') = Some q \<and> pt_status q = PtActive)"
proof -
  let ?rows = "page_read (cv_id c) n (working s)"
  let ?adv = "mr \<and> ?rows \<noteq> [] \<and> int (pt_last_read_seq p) < page_max_seq n ?rows"
  let ?f = "\<lambda>q. q\<lparr>pt_last_read_seq := nat (page_max_seq n ?rows)\<rparr>"
  let ?d = "if ?adv then set_participant (cv_id c) (pt_agent_id p) ?f (working s) else working s"
  have i: "pt_agent_id p = i" "pt_conversation_id p = cv_id c" using assms(3) by (auto dest: participant_ofD)
  have ok: "db_ok ?d" using assms(1) by (auto intro: db_ok_set_participant)
  have tables: "agents ?d = agents (working s)" "messages ?d = messages (working s)"
    "conversation_by_id (cv_id c) ?d = Some c"
    using assms(2) by simp_all
  have "participant_of (cv_id c) i ?d = Some (if ?adv then ?f p else p)"
    using assms(3) i by (simp add: participant_of_set)
  then have q: "\<exists>q. participant_of (cv_id c) i ?d = Some q \<and> pt_status q = PtActive"
    using assms(4) by simp
  show ?thesis
    using ok tables q
    by (auto simp: read_active_def since_bound_def Let_def bnd_def query_def seqm_def whenm_def change_def ret_def
        commit_def db_ok_def page_read_def conversation_dict_def now_def)
qed

lemma in_window_frame:
  "agents d' = agents d \<Longrightarrow> messages d' = messages d \<Longrightarrow> in_window c n t d' = in_window c n t d"
  by (simp add: in_window_def join_senders_def agent_by_id_def conv_messages_def cong: option.case_cong)

text \<open>An active participant reading \<open>d\<close>.\<close>

definition reads :: "nat \<Rightarrow> nat \<Rightarrow> db \<Rightarrow> bool" where
  "reads cid i d \<longleftrightarrow> db_ok d \<and> (\<exists>c. conversation_by_id cid d = Some c) \<and>
     (\<exists>p. participant_of cid i d = Some p \<and> pt_status p = PtActive)"

lemma get_conversation_page:
  assumes "reads cid i d" "0 \<le> h" "h \<le> 168"
  shows "\<exists>v d'. run (get_conversation a i cid (Some n) None h mr) clk d = (Inr v, d') \<and>
    vw_messages v = map (\<lambda>(m, x). message_dict m x) (page_read cid n d) \<and>
    vw_has_more v = (MAX_MESSAGES_PER_GET_CONVERSATION < length (in_window cid n None d)) \<and>
    vw_page_max_seq v = Some (page_max_seq n (page_read cid n d)) \<and>
    reads cid i d' \<and> agents d' = agents d \<and> messages d' = messages d"
proof -
  from assms(1) obtain c p where 1: "db_ok d" "conversation_by_id cid d = Some c" "participant_of cid i d = Some p"
    "pt_status p = PtActive" by (auto simp: reads_def)
  then obtain c' s1 where l: "load_participant_for_read a i cid False (open_session clk d) = (Inr (c', p), s1)"
    "db_ok (working s1)" "expiry_only (open_session clk d) s1" "cv_id c' = cid" "conversation_by_id cid (working s1) = Some c'"
    using load_read_returns [of "open_session clk d" cid c i p a False] by auto
  then have same: "agents (working s1) = agents d" "messages (working s1) = messages d" "participants (working s1) = participants d"
    by (simp_all add: expiry_only_def)
  then have rows: "participant_of (cv_id c') i (working s1) = Some p" "conversation_by_id (cv_id c') (working s1) = Some c'"
    using 1(3) l(4,5) by (simp_all add: participant_of_def)
  let ?ps = "map participant_view (sorted_by (ag_sub \<circ> snd) (join_agents (conv_participants (cv_id c') (working s1)) (working s1)))"
  from read_active_page [OF l(2) rows(2,1) 1(4), of ?ps n h mr]
  obtain v s' where r: "read_active c' p ?ps (Some n) None h mr s1 = (Inr v, s')"
    "vw_messages v = map (\<lambda>(m, x). message_dict m x) (page_read cid n (working s1))"
    "vw_has_more v = (MAX_MESSAGES_PER_GET_CONVERSATION < length (in_window cid n None (working s1)))"
    "vw_page_max_seq v = Some (page_max_seq n (page_read cid n (working s1)))"
    "reads cid i (committed s')" "agents (committed s') = agents (working s1)" "messages (committed s') = messages (working s1)"
    unfolding l(4) reads_def by blast
  have "check_read_arguments None h = Inr None"
    using assms(2,3) by (simp add: check_read_arguments_def GET_CONVERSATION_MAX_CONTEXT_HOURS_def)
  then have "get_conversation a i cid (Some n) None h mr (open_session clk d) = (Inr v, s')"
    using l(1) r(1) 1(4) by (simp add: get_conversation_def bnd_def query_def)
  then have "run (get_conversation a i cid (Some n) None h mr) clk d = (Inr v, committed s')"
    by (simp add: run_def)
  moreover have "in_window cid n None (working s1) = in_window cid n None d" by (rule in_window_frame [OF same(1,2)])
  ultimately show ?thesis using r(2-7) same by (auto simp: page_read_def)
qed

text \<open>
  A client that reads on from \<open>page_max_seq\<close> while there is more, for at most \<open>k\<close> calls, over the database
  each call leaves.
\<close>

fun read_on :: "string \<Rightarrow> nat \<Rightarrow> nat \<Rightarrow> bool \<Rightarrow> (nat \<Rightarrow> int) \<Rightarrow> nat \<Rightarrow> int \<Rightarrow> db \<Rightarrow> json list" where
  "read_on a i cid mr clk 0 n d = []"
| "read_on a i cid mr clk (Suc k) n d =
     (case run (get_conversation a i cid (Some n) None GET_CONVERSATION_DEFAULT_CONTEXT_HOURS mr) clk d of
        (Inl e, d') \<Rightarrow> []
      | (Inr v, d') \<Rightarrow> vw_messages v @
          (if vw_has_more v then read_on a i cid mr clk k (the (vw_page_max_seq v)) d' else []))"

definition message_pages :: "nat \<Rightarrow> int \<Rightarrow> db \<Rightarrow> int option \<Rightarrow> (message \<times> string) list \<times> int option" where
  "message_pages cid n d c = page_of MAX_MESSAGES_PER_GET_CONVERSATION row_seq
     (in_window cid (case c of None \<Rightarrow> n | Some k \<Rightarrow> k) None d)"

lemma read_on_walk:
  assumes "reads cid i e" "agents e = agents d" "messages e = messages d" "db_ok d"
  shows "read_on a i cid mr clk k (case c of None \<Rightarrow> n | Some m \<Rightarrow> m) e =
    map (\<lambda>(m, x). message_dict m x) (walk_pages (message_pages cid n d) k c)"
  using assms(1-3)
proof (induction k arbitrary: c e)
  case (Suc k)
  let ?n = "case c of None \<Rightarrow> n | Some m \<Rightarrow> m"
  let ?rows = "in_window cid ?n None d"
  have w: "in_window cid m None e = in_window cid m None d" for m by (rule in_window_frame [OF Suc.prems(2,3)])
  obtain v e' where r: "run (get_conversation a i cid (Some ?n) None GET_CONVERSATION_DEFAULT_CONTEXT_HOURS mr) clk e = (Inr v, e')"
    "vw_messages v = map (\<lambda>(m, x). message_dict m x) (take MAX_MESSAGES_PER_GET_CONVERSATION ?rows)"
    "vw_has_more v = (MAX_MESSAGES_PER_GET_CONVERSATION < length ?rows)"
    "vw_page_max_seq v = Some (page_max_seq ?n (take MAX_MESSAGES_PER_GET_CONVERSATION ?rows))"
    "reads cid i e'" "agents e' = agents d" "messages e' = messages d"
    using get_conversation_page [OF Suc.prems(1), of GET_CONVERSATION_DEFAULT_CONTEXT_HOURS a ?n mr clk] Suc.prems(2,3)
    by (auto simp: GET_CONVERSATION_DEFAULT_CONTEXT_HOURS_def page_read_def w)
  show ?case
  proof (cases "MAX_MESSAGES_PER_GET_CONVERSATION < length ?rows")
    case True
    then have ne: "take MAX_MESSAGES_PER_GET_CONVERSATION ?rows \<noteq> []"
      by (auto simp: MAX_MESSAGES_PER_GET_CONVERSATION_def)
    from Suc.IH [OF r(5-7), of "Some (row_seq (last (take MAX_MESSAGES_PER_GET_CONVERSATION ?rows)))"]
    show ?thesis using True ne r(1-4)
      by (simp add: message_pages_def page_of_def page_max_seq_last [OF assms(4) ne])
  next
    case False
    then show ?thesis using r(1-4) by (simp add: message_pages_def page_of_def)
  qed
qed simp

text \<open>
  C37. Reading on delivers the whole conversation: an active participant who starts after any sequence
  number and continues with \<open>page_max_seq\<close> while \<open>has_more\<close> gets every later message exactly once, in order of
  sequence number, after as many calls as the messages need at 500 a page, whether or not the calls mark
  them read and even when the conversation expires meanwhile.
\<close>

theorem reading_on_is_complete:
  assumes "db_ok d" "conversation_by_id cid d = Some c" "participant_of cid i d = Some p" "pt_status p = PtActive"
    "length (in_window cid n None d) \<le> 500 * k"
  shows "read_on a i cid mr clk k n d = map (\<lambda>(m, x). message_dict m x) (in_window cid n None d) \<and>
    sorted_wrt (\<lambda>x y. row_seq x < row_seq y) (in_window cid n None d) \<and>
    fst ` set (in_window cid n None d) = {m \<in> set (conv_messages cid d). n < int (ms_seq m)}"
proof (intro conjI)
  have "reads cid i d" using assms(1-4) by (auto simp: reads_def)
  from read_on_walk [OF this HOL.refl HOL.refl assms(1), of a mr clk k n None]
  have "read_on a i cid mr clk k n d = map (\<lambda>(m, x). message_dict m x) (walk_pages (message_pages cid n d) k None)"
    by simp
  moreover have "walk_pages (message_pages cid n d) k None = in_window cid n None d"
    using assms(5) in_window_after in_window_seq
    by (intro transcript.walk_all [OF assms(1), where n = MAX_MESSAGES_PER_GET_CONVERSATION])
       (auto simp: message_pages_def MAX_MESSAGES_PER_GET_CONVERSATION_def less_imp_le)
  ultimately show "read_on a i cid mr clk k n d = map (\<lambda>(m, x). message_dict m x) (in_window cid n None d)" by simp
  show "sorted_wrt (\<lambda>x y. row_seq x < row_seq y) (in_window cid n None d)" by (rule in_window_strict [OF assms(1)])
  have "\<exists>a. agent_by_id (ms_sender_id m) d = Some a" if "m \<in> set (messages d)" for m
  proof -
    have "has_agent d (ms_sender_id m)"
      using assms(1) that unfolding db_ok_conjuncts by (simp add: messages_constraints_def list_all_iff)
    then show ?thesis by (cases "agent_by_id (ms_sender_id m) d") (auto simp: has_agent_def agent_by_id_def find_None_iff)
  qed
  then show "fst ` set (in_window cid n None d) = {m \<in> set (conv_messages cid d). n < int (ms_seq m)}"
    by (force simp: in_window_def sorted_by_def join_senders_def List.map_filter_def conv_messages_def image_iff)
qed

theorem reading_on_is_complete_witness:
  "read_on ''cid'' 2 11 True demo_clock 1 0 demo_db = [message_dict (demo_message 21 11 1 ''availability_request'') ''ann'']"
proof -
  have w: "in_window 11 0 None demo_db = [(demo_message 21 11 1 ''availability_request'', ''ann'')]"
    by (simp add: in_window_def join_senders_def List.map_filter_simps conv_messages_def demo_tables agent_by_id_def
        demo_message_def demo_agent_def sorted_by_def)
  have "conversation_by_id 11 demo_db = Some (demo_conversation 11 ''asymmetric'' (Some [''o1'', ''o2'']) None)"
    "participant_of 11 2 demo_db = Some (demo_participant 11 2 RoleMember PtActive)"
    by (simp_all add: conversation_by_id_def participant_of_def demo_tables demo_conversation_def demo_participant_def)
  from reading_on_is_complete [OF demo_db_ok this, of 0 1 "''cid''" True demo_clock] show ?thesis
    by (simp add: demo_participant_def w)
qed

section \<open>What a reader may see and what reading changes\<close>

lemma read_invited_ok:
  "read_invited c p ps s = (Inr v, s') \<Longrightarrow> vw_messages v = [] \<and> vw_invited v \<and> committed s' = working s"
  by (auto simp: read_invited_def inr conversation_dict_def)

lemma page_max_seq_mem:
  assumes "take m (in_window c n t d) \<noteq> []"
  shows "\<exists>x\<in>set (conv_messages c d). page_max_seq n' (take m (in_window c n t d)) = int (ms_seq x)"
proof -
  let ?xs = "take m (in_window c n t d)"
  have "Max (set (map (int \<circ> ms_seq \<circ> fst) ?xs)) \<in> set (map (int \<circ> ms_seq \<circ> fst) ?xs)"
    using assms by (intro Max_in) auto
  then obtain r where "r \<in> set ?xs" "Max (set (map (int \<circ> ms_seq \<circ> fst) ?xs)) = int (ms_seq (fst r))"
    by (simp only: set_map image_iff comp_apply) blast
  then have r: "r \<in> set ?xs" "page_max_seq n' ?xs = int (ms_seq (fst r))"
    using assms by (simp_all add: page_max_seq_def)
  then have "r \<in> set (in_window c n t d)" by (blast dest: in_set_takeD)
  then have "fst r \<in> set (conv_messages c d)"
    by (auto simp: in_window_def sorted_by_def join_senders_def List.map_filter_def)
  with r(2) show ?thesis by blast
qed

lemma read_active_ok:
  assumes "read_active c p ps n t h mr s = (Inr v, s')"
  shows "\<not> vw_invited v \<and> (committed s' = working s \<or> (mr \<and> (\<exists>k. pt_last_read_seq p < k \<and>
      k \<in> ms_seq ` set (conv_messages (cv_id c) (working s)) \<and>
      committed s' = set_participant (cv_id c) (pt_agent_id p) (\<lambda>q. q\<lparr>pt_last_read_seq := k\<rparr>) (working s))))"
proof -
  obtain b s1 where b: "since_bound t n s = (Inr b, s1)" "working s1 = working s"
    by (cases t; cases n) (auto simp: since_bound_def ret_def bnd_def now_def)
  let ?res = "case n of None \<Rightarrow> 0 | Some n \<Rightarrow> n"
  let ?rows = "take MAX_MESSAGES_PER_GET_CONVERSATION (in_window (cv_id c) ?res (fst b) (working s))"
  let ?adv = "mr \<and> ?rows \<noteq> [] \<and> int (pt_last_read_seq p) < page_max_seq ?res ?rows"
  have v: "\<not> vw_invited v \<and> committed s' = (if ?adv then set_participant (cv_id c) (pt_agent_id p)
      (\<lambda>q. q\<lparr>pt_last_read_seq := nat (page_max_seq ?res ?rows)\<rparr>) (working s) else working s)"
    using assms b unfolding read_active_def Let_def bnd_query
    by (auto simp: bnd_Inr seqm_Inr whenm_Inr change_Inr commit_Inr ret_Inr prod.case_eq_if conversation_dict_def now_Inr
        split: if_splits)
  show ?thesis
  proof (cases ?adv)
    case True
    then obtain m where "m \<in> set (conv_messages (cv_id c) (working s))" "page_max_seq ?res ?rows = int (ms_seq m)"
      using page_max_seq_mem by blast
    with v True show ?thesis by (auto intro!: exI [of _ "ms_seq m"])
  next
    case False
    with v show ?thesis by (simp only: if_not_P [OF False] if_False simp_thms)
  qed
qed

text \<open>
  Reading shows content to active members only and writes nothing but the reader's own cursor: a
  successful read is by an active or an invited member; an invited one gets no message; and the
  database afterwards is the one before, up to lazy expiry, except that the reader's
  \<open>last_read_seq\<close> may have advanced, if asked to, to the number of a message of that conversation.
\<close>

theorem reading_moves_only_the_cursor:
  assumes "run (get_conversation a i cid n t h mr) clk d = (Inr v, d')"
  shows "\<exists>p. participant_of cid i d = Some p \<and> pt_status p \<in> {PtActive, PtInvited} \<and>
    (pt_status p = PtInvited \<longrightarrow> vw_messages v = []) \<and>
    messages d' = messages d \<and> agents d' = agents d \<and> holds d' = holds d \<and>
    (participants d' = participants d \<or> (mr \<and> pt_status p = PtActive \<and> (\<exists>k. pt_last_read_seq p < k \<and>
      k \<in> ms_seq ` set (conv_messages cid d) \<and>
      participants d' = participants (set_participant cid i (\<lambda>q. q\<lparr>pt_last_read_seq := k\<rparr>) d))))"
proof -
  from assms obtain s' where s': "d' = committed s'" "get_conversation a i cid n t h mr (open_session clk d) = (Inr v, s')"
    by (rule run_InrE)
  then obtain ts c p s1 ps where l: "load_participant_for_read a i cid False (open_session clk d) = (Inr (c, p), s1)"
    and r: "(if pt_status p = PtInvited then read_invited c p ps else read_active c p ps n ts h mr) s1 = (Inr v, s')"
    unfolding get_conversation_def by (auto simp: bnd_Inr query_Inr throw_Inr split: sum.splits)
  from load_read_ok [OF l] have 1: "cv_id c = cid" "participant_of cid i (working s1) = Some p"
    "pt_status p \<noteq> PtLeft" "pt_status p \<noteq> PtDeclined" and e: "expiry_only (open_session clk d) s1" by auto
  from e have same: "agents (working s1) = agents d" "participants (working s1) = participants d"
    "messages (working s1) = messages d" "holds (working s1) = holds d" by (simp_all add: expiry_only_def)
  have p: "participant_of cid i d = Some p" "pt_agent_id p = i"
    using 1(2) same(2) by (auto simp: participant_of_def dest: find_SomeD)
  have st: "pt_status p \<in> {PtActive, PtInvited}" using 1(3,4) by (cases "pt_status p") auto
  show ?thesis
  proof (cases "pt_status p = PtInvited")
    case True
    with r have "read_invited c p ps s1 = (Inr v, s')" by simp
    from read_invited_ok [OF this] p st same s'(1) show ?thesis by auto
  next
    case False
    with r have "read_active c p ps n ts h mr s1 = (Inr v, s')" by simp
    from read_active_ok [OF this] False p st same 1(1) s'(1) show ?thesis
      by (auto simp: set_participant_def conv_messages_def)
  qed
qed

theorem reading_moves_only_the_cursor_witness:
  "\<exists>v d'. run (get_conversation ''cid'' 2 11 (Some 0) None 24 True) demo_clock demo_db = (Inr v, d') \<and>
     messages d' = messages demo_db \<and> holds d' = holds demo_db"
proof -
  have "reads 11 2 demo_db"
    using demo_db_ok by (simp add: reads_def conversation_by_id_def participant_of_def demo_tables
        demo_conversation_def demo_participant_def)
  from get_conversation_page [OF this, of 24 "''cid''" 0 True demo_clock]
  obtain v d' where r: "run (get_conversation ''cid'' 2 11 (Some 0) None 24 True) demo_clock demo_db = (Inr v, d')"
    by auto
  from r reading_moves_only_the_cursor [OF r] show ?thesis by blast
qed

end
