(* ===== verification/ProposalFeed.thy ===== *)
theory ProposalFeed
  imports ProposalDemo Paging
begin

text \<open>
  What the submitting bot reads: the listings and the log feed deliver every row, nothing that changes
  later hides behind a cursor already handed out, and no reading tells the bot who reviewed it.
\<close>

section \<open>The log grows at its end\<close>

lemma counter_same: "same_rows d d' \<Longrightarrow> counter_of b d' = counter_of b d"
  by (simp add: same_rows_def counter_of_def)

definition log_grows :: "pdb \<Rightarrow> pdb \<Rightarrow> bool" where
  "log_grows d d' = ((\<forall>b. counter_of b d \<le> counter_of b d') \<and>
     (\<forall>h' \<in> set (pd_holds d'). h' \<in> set (pd_holds d) \<or> counter_of (ph_bot_id h') d < ph_log_seq h'))"

lemma grows_refl [simp]: "log_grows d d"
  by (simp add: log_grows_def)

lemma grows_trans: "log_grows a b \<Longrightarrow> log_grows b c \<Longrightarrow> log_grows a c"
  unfolding log_grows_def by (meson le_less_trans le_trans)

lemma grows_same_rows: "same_rows d' d'' \<Longrightarrow> log_grows d d' \<Longrightarrow> log_grows d d''"
  using counter_same [of d' d''] by (simp add: log_grows_def same_rows_def)

lemma grows_insert: "log_grows d ((insert_proposal h d)\<lparr>pd_next_id := n\<rparr>)"
proof -
  have "counter_of b ((insert_proposal h d)\<lparr>pd_next_id := n\<rparr>) = counter_of b (bump_counter (ph_bot_id h) d)" for b
    by (simp add: counter_of_def insert_proposal_def Let_def)
  then show ?thesis by (auto simp: log_grows_def counter_bump insert_proposal_def Let_def)
qed

lemma grows_write:
  assumes "table_ok d" and h: "proposal_by_id i d = Some h" and "ph_bot_id (f h) = ph_bot_id h"
  shows "log_grows d (write_proposal i f d)"
  using h
proof (cases rule: write_proposal_cases [where f = f])
  case nothing
  then show ?thesis by simp
next
  case updated
  note hd = proposal_by_idD [OF h]
  have "pd_holds (write_proposal i f d) = map (\<lambda>x. if x = h
      then (f h)\<lparr>ph_log_seq := Suc (counter_of (ph_bot_id h) d)\<rparr> else x) (pd_holds d)"
    using ProposalTables.update_one_proposal [OF table_okD(2) [OF assms(1)]] hd unfolding updated(2) by auto
  moreover have "counter_of b (write_proposal i f d) = counter_of b (bump_counter (ph_bot_id h) d)" for b
    using updated(3) by (simp add: counter_of_def)
  ultimately show ?thesis using assms(3) by (auto simp: log_grows_def counter_bump)
qed

lemma grows_effect:
  assumes "effect env t rq pc d d'" and "table_ok d" and "pc_ok d rq pc"
  shows "log_grows d d'"
  using assms(1)
proof cases
  case keeps
  then show ?thesis by (rule grows_same_rows) simp
next
  case inserts
  then show ?thesis using grows_same_rows grows_insert by blast
next
  case (writes i h f)
  have "ph_bot_id (f h) = ph_bot_id h"
    using row_write_identity [OF writes(2) assms(3)] writes(1) proposal_by_idD [OF writes(1)]
    by (simp add: same_identity_def)
  then show ?thesis using grows_same_rows [OF writes(3)] grows_write [OF assms(2) writes(1)] by blast
qed

lemma grows_step:
  assumes "proposal_reachable env s" and "proposal_step env s s'"
  shows "log_grows (sy_db s) (sy_db s')"
  using assms(2)
proof cases
  case (advances k)
  from reachable_ok [OF assms(1)] advances(2) show ?thesis
    by (rule advanceE [where env = env]) (simp add: advances(1) grows_effect)
next
  case (board rows ags)
  then show ?thesis using grows_same_rows [OF board_rows grows_refl] by simp
qed simp

lemma grows_steps:
  assumes "(proposal_step env)\<^sup>*\<^sup>* s s'" and "proposal_reachable env s"
  shows "proposal_reachable env s' \<and> log_grows (sy_db s) (sy_db s')"
  using assms
proof (induction rule: rtranclp_induct)
  case (step s' s'')
  then show ?case
    using grows_step [of env s' s''] grows_trans proposal_reachable.further by blast
qed simp

text \<open>
  C20. Nothing hides behind a cursor of the log: a row that is new or changed at any later time has a
  larger position than every row the same bot had before, so whoever reads on from the last position
  they were given is delivered every later insertion and every later change of a row.
\<close>

theorem log_feed_misses_no_change:
  assumes "proposal_reachable env s" and "(proposal_step env)\<^sup>*\<^sup>* s s'"
    and "h' \<in> set (pd_holds (sy_db s'))" and "h' \<notin> set (pd_holds (sy_db s))"
    and "h \<in> set (pd_holds (sy_db s))" and "ph_bot_id h = ph_bot_id h'"
  shows "ph_log_seq h < ph_log_seq h'"
proof -
  have "counter_of (ph_bot_id h') (sy_db s) < ph_log_seq h'"
    using grows_steps [OF assms(2, 1)] assms(3, 4) by (auto simp: log_grows_def)
  moreover have "ph_log_seq h \<le> counter_of (ph_bot_id h) (sy_db s)"
    using reachable_ok [OF assms(1)] assms(5) table_okD(6) by (auto simp: system_ok_def)
  ultimately show ?thesis using assms(6) by simp
qed

section \<open>Following the cursor\<close>

text \<open>One request of the feed, with an explicit kind of cursor, as a client that reads while there is more.\<close>

definition log_page ::
  "pdb \<Rightarrow> string \<Rightarrow> proposal_status list \<Rightarrow> int \<Rightarrow> string \<Rightarrow> string option \<Rightarrow> (string \<times> json) list list \<times> string option" where
  "log_page d bot_id statuses limit kind since =
     (case list_proposals_for_bot d bot_id statuses limit ''log'' since (Some kind) of
        Inl e \<Rightarrow> ([], None)
      | Inr p \<Rightarrow> (pp_proposals p, if pp_has_more p then pp_next_cursor p else None))"

definition own_rows :: "string \<Rightarrow> proposal_status list \<Rightarrow> pdb \<Rightarrow> proposal_hold list" where
  "own_rows bot_id statuses d =
     sorted_by ph_log_seq (filter (\<lambda>h. ph_bot_id h = bot_id \<and> ph_status h \<in> set statuses) (pd_holds d))"

interpretation bot_log: keyset proposals_ok "own_rows bot_id statuses" ph_log_seq "\<lambda>k h. k < ph_log_seq h"
  for bot_id statuses
proof
  fix d xs x ys
  assume d: "proposals_ok d" and r: "own_rows bot_id statuses d = xs @ x # ys"
  have "distinct (map (\<lambda>h. (ph_bot_id h, ph_log_seq h)) (pd_holds d))"
    using d by (simp add: proposals_ok_def proposal_keys_ok_def)
  then have "distinct (map (\<lambda>h. (ph_bot_id h, ph_log_seq h)) (filter (\<lambda>h. ph_bot_id h = bot_id \<and> ph_status h \<in> set statuses) (pd_holds d)))"
    by (rule distinct_map_filter)
  then have "distinct (map ph_log_seq (filter (\<lambda>h. ph_bot_id h = bot_id \<and> ph_status h \<in> set statuses) (pd_holds d)))"
    by (auto simp: distinct_map inj_on_def)
  then have "sorted_wrt (\<lambda>x y. ph_log_seq x < ph_log_seq y) (own_rows bot_id statuses d)"
    unfolding own_rows_def by (rule sorted_by_strict)
  then show "filter (\<lambda>h. ph_log_seq x < ph_log_seq h) (own_rows bot_id statuses d) = ys"
    unfolding r by (rule filter_after_split) auto
qed

text \<open>Walking with keys and with encoded keys, over rows and over what is shown of them.\<close>

lemma walk_pages_encoded:
  assumes "\<And>c. P c \<Longrightarrow> fetch (map_option enc c) = (map f (fst (rows c)), map_option enc (snd (rows c)))"
    and "\<And>c. P c \<Longrightarrow> P (snd (rows c))" and "P c"
  shows "walk_pages fetch n (map_option enc c) = map f (walk_pages rows n c)"
  using assms(3)
proof (induction n arbitrary: c)
  case (Suc n)
  obtain page more where p: "rows c = (page, more)" by fastforce
  then have "fetch (map_option enc c) = (map f page, map_option enc more)" "P more"
    using assms(1, 2) [OF Suc.prems] by simp_all
  then show ?case using Suc.IH [of more] p by (cases more) simp_all
qed simp

definition rows_page :: "pdb \<Rightarrow> string \<Rightarrow> proposal_status list \<Rightarrow> int \<Rightarrow> nat option \<Rightarrow> proposal_hold list \<times> nat option" where
  "rows_page d bot_id statuses limit c = page_of (clamp_limit limit) ph_log_seq
     (case c of None \<Rightarrow> own_rows bot_id statuses d
      | Some k \<Rightarrow> filter (\<lambda>h. k < ph_log_seq h) (own_rows bot_id statuses d))"

lemma listed_page:
  "0 < n \<Longrightarrow> (pp_proposals (list_proposals_with_elision xs n f (Some kind) since),
     if pp_has_more (list_proposals_with_elision xs n f (Some kind) since)
     then pp_next_cursor (list_proposals_with_elision xs n f (Some kind) since) else None) =
   (map f (fst (page_of n ph_log_seq xs)),
    map_option (encode_proposal_cursor kind) (snd (page_of n ph_log_seq xs)))"
  by (auto simp: list_proposals_with_elision_def page_of_def Let_def min_def)

lemma clamp_positive: "0 < clamp_limit limit"
  by (simp add: clamp_limit_def)

lemma log_page_rows:
  assumes "\<And>k. c = Some k \<Longrightarrow> k < 2 ^ 63"
  shows "log_page d bot_id statuses limit kind (map_option (encode_proposal_cursor kind) c) =
    (map bot_listed_proposal (fst (rows_page d bot_id statuses limit c)),
     map_option (encode_proposal_cursor kind) (snd (rows_page d bot_id statuses limit c)))"
proof (cases c)
  case None
  then show ?thesis using listed_page [OF clamp_positive]
    by (simp add: log_page_def list_proposals_for_bot_def log_cursor_kind_def rows_page_def own_rows_def Let_def)
next
  case (Some k)
  have "sorted_by ph_log_seq (filter (\<lambda>h. k < ph_log_seq h) (filter (\<lambda>h. ph_bot_id h = bot_id \<and> ph_status h \<in> set statuses) (pd_holds d))) =
      filter (\<lambda>h. k < ph_log_seq h) (own_rows bot_id statuses d)"
    unfolding own_rows_def filter_sorted_by ..
  then show ?thesis using Some assms listed_page [OF clamp_positive] decode_encoded_payload [of k kind kind]
    by (simp add: log_page_def list_proposals_for_bot_def log_cursor_kind_def rows_page_def Let_def)
qed

definition in_range :: "nat option \<Rightarrow> bool" where
  "in_range c = (\<forall>k. c = Some k \<longrightarrow> k < 2 ^ 63)"

lemma rows_page_in_range:
  assumes "\<forall>h \<in> set (pd_holds d). ph_log_seq h < 2 ^ 63"
  shows "in_range (snd (rows_page d bot_id statuses limit c))"
proof -
  have "\<forall>h \<in> set (own_rows bot_id statuses d). ph_log_seq h < 2 ^ 63"
    using assms by (simp add: own_rows_def)
  then have "in_range (snd (page_of n ph_log_seq xs))" if "set xs \<subseteq> set (own_rows bot_id statuses d)" for n xs
    using that in_set_takeD [OF last_in_set, of n xs] by (auto simp: page_of_def in_range_def)
  then show ?thesis by (cases c) (auto simp: rows_page_def)
qed

text \<open>
  C19. The bot's log feed is complete: starting without a cursor and following \<open>next_cursor\<close> while there
  is more, whatever the page size, returns every proposal of the bot with one of the requested statuses
  exactly once, in the order of the log, each as the bot may see it; the cursors survive their encoding.
\<close>

theorem log_feed_is_complete:
  assumes "proposals_ok d" and "\<forall>h \<in> set (pd_holds d). ph_log_seq h < 2 ^ 63"
    and "length (filter (\<lambda>h. ph_bot_id h = bot_id \<and> ph_status h \<in> set statuses) (pd_holds d)) \<le> clamp_limit limit * m"
  shows "walk_pages (log_page d bot_id statuses limit kind) m None =
    map bot_listed_proposal (sorted_by ph_log_seq
      (filter (\<lambda>h. ph_bot_id h = bot_id \<and> ph_status h \<in> set statuses) (pd_holds d)))"
proof -
  have "walk_pages (rows_page d bot_id statuses limit) m None = own_rows bot_id statuses d"
    using assms(3) by (intro bot_log.walk_all [OF assms(1) _ clamp_positive])
      (simp_all add: rows_page_def own_rows_def sorted_by_def)
  moreover have "walk_pages (log_page d bot_id statuses limit kind) m (map_option (encode_proposal_cursor kind) None) =
      map bot_listed_proposal (walk_pages (rows_page d bot_id statuses limit) m None)"
    by (rule walk_pages_encoded [where P = in_range])
      (simp_all add: log_page_rows in_range_def [symmetric] rows_page_in_range [OF assms(2)],
        simp_all add: in_range_def log_page_rows)
  ultimately show ?thesis by (simp add: own_rows_def)
qed

section \<open>The reviewer stays unknown\<close>

lemma without_append: "without k (xs @ ys) = without k xs @ without k ys"
  by (simp add: without_def)

lemma without_cons: "without k (p # xs) = (if fst p = k then without k xs else p # without k xs)"
  by (simp add: without_def)

lemma without_nil: "without k [] = []"
  by (simp add: without_def)

lemma without_entry: "without k (opt_entry j f x) = (if j = k then [] else opt_entry j f x)"
  by (cases x) (simp_all add: without_def opt_entry_def)

lemma replace_append: "replace_entry k v (xs @ ys) = replace_entry k v xs @ replace_entry k v ys"
  by (simp add: replace_entry_def)

lemma replace_cons: "replace_entry k v (p # xs) = (if fst p = k then (k, v) else p) # replace_entry k v xs"
  by (simp add: replace_entry_def)

lemma replace_nil: "replace_entry k v [] = []"
  by (simp add: replace_entry_def)

lemma replace_opt_entry: "j \<noteq> k \<Longrightarrow> replace_entry k v (opt_entry j f x) = opt_entry j f x"
  by (cases x) (simp_all add: replace_entry_def opt_entry_def)

lemma map_of_entry: "j \<noteq> k \<Longrightarrow> map_of (opt_entry j f x) k = None"
  by (cases x) (simp_all add: opt_entry_def)

lemmas redaction = without_append without_cons without_nil without_entry replace_append replace_cons
  replace_nil replace_opt_entry map_of_entry
  map_of_append map_add_def

definition shown_target :: "cross_brain \<Rightarrow> string \<times> string \<times> nat" where
  "shown_target c = (cb_target_sub c, cb_target_display_name c, length (cb_required_owner_subs c))"

lemma redacted_dict:
  "redact_bot_facing_dict (ph_decision_source h) (proposal_dict_with act elided h) =
   [(''proposal_id'', JId (ph_id h)), (''kind'', JStr (ph_kind h)),
      (''proposed_by_bot_id'', JStr (ph_bot_id h)), (''action'', act),
      (''rationale'', JStr (ph_rationale h)), (''confidence'', JStr (ph_confidence h)),
      (''importance'', JStr (ph_importance h)), (''impact'', JStr (ph_impact h)),
      (''priority'', JStr (ph_priority h)), (''status'', JStr (proposal_status_name (ph_status h))),
      (''created_at'', JInt (ph_created_at h))]
     @ opt_entry ''elided_action_fields'' id elided
     @ opt_entry ''decision_source'' (\<lambda>x. JStr (decision_source_name x)) (ph_decision_source h)
     @ (if ph_decision_source h = Some ByHuman then [] else opt_entry ''decided_by_actor_id'' JStr (ph_decided_by h))
     @ opt_entry ''decided_at'' JInt (ph_decided_at h)
     @ opt_entry ''decision_note'' JStr (ph_decision_note h)
     @ opt_entry ''decision_reason_code'' JStr (ph_reason_code h)
     @ opt_entry ''applied_at'' JInt (ph_applied_at h)
     @ opt_entry ''apply_error'' JStr (ph_apply_error h)
     @ opt_entry ''apply_result'' JObj (ph_apply_result h)
     @ opt_entry ''sender_agent_id'' JId (ph_sender_agent_id h)
     @ (case map_option shown_target (ph_cross_brain h) of None \<Rightarrow> []
        | Some (target, name, required) \<Rightarrow> [(''cross_brain'', JObj [(''target_sub'', JStr target),
            (''target_display_name'', JStr name), (''approvals_required'', JInt (int required)),
            (''approvals_received'', JInt (int (length (approvals_of h))))])])
     @ opt_entry ''labels'' labels_json (ph_labels h)"
proof (cases "ph_cross_brain h")
  case None
  then show ?thesis
    by (cases "ph_decision_source h = Some ByHuman")
      (simp_all add: redact_bot_facing_dict_def proposal_dict_with_def Let_def redaction)
next
  case (Some c)
  then show ?thesis
    by (cases "ph_decision_source h = Some ByHuman"; cases "ph_approvals h")
      (simp_all add: redact_bot_facing_dict_def proposal_dict_with_def Let_def redaction shown_target_def
        cross_brain_json_def approvals_json_def approvals_of_def json_get_def json_length_def or_null_def)
qed

text \<open>
  C18. The bot never learns who reviewed its proposal. What \<open>_bot_facing_proposal_dict\<close> returns, for a
  single proposal and in a listing, is the same for two rows that differ only in the reviewer of a human
  decision, the owner, the other agent's owners and addresses, the stand-in rule and what the approvals
  contain; of a cross-brain proposal it depends on the target's name and two numbers only.
\<close>

theorem reviewers_stay_unknown:
  assumes "ph_decision_source h = Some ByHuman \<or> reviewer = ph_decided_by h"
    and "map_option shown_target cross = map_option shown_target (ph_cross_brain h)"
    and "length (case approvals of None \<Rightarrow> [] | Some xs \<Rightarrow> xs) = length (approvals_of h)"
    and "h' = h\<lparr>ph_owner_sub := owner, ph_decided_by := reviewer, ph_cross_brain := cross, ph_approvals := approvals\<rparr>"
  shows "bot_facing_proposal_dict h' = bot_facing_proposal_dict h \<and> bot_listed_proposal h' = bot_listed_proposal h"
proof -
  have count: "length (approvals_of h') = length (approvals_of h)"
    using assms(3, 4) by (simp add: approvals_of_def)
  have "redact_bot_facing_dict (ph_decision_source h') (proposal_dict_with act elided h') =
      redact_bot_facing_dict (ph_decision_source h) (proposal_dict_with act elided h)" for act elided
    unfolding redacted_dict count using assms(1, 2) by (auto simp: assms(4))
  moreover have "elided_content h' = elided_content h" by (simp add: assms(4) elided_content_def)
  then have "ph_action h' = ph_action h" "projected_action h' = projected_action h" "elided_fields h' = elided_fields h"
    by (simp_all add: assms(4) projected_action_def elided_fields_def)
  ultimately show ?thesis
    by (simp add: bot_facing_proposal_dict_def bot_listed_proposal_def proposal_dict_def listed_proposal_def)
qed

section \<open>Witnesses\<close>

theorem log_feed_misses_no_change_witness:
  "\<exists>h h'. h \<in> set (pd_holds (sy_db race_approved)) \<and> h' \<in> set (pd_holds (sy_db race_run)) \<and>
     h \<noteq> h' \<and> ph_log_seq h < ph_log_seq h'"
proof -
  have steps: "(proposal_step env)\<^sup>*\<^sup>* s (drive env s es)" for env s es
  proof (induction env s es rule: drive.induct)
    case (2 env s rq es)
    then show ?case using proposal_step.arrives [of env s rq] by (simp add: converse_rtranclp_into_rtranclp)
  next
    case (3 env s k es)
    then show ?case using proposal_step.advances [of k s env]
      by (auto intro: converse_rtranclp_into_rtranclp)
  qed simp
  obtain h where h: "pd_holds (sy_db race_approved) = [h]" "ph_status h = PhApplying"
    using race_approved_row(1) by auto
  obtain h' where h': "pd_holds (sy_db race_run) = [h']" "ph_status h' = PhApplied"
    using race_applied_call(2) by auto
  have ne: "h \<noteq> h'" using h(2) h'(2) by auto
  have "ph_bot_id h = ph_bot_id h'"
  proof -
    have "map ph_bot_id (pd_holds (sy_db race_approved)) = map ph_bot_id (pd_holds (sy_db race_run))"
      by code_simp
    then show ?thesis using h(1) h'(1) by simp
  qed
  moreover have "(proposal_step (demo_env False))\<^sup>*\<^sup>* race_approved race_run"
    unfolding race_run_def by (rule steps)
  ultimately have "ph_log_seq h < ph_log_seq h'"
    using log_feed_misses_no_change [OF race_reachable(1), of race_run h' h] h h' ne by simp
  then show ?thesis using h(1) h'(1) ne by auto
qed

theorem log_feed_is_complete_witness:
  "walk_pages (log_page (sy_db auto_run) ''b'' [PhApplied] 1 ''history'') 1 None =
     map bot_listed_proposal (sorted_by ph_log_seq
       (filter (\<lambda>h. ph_bot_id h = ''b'' \<and> ph_status h \<in> set [PhApplied]) (pd_holds (sy_db auto_run)))) \<and>
   length (filter (\<lambda>h. ph_bot_id h = ''b'' \<and> ph_status h \<in> set [PhApplied]) (pd_holds (sy_db auto_run))) = 1"
proof
  have ok: "proposals_ok (sy_db auto_run)"
    using reachable_ok [OF auto_run_reachable] by (simp add: system_ok_def table_ok_def)
  obtain h where h: "pd_holds (sy_db auto_run) = [h]" "ph_log_seq h = 3"
    using auto_run_state(2) by auto
  show one: "length (filter (\<lambda>h. ph_bot_id h = ''b'' \<and> ph_status h \<in> set [PhApplied]) (pd_holds (sy_db auto_run))) = 1"
    by code_simp
  show "walk_pages (log_page (sy_db auto_run) ''b'' [PhApplied] 1 ''history'') 1 None =
     map bot_listed_proposal (sorted_by ph_log_seq
       (filter (\<lambda>h. ph_bot_id h = ''b'' \<and> ph_status h \<in> set [PhApplied]) (pd_holds (sy_db auto_run))))"
    by (rule log_feed_is_complete [OF ok])
      (use h one in \<open>simp_all add: clamp_limit_def\<close>)
qed

theorem reviewers_stay_unknown_witness:
  "\<exists>h. pd_holds (sy_db human_run) = [h] \<and>
     bot_facing_proposal_dict (h\<lparr>ph_owner_sub := ''x'', ph_decided_by := Some ''x'', ph_cross_brain := None,
       ph_approvals := None\<rparr>) = bot_facing_proposal_dict h"
proof -
  obtain h where h: "pd_holds (sy_db human_run) = [h]"
    using human_run_state(2) by auto
  have "map ph_decision_source (pd_holds (sy_db human_run)) = [Some ByHuman]"
    "map ph_cross_brain (pd_holds (sy_db human_run)) = [None]"
    "map ph_approvals (pd_holds (sy_db human_run)) = [None]"
    by code_simp+
  then have "ph_decision_source h = Some ByHuman" "ph_cross_brain h = None" "ph_approvals h = None"
    using h by simp_all
  then show ?thesis using h
    reviewers_stay_unknown [of h "Some ''x''" None None _ "''x''", OF _ _ _ HOL.refl]
    by (simp add: approvals_of_def)
qed

end
