(* ===== verification/ApplyConfig.thy ===== *)
theory ApplyConfig
  imports Complex_Main ProposalRules
begin

text \<open>
  The configuration of the apply client (\<open>proposal_apply_http_client.py\<close>): the numeric, host-name and
  proxy settings read from the environment, with the part of Python's \<open>float()\<close> they rest
  on, and the check made of all of them when the process starts. A finite float is the rational it
  denotes; that a decimal literal is rounded to the nearest double is modelled at the two ends of
  the range only. \<open>urlsplit\<close> and \<open>ipaddress\<close> are functions of the environment.
\<close>

section \<open>Constants\<close>

definition PROPOSAL_APPLY_URL :: string where "PROPOSAL_APPLY_URL = ''PROPOSAL_APPLY_URL''"
definition PROPOSAL_APPLY_TOKEN :: string where "PROPOSAL_APPLY_TOKEN = ''PROPOSAL_APPLY_TOKEN''"
definition PROPOSAL_APPLY_TLS_SNI_HOST :: string where
  "PROPOSAL_APPLY_TLS_SNI_HOST = ''PROPOSAL_APPLY_TLS_SNI_HOST''"
definition PROPOSAL_APPLY_TIMEOUT_SECONDS :: string where
  "PROPOSAL_APPLY_TIMEOUT_SECONDS = ''PROPOSAL_APPLY_TIMEOUT_SECONDS''"
definition PROPOSAL_APPLY_MAX_ATTEMPTS :: string where
  "PROPOSAL_APPLY_MAX_ATTEMPTS = ''PROPOSAL_APPLY_MAX_ATTEMPTS''"
definition PROPOSAL_APPLY_RETRY_BACKOFF_SECONDS :: string where
  "PROPOSAL_APPLY_RETRY_BACKOFF_SECONDS = ''PROPOSAL_APPLY_RETRY_BACKOFF_SECONDS''"
definition PROPOSAL_APPLY_RETRY_BUDGET_SECONDS :: string where
  "PROPOSAL_APPLY_RETRY_BUDGET_SECONDS = ''PROPOSAL_APPLY_RETRY_BUDGET_SECONDS''"
definition TAILNET_HTTP_PROXY :: string where "TAILNET_HTTP_PROXY = ''TAILNET_HTTP_PROXY''"

lemmas variable_defs =
  PROPOSAL_APPLY_URL_def PROPOSAL_APPLY_TOKEN_def PROPOSAL_APPLY_TLS_SNI_HOST_def
  PROPOSAL_APPLY_TIMEOUT_SECONDS_def PROPOSAL_APPLY_MAX_ATTEMPTS_def
  PROPOSAL_APPLY_RETRY_BACKOFF_SECONDS_def PROPOSAL_APPLY_RETRY_BUDGET_SECONDS_def
  TAILNET_HTTP_PROXY_def

definition DEFAULT_TIMEOUT_SECONDS :: rat where "DEFAULT_TIMEOUT_SECONDS = 15"
definition DEFAULT_MAX_ATTEMPTS :: nat where "DEFAULT_MAX_ATTEMPTS = 3"
definition DEFAULT_RETRY_BACKOFF_SECONDS :: rat where "DEFAULT_RETRY_BACKOFF_SECONDS = 1 / 2"
definition DEFAULT_RETRY_BUDGET_SECONDS :: rat where "DEFAULT_RETRY_BUDGET_SECONDS = 45"
definition MAX_BACKOFF_SLEEP_SECONDS :: rat where "MAX_BACKOFF_SLEEP_SECONDS = 4"
definition MIN_REMAINING_BUDGET_FOR_RETRY_SECONDS :: rat where
  "MIN_REMAINING_BUDGET_FOR_RETRY_SECONDS = 2"

section \<open>\<open>float()\<close> of a string\<close>

datatype py_float = Finite rat | Infinite | NotANumber

text \<open>Decimal digits with single underscores between them: the digits read and what follows.\<close>

definition underscore_digit :: "string \<Rightarrow> bool" where
  "underscore_digit s = (case s of u # d # r \<Rightarrow> u = CHR ''_'' \<and> is_digit d | _ \<Rightarrow> False)"

function digits_part :: "string \<Rightarrow> string \<times> string" where
  "digits_part [] = ([], [])"
| "digits_part (c # s) =
     (if \<not> is_digit c then ([], c # s)
      else map_prod (Cons c) id (digits_part (if underscore_digit s then tl s else s)))"
  by pat_completeness auto

termination by (relation "measure length") (auto simp: less_Suc_eq_le)

text \<open>An optional sign: whether it is a minus, and what follows.\<close>

definition sign_part :: "string \<Rightarrow> bool \<times> string" where
  "sign_part s =
     (if starts_with s ''-'' then (True, drop 1 s)
      else (False, if starts_with s ''+'' then drop 1 s else s))"

text \<open>The exponent of a numeral: absent, or \<open>e\<close> with an optional sign and digits to the end.\<close>

definition exponent_of :: "string \<Rightarrow> int option" where
  "exponent_of s =
     (case s of
        [] \<Rightarrow> Some 0
      | c # r \<Rightarrow>
          if c = CHR ''e'' \<or> c = CHR ''E''
          then let (neg, t) = sign_part r; (ds, u) = digits_part t
               in if ds = [] \<or> u \<noteq> [] then None
                  else Some (if neg then - int (undec ds) else int (undec ds))
          else None)"

definition scaled :: "int \<Rightarrow> int \<Rightarrow> rat" where
  "scaled m e = (if 0 \<le> e then of_int (m * 10 ^ nat e) else of_int m / of_int (10 ^ nat (- e)))"

text \<open>What is too large for a double is infinite, what is too small is zero.\<close>

definition double_of :: "rat \<Rightarrow> py_float" where
  "double_of q =
     (if 2 ^ 1024 - 2 ^ 970 \<le> \<bar>q\<bar> then Infinite
      else if \<bar>q\<bar> * 2 ^ 1075 \<le> 1 then Finite 0
      else Finite q)"

definition parse_float :: "string \<Rightarrow> py_float option" where
  "parse_float raw =
     (let (neg, s) = sign_part (str_strip raw);
          word = str_lower s;
          (whole, r) = digits_part s;
          (frac, t) = (if starts_with r ''.'' then digits_part (drop 1 r) else ([], r))
      in if word = ''inf'' \<or> word = ''infinity'' then Some Infinite
         else if word = ''nan'' then Some NotANumber
         else if whole = [] \<and> frac = [] then None
         else map_option
           (\<lambda>e. double_of ((if neg then - 1 else 1) *
                  scaled (int (undec (whole @ frac))) (e - int (length frac))))
           (exponent_of t))"

section \<open>The readers\<close>

type_synonym environ = "string \<Rightarrow> string option"

definition read_env :: "environ \<Rightarrow> string \<Rightarrow> string" where
  "read_env vars name = (case vars name of None \<Rightarrow> [] | Some s \<Rightarrow> s)"

text \<open>\<open>Inl\<close> carries the text of the \<open>ValueError\<close>.\<close>

definition read_timeout_seconds :: "environ \<Rightarrow> string + rat" where
  "read_timeout_seconds vars =
     (let raw = read_env vars PROPOSAL_APPLY_TIMEOUT_SECONDS in
      if raw = [] then Inr DEFAULT_TIMEOUT_SECONDS
      else case parse_float raw of
          None \<Rightarrow> Inl (PROPOSAL_APPLY_TIMEOUT_SECONDS @ '' is not a number: '' @ py_repr raw)
        | Some (Finite q) \<Rightarrow>
            if q \<le> 0
            then Inl (PROPOSAL_APPLY_TIMEOUT_SECONDS @ '' must be a finite, positive number: '' @ py_repr raw)
            else Inr q
        | Some _ \<Rightarrow>
            Inl (PROPOSAL_APPLY_TIMEOUT_SECONDS @ '' must be a finite, positive number: '' @ py_repr raw))"

definition read_max_attempts :: "environ \<Rightarrow> string + nat" where
  "read_max_attempts vars =
     (let raw = read_env vars PROPOSAL_APPLY_MAX_ATTEMPTS;
          err = PROPOSAL_APPLY_MAX_ATTEMPTS @ '' must be an integer between 1 and 10: '' @ py_repr raw
      in if raw = [] then Inr DEFAULT_MAX_ATTEMPTS
         else case py_int (str_strip raw) of
             None \<Rightarrow> Inl err
           | Some n \<Rightarrow> if 1 \<le> n \<and> n \<le> 10 then Inr (nat n) else Inl err)"

definition read_retry_backoff_seconds :: "environ \<Rightarrow> string + rat" where
  "read_retry_backoff_seconds vars =
     (let raw = read_env vars PROPOSAL_APPLY_RETRY_BACKOFF_SECONDS;
          err = PROPOSAL_APPLY_RETRY_BACKOFF_SECONDS @ '' must be a finite, positive number: '' @ py_repr raw
      in if raw = [] then Inr DEFAULT_RETRY_BACKOFF_SECONDS
         else case parse_float raw of
             Some (Finite q) \<Rightarrow> if q \<le> 0 then Inl err else Inr q
           | _ \<Rightarrow> Inl err)"

definition read_retry_budget_seconds :: "environ \<Rightarrow> string + rat" where
  "read_retry_budget_seconds vars =
     (let raw = read_env vars PROPOSAL_APPLY_RETRY_BUDGET_SECONDS;
          err = PROPOSAL_APPLY_RETRY_BUDGET_SECONDS @ '' must be a finite number >= 2.0: '' @ py_repr raw
      in if raw = [] then Inr DEFAULT_RETRY_BUDGET_SECONDS
         else case parse_float raw of
             Some (Finite q) \<Rightarrow>
               if q < MIN_REMAINING_BUDGET_FOR_RETRY_SECONDS then Inl err else Inr q
           | _ \<Rightarrow> Inl err)"

text \<open>Labels of letters, digits and inner hyphens, separated by dots.\<close>

definition is_alnum :: "char \<Rightarrow> bool" where
  "is_alnum c = (is_digit c \<or> is_lower_az c \<or> is_upper_az c)"

definition host_label :: "string \<Rightarrow> bool" where
  "host_label s =
     (s \<noteq> [] \<and> is_alnum (hd s) \<and> is_alnum (last s) \<and> list_all (\<lambda>c. is_alnum c \<or> c = CHR ''-'') s)"

definition is_hostname :: "string \<Rightarrow> bool" where
  "is_hostname s = list_all host_label (split_on CHR ''.'' s)"

definition read_tls_sni_host :: "environ \<Rightarrow> string + string option" where
  "read_tls_sni_host vars =
     (let host = read_env vars PROPOSAL_APPLY_TLS_SNI_HOST in
      if host = [] then Inr None
      else if is_hostname host then Inr (Some host)
      else Inl (PROPOSAL_APPLY_TLS_SNI_HOST @ '' is not a bare hostname: '' @ py_repr host))"

record apply_config =
  cg_timeout :: rat
  cg_max_attempts :: nat
  cg_backoff :: rat
  cg_budget :: rat
  cg_sni_host :: "string option"

text \<open>The five readers in the order both callers run them: the first error wins.\<close>

definition read_configuration :: "environ \<Rightarrow> string + apply_config" where
  "read_configuration vars =
     (case read_timeout_seconds vars of Inl e \<Rightarrow> Inl e | Inr t \<Rightarrow>
      case read_max_attempts vars of Inl e \<Rightarrow> Inl e | Inr n \<Rightarrow>
      case read_retry_backoff_seconds vars of Inl e \<Rightarrow> Inl e | Inr b \<Rightarrow>
      case read_retry_budget_seconds vars of Inl e \<Rightarrow> Inl e | Inr g \<Rightarrow>
      case read_tls_sni_host vars of Inl e \<Rightarrow> Inl e | Inr h \<Rightarrow>
      Inr \<lparr>cg_timeout = t, cg_max_attempts = n, cg_backoff = b, cg_budget = g, cg_sni_host = h\<rparr>)"

section \<open>The proxy and the start-up check\<close>

text \<open>What \<open>urlsplit\<close> finds in a URL; \<open>None\<close> for the port: reading it raises or there is none.\<close>

record url_parts =
  up_scheme :: string
  up_host :: "string option"
  up_port :: "string + nat option"

record config_env =
  ce_vars :: environ
  ce_urlsplit :: "string \<Rightarrow> string + url_parts"
  ce_loopback :: "string \<Rightarrow> bool option"
  ce_plugin_mounts :: "bool outcome option"

text \<open>Whether the requests to the tail net go through the side-car's proxy.\<close>

definition tailnet_proxy_mounts_fallback :: "config_env \<Rightarrow> bool outcome" where
  "tailnet_proxy_mounts_fallback env =
     (let url = str_strip (read_env (ce_vars env) TAILNET_HTTP_PROXY) in
      if url = [] then Returned False
      else case ce_urlsplit env url of
          Inl e \<Rightarrow> Raised ''ValueError'' e
        | Inr parts \<Rightarrow>
            let host = (case up_host parts of None \<Rightarrow> [] | Some h \<Rightarrow> h);
                loopback = (host = ''localhost'' \<or> ce_loopback env host = Some True);
                err = TAILNET_HTTP_PROXY @ '' must be http://<loopback>:<port>, got '' @ py_repr url
            in if up_scheme parts \<noteq> ''http'' \<or> \<not> loopback then Raised ''ValueError'' err
               else case up_port parts of
                   Inl e \<Rightarrow> Raised ''ValueError'' e
                 | Inr None \<Rightarrow> Raised ''ValueError'' err
                 | Inr (Some p) \<Rightarrow> Returned True)"

definition tailnet_proxy_mounts :: "config_env \<Rightarrow> bool outcome" where
  "tailnet_proxy_mounts env =
     (case ce_plugin_mounts env of
        None \<Rightarrow> tailnet_proxy_mounts_fallback env
      | Some r \<Rightarrow> r)"

definition rstrip_slash :: "string \<Rightarrow> string" where
  "rstrip_slash s = rev (dropWhile (\<lambda>c. c = CHR ''/'') (rev s))"

definition apply_base_url :: "environ \<Rightarrow> string" where
  "apply_base_url vars = rstrip_slash (read_env vars PROPOSAL_APPLY_URL)"

definition bad_scheme_message :: "url_parts \<Rightarrow> string" where
  "bad_scheme_message parts =
     PROPOSAL_APPLY_URL @ '' must be an https:// URL, got scheme='' @
     py_repr (if up_scheme parts = [] then ''unknown'' else up_scheme parts)"

definition validate_proposal_apply_configuration :: "config_env \<Rightarrow> unit outcome" where
  "validate_proposal_apply_configuration env =
     (let base_url = apply_base_url (ce_vars env) in
      if base_url = [] then
        Raised ''RuntimeError''
          (PROPOSAL_APPLY_URL @ '' is required for HttpApplyProposalJudge but is not set'')
      else if \<not> starts_with base_url ''https://'' then
        (case ce_urlsplit env base_url of
           Inl e \<Rightarrow> Raised ''ValueError'' e
         | Inr parts \<Rightarrow> Raised ''RuntimeError'' (bad_scheme_message parts))
      else if read_env (ce_vars env) PROPOSAL_APPLY_TOKEN = [] then
        Raised ''RuntimeError''
          (PROPOSAL_APPLY_TOKEN @ '' is required for HttpApplyProposalJudge but is not set'')
      else case read_configuration (ce_vars env) of
          Inl e \<Rightarrow> Raised ''RuntimeError'' e
        | Inr cfg \<Rightarrow>
            (case tailnet_proxy_mounts env of
               Returned b \<Rightarrow> Returned ()
             | Raised n m \<Rightarrow>
                 if n = ''ValueError'' then Raised ''RuntimeError'' m
                 else Raised ''RuntimeError'' (''failed to initialize HTTP client transport: '' @ m)
             | Cancelled \<Rightarrow> Cancelled))"

section \<open>What a configuration that is read satisfies\<close>

definition config_ok :: "apply_config \<Rightarrow> bool" where
  "config_ok cfg =
     (0 < cg_timeout cfg \<and> 1 \<le> cg_max_attempts cfg \<and> cg_max_attempts cfg \<le> 10 \<and>
      0 < cg_backoff cfg \<and> MIN_REMAINING_BUDGET_FOR_RETRY_SECONDS \<le> cg_budget cfg \<and>
      (\<forall>h. cg_sni_host cfg = Some h \<longrightarrow> is_hostname h))"

lemma read_timeout_seconds_pos: "read_timeout_seconds vars = Inr t \<Longrightarrow> 0 < t"
  by (auto simp: read_timeout_seconds_def DEFAULT_TIMEOUT_SECONDS_def Let_def
      split: if_splits option.splits py_float.splits)

lemma read_max_attempts_range: "read_max_attempts vars = Inr n \<Longrightarrow> 1 \<le> n \<and> n \<le> 10"
  by (auto simp: read_max_attempts_def DEFAULT_MAX_ATTEMPTS_def Let_def split: if_splits option.splits)

lemma read_retry_backoff_seconds_pos: "read_retry_backoff_seconds vars = Inr b \<Longrightarrow> 0 < b"
  by (auto simp: read_retry_backoff_seconds_def DEFAULT_RETRY_BACKOFF_SECONDS_def Let_def
      split: if_splits option.splits py_float.splits)

lemma read_retry_budget_seconds_least:
  "read_retry_budget_seconds vars = Inr g \<Longrightarrow> MIN_REMAINING_BUDGET_FOR_RETRY_SECONDS \<le> g"
  by (auto simp: read_retry_budget_seconds_def DEFAULT_RETRY_BUDGET_SECONDS_def Let_def
      MIN_REMAINING_BUDGET_FOR_RETRY_SECONDS_def split: if_splits option.splits py_float.splits)

lemma read_tls_sni_host_ok: "read_tls_sni_host vars = Inr (Some h) \<Longrightarrow> is_hostname h"
  by (auto simp: read_tls_sni_host_def Let_def split: if_splits)

lemma read_configuration_ok: "read_configuration vars = Inr cfg \<Longrightarrow> config_ok cfg"
  by (auto simp: read_configuration_def config_ok_def split: sum.splits
      dest: read_timeout_seconds_pos read_max_attempts_range read_retry_backoff_seconds_pos
        read_retry_budget_seconds_least read_tls_sni_host_ok)

end
