(* ===== verification/ApplyClient.thy ===== *)
theory ApplyClient
  imports ApplyConfig ProposalCodec
begin

text \<open>
  The apply client (\<open>proposal_apply_http_client.py\<close>): what one attempt's exception or response means,
  and \<open>apply_proposal\<close>, the retry loop under a wall-clock budget. The transport, the clock, the random
  jitter and cancellation are functions of the environment; the loop returns, beside its outcome, the
  attempts it made. Log lines are left out, and so is closing the HTTP client.
\<close>

section \<open>What one attempt means\<close>

datatype disposition = Decided | DefiniteClean | DefiniteTerminal | Ambiguous

text \<open>\<open>hr_json\<close> is \<open>response.json()\<close>: the text of the exception it raises, or the value.\<close>

record http_response =
  hr_status :: int
  hr_json :: "string + json"

text \<open>How a request ends: a response, an exception (its class and text), or the caller's cancellation.\<close>

datatype post_result = Responded http_response | PostRaised string string | PostCancelled

text \<open>\<open>float.__repr__\<close> and the number format of \<open>json.dumps\<close>.\<close>

record formats =
  fm_float_repr :: "(int \<times> int) option \<Rightarrow> string"
  fm_float_json :: "(int \<times> int) option \<Rightarrow> string"
  fm_id :: "nat \<Rightarrow> string"

primrec json_repr :: "formats \<Rightarrow> json \<Rightarrow> string" where
  "json_repr fm JNull = ''None''"
| "json_repr fm (JBool b) = (if b then ''True'' else ''False'')"
| "json_repr fm (JInt n) = int_text n"
| "json_repr fm (JFloat x) = fm_float_repr fm x"
| "json_repr fm (JStr s) = py_repr s"
| "json_repr fm (JId n) = py_repr (fm_id fm n)"
| "json_repr fm (JList xs) = ''['' @ join '', '' (map (json_repr fm) xs) @ '']''"
| "json_repr fm (JObj kvs) =
     CHR 0x7B # join '', ''
       (map (\<lambda>kv. py_repr (fst kv) @ '': '' @ snd kv) (map (map_prod id (json_repr fm)) kvs)) @ [CHR 0x7D]"

fun json_str :: "formats \<Rightarrow> json \<Rightarrow> string" where
  "json_str fm (JStr s) = s"
| "json_str fm (JId n) = fm_id fm n"
| "json_str fm j = json_repr fm j"

fun json_type :: "json \<Rightarrow> string" where
  "json_type JNull = ''NoneType''"
| "json_type (JBool b) = ''bool''"
| "json_type (JInt n) = ''int''"
| "json_type (JFloat x) = ''float''"
| "json_type (JStr s) = ''str''"
| "json_type (JId n) = ''str''"
| "json_type (JList xs) = ''list''"
| "json_type (JObj kvs) = ''dict''"

fun is_object :: "json \<Rightarrow> bool" where
  "is_object (JObj kvs) = True"
| "is_object j = False"

text \<open>Only text reaches this helper; anything else is rendered by its callers first.\<close>

definition sanitize_log_field :: "string \<Rightarrow> string" where
  "sanitize_log_field s =
     map (\<lambda>c. if c = CHR 0x0A \<or> c = CHR 0x0D then CHR '' '' else c) (take 200 s)"

definition not_applied :: "string \<Rightarrow> string \<Rightarrow> bool \<Rightarrow> apply_outcome" where
  "not_applied caller_error log_detail indeterminate =
     \<lparr>ao_applied = False, ao_result = None, ao_caller_error = Some caller_error,
      ao_log_detail = Some log_detail, ao_indeterminate = indeterminate\<rparr>"

text \<open>The exceptions raised before a request can have reached the service.\<close>

definition clean_exceptions :: "string list" where
  "clean_exceptions =
     [''ConnectError'', ''ConnectTimeout'', ''PoolTimeout'', ''UnsupportedProtocol'',
      ''LocalProtocolError'', ''InvalidURL'', ''ProxyError'']"

definition classify_exception :: "string \<Rightarrow> string \<Rightarrow> disposition \<times> apply_outcome" where
  "classify_exception name msg =
     (let safe_exc = sanitize_log_field msg in
      if name \<in> set clean_exceptions
      then (DefiniteClean,
            not_applied ''proposal apply service unreachable'' (''connection failed: '' @ safe_exc) False)
      else (Ambiguous,
            not_applied ''proposal apply service unreachable''
              (''transport failure (ambiguous): '' @ safe_exc) True))"

definition extract_detail :: "formats \<Rightarrow> http_response \<Rightarrow> string option" where
  "extract_detail fm response =
     (case hr_json response of
        Inl e \<Rightarrow> None
      | Inr data \<Rightarrow>
          (case json_get data ''detail'' of
             Some (JStr s) \<Rightarrow> Some s
           | Some (JList xs) \<Rightarrow> Some (json_dumps (fm_float_json fm) (fm_id fm) (JList xs))
           | _ \<Rightarrow> None))"

definition text_or :: "string option \<Rightarrow> string \<Rightarrow> string" where
  "text_or x y = (case x of None \<Rightarrow> y | Some s \<Rightarrow> if s = [] then y else s)"

text \<open>\<open>f"{x}"\<close> of an optional string.\<close>

definition opt_text :: "string option \<Rightarrow> string" where
  "opt_text x = (case x of None \<Rightarrow> ''None'' | Some s \<Rightarrow> s)"

definition malformed_response :: "string \<Rightarrow> disposition \<times> apply_outcome" where
  "malformed_response log_detail =
     (Ambiguous, not_applied ''proposal apply service returned malformed response'' log_detail True)"

text \<open>The body of a response of status 200.\<close>

definition classify_body :: "formats \<Rightarrow> json \<Rightarrow> disposition \<times> apply_outcome" where
  "classify_body fm body =
     (case body of
        JObj kvs \<Rightarrow>
          (case json_get body ''applied'' of
             Some (JBool applied) \<Rightarrow>
               let result = (case json_get body ''result'' of None \<Rightarrow> JNull | Some r \<Rightarrow> r) in
               if result \<noteq> JNull \<and> \<not> is_object result
               then malformed_response (''response result field is not a dict: '' @ json_type result)
               else
                 let caller_error =
                   (case json_get body ''caller_error'' of
                      None \<Rightarrow> None
                    | Some JNull \<Rightarrow> None
                    | Some e \<Rightarrow> Some (sanitize_log_field (json_str fm e)))
                 in if applied
                    then (Decided,
                      \<lparr>ao_applied = True,
                       ao_result = (case result of JObj d \<Rightarrow> Some d | _ \<Rightarrow> None),
                       ao_caller_error = None, ao_log_detail = None, ao_indeterminate = False\<rparr>)
                    else if truthy (json_get body ''indeterminate'')
                    then (Ambiguous, not_applied (text_or caller_error ''apply indeterminate'')
                      (''proposal apply outcome was indeterminate: '' @ opt_text caller_error) True)
                    else (Decided, not_applied (text_or caller_error ''apply failed'')
                      (''proposal apply outcome was applied=false: '' @ opt_text caller_error) False)
           | other \<Rightarrow>
               malformed_response (''response applied field is not a bool: '' @
                 json_repr fm (case other of None \<Rightarrow> JNull | Some v \<Rightarrow> v)))
      | _ \<Rightarrow> malformed_response (''response JSON was not an object: '' @ json_type body))"

definition classify_response :: "formats \<Rightarrow> http_response \<Rightarrow> disposition \<times> apply_outcome" where
  "classify_response fm response =
     (let status = hr_status response in
      if status = 401 \<or> status = 403
      then (DefiniteTerminal, not_applied ''server configuration error''
        (''proposal apply proxy rejected credentials (status '' @ int_text status @ '')'') False)
      else if status = 422
      then (let safe_detail = sanitize_log_field (text_or (extract_detail fm response) ''unprocessable entity'') in
            (DefiniteTerminal, not_applied ''proposal apply request was rejected as malformed''
              (''proposal apply rejected (422): '' @ safe_detail) False))
      else if status = 409
      then (let safe_detail = sanitize_log_field (text_or (extract_detail fm response) ''conflict'') in
            (Ambiguous, not_applied (''proposal apply conflict: '' @ safe_detail)
              (''proposal apply conflict: '' @ safe_detail) True))
      else if 500 \<le> status
      then (Ambiguous, not_applied ''proposal apply service unavailable''
        (''proposal apply proxy returned server error (status '' @ int_text status @ '')'') True)
      else if status \<noteq> 200
      then (DefiniteTerminal, not_applied ''proposal apply service returned unexpected status''
        (''proposal apply proxy returned unexpected status '' @ int_text status) False)
      else case hr_json response of
          Inl e \<Rightarrow> malformed_response (''response body was not valid JSON: '' @ sanitize_log_field e)
        | Inr body \<Rightarrow> classify_body fm body)"

text \<open>One request: a time-out of the wall-clock budget counts as a read time-out.\<close>

definition classify_post :: "formats \<Rightarrow> post_result \<Rightarrow> (disposition \<times> apply_outcome) option" where
  "classify_post fm r =
     (case r of
        Responded response \<Rightarrow> Some (classify_response fm response)
      | PostRaised name msg \<Rightarrow>
          Some (if name = ''TimeoutError''
                then classify_exception ''ReadTimeout'' (''wall-clock retry budget expired: '' @ msg)
                else classify_exception name msg)
      | PostCancelled \<Rightarrow> None)"

section \<open>The retry loop\<close>

record apply_request =
  rq_url :: string
  rq_token :: string
  rq_payload :: "(string \<times> json) list"

text \<open>
  The clock by the number of the reading, the transport by the number of the attempt, its request and
  its time-out, the jitter as a fraction of the base sleep, and whether a sleep is cancelled.
\<close>

record client_env =
  cn_config :: config_env
  cn_formats :: formats
  cn_new_client :: "string option"
  cn_clock :: "nat \<Rightarrow> rat"
  cn_post :: "nat \<Rightarrow> apply_request \<Rightarrow> rat \<Rightarrow> post_result"
  cn_jitter :: "nat \<Rightarrow> rat"
  cn_sleep_cancelled :: "nat \<Rightarrow> bool"

text \<open>An attempt as it was made: when, with which time-out, how it ended, how long the loop then slept.\<close>

record attempt_made =
  am_number :: nat
  am_at :: rat
  am_timeout :: rat
  am_result :: post_result
  am_sleep :: "rat option"

record retry_state =
  ry_reads :: nat
  ry_ambiguous :: bool
  ry_last :: "apply_outcome option"
  ry_made :: "attempt_made list"

datatype retry_end = Answer apply_outcome | Exhausted | RetryCancelled

definition unconfirmed :: "nat \<Rightarrow> string \<Rightarrow> apply_outcome" where
  "unconfirmed attempts log_detail =
     not_applied (''apply outcome could not be confirmed after '' @ dec attempts @
       '' attempts; awaiting manual reconciliation'') log_detail True"

definition backoff_sleep :: "apply_config \<Rightarrow> nat \<Rightarrow> rat \<Rightarrow> rat \<Rightarrow> rat" where
  "backoff_sleep cfg attempt jitter remaining =
     (let base_sleep = min (cg_backoff cfg * 2 ^ (attempt - 1)) MAX_BACKOFF_SLEEP_SECONDS
      in min (jitter * base_sleep) (max 0 (remaining - MIN_REMAINING_BUDGET_FOR_RETRY_SECONDS)))"

definition attempt_of ::
  "client_env \<Rightarrow> apply_config \<Rightarrow> apply_request \<Rightarrow> nat \<Rightarrow> rat \<Rightarrow> rat \<Rightarrow> attempt_made" where
  "attempt_of env cfg rq attempt now remaining =
     (let tm = min (cg_timeout cfg) remaining in
      \<lparr>am_number = attempt, am_at = now, am_timeout = tm,
       am_result = cn_post env attempt rq tm, am_sleep = None\<rparr>)"

text \<open>\<open>attempt\<close> is the loop variable and \<open>left\<close> the iterations still to come, this one included.\<close>

fun retry_loop ::
  "client_env \<Rightarrow> apply_config \<Rightarrow> apply_request \<Rightarrow> rat \<Rightarrow> nat \<Rightarrow> nat \<Rightarrow> retry_state \<Rightarrow>
     retry_state \<times> retry_end" where
  "retry_loop env cfg rq deadline 0 attempt st = (st, Exhausted)"
| "retry_loop env cfg rq deadline (Suc left) attempt st =
     (let now = cn_clock env (ry_reads st);
          remaining = deadline - now;
          st1 = st\<lparr>ry_reads := Suc (ry_reads st)\<rparr>
      in if remaining \<le> 0 \<or> (1 < attempt \<and> remaining < MIN_REMAINING_BUDGET_FOR_RETRY_SECONDS)
         then (st1, Exhausted)
         else
           let a = attempt_of env cfg rq attempt now remaining;
               st2 = st1\<lparr>ry_made := ry_made st @ [a]\<rparr>
           in case classify_post (cn_formats env) (am_result a) of
                None \<Rightarrow> (st2, RetryCancelled)
              | Some (disp, oc) \<Rightarrow>
                  let st3 = st2\<lparr>ry_last := Some oc\<rparr> in
                  (case disp of
                     Decided \<Rightarrow> (st3, Answer oc)
                   | Ambiguous \<Rightarrow>
                       let st4 = st3\<lparr>ry_ambiguous := True\<rparr> in
                       if left = 0 then (st4, Exhausted)
                       else
                         let remaining' = deadline - cn_clock env (ry_reads st4);
                             st5 = st4\<lparr>ry_reads := Suc (ry_reads st4)\<rparr>
                         in if remaining' < MIN_REMAINING_BUDGET_FOR_RETRY_SECONDS then (st5, Exhausted)
                            else
                              let z = backoff_sleep cfg attempt (cn_jitter env attempt) remaining';
                                  st6 = st5\<lparr>ry_made := ry_made st @ [a\<lparr>am_sleep := Some z\<rparr>]\<rparr>
                              in if cn_sleep_cancelled env attempt then (st6, RetryCancelled)
                                 else retry_loop env cfg rq deadline left (Suc attempt) st6
                   | _ \<Rightarrow>
                       (st3, Answer
                         (if \<not> ry_ambiguous st then oc
                          else unconfirmed attempt
                            (''initial attempt was ambiguous; subsequent attempt failed with: '' @
                             opt_text (ao_caller_error oc) @ '' ('' @ opt_text (ao_log_detail oc) @ '')'')))))"

text \<open>What is returned when the loop runs out.\<close>

definition after_loop :: "retry_state \<Rightarrow> apply_outcome" where
  "after_loop st =
     (if ry_made st = []
      then not_applied ''apply was not attempted; retry budget expired before any request was sent''
             ''retry budget expired before attempt could be started'' False
      else if ry_ambiguous st
      then let attempts = length (ry_made st) in
           unconfirmed attempts
             (case ry_last st of
                None \<Rightarrow> ''retry loop exhausted after 0 attempts''
              | Some oc \<Rightarrow>
                  ''retry loop exhausted after '' @ dec attempts @ '' attempts (saw_ambiguous=True); last error: '' @
                  opt_text (ao_caller_error oc) @ '' ('' @ opt_text (ao_log_detail oc) @ '')'')
      else case ry_last st of
          Some oc \<Rightarrow> oc
        | None \<Rightarrow> not_applied ''proposal apply failed'' ''retry loop exhausted without attempts'' False)"

section \<open>\<open>apply_proposal\<close>\<close>

definition apply_payload :: "proposal_context \<Rightarrow> nat \<Rightarrow> (string \<times> json) list" where
  "apply_payload ctx hold_id =
     [(''kind'', JStr (pc_kind ctx)), (''action'', JObj (pc_action ctx)),
      (''target_id'', JStr (pc_target_id ctx)), (''action_type'', JStr (pc_action_type ctx)),
      (''rationale'', JStr (pc_rationale ctx)), (''proposed_by_bot_id'', JStr (pc_bot_id ctx)),
      (''owner_sub'', JStr (pc_owner_sub ctx)), (''hold_id'', JId hold_id)] @
     (case pc_cross_brain_target_sub ctx of
        None \<Rightarrow> []
      | Some s \<Rightarrow> [(''cross_brain_target_sub'', JStr s)])"

definition build_apply_client :: "client_env \<Rightarrow> string option \<Rightarrow> string + unit" where
  "build_apply_client env sni_host =
     (if case sni_host of None \<Rightarrow> False | Some h \<Rightarrow> \<not> is_hostname h
      then Inl (PROPOSAL_APPLY_TLS_SNI_HOST @ '' is not a bare hostname: '' @ py_repr (the sni_host))
      else case tailnet_proxy_mounts (cn_config env) of
          Raised n m \<Rightarrow> Inl m
        | _ \<Rightarrow> (case cn_new_client env of Some e \<Rightarrow> Inl e | None \<Rightarrow> Inr ()))"

definition configuration_error :: "string \<Rightarrow> apply_outcome" where
  "configuration_error log_detail = not_applied ''server configuration error'' log_detail False"

text \<open>
  Everything before the first request: the outcome returned without one, or the configuration and the
  request. A raised exception is a \<open>ValueError\<close> of \<open>urlparse\<close>.
\<close>

definition prepare_apply ::
  "client_env \<Rightarrow> proposal_context \<Rightarrow> (apply_outcome + apply_config \<times> apply_request) outcome" where
  "prepare_apply env ctx =
     (let vars = ce_vars (cn_config env); base_url = apply_base_url vars; token = read_env vars PROPOSAL_APPLY_TOKEN
      in case pc_hold_id ctx of
        None \<Rightarrow> Returned (Inl (not_applied ''cannot apply proposal without a hold_id''
          ''hold_id is None; proposal cannot be applied over HTTP'' False))
      | Some hold_id \<Rightarrow>
          if base_url = [] then
            Returned (Inl (configuration_error (PROPOSAL_APPLY_URL @ '' environment variable is not set'')))
          else if \<not> starts_with base_url ''https://'' then
            (case ce_urlsplit (cn_config env) base_url of
               Inl e \<Rightarrow> Raised ''ValueError'' e
             | Inr parts \<Rightarrow> Returned (Inl (configuration_error (bad_scheme_message parts))))
          else if token = [] then
            Returned (Inl (configuration_error (PROPOSAL_APPLY_TOKEN @ '' environment variable is not set'')))
          else case read_configuration vars of
              Inl e \<Rightarrow> Returned (Inl (configuration_error (sanitize_log_field e)))
            | Inr cfg \<Rightarrow>
                (case build_apply_client env (cg_sni_host cfg) of
                   Inl e \<Rightarrow> Returned (Inl (configuration_error
                     (''failed to build HTTP client: '' @ sanitize_log_field e)))
                 | Inr u \<Rightarrow> Returned (Inr (cfg,
                     \<lparr>rq_url = base_url @ ''/proposals/apply'', rq_token = token,
                      rq_payload = apply_payload ctx hold_id\<rparr>))))"

definition initial_retry :: retry_state where
  "initial_retry = \<lparr>ry_reads = 1, ry_ambiguous = False, ry_last = None, ry_made = []\<rparr>"

definition retry_deadline :: "client_env \<Rightarrow> apply_config \<Rightarrow> rat" where
  "retry_deadline env cfg = cn_clock env 0 + cg_budget cfg"

definition run_attempts ::
  "client_env \<Rightarrow> apply_config \<Rightarrow> apply_request \<Rightarrow> retry_state \<times> retry_end" where
  "run_attempts env cfg rq =
     retry_loop env cfg rq (retry_deadline env cfg) (cg_max_attempts cfg) 1 initial_retry"

definition apply_proposal ::
  "client_env \<Rightarrow> proposal_context \<Rightarrow> attempt_made list \<times> apply_outcome outcome" where
  "apply_proposal env ctx =
     (case prepare_apply env ctx of
        Raised n m \<Rightarrow> ([], Raised n m)
      | Cancelled \<Rightarrow> ([], Cancelled)
      | Returned (Inl oc) \<Rightarrow> ([], Returned oc)
      | Returned (Inr (cfg, rq)) \<Rightarrow>
          (case run_attempts env cfg rq of
             (st, Answer oc) \<Rightarrow> (ry_made st, Returned oc)
           | (st, Exhausted) \<Rightarrow> (ry_made st, Returned (after_loop st))
           | (st, RetryCancelled) \<Rightarrow> (ry_made st, Cancelled)))"

text \<open>
  \<open>HttpApplyProposalJudge.apply\<close> as the board sees it: the outcome's fields, all of their declared
  types.
\<close>

definition raw_of_outcome :: "apply_outcome \<Rightarrow> raw_apply" where
  "raw_of_outcome oc =
     RawOutcome (AppliedBool (ao_applied oc))
       (case ao_result oc of None \<Rightarrow> ResultNone | Some d \<Rightarrow> ResultDict d)
       (map_option JStr (ao_caller_error oc)) (map_option JStr (ao_log_detail oc))
       (Some (JBool (ao_indeterminate oc)))"

definition http_judge_apply :: "client_env \<Rightarrow> proposal_context \<Rightarrow> raw_apply outcome" where
  "http_judge_apply env ctx =
     (case snd (apply_proposal env ctx) of
        Returned oc \<Rightarrow> Returned (raw_of_outcome oc)
      | Raised n m \<Rightarrow> Raised n m
      | Cancelled \<Rightarrow> Cancelled)"

end
