(* ===== verification/ProposalDoubt.thy ===== *)
theory ProposalDoubt
  imports ProposalTruth
begin

text \<open>
  The other half of the truth about the external write: a call that ended without a certain answer
  (cancelled, raised, or reported as indeterminate) leaves its hold \<open>applying\<close>, which keeps the
  deduplication from submitting the same change again under a new hold. The proof follows the one for
  successful calls.
\<close>

fun carries_doubt :: "nat \<Rightarrow> proposal_pc \<Rightarrow> bool" where
  "carries_doubt i (AtFinalize job rs) = (aj_hold job = i \<and> rs_indeterminate rs)"
| "carries_doubt i pc = False"

definition only_doubt :: "nat \<Rightarrow> proposal_pc \<Rightarrow> bool" where
  "only_doubt i pc = (may_write i pc \<longrightarrow> carries_doubt i pc)"

text \<open>What the board makes of a call in doubt.\<close>

definition in_doubt :: "apply_outcome option \<Rightarrow> bool" where
  "in_doubt r = (case r of None \<Rightarrow> True | Some oc \<Rightarrow> ao_indeterminate oc)"

definition call_in_doubt :: "nat \<Rightarrow> proposal_system \<Rightarrow> bool" where
  "call_in_doubt i s = (\<exists>c \<in> set (sy_applies s). ac_hold c = i \<and> in_doubt (ac_outcome c))"

lemma doubt_resolution:
  "rs_indeterminate (applied_resolution tid (apply_result_of env t ctx)) \<longleftrightarrow>
     in_doubt (apply_result_of env t ctx)"
proof (cases "apply_result_of env t ctx")
  case None
  then show ?thesis by (simp add: applied_resolution_def in_doubt_def)
next
  case (Some oc)
  then obtain a i ce re l where "oc = normalize_outcome a i ce re l"
    using safe_apply_shape [of "pe_apply env t ctx" oc] by (auto simp: apply_result_of_def normalized_def)
  then show ?thesis using Some outcome_determinate [of a i ce re l]
    by (auto simp: applied_resolution_def in_doubt_def)
qed

lemma carries_doubt_engaged: "carries_doubt i pc \<Longrightarrow> recording i pc"
  by (cases pc) simp_all

lemma doubting_segment:
  "segment env t d rq pc = (d', pc') \<Longrightarrow> carries_doubt i pc \<Longrightarrow> only_doubt i pc'"
  by (cases pc rule: distance_to_end.cases)
    (auto simp: finalize_segment_def cancelled_or_def job_result_def with_hold_def Let_def
      only_doubt_def engaged_def finalized_def decision_stamped_def
      split: if_splits option.splits commit_result.splits dest!: commit_to_goes_on)

lemma doubt_recorded:
  assumes "effect env t rq pc d d'" and "table_ok d" and "pc_ok d rq pc"
    and a: "status_of i d = Some PhApplying" and pc: "only_doubt i pc"
  shows "status_of i d' = Some PhApplying"
proof -
  obtain h where h: "proposal_by_id i d = Some h" "ph_status h = PhApplying"
    using a by (auto simp: status_of_def)
  note hd = proposal_by_idD [OF h(1)]
  from assms(1-3) h(1) show ?thesis
  proof (cases rule: effect_row)
    case same
    then show ?thesis using h by (simp add: status_of_def)
  next
    case (written f n)
    have "ph_status (f h) = PhApplying"
      using written(1)
    proof cases
      case (terminal job rs at at')
      then show ?thesis using hd pc h
        by (auto simp: only_doubt_def engaged_def finalized_def decision_stamped_def Let_def)
    next
      case (recovery job rs r)
      then show ?thesis using hd pc by (simp add: only_doubt_def engaged_def)
    next
      case (last_ditch job rs r)
      then show ?thesis using hd pc by (simp add: only_doubt_def engaged_def)
    qed (use h in \<open>auto simp: resubmission_update_def\<close>)
    then show ?thesis using written(2) by (simp add: status_of_def)
  qed
qed

lemma doubt_stays:
  assumes seg: "segment env t d rq pc = (d', pc')" and d: "table_ok d" and pc: "pc_ok d rq pc"
    and a: "status_of i d = Some PhApplying" and only: "only_doubt i pc"
  shows "status_of i d' = Some PhApplying \<and> only_doubt i pc'"
proof
  show "status_of i d' = Some PhApplying"
    by (rule doubt_recorded [OF segment_effect [OF seg pc] d pc a only])
  show "only_doubt i pc'"
  proof (cases "engaged i pc'")
    case False
    then show ?thesis using may_write_engaged by (auto simp: only_doubt_def)
  next
    case True
    have "engaged i pc"
    proof (rule ccontr)
      assume "\<not> engaged i pc"
      then show False using segment_engages [OF seg True d] a by (auto simp: claims_hold_def)
    qed
    then show ?thesis
    proof (cases "may_write i pc")
      case True
      then have "carries_doubt i pc" using only by (simp add: only_doubt_def)
      then show ?thesis by (rule doubting_segment [OF seg])
    next
      case False
      then obtain job rs where "pc = AtIndeterminate job rs"
        using \<open>engaged i pc\<close> by (cases pc) (auto simp: engaged_def)
      then show ?thesis using seg
        by (auto simp: indeterminate_segment_def cancelled_or_def Let_def only_doubt_def engaged_def
          split: commit_result.splits if_splits)
    qed
  qed
qed

definition doubt_kept :: "nat \<Rightarrow> proposal_system \<Rightarrow> bool" where
  "doubt_kept i s = (call_in_doubt i s \<longrightarrow> status_of i (sy_db s) = Some PhApplying \<and>
     (\<forall>p \<in> set (sy_processes s). only_doubt i (pr_pc p)))"

text \<open>The only process engaged with a hold that is being applied, when one has just been called.\<close>

lemma engaged_only:
  assumes "single i s" and "p \<in> set (sy_processes s)" "engaged i (pr_pc p)"
    and "q \<in> set (sy_processes s)" "engaged i (pr_pc q)"
  shows "p = q"
  using assms
  by (intro only_one [where P = "\<lambda>p. engaged i (pr_pc p)" and xs = "sy_processes s"])
    (simp_all add: single_def count_where_def)

lemma doubt_kept_advance:
  assumes ok: "system_ok s" and k: "k < length (sy_processes s)" and one: "single i s" and s: "doubt_kept i s"
  shows "doubt_kept i (advance env k s)"
proof -
  let ?s' = "advance env k s"
  obtain rq pc d' pc' where a: "pr_pc (sy_processes s ! k) = pc"
    "segment env (sy_ticks s) (sy_db s) rq pc = (d', pc')" "pc_ok (sy_db s) rq pc" "table_ok (sy_db s)"
    "effect env (sy_ticks s) rq pc (sy_db s) d'" "sy_db ?s' = d'"
    "sy_processes ?s' = (sy_processes s)[k := \<lparr>pr_request = rq, pr_pc = pc'\<rparr>]"
    "sy_applies ?s' = sy_applies s @ applies_of env (sy_ticks s) pc"
    by (rule advanceE [OF ok k]) (rule that; assumption)
  have procs: "p = \<lparr>pr_request = rq, pr_pc = pc'\<rparr> \<or> p \<in> set (sy_processes s)" if "p \<in> set (sy_processes ?s')" for p
    using set_mp [OF set_update_subset_insert] that unfolding a(7) by fastforce
  have "status_of i d' = Some PhApplying \<and> (\<forall>p \<in> set (sy_processes ?s'). only_doubt i (pr_pc p))"
    if new: "call_in_doubt i ?s'"
  proof (cases "call_in_doubt i s")
    case True
    then have B: "status_of i (sy_db s) = Some PhApplying"
      "\<forall>p \<in> set (sy_processes s). only_doubt i (pr_pc p)" using s by (auto simp: doubt_kept_def)
    then have "only_doubt i pc" using nth_mem [OF k] a(1) by auto
    then show ?thesis using doubt_stays [OF a(2, 4, 3) B(1)] B(2) procs by fastforce
  next
    case False
    then obtain c where c: "c \<in> set (applies_of env (sy_ticks s) pc)" "ac_hold c = i" "in_doubt (ac_outcome c)"
      using new by (auto simp: call_in_doubt_def a(8))
    then have "applies_of env (sy_ticks s) pc \<noteq> []" by auto
    from calling_goes_on [OF a(2) this] c
    obtain job ctx h where pc: "pc = AtApply job ctx h" "aj_hold job = i" "d' = sy_db s"
      "pc' = AtFinalize job (applied_resolution (pc_target_id ctx) (apply_result_of env (sy_ticks s) ctx))"
      and oc: "in_doubt (apply_result_of env (sy_ticks s) ctx)"
      by (auto simp: applies_of_def)
    have carried: "carries_doubt i pc'" using oc pc by (simp add: doubt_resolution)
    then have here: "engaged i pc'" using carries_doubt_engaged by (simp add: engaged_def)
    have "0 < count_where (before_call i) s" using count_where_positive [OF k] a(1) pc by simp
    then have status: "status_of i d' = Some PhApplying" using one pc by (simp add: single_def)
    have mem: "\<lparr>pr_request = rq, pr_pc = pc'\<rparr> \<in> set (sy_processes ?s')"
      unfolding a(7) using k by (rule set_update_memI)
    have "only_doubt i (pr_pc p)" if "p \<in> set (sy_processes ?s')" for p
    proof (cases "engaged i (pr_pc p)")
      case True
      then have "p = \<lparr>pr_request = rq, pr_pc = pc'\<rparr>"
        using engaged_only [OF single_advance [OF ok k one] that _ mem] here by simp
      then show ?thesis using carried by (simp add: only_doubt_def)
    next
      case False
      then show ?thesis using may_write_engaged by (auto simp: only_doubt_def)
    qed
    then show ?thesis using status by simp
  qed
  then show ?thesis unfolding doubt_kept_def a(6) by blast
qed

lemma reachable_doubt_kept:
  assumes "proposal_reachable env s"
  shows "doubt_kept i s"
proof -
  have "system_ok s \<and> single i s \<and> doubt_kept i s"
    using assms
  proof (rule proposal_invariant)
    show "system_ok (empty_system ags) \<and> single i (empty_system ags) \<and> doubt_kept i (empty_system ags)" for ags
      using reachable_ok [OF proposal_reachable.start] reachable_single [OF proposal_reachable.start]
      by (simp add: doubt_kept_def call_in_doubt_def empty_system_def)
    show "system_ok (s\<lparr>sy_processes := sy_processes s @ [\<lparr>pr_request = rq, pr_pc = AtStart\<rparr>]\<rparr>) \<and>
        single i (s\<lparr>sy_processes := sy_processes s @ [\<lparr>pr_request = rq, pr_pc = AtStart\<rparr>]\<rparr>) \<and>
        doubt_kept i (s\<lparr>sy_processes := sy_processes s @ [\<lparr>pr_request = rq, pr_pc = AtStart\<rparr>]\<rparr>)"
      if "system_ok s \<and> single i s \<and> doubt_kept i s" for s rq
      using that by (simp add: system_ok_def single_def count_where_def call_number_def engaged_def
        doubt_kept_def call_in_doubt_def only_doubt_def)
    show "system_ok (advance env k s) \<and> single i (advance env k s) \<and> doubt_kept i (advance env k s)"
      if "system_ok s \<and> single i s \<and> doubt_kept i s" "k < length (sy_processes s)" for s k
      using that advance_ok single_advance doubt_kept_advance by blast
    show "system_ok (s\<lparr>sy_db := (sy_db s)\<lparr>pd_agents := ags, pd_audit := pd_audit (sy_db s) @ rows\<rparr>\<rparr>) \<and>
        single i (s\<lparr>sy_db := (sy_db s)\<lparr>pd_agents := ags, pd_audit := pd_audit (sy_db s) @ rows\<rparr>\<rparr>) \<and>
        doubt_kept i (s\<lparr>sy_db := (sy_db s)\<lparr>pd_agents := ags, pd_audit := pd_audit (sy_db s) @ rows\<rparr>\<rparr>)"
      if "system_ok s \<and> single i s \<and> doubt_kept i s" for s ags and rows :: "audit_row list"
      using that table_ok_same_rows [OF board_rows] pc_ok_same_rows [OF board_rows]
      by (simp add: system_ok_def single_def count_where_def call_number_def status_of_def board_rows_of
        doubt_kept_def call_in_doubt_def)
  qed
  then show ?thesis by blast
qed

section \<open>Where the outcomes come from\<close>

text \<open>The context a process is about to call with names the hold it applies.\<close>

definition names_hold :: "proposal_pc \<Rightarrow> bool" where
  "names_hold pc = (case pc of AtApply job ctx h \<Rightarrow> pc_hold_id ctx = Some (aj_hold job) | _ \<Rightarrow> True)"

lemma check_segment_names_hold: "check_segment env t d job = (d', pc') \<Longrightarrow> names_hold pc'"
  by (auto simp: check_segment_def with_hold_def hold_context_def Let_def names_hold_def dest!: proposal_by_idD
      split: if_splits option.splits sum.splits prod.splits fingerprint.splits)

lemma segment_calls_after_check:
  assumes "segment env t d rq pc = (d', AtApply job ctx h)" and "\<not> is_done pc"
  shows "\<exists>job'. pc = AtCheck job'"
  using assms
  by (cases pc rule: distance_to_end.cases)
    (auto simp: segment_defs Let_def split: if_splits option.splits sum.splits prod.splits
      commit_result.splits proposal_request.splits fingerprint.splits)

lemma segment_names_hold:
  assumes seg: "segment env t d rq pc = (d', pc')" and pc: "names_hold pc"
  shows "names_hold pc'"
proof (cases "is_done pc")
  case True
  then show ?thesis using seg pc by (cases pc) (simp_all add: is_done_def)
next
  case False
  show ?thesis
  proof (cases pc')
    case (AtApply job ctx h)
    then obtain job' where "pc = AtCheck job'" using segment_calls_after_check False seg by blast
    then show ?thesis using check_segment_names_hold seg by simp
  qed (simp_all add: names_hold_def)
qed

text \<open>Every recorded call is a call of the judge, with a context that names the hold.\<close>

definition call_made :: "proposal_env \<Rightarrow> apply_call \<Rightarrow> bool" where
  "call_made env c = (pc_hold_id (ac_context c) = Some (ac_hold c) \<and>
     (\<exists>t. ac_reported c = pe_apply env t (ac_context c) \<and>
        ac_outcome c = apply_result_of env t (ac_context c)))"

lemma call_made_here: "names_hold pc \<Longrightarrow> c \<in> set (applies_of env t pc) \<Longrightarrow> call_made env c"
  by (auto simp: applies_of_def names_hold_def call_made_def split: proposal_pc.splits)

lemma reachable_calls_made:
  assumes "proposal_reachable env s"
  shows "(\<forall>c \<in> set (sy_applies s). call_made env c) \<and> (\<forall>p \<in> set (sy_processes s). names_hold (pr_pc p))"
  using assms
proof (rule proposal_invariant)
  fix s :: proposal_system and k
  assume s: "(\<forall>c \<in> set (sy_applies s). call_made env c) \<and> (\<forall>p \<in> set (sy_processes s). names_hold (pr_pc p))"
    and k: "k < length (sy_processes s)"
  let ?p = "sy_processes s ! k"
  obtain d' pc' where seg: "segment env (sy_ticks s) (sy_db s) (pr_request ?p) (pr_pc ?p) = (d', pc')"
    by fastforce
  have p: "names_hold (pr_pc ?p)" using s nth_mem [OF k] by blast
  have "sy_processes (advance env k s) = (sy_processes s)[k := ?p\<lparr>pr_pc := pc'\<rparr>]"
    "sy_applies (advance env k s) = sy_applies s @ applies_of env (sy_ticks s) (pr_pc ?p)"
    using seg by (simp_all add: advance_def Let_def)
  then show "(\<forall>c \<in> set (sy_applies (advance env k s)). call_made env c) \<and>
      (\<forall>p \<in> set (sy_processes (advance env k s)). names_hold (pr_pc p))"
    using s segment_names_hold [OF seg p] call_made_here [OF p]
      set_mp [OF set_update_subset_insert [of "sy_processes s" k "?p\<lparr>pr_pc := pc'\<rparr>"]] by fastforce
qed (auto simp: empty_system_def names_hold_def)

lemma settled_not_in_doubt:
  assumes "proposal_reachable env s" and "c \<in> set (sy_applies s)"
    and "status_of (ac_hold c) (sy_db s) \<noteq> Some PhApplying"
  shows "\<not> in_doubt (ac_outcome c)"
  using reachable_doubt_kept [OF assms(1), of "ac_hold c"] assms(2, 3)
  by (auto simp: doubt_kept_def call_in_doubt_def)

text \<open>
  The endings of \<open>judge.apply\<close> that leave open whether the write was made: the call was cancelled, it
  raised whatever exception, or it returned an outcome flagged as indeterminate, whatever else that
  outcome says.
\<close>

definition reported_doubt :: "raw_apply outcome \<Rightarrow> bool" where
  "reported_doubt r = (case r of
      Cancelled \<Rightarrow> True
    | Raised exception message \<Rightarrow> True
    | Returned (RawOutcome applied result caller_error log_detail indeterminate) \<Rightarrow> truthy indeterminate
    | Returned (NotAnOutcome rep) \<Rightarrow> False)"

lemma contract_violation_indeterminate: "ao_indeterminate (contract_violation b x) = b"
  by (simp add: normalize_outcome_def Let_def text_of_def)

lemma normalize_indeterminate: "ao_indeterminate (normalize_outcome False True ce r l)"
  by (auto simp: normalize_outcome_def Let_def split: option.splits)

lemma reported_doubt_kept: "reported_doubt r \<Longrightarrow> in_doubt (safe_apply r)"
  by (auto simp: reported_doubt_def in_doubt_def safe_apply_def read_apply_def
    contract_violation_indeterminate normalize_indeterminate
    split: outcome.splits raw_apply.splits applied_attr.splits bool.splits)

text \<open>
  C10. Doubt is never settled by the board: once \<open>judge.apply\<close> has ended for a hold without a certain
  answer (it was cancelled, it raised, or it returned an outcome flagged as indeterminate), the hold
  stays \<open>applying\<close> in every later state, whatever other requests do and whichever commits fail.
\<close>

theorem doubt_is_never_settled:
  assumes "proposal_reachable env s" and "c \<in> set (sy_applies s)" and "reported_doubt (ac_reported c)"
  shows "\<exists>h. proposal_by_id (ac_hold c) (sy_db s) = Some h \<and> ph_status h = PhApplying"
proof -
  have "in_doubt (ac_outcome c)"
    using reported_doubt_kept [OF assms(3)] reachable_outcomes [OF assms(1)] assms(2) by simp
  then have "status_of (ac_hold c) (sy_db s) = Some PhApplying"
    using settled_not_in_doubt assms(1, 2) by blast
  then show ?thesis by (auto simp: status_of_def)
qed

end
