(* ===== verification/ApplySafety.thy ===== *)
theory ApplySafety
  imports ApplyClient ProposalDoubt
begin

text \<open>
  What the apply client guarantees, and what the board makes of it: an answer without
  \<open>indeterminate\<close> is certain, the retries stay inside their budget, a validated configuration is never
  refused later, and the board's reading of an outcome keeps its meaning.
\<close>

section \<open>The verdict on an attempt\<close>

definition verdict :: "client_env \<Rightarrow> attempt_made \<Rightarrow> (disposition \<times> apply_outcome) option" where
  "verdict env a = classify_post (cn_formats env) (am_result a)"

definition ambiguous_attempt :: "client_env \<Rightarrow> attempt_made \<Rightarrow> bool" where
  "ambiguous_attempt env a = (case verdict env a of Some (Ambiguous, oc) \<Rightarrow> True | _ \<Rightarrow> False)"

lemma verdict_sleep [simp]: "verdict env (a\<lparr>am_sleep := z\<rparr>) = verdict env a"
  by (simp add: verdict_def)

lemma classify_body_shape:
  "classify_body fm body = (disp, oc) \<Longrightarrow>
     (ao_indeterminate oc \<longleftrightarrow> disp = Ambiguous) \<and> (ao_applied oc \<longrightarrow> disp = Decided) \<and>
     (ao_applied oc \<longrightarrow> json_get body ''applied'' = Some (JBool True)) \<and>
     (disp \<in> {Decided, Ambiguous})"
  by (auto simp: classify_body_def Let_def malformed_response_def not_applied_def
      split: json.splits option.splits if_splits bool.splits)

lemma classify_response_shape:
  "classify_response fm r = (disp, oc) \<Longrightarrow>
     (ao_indeterminate oc \<longleftrightarrow> disp = Ambiguous) \<and> (ao_applied oc \<longrightarrow> disp = Decided) \<and>
     (disp = Decided \<longrightarrow> hr_status r = 200 \<and> (\<exists>body. hr_json r = Inr body \<and> classify_body fm body = (disp, oc)))"
  by (auto simp: classify_response_def Let_def malformed_response_def not_applied_def
      dest!: classify_body_shape split: if_splits sum.splits)

lemma classify_exception_shape:
  "classify_exception n m = (disp, oc) \<Longrightarrow>
     (ao_indeterminate oc \<longleftrightarrow> disp = Ambiguous) \<and> \<not> ao_applied oc \<and> disp \<noteq> Decided"
  by (auto simp: classify_exception_def Let_def not_applied_def split: if_splits)

lemma verdict_shape:
  assumes "verdict env a = Some (disp, oc)"
  shows "(ao_indeterminate oc \<longleftrightarrow> disp = Ambiguous) \<and> (ao_applied oc \<longrightarrow> disp = Decided)"
  using assms unfolding verdict_def classify_post_def
  by (auto split: post_result.splits if_splits dest: classify_response_shape classify_exception_shape)

text \<open>A decision is the service's own: a response of status 200 whose body says so.\<close>

definition decided_by_service :: "client_env \<Rightarrow> attempt_made \<Rightarrow> apply_outcome \<Rightarrow> bool" where
  "decided_by_service env a oc =
     (case am_result a of
        Responded r \<Rightarrow>
          hr_status r = 200 \<and>
          (case hr_json r of
             Inr body \<Rightarrow> json_get body ''applied'' = Some (JBool (ao_applied oc)) \<and>
               (\<not> ao_applied oc \<longrightarrow> \<not> truthy (json_get body ''indeterminate''))
           | Inl e \<Rightarrow> False)
      | _ \<Rightarrow> False)"

lemma classify_body_decided:
  "classify_body fm body = (Decided, oc) \<Longrightarrow>
     json_get body ''applied'' = Some (JBool (ao_applied oc)) \<and>
     (\<not> ao_applied oc \<longrightarrow> \<not> truthy (json_get body ''indeterminate''))"
  by (auto simp: classify_body_def Let_def malformed_response_def not_applied_def
      split: json.splits option.splits if_splits bool.splits)

lemma verdict_decided: "verdict env a = Some (Decided, oc) \<Longrightarrow> decided_by_service env a oc"
  unfolding verdict_def classify_post_def decided_by_service_def
  by (force split: post_result.splits if_splits sum.splits
      dest!: classify_response_shape classify_exception_shape dest: classify_body_decided)

section \<open>The retry loop\<close>

text \<open>A well-timed attempt: it starts before the deadline, a retry two seconds before it, and its
  time-out ends by the deadline.\<close>

definition well_timed :: "client_env \<Rightarrow> apply_config \<Rightarrow> rat \<Rightarrow> attempt_made \<Rightarrow> bool" where
  "well_timed env cfg deadline a =
     (am_at a < deadline \<and> am_timeout a = min (cg_timeout cfg) (deadline - am_at a) \<and>
      (1 < am_number a \<longrightarrow> am_at a + MIN_REMAINING_BUDGET_FOR_RETRY_SECONDS \<le> deadline) \<and>
      (\<forall>z. am_sleep a = Some z \<longrightarrow>
         (\<exists>left \<ge> MIN_REMAINING_BUDGET_FOR_RETRY_SECONDS.
            z = backoff_sleep cfg (am_number a) (cn_jitter env (am_number a)) left)))"

text \<open>How the loop may end after the attempts it added, when it started with or without doubt.\<close>

fun ends_well :: "client_env \<Rightarrow> bool \<Rightarrow> attempt_made list \<Rightarrow> retry_end \<Rightarrow> bool" where
  "ends_well env doubt new (Answer oc) =
     (new \<noteq> [] \<and>
      (\<exists>disp o'. verdict env (last new) = Some (disp, o') \<and> disp \<noteq> Ambiguous \<and>
         (if disp = Decided \<or> (\<not> doubt \<and> length new = 1) then oc = o'
          else ao_indeterminate oc \<and> \<not> ao_applied oc)))"
| "ends_well env doubt new Exhausted = list_all (ambiguous_attempt env) new"
| "ends_well env doubt new RetryCancelled = (new \<noteq> [])"

definition loop_report ::
  "client_env \<Rightarrow> apply_config \<Rightarrow> rat \<Rightarrow> nat \<Rightarrow> nat \<Rightarrow> retry_state \<Rightarrow> retry_state \<Rightarrow> retry_end \<Rightarrow>
     attempt_made list \<Rightarrow> bool" where
  "loop_report env cfg deadline left attempt st st' e new \<longleftrightarrow>
     ry_made st' = ry_made st @ new \<and> length new \<le> left \<and>
     map am_number new = [attempt..<attempt + length new] \<and>
     list_all (well_timed env cfg deadline) new \<and>
     list_all (ambiguous_attempt env) (butlast new) \<and>
     (ry_ambiguous st' \<longleftrightarrow> ry_ambiguous st \<or> list_ex (ambiguous_attempt env) new) \<and>
     ends_well env (ry_ambiguous st) new e"

lemma upt_cons: "[k..<k + Suc n] = k # [Suc k..<Suc k + n]"
  using upt_conv_Cons [of k "k + Suc n"] by simp

lemma ambiguous_attempt_sleep [simp]: "ambiguous_attempt env (a\<lparr>am_sleep := z\<rparr>) = ambiguous_attempt env a"
  by (simp add: ambiguous_attempt_def)

lemma loop_report_cons:
  assumes "loop_report env cfg deadline left (Suc attempt) st6 st' e new"
    and "ry_made st6 = ry_made st @ [a]" and "ry_ambiguous st6"
    and "am_number a = attempt" and "well_timed env cfg deadline a" and "ambiguous_attempt env a"
  shows "loop_report env cfg deadline (Suc left) attempt st st' e (a # new)"
proof -
  have "ends_well env (ry_ambiguous st) (a # new) e"
    using assms(1, 3, 6)
    by (cases e) (auto simp: loop_report_def split: if_splits)
  then show ?thesis
    using assms upt_cons [of attempt "length new"]
    by (auto simp: loop_report_def simp del: upt_Suc)
qed

text \<open>The attempt an iteration makes is well timed, before and after its sleep is noted.\<close>

lemma attempt_of_timed:
  assumes "\<not> (deadline - now \<le> 0 \<or> (1 < attempt \<and> deadline - now < MIN_REMAINING_BUDGET_FOR_RETRY_SECONDS))"
  shows "well_timed env cfg deadline (attempt_of env cfg rq attempt now (deadline - now))"
    and "MIN_REMAINING_BUDGET_FOR_RETRY_SECONDS \<le> left \<Longrightarrow>
      well_timed env cfg deadline (attempt_of env cfg rq attempt now (deadline - now)
        \<lparr>am_sleep := Some (backoff_sleep cfg attempt (cn_jitter env attempt) left)\<rparr>)"
  using assms by (auto simp: well_timed_def attempt_of_def Let_def)

lemma attempt_of_number [simp]: "am_number (attempt_of env cfg rq attempt now remaining) = attempt"
  by (simp add: attempt_of_def Let_def)

lemma retry_loop_report:
  "retry_loop env cfg rq deadline left attempt st = (st', e) \<Longrightarrow>
     \<exists>new. loop_report env cfg deadline left attempt st st' e new"
proof (induction left arbitrary: attempt st)
  case 0
  then have "loop_report env cfg deadline 0 attempt st st' e []" by (simp add: loop_report_def)
  then show ?case ..
next
  case (Suc left)
  let ?now = "cn_clock env (ry_reads st)"
  let ?a = "attempt_of env cfg rq attempt ?now (deadline - ?now)"
  show ?case
  proof (cases "deadline - ?now \<le> 0 \<or> (1 < attempt \<and> deadline - ?now < MIN_REMAINING_BUDGET_FOR_RETRY_SECONDS)")
    case True
    then have "loop_report env cfg deadline (Suc left) attempt st st' e []"
      using Suc.prems by (simp add: loop_report_def Let_def) auto
    then show ?thesis ..
  next
    case go: False
    note timed = attempt_of_timed [where env = env and cfg = cfg and rq = rq, OF go]
    show ?thesis
    proof (cases "verdict env ?a")
      case None
      then have "loop_report env cfg deadline (Suc left) attempt st st' e [?a]"
        using Suc.prems go timed(1)
        by (auto simp: loop_report_def Let_def verdict_def ambiguous_attempt_def)
      then show ?thesis ..
    next
      case (Some v)
      obtain disp oc where v: "v = (disp, oc)" by (cases v)
      show ?thesis
      proof (cases "disp = Ambiguous")
        case False
        then have "loop_report env cfg deadline (Suc left) attempt st st' e [?a]"
          using Suc.prems go timed(1) Some v
          by (cases disp) (auto simp: loop_report_def Let_def verdict_def ambiguous_attempt_def unconfirmed_def not_applied_def)
        then show ?thesis ..
      next
        case amb: True
        then have a: "ambiguous_attempt env ?a" using Some v by (simp add: ambiguous_attempt_def)
        let ?now' = "cn_clock env (Suc (ry_reads st))"
        let ?st5 = "st\<lparr>ry_last := Some oc, ry_ambiguous := True, ry_reads := Suc (Suc (ry_reads st)),
                      ry_made := ry_made st @ [?a]\<rparr>"
        have post: "classify_post (cn_formats env) (am_result ?a) = Some (Ambiguous, oc)"
          using Some v amb by (simp add: verdict_def)
        show ?thesis
        proof (cases "left = 0 \<or> deadline - ?now' < MIN_REMAINING_BUDGET_FOR_RETRY_SECONDS")
          case True
          then have "loop_report env cfg deadline (Suc left) attempt st st' e [?a]"
            using Suc.prems go timed(1) a post by (auto simp: loop_report_def Let_def split: if_splits)
          then show ?thesis ..
        next
          case retry: False
          let ?z = "backoff_sleep cfg attempt (cn_jitter env attempt) (deadline - ?now')"
          let ?a' = "?a\<lparr>am_sleep := Some ?z\<rparr>"
          let ?st6 = "?st5\<lparr>ry_made := ry_made st @ [?a']\<rparr>"
          have t: "well_timed env cfg deadline ?a'" using retry by (intro timed(2)) simp
          show ?thesis
          proof (cases "cn_sleep_cancelled env attempt")
            case True
            then have "loop_report env cfg deadline (Suc left) attempt st st' e [?a']"
              using Suc.prems go t a post retry by (auto simp: loop_report_def Let_def)
            then show ?thesis ..
          next
            case False
            then have "retry_loop env cfg rq deadline left (Suc attempt) ?st6 = (st', e)"
              using Suc.prems go post retry by (cases "1 < attempt") (simp_all add: Let_def)
            then obtain new where "loop_report env cfg deadline left (Suc attempt) ?st6 st' e new"
              using Suc.IH by blast
            then have "loop_report env cfg deadline (Suc left) attempt st st' e (?a' # new)"
              by (rule loop_report_cons) (use t a in simp_all)
            then show ?thesis ..
          qed
        qed
      qed
    qed
  qed
qed

section \<open>The whole call\<close>

lemma apply_proposal_run:
  assumes "apply_proposal env ctx = (made, Returned oc)" and "made \<noteq> []"
  obtains cfg rq st e where "prepare_apply env ctx = Returned (Inr (cfg, rq))"
    and "run_attempts env cfg rq = (st, e)" and "made = ry_made st"
    and "e = Answer oc \<or> e = Exhausted \<and> oc = after_loop st"
  using assms
  by (auto simp: apply_proposal_def split: outcome.splits sum.splits prod.splits retry_end.splits)

lemma run_attempts_report:
  assumes "run_attempts env cfg rq = (st, e)"
  shows "loop_report env cfg (retry_deadline env cfg) (cg_max_attempts cfg) 1 initial_retry st e (ry_made st)"
  using retry_loop_report [OF assms [unfolded run_attempts_def]]
  by (auto simp: loop_report_def initial_retry_def)

lemma prepare_apply_definite:
  "prepare_apply env ctx = Returned (Inl oc) \<Longrightarrow> \<not> ao_applied oc \<and> \<not> ao_indeterminate oc"
  by (auto simp: prepare_apply_def configuration_error_def not_applied_def Let_def
      split: option.splits if_splits sum.splits)

lemma apply_proposal_no_attempt:
  assumes "apply_proposal env ctx = ([], Returned oc)"
  shows "\<not> ao_applied oc \<and> \<not> ao_indeterminate oc"
proof (cases "prepare_apply env ctx")
  case (Returned r)
  show ?thesis
  proof (cases r)
    case (Inl oc')
    then show ?thesis using Returned assms prepare_apply_definite [of env ctx oc']
      by (simp add: apply_proposal_def)
  next
    case (Inr x)
    obtain cfg rq where x: "x = (cfg, rq)" by fastforce
    obtain st e where run: "run_attempts env cfg rq = (st, e)" by fastforce
    note run_attempts_report [OF run]
    then show ?thesis using Returned Inr x run assms
      by (cases e) (auto simp: apply_proposal_def loop_report_def after_loop_def not_applied_def)
  qed
qed (use assms in \<open>simp_all add: apply_proposal_def\<close>)

text \<open>
  An attempt that was not carried out, read off what came back and not off its classification: the
  exception is one that httpx raises before a request is sent, or the answer has a status that
  reports neither a decision (200), nor a conflict (409), nor a failure of the service (500 and more).
\<close>

definition refused_attempt :: "attempt_made \<Rightarrow> bool" where
  "refused_attempt a = (case am_result a of
      PostRaised exception message \<Rightarrow>
        exception \<in> {''ConnectError'', ''ConnectTimeout'', ''PoolTimeout'', ''UnsupportedProtocol'',
          ''LocalProtocolError'', ''InvalidURL'', ''ProxyError''}
    | Responded r \<Rightarrow> hr_status r < 500 \<and> hr_status r \<noteq> 200 \<and> hr_status r \<noteq> 409
    | PostCancelled \<Rightarrow> False)"

lemma classify_exception_refused:
  "classify_exception n m = (disp, oc) \<Longrightarrow> disp \<noteq> Ambiguous \<Longrightarrow> n \<in> set clean_exceptions"
  by (auto simp: classify_exception_def Let_def split: if_splits)

lemma classify_response_refused:
  "classify_response fm r = (disp, oc) \<Longrightarrow> disp \<noteq> Ambiguous \<Longrightarrow> disp \<noteq> Decided \<Longrightarrow>
     hr_status r < 500 \<and> hr_status r \<noteq> 200 \<and> hr_status r \<noteq> 409"
  by (auto simp: classify_response_def Let_def malformed_response_def
      dest!: classify_body_shape split: if_splits sum.splits)

lemma verdict_refused:
  assumes "verdict env a = Some (disp, oc)" and "disp \<noteq> Ambiguous" and "disp \<noteq> Decided"
  shows "refused_attempt a"
proof (cases "am_result a")
  case (Responded r)
  then show ?thesis using assms classify_response_refused [of "cn_formats env" r disp oc]
    by (simp add: verdict_def classify_post_def refused_attempt_def)
next
  case (PostRaised n m)
  then show ?thesis using assms classify_exception_refused [of n m disp oc]
      classify_exception_refused [of "''ReadTimeout''" "''wall-clock retry budget expired: '' @ m" disp oc]
    by (simp add: verdict_def classify_post_def refused_attempt_def clean_exceptions_def split: if_splits)
next
  case PostCancelled
  then show ?thesis using assms by (simp add: verdict_def classify_post_def)
qed

lemma after_loop_doubtful:
  "ry_made st \<noteq> [] \<Longrightarrow> ry_ambiguous st \<Longrightarrow> ao_indeterminate (after_loop st) \<and> \<not> ao_applied (after_loop st)"
  by (simp add: after_loop_def unconfirmed_def not_applied_def Let_def)

lemma certain_run:
  assumes "loop_report env cfg deadline n 1 initial_retry st e (ry_made st)"
    and "e = Answer oc \<or> e = Exhausted \<and> oc = after_loop st" and "ry_made st \<noteq> []" and "\<not> ao_indeterminate oc"
  shows "decided_by_service env (last (ry_made st)) oc \<or>
    (\<exists>a. ry_made st = [a] \<and> refused_attempt a \<and> \<not> ao_applied oc)"
  using assms(2)
proof
  assume "e = Exhausted \<and> oc = after_loop st"
  then have "list_all (ambiguous_attempt env) (ry_made st)" "ry_ambiguous st \<longleftrightarrow> list_ex (ambiguous_attempt env) (ry_made st)"
    using assms(1) by (auto simp: loop_report_def initial_retry_def)
  then have "ry_ambiguous st" using assms(3) by (cases "ry_made st") auto
  then show ?thesis using after_loop_doubtful assms(3, 4) \<open>e = Exhausted \<and> oc = after_loop st\<close> by blast
next
  assume "e = Answer oc"
  then obtain disp o' where v: "verdict env (last (ry_made st)) = Some (disp, o')" "disp \<noteq> Ambiguous"
    and o': "if disp = Decided \<or> length (ry_made st) = 1 then oc = o' else ao_indeterminate oc"
    using assms(1) by (auto simp: loop_report_def initial_retry_def split: if_splits)
  show ?thesis
  proof (cases "disp = Decided")
    case True
    then show ?thesis using v o' verdict_decided by auto
  next
    case False
    then obtain a where a: "ry_made st = [a]" and oc: "oc = o'"
      using o' assms(4) by (auto simp: length_Suc_conv split: if_splits)
    have "refused_attempt a" using verdict_refused [OF _ v(2) False] v(1) a by simp
    then show ?thesis using a oc v False verdict_shape [of env a disp o'] by auto
  qed
qed

lemma certain_answer:
  assumes "apply_proposal env ctx = (made, Returned oc)" and "\<not> ao_indeterminate oc"
  shows "(made = [] \<and> \<not> ao_applied oc) \<or> (made \<noteq> [] \<and> decided_by_service env (last made) oc) \<or>
    (\<exists>a. made = [a] \<and> refused_attempt a \<and> \<not> ao_applied oc)"
proof (cases "made = []")
  case True
  then show ?thesis using apply_proposal_no_attempt assms by blast
next
  case False
  then obtain cfg rq st e where "run_attempts env cfg rq = (st, e)" "made = ry_made st"
    "e = Answer oc \<or> e = Exhausted \<and> oc = after_loop st"
    using apply_proposal_run [OF assms(1)] by metis
  then show ?thesis using certain_run [OF run_attempts_report] False assms(2) by blast
qed

section \<open>The budget\<close>

definition jitter_ok :: "client_env \<Rightarrow> bool" where
  "jitter_ok env = (\<forall>i. 0 \<le> cn_jitter env i \<and> cn_jitter env i \<le> 1)"

lemma backoff_sleep_bounds:
  assumes "0 < cg_backoff cfg" and "0 \<le> j" "j \<le> 1" and "MIN_REMAINING_BUDGET_FOR_RETRY_SECONDS \<le> left"
  shows "0 \<le> backoff_sleep cfg n j left \<and> backoff_sleep cfg n j left \<le> MAX_BACKOFF_SLEEP_SECONDS \<and>
    backoff_sleep cfg n j left + MIN_REMAINING_BUDGET_FOR_RETRY_SECONDS \<le> left"
proof -
  let ?b = "min (cg_backoff cfg * 2 ^ (n - 1)) MAX_BACKOFF_SLEEP_SECONDS"
  have b: "0 \<le> ?b" "?b \<le> MAX_BACKOFF_SLEEP_SECONDS"
    using assms(1) by (simp_all add: MAX_BACKOFF_SLEEP_SECONDS_def)
  have "0 \<le> j * ?b" by (rule mult_nonneg_nonneg [OF assms(2) b(1)])
  moreover have "j * ?b \<le> 1 * ?b" by (rule mult_right_mono [OF assms(3) b(1)])
  then have "j * ?b \<le> MAX_BACKOFF_SLEEP_SECONDS" using b(2) by simp
  ultimately show ?thesis using assms(4) unfolding backoff_sleep_def Let_def by (auto simp: min_def max_def)
qed

text \<open>What holds of an attempt, in seconds on the monotonic clock.\<close>

definition inside_budget :: "apply_config \<Rightarrow> rat \<Rightarrow> attempt_made \<Rightarrow> bool" where
  "inside_budget cfg deadline a =
     (am_at a < deadline \<and> 0 < am_timeout a \<and> am_timeout a \<le> cg_timeout cfg \<and>
      am_at a + am_timeout a \<le> deadline \<and>
      (1 < am_number a \<longrightarrow> am_at a + 2 \<le> deadline) \<and>
      (\<forall>z. am_sleep a = Some z \<longrightarrow> 0 \<le> z \<and> z \<le> 4))"

lemma well_timed_inside:
  assumes "well_timed env cfg deadline a" and "config_ok cfg" and "jitter_ok env"
  shows "inside_budget cfg deadline a"
  using assms backoff_sleep_bounds [of cfg "cn_jitter env (am_number a)" _ "am_number a"]
  by (auto simp: well_timed_def inside_budget_def config_ok_def jitter_ok_def min_def
      MIN_REMAINING_BUDGET_FOR_RETRY_SECONDS_def MAX_BACKOFF_SLEEP_SECONDS_def split: if_splits)

lemma prepare_apply_inr:
  "prepare_apply env ctx = Returned (Inr (cfg, rq)) \<Longrightarrow>
     read_configuration (ce_vars (cn_config env)) = Inr cfg \<and>
     (\<exists>h. pc_hold_id ctx = Some h \<and> rq_payload rq = apply_payload ctx h)"
  by (auto simp: prepare_apply_def Let_def split: option.splits if_splits sum.splits)

lemma apply_proposal_attempts:
  assumes "apply_proposal env ctx = (made, r)" and "made \<noteq> []"
  obtains cfg rq e st where "prepare_apply env ctx = Returned (Inr (cfg, rq))"
    and "run_attempts env cfg rq = (st, e)" and "made = ry_made st"
  using assms
  by (auto simp: apply_proposal_def split: outcome.splits sum.splits prod.splits retry_end.splits)

lemma attempts_inside_budget:
  assumes "apply_proposal env ctx = (made, r)" and "jitter_ok env"
    and "read_configuration (ce_vars (cn_config env)) = Inr cfg"
  shows "map am_number made = [1..<Suc (length made)] \<and> length made \<le> cg_max_attempts cfg \<and>
    cg_max_attempts cfg \<le> 10 \<and> list_all (inside_budget cfg (cn_clock env 0 + cg_budget cfg)) made"
proof (cases "made = []")
  case True
  then show ?thesis using read_configuration_ok [OF assms(3)] by (simp add: config_ok_def)
next
  case False
  obtain cfg' rq e st where p: "prepare_apply env ctx = Returned (Inr (cfg', rq))"
    and run: "run_attempts env cfg' rq = (st, e)" and made: "made = ry_made st"
    by (rule apply_proposal_attempts [OF assms(1) False]) (rule that; assumption)
  have cfg: "cfg' = cfg" using prepare_apply_inr [OF p] assms(3) by simp
  have ok: "config_ok cfg" by (rule read_configuration_ok [OF assms(3)])
  show ?thesis using run_attempts_report [OF run] well_timed_inside [OF _ ok assms(2)] ok
    unfolding cfg made by (auto simp: loop_report_def retry_deadline_def config_ok_def list_all_iff)
qed

section \<open>Configuration\<close>

lemma validated_configuration:
  assumes "validate_proposal_apply_configuration (cn_config env) = Returned ()"
  obtains cfg where "read_configuration (ce_vars (cn_config env)) = Inr cfg"
    and "starts_with (apply_base_url (ce_vars (cn_config env))) ''https://''"
    and "read_env (ce_vars (cn_config env)) PROPOSAL_APPLY_TOKEN \<noteq> []"
    and "\<exists>b. tailnet_proxy_mounts (cn_config env) = Returned b"
  using assms
  by (auto simp: validate_proposal_apply_configuration_def Let_def
      split: if_splits sum.splits outcome.splits)

lemma apply_proposal_raises:
  assumes "snd (apply_proposal env ctx) = Raised n m"
  shows "prepare_apply env ctx = Raised n m"
  using assms
  by (auto simp: apply_proposal_def split: outcome.splits sum.splits prod.splits retry_end.splits)

lemma prepare_validated:
  assumes "validate_proposal_apply_configuration (cn_config env) = Returned ()"
    and "pc_hold_id ctx = Some h" and "cn_new_client env = None"
  shows "\<exists>cfg. prepare_apply env ctx = Returned (Inr (cfg,
    \<lparr>rq_url = apply_base_url (ce_vars (cn_config env)) @ ''/proposals/apply'',
     rq_token = read_env (ce_vars (cn_config env)) PROPOSAL_APPLY_TOKEN,
     rq_payload = apply_payload ctx h\<rparr>))"
proof -
  obtain cfg b where c: "read_configuration (ce_vars (cn_config env)) = Inr cfg"
    and u: "starts_with (apply_base_url (ce_vars (cn_config env))) ''https://''"
    and t: "read_env (ce_vars (cn_config env)) PROPOSAL_APPLY_TOKEN \<noteq> []"
    and m: "tailnet_proxy_mounts (cn_config env) = Returned b"
    using validated_configuration [OF assms(1)] by metis
  have "apply_base_url (ce_vars (cn_config env)) \<noteq> []" using u by (auto simp: starts_with_def)
  moreover have "build_apply_client env (cg_sni_host cfg) = Inr ()"
    using read_configuration_ok [OF c] m assms(3)
    by (auto simp: build_apply_client_def config_ok_def split: option.splits)
  ultimately show ?thesis using c u t assms(2) by (auto simp: prepare_apply_def Let_def)
qed

section \<open>The board's reading\<close>

text \<open>The board keeps what the client says about the write, whatever it does to the texts.\<close>

lemma raw_of_outcome_read:
  assumes "ao_applied oc \<longrightarrow> \<not> ao_indeterminate oc"
  shows "ao_applied (read_apply (raw_of_outcome oc)) = ao_applied oc"
    and "ao_indeterminate (read_apply (raw_of_outcome oc)) = ao_indeterminate oc"
  using assms
  by (cases "ao_applied oc"; cases "ao_indeterminate oc"; cases "ao_result oc";
      simp add: read_apply_def raw_of_outcome_def normalize_outcome_def Let_def text_of_def split: option.splits)+

lemma client_exclusive:
  assumes "apply_proposal env ctx = (made, Returned oc)"
  shows "ao_applied oc \<longrightarrow> \<not> ao_indeterminate oc"
proof (cases "made = []")
  case True
  then show ?thesis using apply_proposal_no_attempt assms by blast
next
  case False
  then obtain cfg rq st e where run: "run_attempts env cfg rq = (st, e)" and made: "made = ry_made st"
    and e: "e = Answer oc \<or> e = Exhausted \<and> oc = after_loop st"
    using apply_proposal_run [OF assms] by metis
  note report = run_attempts_report [OF run]
  show ?thesis using e
  proof
    assume "e = Answer oc"
    then obtain disp o' where "verdict env (last (ry_made st)) = Some (disp, o')"
      "oc = o' \<or> \<not> ao_applied oc" using report by (auto simp: loop_report_def split: if_splits)
    then show ?thesis using verdict_shape [of env "last (ry_made st)" disp o'] by auto
  next
    assume x: "e = Exhausted \<and> oc = after_loop st"
    then have "ry_ambiguous st" using report False made
      by (cases "ry_made st") (auto simp: loop_report_def)
    then show ?thesis using after_loop_doubtful x False made by blast
  qed
qed

text \<open>What a call of the pipeline was at the client, when its outcome is not in doubt.\<close>

lemma certain_call:
  assumes "\<And>t ctx. pe_apply env t ctx = http_judge_apply (client t) ctx"
    and "call_made env c" and "\<not> in_doubt (ac_outcome c)"
  obtains t made oc where "apply_proposal (client t) (ac_context c) = (made, Returned oc)"
    and "\<not> ao_indeterminate oc" and "ac_outcome c = Some (read_apply (raw_of_outcome oc))"
    and "ac_reported c = Returned (raw_of_outcome oc)"
    and "ao_applied (read_apply (raw_of_outcome oc)) = ao_applied oc"
proof -
  from assms(2) obtain t where t: "ac_outcome c = safe_apply (http_judge_apply (client t) (ac_context c))"
    and reported: "ac_reported c = http_judge_apply (client t) (ac_context c)"
    by (auto simp: call_made_def apply_result_of_def assms(1))
  obtain made r where r: "apply_proposal (client t) (ac_context c) = (made, r)" by fastforce
  show ?thesis
  proof (cases r)
    case (Returned oc)
    note run = r [unfolded Returned]
    have oc: "ac_outcome c = Some (read_apply (raw_of_outcome oc))"
      using t run by (simp add: http_judge_apply_def safe_apply_def)
    have "\<not> ao_indeterminate oc"
      using assms(3) raw_of_outcome_read(2) [OF client_exclusive [OF run]] by (simp add: oc in_doubt_def)
    moreover have "ac_reported c = Returned (raw_of_outcome oc)"
      using reported run by (simp add: http_judge_apply_def)
    ultimately show ?thesis using that [OF run] oc raw_of_outcome_read(1) [OF client_exclusive [OF run]] by blast
  next
    case (Raised n m)
    have "ao_indeterminate (contract_violation True x)" for x
      by (simp add: normalize_outcome_def Let_def text_of_def split: option.splits)
    then show ?thesis
      using t r Raised assms(3) by (simp add: http_judge_apply_def safe_apply_def in_doubt_def)
  next
    case Cancelled
    then show ?thesis using t r assms(3) by (simp add: http_judge_apply_def safe_apply_def in_doubt_def)
  qed
qed

section \<open>Properties\<close>

text \<open>
  C15. Retrying stays inside its budget: the attempts are numbered from 1, there are at most as many as
  configured and never more than 10, each starts before the deadline (a retry at least two seconds
  before it) with a positive time-out that ends by the deadline, and no sleep lasts longer than four
  seconds.
\<close>

theorem retries_stay_inside_budget:
  assumes "apply_proposal env ctx = (made, r)" and "jitter_ok env"
    and "read_configuration (ce_vars (cn_config env)) = Inr cfg"
  shows "map am_number made = [1..<Suc (length made)] \<and> length made \<le> cg_max_attempts cfg \<and>
    cg_max_attempts cfg \<le> 10 \<and> list_all (inside_budget cfg (cn_clock env 0 + cg_budget cfg)) made"
  using attempts_inside_budget assms by blast

text \<open>
  C16. What the start-up check accepts is never refused later: under a validated configuration
  \<open>apply_proposal\<close> raises nothing, and the request it sends for a hold goes to the configured
  \<open>https\<close> service, with the configured token and the payload that names the hold.
\<close>

theorem validated_configuration_is_never_refused:
  assumes "validate_proposal_apply_configuration (cn_config env) = Returned ()"
    and "pc_hold_id ctx = Some h" and "cn_new_client env = None"
  shows "(\<forall>n m. snd (apply_proposal env ctx) \<noteq> Raised n m) \<and>
    (\<exists>cfg rq. prepare_apply env ctx = Returned (Inr (cfg, rq)) \<and> config_ok cfg \<and>
       starts_with (rq_url rq) ''https://'' \<and> suffix ''/proposals/apply'' (rq_url rq) \<and>
       rq_token rq \<noteq> [] \<and> map_of (rq_payload rq) ''hold_id'' = Some (JId h))"
proof -
  let ?vars = "ce_vars (cn_config env)"
  obtain cfg where p: "prepare_apply env ctx = Returned (Inr (cfg,
    \<lparr>rq_url = apply_base_url ?vars @ ''/proposals/apply'', rq_token = read_env ?vars PROPOSAL_APPLY_TOKEN,
     rq_payload = apply_payload ctx h\<rparr>))"
    using prepare_validated [OF assms] by blast
  have "config_ok cfg" using prepare_apply_inr [OF p] read_configuration_ok by blast
  moreover have "starts_with (apply_base_url ?vars) ''https://''" "read_env ?vars PROPOSAL_APPLY_TOKEN \<noteq> []"
    using validated_configuration [OF assms(1)] by metis+
  moreover have "snd (apply_proposal env ctx) \<noteq> Raised n m" for n m
    using apply_proposal_raises [of env ctx n m] p by auto
  ultimately show ?thesis using p by (auto simp: starts_with_def apply_payload_def suffix_def)
qed

text \<open>
  C8. With this client behind the judge, a hold leaves \<open>applying\<close> only on certainty: for every external
  write of the pipeline whose hold is no longer \<open>applying\<close>, the client returned, with nothing flagged as
  indeterminate, what the pipeline recorded, and it either sent nothing; or its last attempt was
  answered with status 200 and a decision about the write; or it made a single attempt, reported as
  not applied, that ended with an exception raised before a request is sent or with a status below
  500 other than 200 and 409. So an attempt that ended with a time-out, a broken connection, a conflict
  or a failure of the service keeps the hold \<open>applying\<close> unless a later attempt is answered with a decision.
\<close>

theorem settled_only_when_certain:
  assumes "proposal_reachable env s" and "\<And>t ctx. pe_apply env t ctx = http_judge_apply (client t) ctx"
    and "c \<in> set (sy_applies s)" and "status_of (ac_hold c) (sy_db s) \<noteq> Some PhApplying"
  shows "\<exists>t made oc. apply_proposal (client t) (ac_context c) = (made, Returned oc) \<and>
    ac_reported c = Returned (raw_of_outcome oc) \<and> \<not> ao_indeterminate oc \<and>
    (made = [] \<and> \<not> ao_applied oc \<or> made \<noteq> [] \<and> decided_by_service (client t) (last made) oc \<or>
     (\<exists>a. made = [a] \<and> refused_attempt a \<and> \<not> ao_applied oc))"
proof -
  have "\<not> in_doubt (ac_outcome c)" by (rule settled_not_in_doubt [OF assms(1, 3, 4)])
  then obtain t made oc where "apply_proposal (client t) (ac_context c) = (made, Returned oc)"
    "\<not> ao_indeterminate oc" "ac_reported c = Returned (raw_of_outcome oc)"
    using certain_call [OF assms(2)] reachable_calls_made [OF assms(1)] assms(3) by metis
  then show ?thesis using certain_answer by blast
qed


end
