(* ===== verification/ApplyDemo.thy ===== *)
theory ApplyDemo
  imports ApplySafety ProposalDemo
begin

text \<open>
  Concrete runs of the apply client and of the pipeline with it, on which the properties are witnessed.
\<close>

definition demo_config :: config_env where
  "demo_config =
     \<lparr>ce_vars = [PROPOSAL_APPLY_URL \<mapsto> ''https://a/'', PROPOSAL_APPLY_TOKEN \<mapsto> ''t'',
        PROPOSAL_APPLY_MAX_ATTEMPTS \<mapsto> ''2''],
      ce_urlsplit = (\<lambda>u. Inl ''Invalid IPv6 URL''), ce_loopback = (\<lambda>h. None), ce_plugin_mounts = None\<rparr>"

text \<open>The first attempt times out; the retry is answered with \<open>answer\<close>. Two readings a second.\<close>

definition demo_client :: "post_result \<Rightarrow> client_env" where
  "demo_client answer =
     \<lparr>cn_config = demo_config,
      cn_formats = \<lparr>fm_float_repr = (\<lambda>x. ''0.0''), fm_float_json = (\<lambda>x. ''0.0''), fm_id = (\<lambda>n. [])\<rparr>,
      cn_new_client = None, cn_clock = (\<lambda>n. of_nat n / 2),
      cn_post = (\<lambda>attempt rq tm. if attempt = 1 then PostRaised ''ReadTimeout'' [] else answer),
      cn_jitter = (\<lambda>n. 1 / 2), cn_sleep_cancelled = (\<lambda>n. False)\<rparr>"

definition confirmed :: post_result where
  "confirmed = Responded \<lparr>hr_status = 200, hr_json = Inr (JObj [(''applied'', JBool True)])\<rparr>"

definition demo_context :: proposal_context where
  "demo_context = \<lparr>pc_kind = ''doc'', pc_action = [], pc_target_id = ''d1'', pc_action_type = ''edit'',
     pc_rationale = ''r'', pc_bot_id = ''b'', pc_owner_sub = ''o'', pc_hold_id = Some 0,
     pc_cross_brain_target_sub = None\<rparr>"

lemma demo_base_url: "apply_base_url (ce_vars demo_config) = ''https://a''"
  by code_simp

lemma demo_token: "read_env (ce_vars demo_config) PROPOSAL_APPLY_TOKEN = ''t''"
  by code_simp

lemma demo_mounts: "tailnet_proxy_mounts demo_config = Returned False"
  by code_simp

lemma demo_readers:
  "read_timeout_seconds (ce_vars demo_config) = Inr 15"
  "read_max_attempts (ce_vars demo_config) = Inr 2"
  "read_retry_backoff_seconds (ce_vars demo_config) = Inr (1 / 2)"
  "read_retry_budget_seconds (ce_vars demo_config) = Inr 45"
  "read_tls_sni_host (ce_vars demo_config) = Inr None"
  by code_simp+

definition demo_limits :: apply_config where
  "demo_limits = \<lparr>cg_timeout = 15, cg_max_attempts = 2, cg_backoff = 1 / 2, cg_budget = 45, cg_sni_host = None\<rparr>"

lemma demo_configuration: "read_configuration (ce_vars demo_config) = Inr demo_limits"
  by (simp add: read_configuration_def demo_readers demo_limits_def)

lemma demo_validated: "validate_proposal_apply_configuration demo_config = Returned ()"
  by (simp add: validate_proposal_apply_configuration_def demo_base_url demo_token demo_mounts
      demo_configuration starts_with_def)

definition demo_request :: "proposal_context \<Rightarrow> nat \<Rightarrow> apply_request" where
  "demo_request ctx h = \<lparr>rq_url = ''https://a/proposals/apply'', rq_token = ''t'', rq_payload = apply_payload ctx h\<rparr>"

lemma demo_client_simps [simp]:
  "cn_config (demo_client x) = demo_config" "cn_new_client (demo_client x) = None"
  "cn_clock (demo_client x) n = of_nat n / 2" "cn_jitter (demo_client x) n = 1 / 2"
  "cn_sleep_cancelled (demo_client x) n = False"
  "cn_post (demo_client x) n rq tm = (if n = 1 then PostRaised ''ReadTimeout'' [] else x)"
  by (simp_all add: demo_client_def)

lemma demo_prepare:
  "prepare_apply (demo_client x) ctx =
     (case pc_hold_id ctx of
        None \<Rightarrow> Returned (Inl (not_applied ''cannot apply proposal without a hold_id''
          ''hold_id is None; proposal cannot be applied over HTTP'' False))
      | Some h \<Rightarrow> Returned (Inr (demo_limits, demo_request ctx h)))"
  by (simp add: prepare_apply_def demo_base_url demo_token demo_configuration build_apply_client_def
      demo_mounts demo_limits_def demo_request_def starts_with_def split: option.splits)

definition first_attempt :: attempt_made where
  "first_attempt = \<lparr>am_number = 1, am_at = 1 / 2, am_timeout = 15, am_result = PostRaised ''ReadTimeout'' [],
     am_sleep = Some (1 / 4)\<rparr>"

definition second_attempt :: "post_result \<Rightarrow> attempt_made" where
  "second_attempt x = \<lparr>am_number = 2, am_at = 3 / 2, am_timeout = 15, am_result = x, am_sleep = None\<rparr>"

definition no_answer :: post_result where
  "no_answer = PostRaised ''ReadTimeout'' []"

definition confirmed_outcome :: apply_outcome where
  "confirmed_outcome = \<lparr>ao_applied = True, ao_result = None, ao_caller_error = None, ao_log_detail = None,
     ao_indeterminate = False\<rparr>"

lemma demo_verdicts:
  "\<exists>oc. classify_post fm no_answer = Some (Ambiguous, oc)"
  "classify_post fm confirmed = Some (Decided, confirmed_outcome)"
  by (simp_all add: classify_post_def no_answer_def classify_exception_def Let_def clean_exceptions_def
      sanitize_log_field_def confirmed_def classify_response_def classify_body_def
      json_get_def confirmed_outcome_def)

lemmas demo_run_defs = run_attempts_def demo_limits_def retry_deadline_def initial_retry_def
  numeral_2_eq_2 Let_def attempt_of_def first_attempt_def second_attempt_def backoff_sleep_def
  MIN_REMAINING_BUDGET_FOR_RETRY_SECONDS_def MAX_BACKOFF_SLEEP_SECONDS_def demo_verdicts(2)

lemma demo_first: "cn_post (demo_client x) n rq tm = (if n = 1 then no_answer else x)"
  by (simp add: no_answer_def)

text \<open>The run of the client: a time-out, a sleep of a quarter of a second, then the answer.\<close>

lemma confirmed_attempts:
  "apply_proposal (demo_client confirmed) ctx =
     (case pc_hold_id ctx of
        None \<Rightarrow> ([], Returned (not_applied ''cannot apply proposal without a hold_id''
          ''hold_id is None; proposal cannot be applied over HTTP'' False))
      | Some h \<Rightarrow> ([first_attempt, second_attempt confirmed], Returned confirmed_outcome))"
proof -
  obtain oc where "classify_post (cn_formats (demo_client confirmed)) no_answer = Some (Ambiguous, oc)"
    using demo_verdicts(1) by blast
  then show ?thesis
    by (simp add: apply_proposal_def demo_prepare demo_run_defs demo_first no_answer_def [symmetric]
        del: demo_client_simps(6) split: option.splits)
qed

section \<open>The pipeline with this client\<close>

text \<open>The pipeline's judge with the client's outcome written out, and a judge whose call is cancelled.\<close>

definition client_pipeline :: proposal_env where
  "client_pipeline = (demo_env True)\<lparr>pe_apply := (\<lambda>t ctx. Returned (raw_of_outcome
     (if pc_hold_id ctx = None
      then not_applied ''cannot apply proposal without a hold_id''
             ''hold_id is None; proposal cannot be applied over HTTP'' False
      else confirmed_outcome)))\<rparr>"

lemma client_pipeline_apply: "pe_apply client_pipeline t ctx = http_judge_apply (demo_client confirmed) ctx"
  by (simp add: client_pipeline_def http_judge_apply_def confirmed_attempts split: option.splits)

definition cancelling_pipeline :: proposal_env where
  "cancelling_pipeline = (demo_env True)\<lparr>pe_apply := (\<lambda>t ctx. Cancelled)\<rparr>"

definition client_run :: proposal_system where
  "client_run = drive client_pipeline (empty_system [])
     (Arrive (Submit (demo_submission ''x'')) # replicate 10 (Run 0))"

definition cancelled_run :: proposal_system where
  "cancelled_run = drive cancelling_pipeline (empty_system [])
     (Arrive (Submit (demo_submission ''x'')) # replicate 10 (Run 0))"

lemma client_run_reachable:
  "proposal_reachable client_pipeline client_run" "proposal_reachable cancelling_pipeline cancelled_run"
  unfolding client_run_def cancelled_run_def by (intro drive_reachable proposal_reachable.start)+

lemma client_run_state:
  "map (\<lambda>h. (ph_id h, ph_status h)) (pd_holds (sy_db client_run)) = [(0, PhApplied)]"
  "map (\<lambda>c. (ac_hold c, map_option ao_applied (ac_outcome c))) (sy_applies client_run) = [(0, Some True)]"
  by code_simp+

lemma cancelled_run_state:
  "map (\<lambda>h. (ph_id h, ph_status h)) (pd_holds (sy_db cancelled_run)) = [(0, PhApplying)]"
  "map (\<lambda>c. (ac_hold c, ac_reported c)) (sy_applies cancelled_run) = [(0, Cancelled)]"
  by code_simp+

section \<open>Witnesses\<close>

theorem retries_stay_inside_budget_witness:
  "\<exists>made. fst (apply_proposal (demo_client confirmed) demo_context) = made \<and> length made = 2 \<and>
     list_all (inside_budget demo_limits (0 + 45)) made"
proof -
  have run: "apply_proposal (demo_client confirmed) demo_context =
      ([first_attempt, second_attempt confirmed], Returned confirmed_outcome)"
    by (simp add: confirmed_attempts demo_context_def)
  have "jitter_ok (demo_client confirmed)" by (simp add: jitter_ok_def)
  from retries_stay_inside_budget [OF run this, of demo_limits]
  show ?thesis by (simp add: run demo_configuration, simp add: demo_limits_def)
qed

theorem validated_configuration_is_never_refused_witness:
  "\<exists>cfg rq. prepare_apply (demo_client confirmed) demo_context = Returned (Inr (cfg, rq)) \<and>
     map_of (rq_payload rq) ''hold_id'' = Some (JId 0)"
  using validated_configuration_is_never_refused [of "demo_client confirmed" demo_context 0]
  by (auto simp: demo_validated demo_context_def)

lemma client_run_row:
  "\<exists>h. pd_holds (sy_db client_run) = [h] \<and> ph_id h = 0 \<and> ph_status h = PhApplied"
  "\<exists>c. sy_applies client_run = [c] \<and> ac_hold c = 0"
  using client_run_state by auto

theorem settled_only_when_certain_witness:
  "\<exists>c t made oc. sy_applies client_run = [c] \<and>
     apply_proposal (demo_client confirmed) (ac_context c) = (made, Returned oc) \<and>
     ac_reported c = Returned (raw_of_outcome oc) \<and> \<not> ao_indeterminate oc \<and>
     (made = [] \<and> \<not> ao_applied oc \<or> made \<noteq> [] \<and> decided_by_service (demo_client confirmed) (last made) oc \<or>
      (\<exists>a. made = [a] \<and> refused_attempt a \<and> \<not> ao_applied oc))"
proof -
  obtain h where h: "pd_holds (sy_db client_run) = [h]" "ph_id h = 0" "ph_status h = PhApplied"
    using client_run_row(1) by blast
  obtain c where c: "sy_applies client_run = [c]" "ac_hold c = 0" using client_run_row(2) by blast
  have "status_of 0 (sy_db client_run) = Some PhApplied"
    using h by (simp add: status_of_def proposal_by_id_def)
  then show ?thesis
    using settled_only_when_certain [where client = "\<lambda>t. demo_client confirmed", OF client_run_reachable(1)
        client_pipeline_apply, of c] c
    by simp
qed


theorem doubt_is_never_settled_witness:
  "\<exists>c. sy_applies cancelled_run = [c] \<and>
     (\<exists>h. proposal_by_id (ac_hold c) (sy_db cancelled_run) = Some h \<and> ph_status h = PhApplying)"
proof -
  obtain c where c: "sy_applies cancelled_run = [c]" "ac_reported c = Cancelled"
    using cancelled_run_state(2) by auto
  then show ?thesis using doubt_is_never_settled [OF client_run_reachable(2), of c]
    by (simp add: reported_doubt_def)
qed

end
