(* ===== verification/Subscriptions.thy ===== *)
theory Subscriptions
  imports Prelude "HOL-Library.AList"
begin

text \<open>
  The in-memory registry of resource subscriptions (\<open>subscriptions.py\<close>). A record carries its own
  identity, which is what \<open>is\<close> and \<open>id()\<close> compare; a session is a number, and the weak reference to it is
  dead when it is not among the live ones. Every section under the registry's lock is one operation;
  \<open>notify\<close> releases the lock while it sends, so it is three: the snapshot, one send after the other, and
  the pruning.
\<close>

section \<open>The registry\<close>

definition MAX_SUBSCRIPTIONS_PER_AGENT :: int where "MAX_SUBSCRIPTIONS_PER_AGENT = 100"

text \<open>\<open>id_text\<close> is \<open>str(uuid)\<close>.\<close>

definition conversation_uri :: "(nat \<Rightarrow> string) \<Rightarrow> nat \<Rightarrow> string" where
  "conversation_uri id_text conversation_id = ''comms://comms/conversations/'' @ id_text conversation_id"

definition inbox_uri :: "(nat \<Rightarrow> string) \<Rightarrow> nat \<Rightarrow> string" where
  "inbox_uri id_text agent_id = ''comms://comms/agents/'' @ id_text agent_id @ ''/inbox''"

record subscription =
  sn_id :: nat
  sn_session :: nat
  sn_agent :: nat
  sn_sub :: string

type_synonym subscribers = "(string \<times> subscription list) list"

record registry =
  rg_subscribers :: subscribers
  rg_counts :: "nat \<Rightarrow> int option"
  rg_live :: "nat list"
  rg_next :: nat

definition count_of :: "nat \<Rightarrow> registry \<Rightarrow> int" where
  "count_of a g = (case rg_counts g a of None \<Rightarrow> 0 | Some n \<Rightarrow> n)"

definition subscribers_of :: "string \<Rightarrow> registry \<Rightarrow> subscription list" where
  "subscribers_of uri g = (case map_of (rg_subscribers g) uri of None \<Rightarrow> [] | Some rs \<Rightarrow> rs)"

text \<open>\<open>session_ref() is None\<close> and \<open>session_ref() is session\<close>.\<close>

definition is_dead :: "registry \<Rightarrow> subscription \<Rightarrow> bool" where
  "is_dead g r = (sn_session r \<notin> set (rg_live g))"

definition refers_to :: "registry \<Rightarrow> nat \<Rightarrow> subscription \<Rightarrow> bool" where
  "refers_to g session r = (\<not> is_dead g r \<and> sn_session r = session)"

definition set_count :: "nat \<Rightarrow> int \<Rightarrow> registry \<Rightarrow> registry" where
  "set_count a n g = g\<lparr>rg_counts := (rg_counts g)(a := if 0 < n then Some n else None)\<rparr>"

definition dec_count :: "nat \<Rightarrow> registry \<Rightarrow> registry" where
  "dec_count a g = set_count a (count_of a g - 1) g"

text \<open>\<open>_registry[uri] = rs\<close>, or the key removed when nothing is left.\<close>

definition put_subscribers :: "string \<Rightarrow> subscription list \<Rightarrow> registry \<Rightarrow> registry" where
  "put_subscribers uri rs g =
     g\<lparr>rg_subscribers := (if rs = [] then AList.delete uri (rg_subscribers g)
                          else AList.update uri rs (rg_subscribers g))\<rparr>"

section \<open>The operations\<close>

definition reclaim_dead_for_agent :: "nat \<Rightarrow> registry \<Rightarrow> registry" where
  "reclaim_dead_for_agent a g =
     (let subs = filter (\<lambda>e. snd e \<noteq> [])
        (map (\<lambda>(uri, rs). (uri, filter (\<lambda>r. \<not> (sn_agent r = a \<and> is_dead g r)) rs)) (rg_subscribers g))
      in set_count a (int (length (filter (\<lambda>r. sn_agent r = a) (concat (map snd subs)))))
           (g\<lparr>rg_subscribers := subs\<rparr>))"

text \<open>\<open>Inl\<close>: the \<open>SubscriptionLimitError\<close>; \<open>Inr None\<close>: the session was subscribed already.\<close>

definition subscribe ::
  "string \<Rightarrow> nat \<Rightarrow> nat \<Rightarrow> string \<Rightarrow> registry \<Rightarrow> registry \<times> (string + subscription option)" where
  "subscribe uri session a sub g =
     (let before = subscribers_of uri g;
          records = filter (\<lambda>r. \<not> refers_to g session r) before;
          removed = length records < length before;
          g1 = g\<lparr>rg_subscribers := AList.update uri records (rg_subscribers g)\<rparr>;
          g2 = (if removed then dec_count a g1 else g1);
          g3 = (if MAX_SUBSCRIPTIONS_PER_AGENT \<le> count_of a g2 then reclaim_dead_for_agent a g2 else g2)
      in if MAX_SUBSCRIPTIONS_PER_AGENT \<le> count_of a g3
         then (if subscribers_of uri g3 = [] then put_subscribers uri [] g3 else g3,
               Inl ''SubscriptionLimitError'')
         else
           let new = \<lparr>sn_id = rg_next g3, sn_session = session, sn_agent = a, sn_sub = sub\<rparr>;
               g4 = put_subscribers uri (subscribers_of uri g3 @ [new]) g3
           in ((set_count a (count_of a g4 + 1) g4)\<lparr>rg_next := Suc (rg_next g4)\<rparr>,
               Inr (if removed then None else Some new)))"

definition is_subscribed :: "string \<Rightarrow> nat \<Rightarrow> registry \<Rightarrow> bool" where
  "is_subscribed uri session g = list_ex (refers_to g session) (subscribers_of uri g)"

text \<open>
  What \<open>unsubscribe\<close>, \<open>remove_if_current\<close> and the pruning of \<open>notify\<close> share: the records that satisfy
  \<open>P\<close> go, each decrementing the count of its agent.
\<close>

definition remove_where :: "(subscription \<Rightarrow> bool) \<Rightarrow> string \<Rightarrow> registry \<Rightarrow> registry" where
  "remove_where P uri g =
     (let records = subscribers_of uri g in
      put_subscribers uri (filter (\<lambda>r. \<not> P r) records)
        (fold (\<lambda>r. dec_count (sn_agent r)) (filter P records) g))"

definition unsubscribe :: "string \<Rightarrow> nat \<Rightarrow> registry \<Rightarrow> registry \<times> bool" where
  "unsubscribe uri session g =
     (if subscribers_of uri g = [] then (g, False)
      else (remove_where (refers_to g session) uri g, list_ex (refers_to g session) (subscribers_of uri g)))"

definition remove_if_current :: "string \<Rightarrow> subscription \<Rightarrow> registry \<Rightarrow> registry \<times> bool" where
  "remove_if_current uri rec g =
     (if subscribers_of uri g = [] then (g, False)
      else (remove_where (\<lambda>r. sn_id r = sn_id rec) uri g,
            list_ex (\<lambda>r. sn_id r = sn_id rec) (subscribers_of uri g)))"

section \<open>Notification\<close>

text \<open>
  How one send ends: delivered to the SDK, \<open>ClosedResourceError\<close> or \<open>BrokenResourceError\<close>, the two-second
  time-out, any other exception, or the cancellation of the task.
\<close>

datatype send_result = Sent | StreamClosed | SendTimeout | SendFailed | SendCancelled

record notify_task =
  nt_uri :: string
  nt_filter :: "nat list option"
  nt_todo :: "subscription list"
  nt_dead :: "subscription list"

definition notify_start :: "string \<Rightarrow> nat list option \<Rightarrow> registry \<Rightarrow> notify_task" where
  "notify_start uri recipient_filter g =
     \<lparr>nt_uri = uri, nt_filter = recipient_filter, nt_todo = subscribers_of uri g, nt_dead = []\<rparr>"

definition entitled :: "nat list option \<Rightarrow> subscription \<Rightarrow> bool" where
  "entitled recipient_filter r = (case recipient_filter of None \<Rightarrow> True | Some as \<Rightarrow> sn_agent r \<in> set as)"

text \<open>One turn of the loop over the snapshot; \<open>None\<close>: the cancellation is raised again.\<close>

definition notify_one :: "registry \<Rightarrow> send_result \<Rightarrow> notify_task \<Rightarrow> notify_task option" where
  "notify_one g result t =
     (case nt_todo t of
        [] \<Rightarrow> Some t
      | r # rs \<Rightarrow>
          let next = t\<lparr>nt_todo := rs\<rparr>; dropped = next\<lparr>nt_dead := nt_dead t @ [r]\<rparr>
          in if is_dead g r then Some dropped
             else if \<not> entitled (nt_filter t) r then Some next
             else case result of
                 StreamClosed \<Rightarrow> Some dropped
               | SendCancelled \<Rightarrow> None
               | _ \<Rightarrow> Some next)"

definition notify_prune :: "notify_task \<Rightarrow> registry \<Rightarrow> registry" where
  "notify_prune t g =
     (if nt_dead t = [] \<or> map_of (rg_subscribers g) (nt_uri t) = None then g
      else remove_where (\<lambda>r. sn_id r \<in> sn_id ` set (nt_dead t)) (nt_uri t) g)"

text \<open>
  The notifications a committed change of a conversation schedules: the conversation for its active
  participants, an inbox for each agent named.
\<close>

definition notify_conversation_event ::
  "(nat \<Rightarrow> string) \<Rightarrow> nat \<Rightarrow> nat list \<Rightarrow> nat list \<Rightarrow> (string \<times> nat list option) list" where
  "notify_conversation_event id_text conversation_id active_agent_ids inbox_agent_ids =
     (conversation_uri id_text conversation_id, Some active_agent_ids) #
     map (\<lambda>a. (inbox_uri id_text a, None)) inbox_agent_ids"

section \<open>Counting\<close>

text \<open>The records of an agent in a list, and in the registry.\<close>

definition held_in :: "nat \<Rightarrow> subscription list \<Rightarrow> int" where
  "held_in a rs = int (length (filter (\<lambda>r. sn_agent r = a) rs))"

definition held :: "nat \<Rightarrow> subscribers \<Rightarrow> int" where
  "held a subs = sum_list (map (\<lambda>e. held_in a (snd e)) subs)"

lemma held_in_simps [simp]:
  "held_in a [] = 0"
  "held_in a (r # rs) = (if sn_agent r = a then 1 else 0) + held_in a rs"
  "held_in a (rs @ rs') = held_in a rs + held_in a rs'"
  by (simp_all add: held_in_def)

lemma held_in_nonneg [simp]: "0 \<le> held_in a rs"
  by (simp add: held_in_def)

lemma held_in_split: "held_in a rs = held_in a (filter P rs) + held_in a (filter (\<lambda>r. \<not> P r) rs)"
  by (induction rs) auto

lemma held_simps [simp]:
  "held a [] = 0"
  "held a (e # subs) = held_in a (snd e) + held a subs"
  by (simp_all add: held_def)

lemma held_nonneg [simp]: "0 \<le> held a subs"
  by (induction subs) simp_all

lemma held_concat: "held_in a (concat (map snd subs)) = held a subs"
  by (induction subs) simp_all

lemma held_absent: "uri \<notin> fst ` set subs \<Longrightarrow> AList.delete uri subs = subs"
  by (induction subs) auto

lemma held_delete:
  "distinct (map fst subs) \<Longrightarrow>
   held a (AList.delete uri subs) =
     held a subs - (case map_of subs uri of None \<Rightarrow> 0 | Some rs \<Rightarrow> held_in a rs)"
proof (induction subs)
  case (Cons e subs)
  then show ?case using held_absent [of uri subs] by (cases "fst e = uri") auto
qed simp

lemma held_update:
  "distinct (map fst subs) \<Longrightarrow>
   held a (AList.update uri rs subs) =
     held a subs - (case map_of subs uri of None \<Rightarrow> 0 | Some rs' \<Rightarrow> held_in a rs') + held_in a rs"
  by (induction subs) auto

lemma held_in_le_held: "map_of subs uri = Some rs \<Longrightarrow> held_in a rs \<le> held a subs"
proof (induction subs)
  case (Cons e subs)
  then show ?case by (cases "fst e = uri") (auto intro: add_increasing add_increasing2)
qed simp

text \<open>The keys are those of a dictionary.\<close>

definition keys_ok :: "registry \<Rightarrow> bool" where
  "keys_ok g = distinct (map fst (rg_subscribers g))"

lemma put_subscribers_simps [simp]:
  "rg_counts (put_subscribers uri rs g) = rg_counts g"
  "rg_live (put_subscribers uri rs g) = rg_live g"
  "rg_next (put_subscribers uri rs g) = rg_next g"
  by (simp_all add: put_subscribers_def)

lemma keys_ok_put: "keys_ok g \<Longrightarrow> keys_ok (put_subscribers uri rs g)"
  by (simp add: keys_ok_def put_subscribers_def distinct_delete distinct_update)

lemma subscribers_of_put:
  "keys_ok g \<Longrightarrow> subscribers_of uri' (put_subscribers uri rs g) = (if uri' = uri then rs else subscribers_of uri' g)"
  by (auto simp: subscribers_of_def put_subscribers_def delete_conv update_conv)

lemma held_updated:
  "keys_ok g \<Longrightarrow> held a (AList.update uri rs (rg_subscribers g)) =
     held a (rg_subscribers g) - held_in a (subscribers_of uri g) + held_in a rs"
  by (cases "map_of (rg_subscribers g) uri") (simp_all add: held_update keys_ok_def subscribers_of_def)

lemma held_put:
  assumes "keys_ok g"
  shows "held a (rg_subscribers (put_subscribers uri rs g)) =
    held a (rg_subscribers g) - held_in a (subscribers_of uri g) + held_in a rs"
  using assms
  by (auto simp: put_subscribers_def held_delete held_update keys_ok_def subscribers_of_def split: option.splits)

section \<open>What the operations keep\<close>

text \<open>The counts are those of a function; a count of zero is an absent key.\<close>

definition counts_are :: "(nat \<Rightarrow> int) \<Rightarrow> registry \<Rightarrow> bool" where
  "counts_are f g = (\<forall>a. rg_counts g a = (if 0 < f a then Some (f a) else None))"

lemma counts_are_count_of: "counts_are f g \<Longrightarrow> 0 \<le> f a \<Longrightarrow> count_of a g = f a"
  by (simp add: counts_are_def count_of_def)

lemma counts_are_set: "counts_are f g \<Longrightarrow> counts_are (f(a := n)) (set_count a n g)"
  by (simp add: counts_are_def set_count_def)

lemma counts_are_dec:
  "counts_are f g \<Longrightarrow> 1 \<le> f a \<Longrightarrow> counts_are (f(a := f a - 1)) (dec_count a g)"
  unfolding dec_count_def by (simp add: counts_are_set counts_are_count_of)

lemma set_count_simps [simp]:
  "rg_subscribers (set_count a n g) = rg_subscribers g"
  "rg_live (set_count a n g) = rg_live g" "rg_next (set_count a n g) = rg_next g"
  by (simp_all add: set_count_def)

lemma dec_count_simps [simp]:
  "rg_subscribers (dec_count a g) = rg_subscribers g"
  "rg_live (dec_count a g) = rg_live g" "rg_next (dec_count a g) = rg_next g"
  by (simp_all add: dec_count_def)

lemma fold_dec_simps [simp]:
  "rg_subscribers (fold (\<lambda>r. dec_count (sn_agent r)) rs g) = rg_subscribers g"
  "rg_live (fold (\<lambda>r. dec_count (sn_agent r)) rs g) = rg_live g"
  "rg_next (fold (\<lambda>r. dec_count (sn_agent r)) rs g) = rg_next g"
  by (induction rs arbitrary: g) simp_all

lemma counts_are_fold:
  "counts_are f g \<Longrightarrow> (\<And>a. held_in a rs \<le> f a) \<Longrightarrow>
   counts_are (\<lambda>a. f a - held_in a rs) (fold (\<lambda>r. dec_count (sn_agent r)) rs g)"
proof (induction rs arbitrary: f g)
  case (Cons r rs)
  let ?f = "f(sn_agent r := f (sn_agent r) - 1)"
  have 1: "1 \<le> f (sn_agent r)" 
  proof -
    have "held_in (sn_agent r) (r # rs) = 1 + held_in (sn_agent r) rs" by simp
    then show ?thesis using Cons.prems(2) [of "sn_agent r"] held_in_nonneg [of "sn_agent r" rs] by linarith
  qed
  have "counts_are (\<lambda>a. ?f a - held_in a rs) (fold (\<lambda>r. dec_count (sn_agent r)) rs (dec_count (sn_agent r) g))"
  proof (rule Cons.IH)
    show "counts_are ?f (dec_count (sn_agent r) g)" by (rule counts_are_dec [OF Cons.prems(1) 1])
    show "held_in a rs \<le> ?f a" for a using Cons.prems(2) [of a] by auto
  qed
  moreover have "(\<lambda>a. ?f a - held_in a rs) = (\<lambda>a. f a - held_in a (r # rs))" by auto
  ultimately show ?case by simp
qed simp

definition counts_exact :: "registry \<Rightarrow> bool" where
  "counts_exact g = counts_are (\<lambda>a. held a (rg_subscribers g)) g"

lemma counts_are_cong: "counts_are f g \<Longrightarrow> rg_counts g' = rg_counts g \<Longrightarrow> (\<And>a. f' a = f a) \<Longrightarrow> counts_are f' g'"
  by (simp add: counts_are_def)

lemma subscribers_held: "held_in a (subscribers_of uri g) \<le> held a (rg_subscribers g)"
  by (auto simp: subscribers_of_def held_in_le_held split: option.splits)

lemma held_in_filter_le: "held_in a (filter P rs) \<le> held_in a rs"
  using held_in_split [of a rs P] held_in_nonneg by simp

lemma keys_ok_cong: "rg_subscribers g' = rg_subscribers g \<Longrightarrow> keys_ok g' = keys_ok g"
  by (simp add: keys_ok_def)

lemma subscribers_of_cong: "rg_subscribers g' = rg_subscribers g \<Longrightarrow> subscribers_of uri g' = subscribers_of uri g"
  by (simp add: subscribers_of_def)

lemma remove_where_exact:
  assumes "keys_ok g" and "counts_exact g"
  shows "counts_exact (remove_where P uri g)"
proof -
  let ?rs = "subscribers_of uri g" and ?g = "fold (\<lambda>r. dec_count (sn_agent r)) (filter P (subscribers_of uri g)) g"
  have le: "held_in a (filter P ?rs) \<le> held a (rg_subscribers g)" for a
    using held_in_filter_le subscribers_held order_trans by blast
  have "counts_are (\<lambda>a. held a (rg_subscribers g) - held_in a (filter P ?rs)) ?g"
    by (rule counts_are_fold [OF assms(2) [unfolded counts_exact_def] le])
  moreover have "held a (rg_subscribers (remove_where P uri g)) =
      held a (rg_subscribers g) - held_in a (filter P ?rs)" for a
    using held_in_split [of a ?rs P] assms(1)
    by (simp add: remove_where_def Let_def held_put keys_ok_cong [of ?g g] subscribers_of_cong [of ?g g])
  ultimately show ?thesis
    by (simp add: counts_exact_def remove_where_def Let_def counts_are_def)
qed

lemma remove_where_subscribers:
  "keys_ok g \<Longrightarrow> subscribers_of uri' (remove_where P uri g) =
     (if uri' = uri then filter (\<lambda>r. \<not> P r) (subscribers_of uri g) else subscribers_of uri' g)"
  by (simp add: remove_where_def Let_def subscribers_of_put keys_ok_cong [of "fold f rs g" g for f rs]
      subscribers_of_cong [of "fold f rs g" g for f rs])

lemma remove_where_simps [simp]:
  "rg_live (remove_where P uri g) = rg_live g" "rg_next (remove_where P uri g) = rg_next g"
  by (simp_all add: remove_where_def Let_def)

lemma remove_where_keys: "keys_ok g \<Longrightarrow> keys_ok (remove_where P uri g)"
  by (simp add: remove_where_def Let_def keys_ok_put keys_ok_cong [of "fold f rs g" g for f rs])

text \<open>Dropping records from the registry: what is left, per key, and no key without records.\<close>

definition filtered :: "(subscription \<Rightarrow> bool) \<Rightarrow> subscribers \<Rightarrow> subscribers" where
  "filtered P subs = filter (\<lambda>e. snd e \<noteq> []) (map (\<lambda>(uri, rs). (uri, filter P rs)) subs)"

lemma filtered_simps:
  "filtered P [] = []"
  "filtered P (e # subs) = (if filter P (snd e) = [] then filtered P subs
     else (fst e, filter P (snd e)) # filtered P subs)"
  by (auto simp: filtered_def split: prod.splits)

lemma filtered_keys: "fst ` set (filtered P subs) \<subseteq> fst ` set subs"
  by (induction subs) (auto simp: filtered_simps)

lemma filtered_absent: "uri \<notin> fst ` set subs \<Longrightarrow> uri \<notin> fst ` set (filtered P subs)"
  using filtered_keys by blast

lemma filtered_distinct: "distinct (map fst subs) \<Longrightarrow> distinct (map fst (filtered P subs))"
proof (induction subs)
  case (Cons e subs)
  then show ?case using filtered_absent [of "fst e" subs P] by (simp add: filtered_simps)
qed (simp add: filtered_simps)

lemma filtered_lookup:
  "distinct (map fst subs) \<Longrightarrow>
   (case map_of (filtered P subs) uri of None \<Rightarrow> [] | Some rs \<Rightarrow> rs) =
     filter P (case map_of subs uri of None \<Rightarrow> [] | Some rs \<Rightarrow> rs)"
proof (induction subs)
  case (Cons e subs)
  show ?case
  proof (cases "fst e = uri")
    case True
    then have "uri \<notin> fst ` set (filtered P subs)"
      using Cons.prems filtered_absent [of uri subs P] by simp
    then have "map_of (filtered P subs) uri = None" by (simp add: map_of_eq_None_iff)
    then show ?thesis using True by (simp add: filtered_simps)
  next
    case False
    then show ?thesis using Cons by (simp add: filtered_simps)
  qed
qed (simp add: filtered_simps)

lemma held_filtered: "held a (filtered P subs) \<le> held a subs"
proof (induction subs)
  case (Cons e subs)
  then show ?case using held_in_filter_le [of a P "snd e"] held_in_nonneg [of a "snd e"]
    by (cases "filter P (snd e) = []") (simp_all add: filtered_simps add_mono add_increasing)
qed (simp add: filtered_simps)

lemma held_filtered_other:
  assumes "\<And>r. sn_agent r \<noteq> b \<Longrightarrow> P r" and "a \<noteq> b"
  shows "held a (filtered P subs) = held a subs"
proof (induction subs)
  case (Cons e subs)
  have same: "held_in a (filter P rs) = held_in a rs" for rs
    using assms by (induction rs) auto
  show ?case using Cons same [of "snd e"] by (cases "filter P (snd e) = []") (simp_all add: filtered_simps)
qed (simp add: filtered_simps)

lemma reclaim_def':
  "reclaim_dead_for_agent a g =
     (let subs = filtered (\<lambda>r. \<not> (sn_agent r = a \<and> is_dead g r)) (rg_subscribers g)
      in set_count a (held a subs) (g\<lparr>rg_subscribers := subs\<rparr>))"
  by (simp add: reclaim_dead_for_agent_def filtered_def held_in_def [symmetric] held_concat Let_def)

lemma reclaim_simps [simp]:
  "rg_live (reclaim_dead_for_agent a g) = rg_live g" "rg_next (reclaim_dead_for_agent a g) = rg_next g"
  by (simp_all add: reclaim_def' Let_def)

lemma reclaim_keys: "keys_ok g \<Longrightarrow> keys_ok (reclaim_dead_for_agent a g)"
  by (simp add: keys_ok_def reclaim_def' Let_def filtered_distinct)

lemma reclaim_subscribers:
  "keys_ok g \<Longrightarrow> subscribers_of uri (reclaim_dead_for_agent a g) =
     filter (\<lambda>r. \<not> (sn_agent r = a \<and> is_dead g r)) (subscribers_of uri g)"
  by (simp add: reclaim_def' Let_def subscribers_of_def keys_ok_def filtered_lookup)

lemma reclaim_exact:
  assumes "counts_exact g"
  shows "counts_exact (reclaim_dead_for_agent a g)"
proof -
  let ?subs = "filtered (\<lambda>r. \<not> (sn_agent r = a \<and> is_dead g r)) (rg_subscribers g)"
  have "held b ?subs = held b (rg_subscribers g)" if "b \<noteq> a" for b
    using that by (intro held_filtered_other [where b = a]) auto
  then show ?thesis
    using assms by (auto simp: counts_exact_def counts_are_def reclaim_def' Let_def set_count_def)
qed

text \<open>
  The reclaim makes the count of its agent right even where it was not, whatever led to the divergence.
\<close>

lemma reclaim_heals:
  "rg_counts (reclaim_dead_for_agent a g) a =
     (let n = held a (rg_subscribers (reclaim_dead_for_agent a g)) in if 0 < n then Some n else None)"
  by (simp add: reclaim_def' Let_def set_count_def)

end
