(* ===== verification/SubscriptionRuns.thy ===== *)
theory SubscriptionRuns
  imports Subscriptions
begin

text \<open>
  The registry in use: requests of any sessions, sessions that open and are collected, and
  notifications whose sends interleave with all of it. A session may subscribe for any agent; that it
  keeps to one, which the registry does not check, is a condition on the requests so far where a
  property needs it.
\<close>

section \<open>The invariant of the registry\<close>

definition registry_ok :: "(nat \<Rightarrow> nat) \<Rightarrow> registry \<Rightarrow> bool" where
  "registry_ok owner g =
     (keys_ok g \<and> counts_exact g \<and> (\<forall>a. held a (rg_subscribers g) \<le> MAX_SUBSCRIPTIONS_PER_AGENT) \<and>
      (\<forall>uri. distinct (map sn_session (subscribers_of uri g)) \<and> distinct (map sn_id (subscribers_of uri g)) \<and>
         (\<forall>r \<in> set (subscribers_of uri g). sn_agent r = owner (sn_session r) \<and> sn_id r < rg_next g)))"

lemma registry_ok_filter:
  assumes "registry_ok owner g" and "keys_ok g'" and "counts_exact g'" and "rg_next g' = rg_next g"
    and "\<And>a. held a (rg_subscribers g') \<le> held a (rg_subscribers g)"
    and "\<And>uri. \<exists>P. subscribers_of uri g' = filter P (subscribers_of uri g)"
  shows "registry_ok owner g'"
proof -
  have "distinct (map sn_session (subscribers_of uri g')) \<and> distinct (map sn_id (subscribers_of uri g')) \<and>
      (\<forall>r \<in> set (subscribers_of uri g'). sn_agent r = owner (sn_session r) \<and> sn_id r < rg_next g')" for uri
    using assms(1, 4) assms(6) [of uri] by (auto simp: registry_ok_def distinct_map_filter)
  moreover have "held a (rg_subscribers g') \<le> MAX_SUBSCRIPTIONS_PER_AGENT" for a
    using assms(1) assms(5) [of a] order_trans by (fastforce simp: registry_ok_def)
  ultimately show ?thesis using assms(2, 3) by (simp add: registry_ok_def)
qed

lemma held_remove_where:
  assumes "keys_ok g"
  shows "held a (rg_subscribers (remove_where P uri g)) \<le> held a (rg_subscribers g)"
proof -
  let ?rs = "subscribers_of uri g"
  let ?g = "fold (\<lambda>r. dec_count (sn_agent r)) (filter P ?rs) g"
  have "held a (rg_subscribers (remove_where P uri g)) =
      held a (rg_subscribers g) - held_in a ?rs + held_in a (filter (\<lambda>r. \<not> P r) ?rs)"
    using assms by (simp add: remove_where_def Let_def held_put keys_ok_cong [of ?g g] subscribers_of_cong [of ?g g])
  then show ?thesis using held_in_filter_le [of a "\<lambda>r. \<not> P r" ?rs] by linarith
qed

lemma remove_where_ok:
  assumes "registry_ok owner g"
  shows "registry_ok owner (remove_where P uri g)"
proof (rule registry_ok_filter [OF assms])
  have k: "keys_ok g" "counts_exact g" using assms by (simp_all add: registry_ok_def)
  show "keys_ok (remove_where P uri g)" by (rule remove_where_keys [OF k(1)])
  show "counts_exact (remove_where P uri g)" by (rule remove_where_exact [OF k])
  show "rg_next (remove_where P uri g) = rg_next g" by simp
  show "held a (rg_subscribers (remove_where P uri g)) \<le> held a (rg_subscribers g)" for a
    by (rule held_remove_where [OF k(1)])
  show "\<exists>Q. subscribers_of uri' (remove_where P uri g) = filter Q (subscribers_of uri' g)" for uri'
    using remove_where_subscribers [OF k(1)] by (cases "uri' = uri") (auto intro: exI [of _ "\<lambda>r. True"])
qed

lemma reclaim_ok:
  assumes "registry_ok owner g"
  shows "registry_ok owner (reclaim_dead_for_agent a g)"
proof (rule registry_ok_filter [OF assms])
  have k: "keys_ok g" "counts_exact g" using assms by (simp_all add: registry_ok_def)
  show "keys_ok (reclaim_dead_for_agent a g)" by (rule reclaim_keys [OF k(1)])
  show "counts_exact (reclaim_dead_for_agent a g)" by (rule reclaim_exact [OF k(2)])
  show "rg_next (reclaim_dead_for_agent a g) = rg_next g" by simp
  show "held b (rg_subscribers (reclaim_dead_for_agent a g)) \<le> held b (rg_subscribers g)" for b
    by (simp add: reclaim_def' Let_def held_filtered)
  show "\<exists>P. subscribers_of uri (reclaim_dead_for_agent a g) = filter P (subscribers_of uri g)" for uri
    using reclaim_subscribers [OF k(1)] by blast
qed

section \<open>Subscribing\<close>

text \<open>
  The first stage: the session's own record of the resource is dropped, at most one, and of the same agent.
\<close>

definition replaced :: "string \<Rightarrow> nat \<Rightarrow> nat \<Rightarrow> registry \<Rightarrow> registry" where
  "replaced uri session a g =
     (let before = subscribers_of uri g;
          records = filter (\<lambda>r. \<not> refers_to g session r) before;
          g1 = g\<lparr>rg_subscribers := AList.update uri records (rg_subscribers g)\<rparr>
      in if length records < length before then dec_count a g1 else g1)"

lemma replaced_fields:
  "rg_subscribers (replaced uri session a g) =
     AList.update uri (filter (\<lambda>r. \<not> refers_to g session r) (subscribers_of uri g)) (rg_subscribers g)"
  "rg_live (replaced uri session a g) = rg_live g" "rg_next (replaced uri session a g) = rg_next g"
  by (simp_all add: replaced_def Let_def)

lemma replaced_subscribers:
  "subscribers_of uri' (replaced uri session a g) =
     (if uri' = uri then filter (\<lambda>r. \<not> refers_to g session r) (subscribers_of uri g) else subscribers_of uri' g)"
  by (simp add: subscribers_of_def replaced_fields update_conv)

lemma held_replaced:
  "keys_ok g \<Longrightarrow> held b (rg_subscribers (replaced uri session a g)) =
     held b (rg_subscribers g) - held_in b (filter (refers_to g session) (subscribers_of uri g))"
  using held_in_split [of b "subscribers_of uri g" "refers_to g session"]
  by (simp add: replaced_fields held_updated)

lemma own_records:
  assumes "registry_ok owner g"
  shows "filter (refers_to g session) (subscribers_of uri g) = [] \<or>
    (\<exists>r. filter (refers_to g session) (subscribers_of uri g) = [r] \<and> sn_agent r = owner session)"
proof -
  let ?own = "filter (refers_to g session) (subscribers_of uri g)"
  have "distinct (map sn_session ?own)" using assms by (simp add: registry_ok_def distinct_map_filter)
  moreover have "\<forall>r \<in> set ?own. sn_session r = session \<and> sn_agent r = owner session"
    using assms by (auto simp: registry_ok_def refers_to_def)
  ultimately show ?thesis
    by (cases ?own rule: remdups_adj.cases) auto
qed

lemma replaced_ok:
  assumes "registry_ok owner g" and "owner session = a"
  shows "registry_ok owner (replaced uri session a g)"
proof (rule registry_ok_filter [OF assms(1)])
  let ?own = "filter (refers_to g session) (subscribers_of uri g)"
  have k: "keys_ok g" "counts_exact g" using assms by (simp_all add: registry_ok_def)
  show "keys_ok (replaced uri session a g)"
    using k(1) by (simp add: keys_ok_def replaced_fields distinct_update)
  show "rg_next (replaced uri session a g) = rg_next g" by (rule replaced_fields)
  show "held b (rg_subscribers (replaced uri session a g)) \<le> held b (rg_subscribers g)" for b
    by (simp add: held_replaced [OF k(1)])
  show "\<exists>P. subscribers_of uri' (replaced uri session a g) = filter P (subscribers_of uri' g)" for uri'
    by (cases "uri' = uri") (auto simp: replaced_subscribers intro: exI [of _ "\<lambda>r. True"])
  have len: "length (filter (\<lambda>r. \<not> refers_to g session r) (subscribers_of uri g)) + length ?own =
      length (subscribers_of uri g)" by (simp add: sum_length_filter_compl add.commute)
  show "counts_exact (replaced uri session a g)"
    using own_records [OF assms(1), of session uri]
  proof
    assume "?own = []"
    then show ?thesis using k(2) len held_replaced [OF k(1), of _ uri session a]
      by (simp add: counts_exact_def counts_are_def) (simp add: replaced_def Let_def)
  next
    assume "\<exists>r. ?own = [r] \<and> sn_agent r = owner session"
    then obtain r where r: "?own = [r]" "sn_agent r = a" using assms(2) by blast
    let ?g1 = "g\<lparr>rg_subscribers := AList.update uri (filter (\<lambda>r. \<not> refers_to g session r) (subscribers_of uri g))
      (rg_subscribers g)\<rparr>"
    have "held_in a ?own \<le> held a (rg_subscribers g)"
      using held_in_filter_le subscribers_held order_trans by blast
    then have "1 \<le> held a (rg_subscribers g)" using r by simp
    then have "counts_are ((\<lambda>b. held b (rg_subscribers g))(a := held a (rg_subscribers g) - 1)) (dec_count a ?g1)"
      using k(2) by (intro counts_are_dec) (simp_all add: counts_exact_def counts_are_def)
    moreover have "replaced uri session a g = dec_count a ?g1" using r(1) len by (simp add: replaced_def Let_def)
    ultimately show ?thesis
      using held_replaced [OF k(1), of _ uri session a] r
      by (simp add: counts_exact_def counts_are_def)
  qed
qed

text \<open>The second stage: the dead are reclaimed when the cap is reached.\<close>

definition made_room :: "string \<Rightarrow> nat \<Rightarrow> nat \<Rightarrow> registry \<Rightarrow> registry" where
  "made_room uri session a g =
     (let g2 = replaced uri session a g in
      if MAX_SUBSCRIPTIONS_PER_AGENT \<le> count_of a g2 then reclaim_dead_for_agent a g2 else g2)"

lemma made_room_ok:
  "registry_ok owner g \<Longrightarrow> owner session = a \<Longrightarrow> registry_ok owner (made_room uri session a g)"
  by (simp add: made_room_def Let_def replaced_ok reclaim_ok)

lemma made_room_fields:
  "rg_live (made_room uri session a g) = rg_live g" "rg_next (made_room uri session a g) = rg_next g"
  by (simp_all add: made_room_def Let_def replaced_fields)

definition new_subscription :: "nat \<Rightarrow> nat \<Rightarrow> string \<Rightarrow> registry \<Rightarrow> subscription" where
  "new_subscription session a sub g = \<lparr>sn_id = rg_next g, sn_session = session, sn_agent = a, sn_sub = sub\<rparr>"

definition subscribed :: "string \<Rightarrow> nat \<Rightarrow> nat \<Rightarrow> string \<Rightarrow> registry \<Rightarrow> registry" where
  "subscribed uri session a sub g =
     (let g4 = put_subscribers uri (subscribers_of uri g @ [new_subscription session a sub g]) g
      in (set_count a (count_of a g4 + 1) g4)\<lparr>rg_next := Suc (rg_next g4)\<rparr>)"

lemma subscribe_stages:
  "subscribe uri session a sub g =
     (let g3 = made_room uri session a g in
      if MAX_SUBSCRIPTIONS_PER_AGENT \<le> count_of a g3
      then (if subscribers_of uri g3 = [] then put_subscribers uri [] g3 else g3, Inl ''SubscriptionLimitError'')
      else (subscribed uri session a sub g3,
            Inr (if filter (refers_to g session) (subscribers_of uri g) = []
                 then Some (new_subscription session a sub g3) else None)))"
proof -
  have "length (filter (\<lambda>r. \<not> refers_to g session r) (subscribers_of uri g)) < length (subscribers_of uri g) \<longleftrightarrow>
      filter (refers_to g session) (subscribers_of uri g) \<noteq> []"
    using sum_length_filter_compl [of "refers_to g session" "subscribers_of uri g"]
    by (metis add.commute add_cancel_right_right length_0_conv less_add_same_cancel1 length_greater_0_conv less_irrefl)
  then show ?thesis
    by (simp add: subscribe_def made_room_def replaced_def subscribed_def new_subscription_def Let_def)
qed

lemma count_of_ok: "registry_ok owner g \<Longrightarrow> count_of a g = held a (rg_subscribers g)"
  using counts_are_count_of [of "\<lambda>a. held a (rg_subscribers g)" g a] by (simp add: registry_ok_def counts_exact_def)

lemma forget_empty_ok:
  assumes "registry_ok owner g" and "subscribers_of uri g = []"
  shows "registry_ok owner (put_subscribers uri [] g)"
proof (rule registry_ok_filter [OF assms(1)])
  have k: "keys_ok g" "counts_exact g" using assms by (simp_all add: registry_ok_def)
  have same: "held a (rg_subscribers (put_subscribers uri [] g)) = held a (rg_subscribers g)" for a
    using held_put [OF k(1), of a uri "[]"] assms(2) by simp
  show "keys_ok (put_subscribers uri [] g)" by (rule keys_ok_put [OF k(1)])
  show "counts_exact (put_subscribers uri [] g)" using k(2) same by (simp add: counts_exact_def counts_are_def)
  show "held a (rg_subscribers (put_subscribers uri [] g)) \<le> held a (rg_subscribers g)" for a by (simp add: same)
  show "\<exists>P. subscribers_of uri' (put_subscribers uri [] g) = filter P (subscribers_of uri' g)" for uri'
    using subscribers_of_put [OF k(1)] by (cases "uri' = uri") (auto intro: exI [of _ "\<lambda>r. True"] exI [of _ "\<lambda>r. False"])
qed simp

lemma subscribed_fields:
  "rg_live (subscribed uri session a sub g) = rg_live g" "rg_next (subscribed uri session a sub g) = Suc (rg_next g)"
  by (simp_all add: subscribed_def Let_def)

lemma subscribed_subscribers:
  "keys_ok g \<Longrightarrow> subscribers_of uri' (subscribed uri session a sub g) =
     (if uri' = uri then subscribers_of uri g @ [new_subscription session a sub g] else subscribers_of uri' g)"
  using subscribers_of_put [of g uri' uri] by (simp add: subscribed_def Let_def subscribers_of_def)

lemma subscribed_ok:
  assumes g: "registry_ok owner g" and a: "owner session = a"
    and room: "count_of a g < MAX_SUBSCRIPTIONS_PER_AGENT"
    and fresh: "\<forall>r \<in> set (subscribers_of uri g). sn_session r \<noteq> session"
  shows "registry_ok owner (subscribed uri session a sub g)"
proof -
  let ?new = "new_subscription session a sub g" and ?g' = "subscribed uri session a sub g"
  let ?g4 = "put_subscribers uri (subscribers_of uri g @ [?new]) g"
  have k: "keys_ok g" "counts_exact g" using g by (simp_all add: registry_ok_def)
  have new: "sn_agent ?new = a" "sn_session ?new = session" "sn_id ?new = rg_next g"
    by (simp_all add: new_subscription_def)
  have base: "distinct (map sn_session (subscribers_of uri' g)) \<and> distinct (map sn_id (subscribers_of uri' g)) \<and>
      (\<forall>r \<in> set (subscribers_of uri' g). sn_agent r = owner (sn_session r) \<and> sn_id r < rg_next g)" for uri'
    using g unfolding registry_ok_def by blast
  have old: "sn_id r \<noteq> rg_next g" if "r \<in> set (subscribers_of uri g)" for r
    using base [of uri] that by fastforce
  have held: "held b (rg_subscribers ?g') = held b (rg_subscribers g) + (if b = a then 1 else 0)" for b
    using held_put [OF k(1), of b uri] new(1) by (simp add: subscribed_def Let_def)
  have "count_of a ?g4 = held a (rg_subscribers g)"
    using count_of_ok [OF g, of a] by (simp add: count_of_def)
  then have "rg_counts ?g' = rg_counts (set_count a (held a (rg_subscribers g) + 1) g)"
    by (simp add: subscribed_def Let_def set_count_def)
  then have "counts_exact ?g'"
    using k(2) held by (auto simp: counts_exact_def counts_are_def set_count_def)
  moreover have "keys_ok ?g'" using keys_ok_put [OF k(1)] by (simp add: keys_ok_def subscribed_def Let_def)
  moreover have "held b (rg_subscribers ?g') \<le> MAX_SUBSCRIPTIONS_PER_AGENT" for b
    using g room count_of_ok [OF g, of a] by (auto simp: held registry_ok_def)
  moreover have "distinct (map sn_session (subscribers_of uri' ?g')) \<and> distinct (map sn_id (subscribers_of uri' ?g')) \<and>
      (\<forall>r \<in> set (subscribers_of uri' ?g'). sn_agent r = owner (sn_session r) \<and> sn_id r < rg_next ?g')" for uri'
  proof (cases "uri' = uri")
    case True
    have "session \<notin> sn_session ` set (subscribers_of uri g)" "rg_next g \<notin> sn_id ` set (subscribers_of uri g)"
      using fresh old by (metis imageE)+
    then show ?thesis using base [of uri] new a True
      by (simp add: subscribed_subscribers [OF k(1)] subscribed_fields less_SucI)
  next
    case False
    then show ?thesis using base [of uri'] by (simp add: subscribed_subscribers [OF k(1)] subscribed_fields less_SucI)
  qed
  ultimately show ?thesis by (simp add: registry_ok_def)
qed

lemma replaced_keys: "keys_ok g \<Longrightarrow> keys_ok (replaced uri session a g)"
  by (simp add: keys_ok_def replaced_fields distinct_update)

lemma made_room_keys: "keys_ok g \<Longrightarrow> keys_ok (made_room uri session a g)"
  by (simp add: made_room_def Let_def replaced_keys reclaim_keys)

lemma made_room_subscribers:
  assumes "keys_ok g"
  shows "subscribers_of uri' (made_room uri session a g) =
    filter (\<lambda>r. \<not> (uri' = uri \<and> refers_to g session r) \<and>
      \<not> (MAX_SUBSCRIPTIONS_PER_AGENT \<le> count_of a (replaced uri session a g) \<and> sn_agent r = a \<and> is_dead g r))
      (subscribers_of uri' g)"
proof -
  have "keys_ok (replaced uri session a g)" by (rule replaced_keys [OF assms])
  moreover have "is_dead (replaced uri session a g) = is_dead g" by (simp add: is_dead_def fun_eq_iff replaced_fields)
  ultimately show ?thesis
    by (auto simp: made_room_def Let_def reclaim_subscribers replaced_subscribers intro!: filter_cong)
qed

lemma subscribe_ok:
  assumes g: "registry_ok owner g" and live: "session \<in> set (rg_live g)"
  shows "registry_ok owner (fst (subscribe uri session (owner session) sub g))"
proof -
  let ?g3 = "made_room uri session (owner session) g"
  have g3: "registry_ok owner ?g3" by (rule made_room_ok [OF g]) simp
  have "\<forall>r \<in> set (subscribers_of uri ?g3). sn_session r \<noteq> session"
    using live g by (auto simp: made_room_subscribers registry_ok_def refers_to_def is_dead_def)
  then show ?thesis
    using g3 forget_empty_ok [OF g3] subscribed_ok [OF g3 HOL.refl] by (simp add: subscribe_stages Let_def)
qed

section \<open>The system\<close>

record subscription_system =
  ss_registry :: registry
  ss_tasks :: "notify_task list"
  ss_closed :: "nat list"
  ss_sessions :: nat

text \<open>
  What can happen: a request, a step of a notification, a session that opens, one that is collected.
\<close>

datatype subscription_event =
    Subscribing string nat nat string
  | Unsubscribing string nat
  | RollingBack string subscription
  | Notifying string "nat list option"
  | Sending nat send_result
  | Pruning nat
  | SessionOpened
  | SessionCollected nat

text \<open>
  Whether an event can happen: a request comes from a live session, a step is one of a notification
  under way, and a notification prunes when it has gone through its snapshot.
\<close>

fun enabled :: "subscription_event \<Rightarrow> subscription_system \<Rightarrow> bool" where
  "enabled (Subscribing uri session a sub) s = (session \<in> set (rg_live (ss_registry s)))"
| "enabled (Unsubscribing uri session) s = (session \<in> set (rg_live (ss_registry s)))"
| "enabled (Sending k result) s = (k < length (ss_tasks s))"
| "enabled (Pruning k) s = (k < length (ss_tasks s) \<and> nt_todo (ss_tasks s ! k) = [])"
| "enabled _ s = True"

definition with_registry :: "(registry \<Rightarrow> registry) \<Rightarrow> subscription_system \<Rightarrow> subscription_system" where
  "with_registry f s = s\<lparr>ss_registry := f (ss_registry s)\<rparr>"

definition forget_task :: "nat \<Rightarrow> 'a list \<Rightarrow> 'a list" where
  "forget_task k xs = take k xs @ drop (Suc k) xs"

text \<open>The session whose stream a send found closed.\<close>

definition found_closed :: "registry \<Rightarrow> send_result \<Rightarrow> notify_task \<Rightarrow> nat list" where
  "found_closed g result t =
     (case nt_todo t of
        [] \<Rightarrow> []
      | r # rs \<Rightarrow> if result = StreamClosed \<and> entitled (nt_filter t) r \<and> \<not> is_dead g r then [sn_session r] else [])"

fun happen :: "subscription_event \<Rightarrow> subscription_system \<Rightarrow> subscription_system" where
  "happen (Subscribing uri session a sub) s = with_registry (\<lambda>g. fst (subscribe uri session a sub g)) s"
| "happen (Unsubscribing uri session) s = with_registry (\<lambda>g. fst (unsubscribe uri session g)) s"
| "happen (RollingBack uri rec) s = with_registry (\<lambda>g. fst (remove_if_current uri rec g)) s"
| "happen (Notifying uri recipient_filter) s =
     s\<lparr>ss_tasks := ss_tasks s @ [notify_start uri recipient_filter (ss_registry s)]\<rparr>"
| "happen (Sending k result) s =
     (case notify_one (ss_registry s) result (ss_tasks s ! k) of
        None \<Rightarrow> s\<lparr>ss_tasks := forget_task k (ss_tasks s)\<rparr>
      | Some t \<Rightarrow> s\<lparr>ss_tasks := (ss_tasks s)[k := t],
                    ss_closed := found_closed (ss_registry s) result (ss_tasks s ! k) @ ss_closed s\<rparr>)"
| "happen (Pruning k) s =
     (with_registry (notify_prune (ss_tasks s ! k)) s)\<lparr>ss_tasks := forget_task k (ss_tasks s)\<rparr>"
| "happen SessionOpened s =
     (with_registry (\<lambda>g. g\<lparr>rg_live := ss_sessions s # rg_live g\<rparr>) s)\<lparr>ss_sessions := Suc (ss_sessions s)\<rparr>"
| "happen (SessionCollected n) s = with_registry (\<lambda>g. g\<lparr>rg_live := removeAll n (rg_live g)\<rparr>) s"

definition no_subscriptions :: subscription_system where
  "no_subscriptions = \<lparr>ss_registry = \<lparr>rg_subscribers = [], rg_counts = (\<lambda>a. None), rg_live = [], rg_next = 0\<rparr>,
     ss_tasks = [], ss_closed = [], ss_sessions = 0\<rparr>"

text \<open>The state after a sequence of events, each of which could happen when it did.\<close>

inductive subscription_run :: "subscription_event list \<Rightarrow> subscription_system \<Rightarrow> bool" where
  start: "subscription_run [] no_subscriptions"
| further: "subscription_run evs s \<Longrightarrow> enabled ev s \<Longrightarrow> subscription_run (evs @ [ev]) (happen ev s)"

text \<open>The agents for which sessions have asked to subscribe, and that no session has asked for two.\<close>

definition subscribing_agents :: "subscription_event list \<Rightarrow> (nat \<times> nat) list" where
  "subscribing_agents evs =
     concat (map (\<lambda>ev. case ev of Subscribing uri session a sub \<Rightarrow> [(session, a)] | _ \<Rightarrow> []) evs)"

definition one_agent_per_session :: "subscription_event list \<Rightarrow> bool" where
  "one_agent_per_session evs =
     (\<forall>p \<in> set (subscribing_agents evs). \<forall>q \<in> set (subscribing_agents evs). fst p = fst q \<longrightarrow> snd p = snd q)"

lemma subscribing_agents_snoc [simp]:
  "subscribing_agents (evs @ [ev]) = subscribing_agents evs @ subscribing_agents [ev]"
  by (simp add: subscribing_agents_def)

lemma one_agent_before: "one_agent_per_session (evs @ [ev]) \<Longrightarrow> one_agent_per_session evs"
  unfolding one_agent_per_session_def subscribing_agents_snoc by auto

text \<open>Then every session has its owner.\<close>

definition owner_in :: "(nat \<Rightarrow> nat) \<Rightarrow> subscription_event list \<Rightarrow> bool" where
  "owner_in owner evs = (\<forall>p \<in> set (subscribing_agents evs). owner (fst p) = snd p)"

lemma owner_exists:
  assumes "one_agent_per_session evs"
  obtains owner where "owner_in owner evs"
proof
  let ?ps = "subscribing_agents evs"
  have "the (map_of ?ps n) = a" if "(n, a) \<in> set ?ps" for n a
  proof -
    have "n \<in> fst ` set ?ps" using that by force
    then have "map_of ?ps n \<noteq> None" by (simp add: map_of_eq_None_iff)
    then obtain b where b: "map_of ?ps n = Some b" by blast
    then show ?thesis using assms that map_of_SomeD [OF b] by (fastforce simp: one_agent_per_session_def)
  qed
  then show "owner_in (\<lambda>n. the (map_of ?ps n)) evs" by (auto simp: owner_in_def)
qed

section \<open>The invariant of the system\<close>

lemma registry_ok_live [simp]: "registry_ok owner (g\<lparr>rg_live := ns\<rparr>) = registry_ok owner g"
  by (simp add: registry_ok_def keys_ok_def counts_exact_def counts_are_def subscribers_of_def)

lemma unsubscribe_ok: "registry_ok owner g \<Longrightarrow> registry_ok owner (fst (unsubscribe uri session g))"
  by (simp add: unsubscribe_def remove_where_ok)

lemma remove_if_current_ok: "registry_ok owner g \<Longrightarrow> registry_ok owner (fst (remove_if_current uri rec g))"
  by (simp add: remove_if_current_def remove_where_ok)

lemma notify_prune_ok: "registry_ok owner g \<Longrightarrow> registry_ok owner (notify_prune t g)"
  by (simp add: notify_prune_def remove_where_ok)

lemma happen_registry_ok:
  assumes "registry_ok owner (ss_registry s)" and "enabled ev s" and "owner_in owner [ev]"
  shows "registry_ok owner (ss_registry (happen ev s))"
proof (cases ev)
  case (Subscribing uri session a sub)
  moreover from this have "owner session = a" using assms(3) by (simp add: owner_in_def subscribing_agents_def)
  ultimately show ?thesis using assms(1, 2) subscribe_ok by (auto simp: with_registry_def)
qed (use assms in \<open>auto simp: with_registry_def unsubscribe_ok remove_if_current_ok notify_prune_ok
       split: option.splits\<close>)

lemma run_registry_ok:
  "subscription_run evs s \<Longrightarrow> owner_in owner evs \<Longrightarrow> registry_ok owner (ss_registry s)"
proof (induction rule: subscription_run.induct)
  case start
  then show ?case
    by (simp add: no_subscriptions_def registry_ok_def keys_ok_def counts_exact_def counts_are_def
        subscribers_of_def MAX_SUBSCRIPTIONS_PER_AGENT_def)
next
  case (further evs s ev)
  then have "owner_in owner evs" "owner_in owner [ev]" by (auto simp: owner_in_def)
  then show ?case using happen_registry_ok further by blast
qed

lemma subscribed_keys: "keys_ok g \<Longrightarrow> keys_ok (subscribed uri session a sub g)"
  using keys_ok_put [of g] by (simp add: keys_ok_def subscribed_def Let_def)

lemma subscribe_keys: "keys_ok g \<Longrightarrow> keys_ok (fst (subscribe uri session a sub g))"
  by (simp add: subscribe_stages Let_def made_room_keys subscribed_keys keys_ok_put)

lemma happen_keys: "keys_ok (ss_registry s) \<Longrightarrow> keys_ok (ss_registry (happen ev s))"
  by (cases ev) (auto simp: with_registry_def subscribe_keys unsubscribe_def remove_if_current_def
    notify_prune_def remove_where_keys split: option.splits, auto simp: keys_ok_def)

text \<open>No session is registered twice for a resource, whatever agents it asks for.\<close>

definition sessions_once :: "registry \<Rightarrow> bool" where
  "sessions_once g = (\<forall>uri. distinct (map sn_session (subscribers_of uri g)))"

lemma sessions_once_live [simp]: "sessions_once (g\<lparr>rg_live := ns\<rparr>) = sessions_once g"
  by (simp add: sessions_once_def subscribers_of_def)

lemma remove_where_once: "keys_ok g \<Longrightarrow> sessions_once g \<Longrightarrow> sessions_once (remove_where P uri g)"
  by (simp add: sessions_once_def remove_where_subscribers distinct_map_filter)

lemma subscribe_once:
  assumes k: "keys_ok g" and g: "sessions_once g" and live: "session \<in> set (rg_live g)"
  shows "sessions_once (fst (subscribe uri session a sub g))"
  unfolding sessions_once_def
proof
  fix uri'
  let ?g3 = "made_room uri session a g"
  note k3 = made_room_keys [OF k, of uri session a]
  have room: "distinct (map sn_session (subscribers_of uri' ?g3))" for uri'
    using g by (simp add: made_room_subscribers [OF k] sessions_once_def distinct_map_filter)
  have "session \<notin> sn_session ` set (subscribers_of uri ?g3)"
    using live by (auto simp: made_room_subscribers [OF k] refers_to_def is_dead_def)
  then show "distinct (map sn_session (subscribers_of uri' (fst (subscribe uri session a sub g))))"
    using room [of uri'] room [of uri]
    by (auto simp: subscribe_stages Let_def subscribers_of_put [OF k3] subscribed_subscribers [OF k3]
      new_subscription_def)
qed

lemma happen_once:
  "keys_ok (ss_registry s) \<Longrightarrow> sessions_once (ss_registry s) \<Longrightarrow> enabled ev s \<Longrightarrow>
   sessions_once (ss_registry (happen ev s))"
  by (cases ev) (auto simp: with_registry_def subscribe_once unsubscribe_def remove_if_current_def
    notify_prune_def remove_where_once split: option.splits)

text \<open>All the records there are: in the registry and in the snapshots of notifications.\<close>

definition registered :: "registry \<Rightarrow> subscription set" where
  "registered g = (\<Union>uri. set (subscribers_of uri g))"

definition noted :: "notify_task list \<Rightarrow> subscription set" where
  "noted ts = (\<Union>t \<in> set ts. set (nt_todo t) \<union> set (nt_dead t))"

definition records_ok :: "subscription_system \<Rightarrow> bool" where
  "records_ok s =
     (let rs = registered (ss_registry s) \<union> noted (ss_tasks s) in
      inj_on sn_id rs \<and> (\<forall>r \<in> rs. sn_id r < rg_next (ss_registry s) \<and> sn_session r < ss_sessions s) \<and>
      (\<forall>n \<in> set (rg_live (ss_registry s)). n < ss_sessions s))"

definition dead_ok :: "subscription_system \<Rightarrow> bool" where
  "dead_ok s = (\<forall>t \<in> set (ss_tasks s). \<forall>r \<in> set (nt_dead t).
     is_dead (ss_registry s) r \<or> sn_session r \<in> set (ss_closed s))"

lemma noted_update: "noted (ts[k := t]) \<subseteq> noted ts \<union> set (nt_todo t) \<union> set (nt_dead t)"
  using set_update_subset_insert [of ts k t] by (auto simp: noted_def)

lemma set_forget_task: "set (forget_task k ts) \<subseteq> set ts"
  by (auto simp: forget_task_def dest: in_set_takeD in_set_dropD)

lemma noted_forget: "noted (forget_task k ts) \<subseteq> noted ts"
  using set_forget_task [of k ts] by (auto simp: noted_def)

lemma notify_one_records:
  "notify_one g result t = Some t' \<Longrightarrow> set (nt_todo t') \<union> set (nt_dead t') \<subseteq> set (nt_todo t) \<union> set (nt_dead t)"
  by (auto simp: notify_one_def Let_def split: list.splits if_splits send_result.splits)

lemma notify_one_dead:
  "notify_one g result t = Some t' \<Longrightarrow> r \<in> set (nt_dead t') \<Longrightarrow>
   r \<in> set (nt_dead t) \<or> is_dead g r \<or> sn_session r \<in> set (found_closed g result t)"
  by (auto simp: notify_one_def Let_def found_closed_def split: list.splits if_splits send_result.splits)

lemma registered_filter:
  "(\<And>uri. \<exists>P. subscribers_of uri g' = filter P (subscribers_of uri g)) \<Longrightarrow> registered g' \<subseteq> registered g"
  unfolding registered_def by (metis UN_mono filter_is_subset order.refl)

lemma registered_remove_where: "keys_ok g \<Longrightarrow> registered (remove_where P uri g) \<subseteq> registered g"
  by (auto simp: registered_def remove_where_subscribers split: if_splits)

text \<open>Nothing but a subscription adds a record, and it adds one with a new identity.\<close>

lemma subscribe_registered:
  assumes "keys_ok g"
  shows "registered (fst (subscribe uri session a sub g)) \<subseteq> registered g \<and>
      rg_next (fst (subscribe uri session a sub g)) = rg_next g \<or>
    registered (fst (subscribe uri session a sub g)) \<subseteq> insert (new_subscription session a sub g) (registered g) \<and>
      rg_next (fst (subscribe uri session a sub g)) = Suc (rg_next g)"
proof -
  let ?g3 = "made_room uri session a g"
  have k: "keys_ok ?g3" by (rule made_room_keys [OF assms])
  have "registered ?g3 \<subseteq> registered g"
    by (auto simp: registered_def made_room_subscribers [OF assms])
  moreover have "registered (put_subscribers uri [] ?g3) \<subseteq> registered ?g3"
    by (auto simp: registered_def subscribers_of_put [OF k] split: if_splits)
  moreover have "registered (subscribed uri session a sub ?g3) \<subseteq>
      insert (new_subscription session a sub ?g3) (registered ?g3)"
    by (auto simp: registered_def subscribed_subscribers [OF k] split: if_splits)
  moreover have "new_subscription session a sub ?g3 = new_subscription session a sub g"
    by (simp add: new_subscription_def made_room_fields)
  ultimately show ?thesis
    by (auto simp: subscribe_stages Let_def made_room_fields subscribed_fields)
qed

lemma subscribe_live: "rg_live (fst (subscribe uri session a sub g)) = rg_live g"
  by (simp add: subscribe_stages Let_def made_room_fields subscribed_fields)

text \<open>The records of the next state are old ones, but for a new subscription's.\<close>

definition all_records :: "subscription_system \<Rightarrow> subscription set" where
  "all_records s = registered (ss_registry s) \<union> noted (ss_tasks s)"

lemma registered_shrinks:
  assumes "keys_ok g"
  shows "registered (fst (unsubscribe uri session g)) \<subseteq> registered g"
    and "registered (fst (remove_if_current uri rec g)) \<subseteq> registered g"
    and "registered (notify_prune t g) \<subseteq> registered g"
  using registered_remove_where [OF assms]
  by (simp_all add: unsubscribe_def remove_if_current_def notify_prune_def)

lemma registered_live [simp]: "registered (g\<lparr>rg_live := ns\<rparr>) = registered g"
  by (simp add: registered_def subscribers_of_def)

lemma operations_fields [simp]:
  "rg_next (fst (unsubscribe uri session g)) = rg_next g" "rg_live (fst (unsubscribe uri session g)) = rg_live g"
  "rg_next (fst (remove_if_current uri rec g)) = rg_next g" "rg_live (fst (remove_if_current uri rec g)) = rg_live g"
  "rg_next (notify_prune t g) = rg_next g" "rg_live (notify_prune t g) = rg_live g"
  by (simp_all add: unsubscribe_def remove_if_current_def notify_prune_def)

lemma happen_records:
  assumes k: "keys_ok (ss_registry s)" and "enabled ev s"
  shows "all_records (happen ev s) \<subseteq> all_records s \<and>
      rg_next (ss_registry (happen ev s)) = rg_next (ss_registry s) \<or>
    (\<exists>uri session a sub. ev = Subscribing uri session a sub \<and>
       all_records (happen ev s) \<subseteq> insert (new_subscription session a sub (ss_registry s)) (all_records s) \<and>
       rg_next (ss_registry (happen ev s)) = Suc (rg_next (ss_registry s)))"
proof -
  note shrink = registered_shrinks [OF k]
  show ?thesis
  proof (cases ev)
    case (Subscribing uri session a sub)
    then show ?thesis using subscribe_registered [OF k, of uri session a sub]
      by (auto simp: all_records_def with_registry_def)
  next
    case (Notifying uri recipient_filter)
    have "set (subscribers_of uri (ss_registry s)) \<subseteq> registered (ss_registry s)" by (auto simp: registered_def)
    then show ?thesis using Notifying by (auto simp: all_records_def noted_def notify_start_def)
  next
    case (Sending n result)
    have t: "set (nt_todo (ss_tasks s ! n)) \<union> set (nt_dead (ss_tasks s ! n)) \<subseteq> noted (ss_tasks s)"
      using nth_mem [of n "ss_tasks s"] assms(2) Sending by (auto simp: noted_def simp del: nth_mem)
    show ?thesis
    proof (cases "notify_one (ss_registry s) result (ss_tasks s ! n)")
      case None
      then show ?thesis using Sending noted_forget [of n "ss_tasks s"] by (auto simp: all_records_def)
    next
      case (Some t')
      have "noted ((ss_tasks s)[n := t']) \<subseteq> noted (ss_tasks s)"
        using t notify_one_records [OF Some] noted_update [of "ss_tasks s" n t'] by blast
      then show ?thesis using Sending Some by (auto simp: all_records_def)
    qed
  next
    case (Pruning n)
    then show ?thesis using noted_forget [of n "ss_tasks s"] shrink(3) by (auto simp: all_records_def with_registry_def)
  qed (use shrink in \<open>auto simp: all_records_def with_registry_def
       dest: shrink(1) [THEN subsetD] shrink(2) [THEN subsetD]\<close>)
qed

lemma happen_live:
  shows "set (rg_live (ss_registry (happen ev s))) \<subseteq>
      set (rg_live (ss_registry s)) \<union> (if ev = SessionOpened then {ss_sessions s} else {})"
    and "ss_sessions (happen ev s) = (if ev = SessionOpened then Suc (ss_sessions s) else ss_sessions s)"
    and "set (ss_closed s) \<subseteq> set (ss_closed (happen ev s))"
  using subscribe_live
  by (cases ev; auto simp: with_registry_def split: option.splits)+

lemma records_ok_def':
  "records_ok s = (inj_on sn_id (all_records s) \<and>
     (\<forall>r \<in> all_records s. sn_id r < rg_next (ss_registry s) \<and> sn_session r < ss_sessions s) \<and>
     (\<forall>n \<in> set (rg_live (ss_registry s)). n < ss_sessions s))"
  by (simp add: records_ok_def all_records_def Let_def)

lemma happen_records_ok:
  assumes k: "keys_ok (ss_registry s)" and en: "enabled ev s" and ok: "records_ok s"
  shows "records_ok (happen ev s)"
proof -
  let ?s' = "happen ev s"
  have live: "\<forall>n \<in> set (rg_live (ss_registry ?s')). n < ss_sessions ?s'"
    using happen_live(1, 2) [of ev s] ok by (fastforce simp: records_ok_def' split: if_splits)
  have more: "ss_sessions s \<le> ss_sessions ?s'" using happen_live(2) [of ev s] by simp
  from happen_records [OF k en] show ?thesis
  proof (elim disjE exE conjE)
    assume sub: "all_records ?s' \<subseteq> all_records s" and nx: "rg_next (ss_registry ?s') = rg_next (ss_registry s)"
    have "inj_on sn_id (all_records ?s')" using ok sub unfolding records_ok_def' by (blast intro: inj_on_subset)
    then show ?thesis using ok sub nx live more by (fastforce simp: records_ok_def')
  next
    fix uri session a sub
    assume ev: "ev = Subscribing uri session a sub"
      and sb: "all_records ?s' \<subseteq> insert (new_subscription session a sub (ss_registry s)) (all_records s)"
      and nx: "rg_next (ss_registry ?s') = Suc (rg_next (ss_registry s))"
    let ?new = "new_subscription session a sub (ss_registry s)"
    have "sn_id ?new \<notin> sn_id ` all_records s" using ok by (auto simp: records_ok_def' new_subscription_def)
    then have "inj_on sn_id (insert ?new (all_records s))" using ok by (auto simp: records_ok_def')
    then have "inj_on sn_id (all_records ?s')" using inj_on_subset sb by blast
    moreover have "session < ss_sessions s" using en ev ok by (simp add: records_ok_def')
    ultimately show ?thesis using ok sb nx live more by (fastforce simp: records_ok_def' new_subscription_def)
  qed
qed

lemma happen_dead:
  assumes ok: "records_ok s" and "is_dead (ss_registry s) r"
    and "sn_session r < ss_sessions s"
  shows "is_dead (ss_registry (happen ev s)) r"
  using happen_live(1) [of ev s] assms by (auto simp: is_dead_def split: if_splits)

lemma happen_tasks:
  assumes "enabled ev s" and "t \<in> set (ss_tasks (happen ev s))" and "r \<in> set (nt_dead t)"
  shows "(\<exists>t' \<in> set (ss_tasks s). r \<in> set (nt_dead t')) \<or>
    is_dead (ss_registry s) r \<and> (\<exists>k result. ev = Sending k result \<and> r \<in> set (nt_todo (ss_tasks s ! k))) \<or>
    sn_session r \<in> set (ss_closed (happen ev s))"
proof (cases ev)
  case (Sending k result)
  note k = nth_mem [of k "ss_tasks s"]
  show ?thesis
  proof (cases "notify_one (ss_registry s) result (ss_tasks s ! k)")
    case None
    then show ?thesis using assms Sending set_forget_task by fastforce
  next
    case (Some t')
    then have "t = t' \<or> t \<in> set (ss_tasks s)"
      using assms(2) Sending set_mp [OF set_update_subset_insert] by fastforce
    then show ?thesis
    proof
      assume "t = t'"
      have "r \<in> set (nt_todo (ss_tasks s ! k)) \<or> r \<in> set (nt_dead (ss_tasks s ! k))"
        using notify_one_records [OF Some] assms(3) \<open>t = t'\<close> by blast
      moreover have "r \<in> set (nt_dead (ss_tasks s ! k)) \<or> is_dead (ss_registry s) r \<or>
          sn_session r \<in> set (found_closed (ss_registry s) result (ss_tasks s ! k))"
        using notify_one_dead [OF Some] assms(3) \<open>t = t'\<close> by blast
      ultimately show ?thesis using k assms(1) Sending Some by auto
    qed (use assms(3) in blast)
  qed
next
  case (Notifying uri recipient_filter)
  then show ?thesis using assms by (auto simp: notify_start_def)
next
  case (Pruning k)
  then show ?thesis using assms set_forget_task by (fastforce simp: with_registry_def)
qed (use assms in \<open>auto simp: with_registry_def\<close>)

lemma happen_dead_ok:
  assumes k: "keys_ok (ss_registry s)" and en: "enabled ev s" and ok: "records_ok s" and d: "dead_ok s"
  shows "dead_ok (happen ev s)"
  unfolding dead_ok_def
proof (intro ballI)
  fix t r
  assume t: "t \<in> set (ss_tasks (happen ev s))" and r: "r \<in> set (nt_dead t)"
  have old: "is_dead (ss_registry (happen ev s)) r" if "is_dead (ss_registry s) r" "r \<in> noted (ss_tasks s)"
    using that ok by (intro happen_dead [OF ok]) (auto simp: records_ok_def' all_records_def)
  from happen_tasks [OF en t r]
  show "is_dead (ss_registry (happen ev s)) r \<or> sn_session r \<in> set (ss_closed (happen ev s))"
  proof (elim disjE bexE conjE exE)
    fix t'
    assume t': "t' \<in> set (ss_tasks s)" "r \<in> set (nt_dead t')"
    then have "r \<in> noted (ss_tasks s)" by (auto simp: noted_def)
    then show ?thesis using d t' old happen_live(3) [of s ev] by (auto simp: dead_ok_def)
  next
    fix k result
    assume "is_dead (ss_registry s) r" "ev = Sending k result" "r \<in> set (nt_todo (ss_tasks s ! k))"
    moreover from this have "r \<in> noted (ss_tasks s)" using en nth_mem [of k "ss_tasks s"] by (auto simp: noted_def)
    ultimately show ?thesis using old by blast
  qed blast
qed

lemma run_system_ok:
  "subscription_run evs s \<Longrightarrow>
     keys_ok (ss_registry s) \<and> sessions_once (ss_registry s) \<and> records_ok s \<and> dead_ok s"
proof (induction rule: subscription_run.induct)
  case start
  then show ?case
    by (auto simp: records_ok_def dead_ok_def no_subscriptions_def registered_def noted_def subscribers_of_def
      keys_ok_def sessions_once_def)
next
  case (further evs s ev)
  then show ?case using happen_keys happen_once happen_records_ok happen_dead_ok by blast
qed

section \<open>What a registry loses\<close>

text \<open>Replacing a record leaves room for the new one.\<close>

lemma made_room_when_replacing:
  assumes g: "registry_ok owner g" and own: "filter (refers_to g session) (subscribers_of uri g) \<noteq> []"
  shows "count_of (owner session) (made_room uri session (owner session) g) < MAX_SUBSCRIPTIONS_PER_AGENT"
proof -
  have kg: "keys_ok g" using g by (simp add: registry_ok_def)
  have rep: "registry_ok owner (replaced uri session (owner session) g)" by (rule replaced_ok [OF g HOL.refl])
  obtain q where q: "filter (refers_to g session) (subscribers_of uri g) = [q]" "sn_agent q = owner session"
    using own_records [OF g, of session uri] own by blast
  have "held (owner session) (rg_subscribers (replaced uri session (owner session) g)) =
      held (owner session) (rg_subscribers g) - 1"
    using held_replaced [OF kg, of "owner session" uri session "owner session"] q by simp
  moreover have "held (owner session) (rg_subscribers g) \<le> MAX_SUBSCRIPTIONS_PER_AGENT"
    using g unfolding registry_ok_def by blast
  ultimately show ?thesis using count_of_ok [OF rep] by (simp add: made_room_def Let_def)
qed

lemma subscribe_keeps:
  assumes k: "keys_ok g" and live: "session \<in> set (rg_live g)"
    and r: "r \<in> set (subscribers_of uri' g)" "r \<notin> set (subscribers_of uri' (fst (subscribe uri session a sub g)))"
  shows "is_dead g r \<or> (uri' = uri \<and> refers_to g session r)"
proof (rule ccontr)
  let ?g3 = "made_room uri session a g"
  note k3 = made_room_keys [OF k, of uri session a]
  assume "\<not> (is_dead g r \<or> (uri' = uri \<and> refers_to g session r))"
  then have "r \<in> set (subscribers_of uri' ?g3)"
    using r(1) by (auto simp: made_room_subscribers [OF k])
  then show False using r(2)
    by (auto simp: subscribe_stages Let_def subscribers_of_put [OF k3] subscribed_subscribers [OF k3] split: if_splits)
qed

lemma resubscribing_keeps:
  assumes g: "registry_ok owner g" and live: "session \<in> set (rg_live g)"
    and r: "r \<in> set (subscribers_of uri g)" "refers_to g session r"
  shows "is_subscribed uri session (fst (subscribe uri session (owner session) sub g))"
proof -
  let ?g3 = "made_room uri session (owner session) g"
  have k: "keys_ok ?g3" using made_room_ok [OF g] by (simp add: registry_ok_def)
  have "r \<in> set (filter (refers_to g session) (subscribers_of uri g))" using r by simp
  then have "count_of (owner session) ?g3 < MAX_SUBSCRIPTIONS_PER_AGENT"
    using made_room_when_replacing [OF g] by (metis empty_iff list.set(1))
  then show ?thesis
    using live by (auto simp: subscribe_stages Let_def is_subscribed_def subscribed_subscribers [OF k]
      refers_to_def is_dead_def subscribed_fields made_room_fields new_subscription_def)
qed

lemma pruned_only:
  assumes "keys_ok g" and "r \<in> set (subscribers_of uri g)" "r \<notin> set (subscribers_of uri (notify_prune t g))"
  shows "sn_id r \<in> sn_id ` set (nt_dead t)"
  using assms by (auto simp: notify_prune_def remove_where_subscribers split: if_splits)

lemma happen_keeps:
  assumes k: "keys_ok (ss_registry s)" and ok: "records_ok s" "dead_ok s" and en: "enabled ev s"
    and r: "r \<in> set (subscribers_of uri (ss_registry s))"
      "r \<notin> set (subscribers_of uri (ss_registry (happen ev s)))"
  shows "is_dead (ss_registry s) r \<or> sn_session r \<in> set (ss_closed s) \<or> ev = Unsubscribing uri (sn_session r) \<or>
    (\<exists>rec. ev = RollingBack uri rec \<and> sn_id rec = sn_id r) \<or>
    (\<exists>a sub. ev = Subscribing uri (sn_session r) a sub)"
proof -
  show ?thesis
  proof (cases ev)
    case (Subscribing uri' session a sub)
    then show ?thesis using subscribe_keeps [OF k, of session r uri uri' a sub] en r
      by (auto simp: with_registry_def refers_to_def)
  next
    case (Unsubscribing uri' session)
    then show ?thesis using r
      by (auto simp: with_registry_def unsubscribe_def remove_where_subscribers [OF k] refers_to_def split: if_splits)
  next
    case (RollingBack uri' rec)
    then show ?thesis using r
      by (auto simp: with_registry_def remove_if_current_def remove_where_subscribers [OF k] split: if_splits)
  next
    case (Pruning n)
    let ?t = "ss_tasks s ! n"
    have t: "?t \<in> set (ss_tasks s)" using en Pruning by simp
    have "sn_id r \<in> sn_id ` set (nt_dead ?t)"
      using pruned_only [OF k r(1)] r(2) Pruning by (simp add: with_registry_def)
    then obtain q where q: "q \<in> set (nt_dead ?t)" "sn_id q = sn_id r" by (metis imageE)
    have "q \<in> all_records s" "r \<in> all_records s" using q(1) t r(1) by (auto simp: all_records_def noted_def registered_def)
    then have "q = r" using ok(1) q(2) unfolding records_ok_def' inj_on_def by blast
    then show ?thesis using ok(2) q(1) t by (auto simp: dead_ok_def)
  next
    case (Sending n result)
    then show ?thesis using r by (auto split: option.splits)
  qed (use r in \<open>auto simp: with_registry_def subscribers_of_def\<close>)
qed

section \<open>The cap\<close>

text \<open>The subscriptions an agent holds through sessions that are alive.\<close>

definition live_held :: "nat \<Rightarrow> registry \<Rightarrow> int" where
  "live_held a g = held a (map (map_prod id (filter (\<lambda>r. \<not> is_dead g r))) (rg_subscribers g))"

lemma held_in_live_le: "held_in a (filter P rs) \<le> held_in a rs"
  by (rule held_in_filter_le)

lemma live_held_le: "live_held a g \<le> held a (rg_subscribers g)"
  unfolding live_held_def by (induction "rg_subscribers g" rule: list.induct)
    (use held_in_filter_le in \<open>auto simp: held_def intro: sum_list_mono\<close>)

lemma held_filtered_live:
  "held a (filtered (\<lambda>r. \<not> (sn_agent r = a \<and> D r)) subs) = held a (map (map_prod id (filter (\<lambda>r. \<not> D r))) subs)"
proof (induction subs)
  case (Cons e subs)
  have same: "held_in a (filter (\<lambda>r. \<not> (sn_agent r = a \<and> D r)) rs) = held_in a (filter (\<lambda>r. \<not> D r) rs)" for rs
    by (induction rs) auto
  show ?case using Cons same [of "snd e"]
    by (cases "filter (\<lambda>r. \<not> (sn_agent r = a \<and> D r)) (snd e) = []") (simp_all add: filtered_simps)
qed (simp add: filtered_simps)

lemma reclaim_held: "held a (rg_subscribers (reclaim_dead_for_agent a g)) = live_held a g"
  by (simp add: reclaim_def' Let_def live_held_def held_filtered_live [symmetric])

lemma map_update:
  "map (map_prod id f) (AList.update k v subs) = AList.update k (f v) (map (map_prod id f) subs)"
  by (induction subs) auto

lemma live_held_replaced:
  assumes "keys_ok g" and "\<not> is_subscribed uri session g"
  shows "rg_counts (replaced uri session a g) = rg_counts g" and "live_held b (replaced uri session a g) = live_held b g"
proof -
  have same: "filter (\<lambda>r. \<not> refers_to g session r) (subscribers_of uri g) = subscribers_of uri g"
    using assms(2) by (simp add: is_subscribed_def list_ex_iff filter_True)
  show "rg_counts (replaced uri session a g) = rg_counts g" by (simp add: replaced_def Let_def same)
  let ?f = "filter (\<lambda>r. \<not> is_dead g r)"
  let ?m = "map (map_prod id ?f) (rg_subscribers g)"
  have "is_dead (replaced uri session a g) = is_dead g" by (simp add: is_dead_def fun_eq_iff replaced_fields)
  moreover have "map_of ?m uri = map_option ?f (map_of (rg_subscribers g) uri)" by (simp add: map_of_map map_prod_def)
  moreover have "distinct (map fst ?m)" using assms(1) by (simp add: keys_ok_def comp_def)
  moreover have "rg_subscribers (replaced uri session a g) = AList.update uri (subscribers_of uri g) (rg_subscribers g)"
    by (simp only: replaced_fields same)
  ultimately show "live_held b (replaced uri session a g) = live_held b g"
    by (simp add: live_held_def map_update held_update subscribers_of_def split: option.splits)
qed

lemma subscribe_result:
  assumes g: "registry_ok owner g"
  shows "snd (subscribe uri session (owner session) sub g) =
    (if is_subscribed uri session g then Inr None
     else if MAX_SUBSCRIPTIONS_PER_AGENT \<le> live_held (owner session) g then Inl ''SubscriptionLimitError''
     else Inr (Some (new_subscription session (owner session) sub g)))"
proof -
  let ?a = "owner session" and ?g3 = "made_room uri session (owner session) g"
  have kg: "keys_ok g" using g by (simp add: registry_ok_def)
  have rep: "registry_ok owner (replaced uri session ?a g)" by (rule replaced_ok [OF g HOL.refl])
  note count = count_of_ok [OF rep] count_of_ok [OF reclaim_ok [OF rep]]
  show ?thesis
  proof (cases "is_subscribed uri session g")
    case True
    then have "filter (refers_to g session) (subscribers_of uri g) \<noteq> []"
      by (auto simp: is_subscribed_def list_ex_iff filter_empty_conv)
    moreover from this have "count_of ?a ?g3 < MAX_SUBSCRIPTIONS_PER_AGENT"
      using made_room_when_replacing [OF g] by blast
    ultimately show ?thesis using True by (simp add: subscribe_stages Let_def)
  next
    case False
    then have "filter (refers_to g session) (subscribers_of uri g) = []"
      by (simp add: is_subscribed_def list_ex_iff filter_empty_conv)
    moreover have "MAX_SUBSCRIPTIONS_PER_AGENT \<le> count_of ?a ?g3 \<longleftrightarrow> MAX_SUBSCRIPTIONS_PER_AGENT \<le> live_held ?a g"
      using count live_held_le [of ?a "replaced uri session ?a g"] live_held_replaced(2) [OF kg False]
      by (auto simp: made_room_def Let_def reclaim_held)
    ultimately show ?thesis using False
      by (simp add: subscribe_stages Let_def new_subscription_def made_room_fields)
  qed
qed

text \<open>A refusal follows a reclaim, which counts again: it does not rest on the counts kept so far.\<close>

lemma live_held_replaced_le:
  assumes "keys_ok g"
  shows "live_held a (replaced uri session b g) \<le> live_held a g"
proof -
  let ?f = "filter (\<lambda>r. \<not> is_dead g r)"
  let ?m = "map (map_prod id ?f) (rg_subscribers g)"
  let ?rs = "filter (\<lambda>r. \<not> refers_to g session r) (subscribers_of uri g)"
  have m: "map_of ?m uri = map_option ?f (map_of (rg_subscribers g) uri)" by (simp add: map_of_map map_prod_def)
  have d: "distinct (map fst ?m)" using assms by (simp add: keys_ok_def comp_def)
  have "?f ?rs = filter (\<lambda>r. \<not> refers_to g session r) (?f (subscribers_of uri g))"
    unfolding filter_filter by (rule filter_cong) auto
  then have le: "held_in a (?f ?rs) \<le> held_in a (?f (subscribers_of uri g))"
    by (simp only: held_in_filter_le)
  have "is_dead (replaced uri session b g) = is_dead g" by (simp add: is_dead_def fun_eq_iff replaced_fields)
  then have "live_held a (replaced uri session b g) = held a (AList.update uri (?f ?rs) ?m)"
    by (simp add: live_held_def replaced_fields map_update)
  also have "\<dots> = held a ?m - held_in a (?f (subscribers_of uri g)) + held_in a (?f ?rs)"
    using held_update [OF d, of a uri "?f ?rs"] m by (simp add: subscribers_of_def split: option.splits)
  finally show ?thesis using le by (simp add: live_held_def)
qed

lemma refusal_is_earned:
  assumes "snd (subscribe uri session a sub g) = Inl e" and "keys_ok g"
  shows "100 \<le> live_held a g"
proof -
  let ?g2 = "replaced uri session a g"
  have full: "MAX_SUBSCRIPTIONS_PER_AGENT \<le> count_of a (made_room uri session a g)"
    using assms(1) by (auto simp: subscribe_stages Let_def split: if_splits)
  then have "made_room uri session a g = reclaim_dead_for_agent a ?g2"
    by (auto simp: made_room_def Let_def split: if_splits)
  moreover have "count_of a (reclaim_dead_for_agent a ?g2) = live_held a ?g2"
    using reclaim_heals [of a ?g2] reclaim_held [of a ?g2] held_nonneg [of a "rg_subscribers (reclaim_dead_for_agent a ?g2)"]
    by (simp add: count_of_def Let_def)
  ultimately have "100 \<le> live_held a ?g2" using full by (simp add: MAX_SUBSCRIPTIONS_PER_AGENT_def)
  then show ?thesis using live_held_replaced_le [OF assms(2), of a uri session a] by linarith
qed

section \<open>Properties\<close>

text \<open>
  C22. Subscriptions are counted exactly, as long as no session subscribes for two agents: in every
  state that such a run of requests, notifications and collected sessions reaches, the count the
  registry keeps for an agent is the number of its records (and absent when there is none), and no agent
  has more than 100. The condition is needed: \<open>changing_agent_undercounts\<close> is a run without it.
\<close>

theorem subscriptions_are_counted:
  assumes "subscription_run evs s" and "one_agent_per_session evs"
  shows "rg_counts (ss_registry s) a =
      (let n = held a (rg_subscribers (ss_registry s)) in if 0 < n then Some n else None) \<and>
    held a (rg_subscribers (ss_registry s)) \<le> 100"
proof -
  obtain owner where "owner_in owner evs" using owner_exists [OF assms(2)] by blast
  then show ?thesis using run_registry_ok [OF assms(1)]
    by (simp add: registry_ok_def counts_exact_def counts_are_def MAX_SUBSCRIPTIONS_PER_AGENT_def Let_def)
qed

text \<open>
  C21. A live subscription is lost only by request: whatever happens, a record disappears from the
  registry only if its session was collected, or a send found its stream closed, or the session
  unsubscribed, or the record's own registration was rolled back, or the session subscribed to the
  resource again, in which case it is subscribed still if no session has subscribed for two agents. A
  slow, failing or cancelled notification, also one that prunes what it saw long before, removes
  nothing else; and no session is ever registered twice for a resource.
\<close>

theorem subscriptions_are_lost_only_by_request:
  assumes "subscription_run evs s" and "enabled ev s"
    and "r \<in> set (subscribers_of uri (ss_registry s))"
    and "r \<notin> set (subscribers_of uri (ss_registry (happen ev s)))"
  shows "(sn_session r \<notin> set (rg_live (ss_registry s)) \<or> sn_session r \<in> set (ss_closed s) \<or>
    ev = Unsubscribing uri (sn_session r) \<or> (\<exists>rec. ev = RollingBack uri rec \<and> sn_id rec = sn_id r) \<or>
    (\<exists>a sub. ev = Subscribing uri (sn_session r) a sub \<and>
       (one_agent_per_session (evs @ [ev]) \<longrightarrow> is_subscribed uri (sn_session r) (ss_registry (happen ev s))))) \<and>
    distinct (map sn_session (subscribers_of uri (ss_registry s)))"
proof -
  note ok = run_system_ok [OF assms(1)]
  have still: "is_subscribed uri (sn_session r) (ss_registry (happen ev s))"
    if ev: "ev = Subscribing uri (sn_session r) a sub" and one: "one_agent_per_session (evs @ [ev])" for a sub
  proof -
    obtain owner where o: "owner_in owner (evs @ [ev])" using owner_exists [OF one] by blast
    then have own: "owner (sn_session r) = a" "owner_in owner evs"
      using ev by (auto simp: owner_in_def subscribing_agents_def)
    have "sn_session r \<in> set (rg_live (ss_registry s))" using assms(2) ev by simp
    then show ?thesis
      using resubscribing_keeps [OF run_registry_ok [OF assms(1) own(2)], of "sn_session r" r uri sub] assms(3) own(1) ev
      by (simp add: with_registry_def refers_to_def is_dead_def)
  qed
  show ?thesis
    using happen_keeps [of s ev r uri] ok still assms(2-4) by (auto simp: is_dead_def sessions_once_def)
qed

text \<open>
  C23. The cap is exact, as long as no session subscribes for two agents: a request to subscribe is
  refused precisely when the session is not subscribed to the resource yet and the agent holds 100
  subscriptions through sessions that are alive, however many dead ones are still registered; a
  session that is subscribed already is never refused. And without that condition a refusal is still
  earned: the agent does hold 100 subscriptions through sessions that are alive.
\<close>

theorem subscription_cap_is_exact:
  assumes "subscription_run evs s"
  shows "(one_agent_per_session (evs @ [Subscribing uri session a sub]) \<longrightarrow>
      snd (subscribe uri session a sub (ss_registry s)) =
        (if is_subscribed uri session (ss_registry s) then Inr None
         else if 100 \<le> live_held a (ss_registry s) then Inl ''SubscriptionLimitError''
         else Inr (Some (new_subscription session a sub (ss_registry s))))) \<and>
    (snd (subscribe uri session a sub (ss_registry s)) = Inl ''SubscriptionLimitError'' \<longrightarrow>
      100 \<le> live_held a (ss_registry s))"
proof
  show "one_agent_per_session (evs @ [Subscribing uri session a sub]) \<longrightarrow>
      snd (subscribe uri session a sub (ss_registry s)) =
        (if is_subscribed uri session (ss_registry s) then Inr None
         else if 100 \<le> live_held a (ss_registry s) then Inl ''SubscriptionLimitError''
         else Inr (Some (new_subscription session a sub (ss_registry s))))"
  proof
    assume "one_agent_per_session (evs @ [Subscribing uri session a sub])"
    then obtain owner where "owner_in owner (evs @ [Subscribing uri session a sub])" using owner_exists by blast
    then have "owner session = a" "owner_in owner evs" by (auto simp: owner_in_def subscribing_agents_def)
    then show "snd (subscribe uri session a sub (ss_registry s)) =
        (if is_subscribed uri session (ss_registry s) then Inr None
         else if 100 \<le> live_held a (ss_registry s) then Inl ''SubscriptionLimitError''
         else Inr (Some (new_subscription session a sub (ss_registry s))))"
      using subscribe_result [OF run_registry_ok [OF assms]] by (auto simp: MAX_SUBSCRIPTIONS_PER_AGENT_def)
  qed
  show "snd (subscribe uri session a sub (ss_registry s)) = Inl ''SubscriptionLimitError'' \<longrightarrow>
      100 \<le> live_held a (ss_registry s)"
    using refusal_is_earned run_system_ok [OF assms] by blast
qed

section \<open>Runs\<close>

fun run_events :: "subscription_event list \<Rightarrow> subscription_system \<Rightarrow> subscription_system option" where
  "run_events [] s = Some s"
| "run_events (ev # evs) s = (if enabled ev s then run_events evs (happen ev s) else None)"

lemma run_events_run:
  "subscription_run evs s \<Longrightarrow> run_events evs' s = Some s' \<Longrightarrow> subscription_run (evs @ evs') s'"
proof (induction evs' arbitrary: evs s)
  case (Cons ev evs')
  have "enabled ev s" "run_events evs' (happen ev s) = Some s'" using Cons.prems(2) by (auto split: if_splits)
  then show ?case using Cons.IH [OF subscription_run.further [OF Cons.prems(1)]] by simp
qed simp

definition events_lead :: "subscription_event list \<Rightarrow> subscription_system" where
  "events_lead evs = the (run_events evs no_subscriptions)"

lemma events_lead_run: "run_events evs no_subscriptions \<noteq> None \<Longrightarrow> subscription_run evs (events_lead evs)"
  using run_events_run [OF subscription_run.start, of evs] by (auto simp: events_lead_def)

text \<open>
  Two sessions subscribe; a notification finds the stream of the first closed, the second times out;
  before the pruning the second subscribes again.
\<close>

definition two_sessions_events :: "subscription_event list" where
  "two_sessions_events =
     [SessionOpened, SessionOpened, Subscribing ''u'' 0 7 ''s'', Subscribing ''u'' 1 7 ''s'', Notifying ''u'' (Some [7]),
      Sending 0 StreamClosed, Sending 0 SendTimeout, Subscribing ''u'' 1 7 ''s'']"

definition two_sessions :: subscription_system where
  "two_sessions = events_lead two_sessions_events"

lemma two_sessions_run: "subscription_run two_sessions_events two_sessions"
  unfolding two_sessions_def by (rule events_lead_run) code_simp

lemma two_sessions_state:
  "subscribers_of ''u'' (ss_registry two_sessions) =
     [\<lparr>sn_id = 0, sn_session = 0, sn_agent = 7, sn_sub = ''s''\<rparr>, \<lparr>sn_id = 2, sn_session = 1, sn_agent = 7, sn_sub = ''s''\<rparr>]"
  "rg_counts (ss_registry two_sessions) 7 = Some 2"
  "enabled (Pruning 0) two_sessions"
  "subscribers_of ''u'' (ss_registry (happen (Pruning 0) two_sessions)) =
     [\<lparr>sn_id = 2, sn_session = 1, sn_agent = 7, sn_sub = ''s''\<rparr>]"
  "rg_live (ss_registry two_sessions) = [1, 0]" "ss_closed two_sessions = [0]"
  "one_agent_per_session two_sessions_events"
  by code_simp+

theorem subscriptions_are_counted_witness:
  "held 7 (rg_subscribers (ss_registry two_sessions)) = 2 \<and>
     rg_counts (ss_registry two_sessions) 7 = Some 2"
  using subscriptions_are_counted [OF two_sessions_run two_sessions_state(7), of 7] two_sessions_state(2)
  by (auto simp: Let_def split: if_splits)

theorem subscriptions_are_lost_only_by_request_witness:
  "\<exists>r \<in> set (subscribers_of ''u'' (ss_registry two_sessions)).
     r \<notin> set (subscribers_of ''u'' (ss_registry (happen (Pruning 0) two_sessions))) \<and>
     sn_session r \<in> set (ss_closed two_sessions)"
proof -
  let ?r = "\<lparr>sn_id = 0, sn_session = 0, sn_agent = 7, sn_sub = ''s''\<rparr>"
  have r: "?r \<in> set (subscribers_of ''u'' (ss_registry two_sessions))"
    "?r \<notin> set (subscribers_of ''u'' (ss_registry (happen (Pruning 0) two_sessions)))"
    by (simp_all add: two_sessions_state del: happen.simps)
  have "sn_session ?r \<in> set (ss_closed two_sessions)"
    using subscriptions_are_lost_only_by_request [OF two_sessions_run two_sessions_state(3) r]
    by (simp add: two_sessions_state)
  then show ?thesis using r by blast
qed

text \<open>One session that subscribes to a hundred resources, and asks for one more.\<close>

definition full_subscribing :: "nat \<Rightarrow> subscription_event list" where
  "full_subscribing n = map (\<lambda>k. Subscribing [char_of k] 0 7 ''s'') [0..<n]"

definition full_events :: "subscription_event list" where
  "full_events = [SessionOpened] @ full_subscribing 100"

definition filled :: "nat \<Rightarrow> registry" where
  "filled n = \<lparr>rg_subscribers = map (\<lambda>k. ([char_of k], [\<lparr>sn_id = k, sn_session = 0, sn_agent = 7, sn_sub = ''s''\<rparr>])) [0..<n],
     rg_counts = (\<lambda>a. None)(7 := if 0 < n then Some (int n) else None), rg_live = [0], rg_next = n\<rparr>"

definition full :: subscription_system where
  "full = no_subscriptions\<lparr>ss_registry := filled 100, ss_sessions := 1\<rparr>"

lemma update_absent: "k \<notin> fst ` set al \<Longrightarrow> AList.update k v al = al @ [(k, v)]"
  by (induction al) auto

lemma update_last: "k \<notin> fst ` set al \<Longrightarrow> AList.update k v (al @ [(k, w)]) = al @ [(k, v)]"
  by (induction al) auto

lemma filled_absent: "n < 100 \<Longrightarrow> [char_of n] \<notin> fst ` set (rg_subscribers (filled n))"
  by (auto simp: filled_def char_of_eq_iff take_bit_nat_eq_self)

lemma filled_step:
  assumes "n < 100"
  shows "fst (subscribe [char_of n] 0 7 ''s'' (filled n)) = filled (Suc n)"
proof -
  let ?uri = "[char_of n :: char]" and ?g = "filled n"
  note absent = filled_absent [OF assms]
  have none: "subscribers_of ?uri ?g = []"
    using absent by (simp add: subscribers_of_def map_of_eq_None_iff [THEN iffD2])
  have "count_of 7 ?g = int n" by (simp add: filled_def count_of_def)
  then have room: "made_room ?uri 0 7 ?g = ?g\<lparr>rg_subscribers := rg_subscribers ?g @ [(?uri, [])]\<rparr>"
    using assms by (simp add: made_room_def Let_def replaced_def none update_absent [OF absent] count_of_def
      MAX_SUBSCRIPTIONS_PER_AGENT_def)
  have empty: "subscribers_of ?uri (made_room ?uri 0 7 ?g) = []"
    using map_of_eq_None_iff [THEN iffD2, OF absent] by (simp add: room subscribers_of_def map_add_def)
  show ?thesis
    using assms \<open>count_of 7 ?g = int n\<close>
    by (simp add: subscribe_stages Let_def room [symmetric] subscribed_def empty)
      (simp add: room put_subscribers_def update_last [OF absent] count_of_def MAX_SUBSCRIPTIONS_PER_AGENT_def
        set_count_def new_subscription_def, simp add: filled_def add.commute)
qed

lemma filled_run: "n \<le> 100 \<Longrightarrow>
  subscription_run ([SessionOpened] @ full_subscribing n) (no_subscriptions\<lparr>ss_registry := filled n, ss_sessions := 1\<rparr>)"
proof (induction n)
  case 0
  have "happen SessionOpened no_subscriptions = no_subscriptions\<lparr>ss_registry := filled 0, ss_sessions := 1\<rparr>"
    by (simp add: no_subscriptions_def with_registry_def filled_def)
  then show ?case
    using subscription_run.further [OF subscription_run.start, of SessionOpened] by (simp add: full_subscribing_def)
next
  case (Suc n)
  let ?s = "no_subscriptions\<lparr>ss_registry := filled n, ss_sessions := 1\<rparr>"
  have run: "subscription_run ([SessionOpened] @ full_subscribing n) ?s" using Suc by simp
  have "happen (Subscribing [char_of n] 0 7 ''s'') ?s = no_subscriptions\<lparr>ss_registry := filled (Suc n), ss_sessions := 1\<rparr>"
    using filled_step [of n] Suc.prems by (simp add: with_registry_def)
  moreover have "enabled (Subscribing [char_of n] 0 7 ''s'') ?s" by (simp add: filled_def)
  ultimately show ?case
    using subscription_run.further [OF run, of "Subscribing [char_of n] 0 7 ''s''"]
    by (simp add: full_subscribing_def)
qed

lemma full_run: "subscription_run full_events full"
  unfolding full_events_def full_def by (rule filled_run) simp

lemma full_state:
  "one_agent_per_session (full_events @ [Subscribing ''one more'' 0 7 ''s''])"
  "\<not> is_subscribed ''one more'' 0 (ss_registry full)"
  "live_held 7 (ss_registry full) = 100"
proof -
  show "one_agent_per_session (full_events @ [Subscribing ''one more'' 0 7 ''s''])"
    by (auto simp: one_agent_per_session_def subscribing_agents_def full_events_def full_subscribing_def)
  have "subscribers_of ''one more'' (ss_registry full) = []"
    by (auto simp: full_def filled_def subscribers_of_def dest!: map_of_SomeD split: option.splits)
  then show "\<not> is_subscribed ''one more'' 0 (ss_registry full)" by (simp add: is_subscribed_def)
  show "live_held 7 (ss_registry full) = 100"
    by (simp add: full_def filled_def live_held_def held_def is_dead_def comp_def sum_list_triv)
qed

theorem subscription_cap_is_exact_witness:
  "snd (subscribe ''one more'' 0 7 ''s'' (ss_registry full)) = Inl ''SubscriptionLimitError'' \<and>
     100 \<le> live_held 7 (ss_registry full)"
  using subscription_cap_is_exact [OF full_run, of "''one more''" 0 7 "''s''"] full_state by simp

section \<open>A session that changes its agent\<close>

text \<open>
  \<open>subscribe\<close> decrements the count of the agent that asks, not of the record it replaces. The two are
  the same as long as a session acts for one agent. Here session 0 subscribes as agent 1, session 1 as
  agent 2, and then session 0 to its resource as agent 2: agent 1 is left with a count of one and no
  subscription, and agent 2 with a count of one and two subscriptions, which the cap takes for one.
\<close>

definition changed_agent_events :: "subscription_event list" where
  "changed_agent_events = [SessionOpened, SessionOpened, Subscribing ''u'' 0 1 ''s'', Subscribing ''v'' 1 2 ''t'',
     Subscribing ''u'' 0 2 ''t'']"

definition changed_agent :: subscription_system where
  "changed_agent = events_lead changed_agent_events"

lemma changed_agent_run: "subscription_run changed_agent_events changed_agent"
  unfolding changed_agent_def by (rule events_lead_run) code_simp

theorem changing_agent_undercounts:
  "rg_counts (ss_registry changed_agent) 1 = Some 1 \<and> held 1 (rg_subscribers (ss_registry changed_agent)) = 0 \<and>
   rg_counts (ss_registry changed_agent) 2 = Some 1 \<and> held 2 (rg_subscribers (ss_registry changed_agent)) = 2"
  by code_simp

end
