(* ===== verification/Spec2Isabelle.thy ===== *)
theory Spec2Isabelle
  imports Canonical ProposalLimits ProposalAuthority ProposalFeed ApplyDemo SubscriptionRuns
begin

text \<open>
  A verification library of the agent-communication board: the service through which software agents
  of different owners hold conversations, with human review of what crosses an ownership boundary, and
  the proposal pipeline, in which a bot proposes an external write, a judge or a person approves it,
  and the service performs it. Its files are named below as they are found under \<open>src/\<close>.

  \<^bold>\<open>The program and its model.\<close> The parts, from the bottom up:

  \<^item> Shared vocabulary. \<open>Prelude\<close>: outcomes of calls to collaborators, JSON values, Python's \<open>str\<close>
    methods. \<open>ProposalText\<close>, \<open>ProposalCodec\<close>: \<open>repr\<close>, \<open>json.dumps\<close>, \<open>json.loads\<close>, URL-safe base64, and
    the codecs of the pipeline.
  \<^item> \<open>models.py\<close>. \<open>Store\<close> has the six tables of the board as lists of records, and the schema's
    constraints as executable predicates; \<open>ProposalStore\<close> has \<open>proposal_holds\<close> with the trigger that
    numbers its rows.
  \<^item> \<open>service.py\<close>, the effects. \<open>Session\<close>: an operation is a function from a session (the committed
    tables, the working copy, the clock) to an exception or a value and the session it leaves; \<open>run\<close>
    keeps what was committed.
  \<^item> \<open>state_machine.py\<close>, \<open>schemas.py\<close>, \<open>plugins.py\<close>. \<open>StateMachine\<close>: legality and transitions of a
    conversation, registered types. \<open>Plugins\<close>: the pluggable scorer, auto-approver, notifier, checker and
    verifier, and the ownership client.
  \<^item> \<open>service.py\<close>, the shared stages of a handler. \<open>Guards\<close> (audit and denials), \<open>Access\<close> (lookups, lazy
    expiry, rate limits), \<open>Policy\<close> (version negotiation, validators, projections), \<open>Boundary\<close> (capability
    gate, risk scoring, sender roles, diversion into an approval hold).
  \<^item> \<open>service.py\<close>, the handlers. \<open>Membership\<close> (accept, decline, invite, leave, archive, rename, extend,
    reopen), \<open>Messaging\<close> (\<open>start_conversation\<close>, \<open>post_message\<close>), \<open>Holds\<close> (\<open>decide_hold\<close>, the status and
    the queue of holds), \<open>Registration\<close> (the agent directory's writes), \<open>Reads\<close> (directory, conversations,
    inbox).
  \<^item> The board as a whole. \<open>Board\<close>: a \<open>request\<close> for every handler, each run in a session of its own
    against the committed tables, and \<open>reachable\<close>, the tables any sequence of requests can leave.
  \<^item> \<open>identity.py\<close>, \<open>scopes.py\<close>. \<open>Identity\<close>: which claim of a token names the caller, the scope tables
    and the resource templates.
  \<^item> \<open>subscriptions.py\<close>. \<open>Subscriptions\<close>: the registry and its operations. \<open>SubscriptionRuns\<close>: the
    registry under interleaved requests, sends of notifications, and garbage collection of sessions.
  \<^item> The proposal pipeline of \<open>service.py\<close>. \<open>ProposalRules\<close>: validators, verdicts, the kill switch, the
    exceptions. \<open>ProposalFlow\<close>: \<open>create_proposal\<close>, \<open>decide_proposal\<close>, the claim, the apply with its
    recovery writes, and the withdrawal, cut at their commits and external calls. \<open>ProposalRuns\<close>: any
    number of such requests, interleaved segment by segment. \<open>ProposalFeed\<close>: what a bot reads.
  \<^item> \<open>proposal_apply_http_client.py\<close>. \<open>ApplyConfig\<close>: the environment readers and the start-up check.
    \<open>ApplyClient\<close>: the meaning of one answer, the retry loop, \<open>apply_proposal\<close> and the judge built on it.

  A handler of the board calls the guards, which may raise after an audited denial; what it writes goes
  to the working copy and is committed at the end. A message that crosses an ownership boundary and is
  scored as risky, or whose sender asks for review, becomes a hold, which \<open>decide_hold\<close> turns into a
  message. The pipeline shares the directory and the audit log with the board; the rest of the board
  appears in its runs as steps that change the directory and write audit rows of their own. The HTTP
  client stands behind the judge's \<open>apply\<close>, which the pipeline's runs take as \<open>pe_apply\<close>.

  \<^bold>\<open>What is shown.\<close>

  \<^item> \<open>History\<close>, \<open>Invariants\<close>, \<open>Refusals\<close>, \<open>Outcomes\<close>: relations between the tables before and after an
    operation, each an interpretation of the locale \<open>db_history\<close>: what is append-only, what is terminal,
    how messages are numbered, how a decided hold came to be decided, what a refused request may leave,
    and which guards held when a request succeeded. The properties of the whole board below follow from
    them by induction over the requests.
  \<^item> \<open>Posting\<close>, \<open>Opening\<close>, \<open>Approval\<close>, \<open>Joining\<close>, \<open>Directory\<close>: admission and effect of the operations.
  \<^item> \<open>Canonical\<close>, \<open>Identity\<close>: the canonical forms of emails, version negotiation, scopes of resources and the
    identity of a token, each against a specification that does not mention the code's matcher.
  \<^item> \<open>Paging\<close>: the locale \<open>keyset\<close>, the law of a paginated query, with the directory, the conversations,
    the messages of a conversation and (in \<open>ProposalFeed\<close>) the bot log as its interpretations.
  \<^item> \<open>ProposalTables\<close>, \<open>ProposalInvariant\<close>, \<open>ProposalEngagement\<close>, \<open>ProposalSafety\<close>: the writes of the
    pipeline as a relation on rows, what a process knows of the table while others run, and that no
    proposal is applied twice. \<open>ProposalTruth\<close>, \<open>ProposalDoubt\<close>: the status recorded is what the judge
    answered, and a call in doubt is never settled. \<open>ProposalLifecycle\<close>: the system refines an abstract
    life of a proposal. \<open>ProposalLimits\<close>: the daily cap. \<open>ProposalAuthority\<close>: who approved.
  \<^item> \<open>ApplySafety\<close>: an answer of the client that is not \<open>indeterminate\<close> is certain, an applied row was
    confirmed by the service, the retries stay inside their budget, a validated configuration works.
  \<^item> \<open>Demo\<close>, \<open>Walkthrough\<close>, \<open>ProposalDemo\<close>, \<open>ApplyDemo\<close>: concrete deployments and runs, on which the
    hypotheses of the conditional properties hold.

  Where the code departs from its documents the lemmas say what it does: \<open>cleared_post_closes_nothing\<close>
  and \<open>approved_decline_keeps_membership\<close> in \<open>Approval\<close>, \<open>write_with_a_bad_result_is_recorded_as_failed\<close>
  in \<open>ProposalDemo\<close>, \<open>changing_agent_undercounts\<close> in \<open>SubscriptionRuns\<close>.

  \<^bold>\<open>Bounds and fuel.\<close> Every definition is total. A request of the pipeline has at most 14 segments
  (\<open>proposal_requests_end\<close> in \<open>ProposalRuns\<close>), so its runs need no fuel. \<open>retry_loop\<close> recurses over the
  numbers of the attempts the configuration allows. \<open>json_value\<close> and \<open>re_sub\<close> take the length of the text
  as fuel; each of their calls consumes a character, so it does not run out. \<open>walk_pages\<close> takes a number
  of pages, and the properties ask only that page size times pages reach the number of rows.

  \<^bold>\<open>What is not modelled.\<close>

  \<^item> Row and advisory locks, as such. On the board a request runs alone. In the pipeline a segment that
    holds the lock in the code is atomic, and what the code does without a lock is a segment of its own.
    A commit may fail before or after it took effect, or be cancelled, as the environment decides.
  \<^item> Representation: a UUID is a natural number, a time is an integer number of microseconds, a finite
    float a rational; text is ordered by code point, and names are modelled below code point 256.
    The \<open>updated_at\<close> columns are left out.
  \<^item> Plug-ins, the judge, the ownership service, the transport, the clock, the jitter, the outcome of a
    commit, and the Pydantic payload models are arguments of the model: functions about which nothing is
    assumed unless a property says so.
  \<^item> Logging and metrics; the tool functions of \<open>providers/comms.py\<close>, which parse arguments and render
    results; the HTTP application and start-up (\<open>main.py\<close>, \<open>db.py\<close>, \<open>migrate.py\<close>); the verification of
    tokens in \<open>auth.py\<close>, which is a library's; the schema migrations.
\<close>

section \<open>Properties of the board as a whole\<close>


text \<open>
  C1. Whatever requests the board served, the messages of every conversation are numbered
  1, 2, 3, ... without gap or duplicate, in the order they were posted.
\<close>

theorem reachable_messages_numbered:
  assumes "reachable pl d"
  shows "map ms_seq (conv_messages c d) = [1..<Suc (length (conv_messages c d))]"
  using reachable_invariant [OF assms] by (simp add: gapless_def)

theorem reachable_messages_numbered_witness:
  "reachable demo_plugins board_four \<and>
   map (\<lambda>m. (ms_seq m, ms_type m)) (conv_messages 2 board_four) =
     [(1, ''conversation_opened''), (2, ''note'')] \<and>
   map ms_seq (conv_messages 2 board_four) = [1..<Suc 2]"
  using reachable_messages_numbered [OF walk_reachable(4), of 2] walk_reachable(4)
  by (simp add: conv_messages_def board_four_tables walk_message_def numeral_2_eq_2)

text \<open>
  C2. In every reachable database a hold that was approved or rejected was decided by the
  owner it belongs to, an automatically approved one was cleared by the auto-approver and was not one
  the agent itself asked to have reviewed, and a released message hold has its message on the board:
  same conversation, sender, type, schema version and payload as were held.
\<close>

theorem reachable_release_authorised:
  assumes "reachable pl d" "h \<in> set (holds d)"
  shows "(hd_status h \<in> {Approved, Rejected} \<longrightarrow> hd_decided_by_sub h = Some (hd_owner_sub h)) \<and>
    (hd_status h = AutoApproved \<longrightarrow>
       hd_auto_decision h = Some Cleared \<and> hd_risk_reason h \<noteq> AGENT_REQUESTED_RISK_REASON) \<and>
    (hd_kind h = KindMessage \<longrightarrow> hd_status h \<in> {AutoApproved, Approved} \<longrightarrow>
       (\<exists>m\<in>set (messages d). releases h m))"
  using reachable_invariant [OF assms(1)] hold_of_row [OF _ assms(2)]
  by (auto simp: holds_coherent_def coherent_hold_def)

theorem reachable_release_authorised_witness:
  "\<exists>h\<in>set (holds board_four). hd_status h = Approved \<and> hd_decided_by_sub h = Some ''o1'' \<and>
     (\<exists>m\<in>set (messages board_four). releases h m)"
proof -
  let ?h = "walk_hold\<lparr>hd_status := Approved, hd_decided_by_sub := Some ''o1'',
     hd_decided_at := Some 1000003, hd_message_id := Some 5\<rparr>"
  have h: "?h \<in> set (holds board_four)" by (simp add: board_four_tables(2))
  from reachable_release_authorised [OF walk_reachable(4) h] h show ?thesis
    by (intro bexI [of _ ?h]) (simp_all add: walk_hold_def)
qed

text \<open>
  C3. The board never rewrites history: after any further requests the old messages and audit
  rows are a prefix of the new ones, no row of any table disappears, and the identifying columns of
  every row (and the type, creator and owner snapshot of a conversation) are what they were; an
  archived conversation is still archived.
\<close>

theorem history_append_only:
  assumes "db_ok d" "board_steps pl d d'"
  shows "prefix (messages d) (messages d') \<and> prefix (audit_log d) (audit_log d') \<and>
    evo agent_step (agents d) (agents d') \<and> evo conversation_step (conversations d) (conversations d') \<and>
    evo participant_step (participants d) (participants d') \<and> evo hold_step (holds d) (holds d')"
  using steps_hist [OF assms(2,1)] by (simp add: hist_def grows_def evo_prefix)

theorem history_append_only_witness:
  "prefix (messages board_three) (messages board_four) \<and> messages board_four \<noteq> messages board_three"
proof -
  have "board_steps demo_plugins board_three board_four"
    by (rule board_steps.more [OF board_steps.refl walk_steps(4)])
  moreover have "db_ok board_three" using reachable_invariant [OF walk_reachable(3)] by blast
  ultimately show ?thesis
    using history_append_only [of board_three demo_plugins board_four]
    by (simp add: board_three_tables board_four_tables)
qed

text \<open>
  C4. What is terminal stays terminal under any further requests: a suspended agent stays
  suspended, a participant who left or declined keeps that status, and a hold that is decided (or
  expired) keeps its status, its decider and its message.
\<close>

theorem terminal_stays_terminal:
  assumes "db_ok d" "board_steps pl d d'"
  shows "(\<forall>i a. agent_by_id i d = Some a \<and> ag_status a = AgSuspended \<longrightarrow>
        (\<exists>b. agent_by_id i d' = Some b \<and> ag_status b = AgSuspended)) \<and>
    (\<forall>c i p. participant_of c i d = Some p \<and> pt_status p \<in> {PtLeft, PtDeclined} \<longrightarrow>
        (\<exists>q. participant_of c i d' = Some q \<and> pt_status q = pt_status p)) \<and>
    (\<forall>i h. hold_by_id i d = Some h \<and> hd_status h \<notin> {PendingAuto, PendingHuman} \<longrightarrow>
        (\<exists>k. hold_by_id i d' = Some k \<and> hd_status k = hd_status h \<and>
           hd_message_id k = hd_message_id h \<and> hd_decided_by_sub k = hd_decided_by_sub h))"
proof -
  from steps_hist [OF assms(2,1)] have st: "settled d d'" by (simp add: hist_def)
  have "decided h" if "hd_status h \<notin> {PendingAuto, PendingHuman}" for h
    using that by (cases "hd_status h") (auto simp: decided_def)
  with st show ?thesis
    unfolding settled_def stays_def suspended_def gone_def same_decision_def by blast
qed

theorem terminal_stays_terminal_witness:
  "\<exists>b. agent_by_id 3 (snd (run (perform demo_plugins (AcceptInvite ''bea'' 1 10)) demo_clock demo_db)) = Some b \<and>
     ag_status b = AgSuspended"
proof -
  let ?d = "snd (run (perform demo_plugins (AcceptInvite ''bea'' 1 10)) demo_clock demo_db)"
  have "board_steps demo_plugins demo_db ?d"
    by (rule board_steps.more [OF board_steps.refl run_step [OF prod.collapse [symmetric]]])
  from terminal_stays_terminal [OF demo_db_ok this] show ?thesis
    by (simp add: demo_tables demo_agent_def agent_by_id_def)
qed

end
